(* ===== verification/Runtime_Prelude.thy ===== *)
theory Runtime_Prelude
  imports Complex_Main "HOL-Library.Char_ord" "HOL-Library.List_Lexorder" "HOL-Library.Sublist"
begin

text \<open>
  Shared vocabulary of the development: the exceptions of the Python sources as values, the
  result type that sequences them, the string operations and the JSON text the sources use,
  database tables as lists of rows with a key, and two interfaces every stateful component
  instantiates (a transition system with an invariant, and a status machine).
\<close>

section \<open>Exceptions and results\<close>

text \<open>
  An exception is its class with its message. Pydantic's \<^verbatim>\<open>ValidationError\<close> is a
  \<^verbatim>\<open>ValueError\<close>, and so is modelled by \<open>ValueError\<close>; \<open>IntegrityError\<close> is what a
  database constraint raises at \<^verbatim>\<open>session.flush()\<close>. \<open>HandlerError\<close> stands for the exceptions of
  code that is injected from outside (Role handlers, executors, backends): its argument is
  \<^verbatim>\<open>type(exc).__name__\<close>.
\<close>

datatype py_error =
    ValueError string
  | LookupError string
  | RuntimeError string
  | TypeError string
  | IntegrityError string
  | BudgetExceeded string rat rat
  | CapabilityDenied string
  | TaskAdmissionDenied string
  | SandboxUnavailable string
  | StateRevisionConflict string
  | StatePatchRejected string
  | EvidenceNeedResolutionRejected string
  | HandlerError string

type_synonym 'a res = "py_error + 'a"

definition res_bind :: "'a res \<Rightarrow> ('a \<Rightarrow> 'b res) \<Rightarrow> 'b res" where
  "res_bind m f = (case m of Inl e \<Rightarrow> Inl e | Inr x \<Rightarrow> f x)"

text \<open>\<^verbatim>\<open>if c: raise e\<close>, then the rest of the function.\<close>

definition raise_if :: "bool \<Rightarrow> py_error \<Rightarrow> 'a res \<Rightarrow> 'a res" where
  "raise_if c e rest = (if c then Inl e else rest)"

text \<open>A read that raises when the row is missing.\<close>

definition res_of_option :: "py_error \<Rightarrow> 'a option \<Rightarrow> 'a res" where
  "res_of_option e o' = (case o' of None \<Rightarrow> Inl e | Some x \<Rightarrow> Inr x)"

text \<open>A \<^verbatim>\<open>for\<close> loop whose body may raise.\<close>

fun fold_res :: "('a \<Rightarrow> 's \<Rightarrow> 's res) \<Rightarrow> 'a list \<Rightarrow> 's \<Rightarrow> 's res" where
  "fold_res f [] s = Inr s"
| "fold_res f (x # xs) s = res_bind (f x s) (fold_res f xs)"

text \<open>
  Code with effects that an exception does not undo: a function of a state \<open>'w\<close> that returns the state also when it raises.
\<close>

type_synonym ('w, 'a) io = "'w \<Rightarrow> 'a res \<times> 'w"

definition io_res :: "'a res \<Rightarrow> ('w, 'a) io" where
  "io_res r w = (r, w)"

definition io_bind :: "('w, 'a) io \<Rightarrow> ('a \<Rightarrow> ('w, 'b) io) \<Rightarrow> ('w, 'b) io" where
  "io_bind m f w = (case m w of (Inl e, w1) \<Rightarrow> (Inl e, w1) | (Inr x, w1) \<Rightarrow> f x w1)"

text \<open>\<^verbatim>\<open>try: m; except Exception: h; raise\<close>, for an \<open>h\<close> that does not raise.\<close>

definition io_on_error :: "('w, 'a) io \<Rightarrow> ('w \<Rightarrow> 'w) \<Rightarrow> ('w, 'a) io" where
  "io_on_error m h w = (case m w of (Inl e, w1) \<Rightarrow> (Inl e, h w1) | (Inr x, w1) \<Rightarrow> (Inr x, w1))"

section \<open>Strings\<close>

text \<open>
  A \<open>string\<close> is a Python \<^verbatim>\<open>str\<close> over the code points 0 to 255. \<open>is_space\<close> lists the code points of
  that range for which \<^verbatim>\<open>str.isspace()\<close> holds, which are those \<^verbatim>\<open>str.strip()\<close> removes, and
  \<open>is_digit\<close> the ASCII digits.
\<close>

definition is_space :: "char \<Rightarrow> bool" where
  "is_space c = ((of_char c :: nat) \<in> {9, 10, 11, 12, 13, 28, 29, 30, 31, 32, 133, 160})"

definition strip :: "string \<Rightarrow> string" where
  "strip s = rev (dropWhile is_space (rev (dropWhile is_space s)))"

definition blank :: "string \<Rightarrow> bool" where
  "blank s = (strip s = [])"

definition startswith :: "string \<Rightarrow> string \<Rightarrow> bool" where
  "startswith s p = (take (length p) s = p)"

text \<open>\<^verbatim>\<open>sub in s\<close> for strings.\<close>

fun str_contains :: "string \<Rightarrow> string \<Rightarrow> bool" where
  "str_contains [] sub = (sub = [])"
| "str_contains (c # s) sub = (startswith (c # s) sub \<or> str_contains s sub)"

definition digit_char :: "nat \<Rightarrow> char" where
  "digit_char d = char_of (48 + d)"

definition is_digit :: "char \<Rightarrow> bool" where
  "is_digit c = (48 \<le> (of_char c :: nat) \<and> (of_char c :: nat) \<le> 57)"

text \<open>
  \<^verbatim>\<open>str.isdigit()\<close> also holds for the superscripts two, three and one (code points 178, 179, 185);
  \<^verbatim>\<open>int()\<close> then raises \<^verbatim>\<open>ValueError\<close>.
\<close>

definition isdigit_cp :: "char \<Rightarrow> bool" where
  "isdigit_cp c = (is_digit c \<or> (of_char c :: nat) \<in> {178, 179, 185})"

definition py_isdigit :: "string \<Rightarrow> bool" where
  "py_isdigit s = (s \<noteq> [] \<and> list_all isdigit_cp s)"

fun show_nat :: "nat \<Rightarrow> string" where
  "show_nat n = (if n < 10 then [digit_char n] else show_nat (n div 10) @ [digit_char (n mod 10)])"

declare show_nat.simps [simp del]

definition digits_value :: "string \<Rightarrow> nat" where
  "digits_value s = foldl (\<lambda>acc c. acc * 10 + ((of_char c :: nat) - 48)) 0 s"

text \<open>\<^verbatim>\<open>int(s)\<close> on a string for which \<^verbatim>\<open>s.isdigit()\<close> holds.\<close>

definition py_int :: "string \<Rightarrow> nat res" where
  "py_int s = (if list_all is_digit s then Inr (digits_value s)
    else Inl (ValueError ''invalid literal for int()''))"

text \<open>\<^verbatim>\<open>s.rpartition(c)\<close> for a separator of one character.\<close>

definition rpartition :: "char \<Rightarrow> string \<Rightarrow> string \<times> string \<times> string" where
  "rpartition c s =
     (if c \<notin> set s then ([], [], s)
      else let tail = rev (takeWhile (\<lambda>x. x \<noteq> c) (rev s))
           in (take (length s - length tail - 1) s, [c], tail))"

text \<open>\<^verbatim>\<open>s.partition(c)\<close> for a separator of one character.\<close>

definition str_partition :: "char \<Rightarrow> string \<Rightarrow> string \<times> string \<times> string" where
  "str_partition c s =
     (if c \<notin> set s then (s, [], [])
      else let head = takeWhile (\<lambda>x. x \<noteq> c) s in (head, [c], drop (length head + 1) s))"

text \<open>\<^verbatim>\<open>s.removeprefix(p)\<close>.\<close>

definition removeprefix :: "string \<Rightarrow> string \<Rightarrow> string" where
  "removeprefix s p = (if startswith s p then drop (length p) s else s)"

fun join :: "string \<Rightarrow> string list \<Rightarrow> string" where
  "join sep [] = []"
| "join sep [x] = x"
| "join sep (x # y # xs) = x @ sep @ join sep (y # xs)"

text \<open>\<^verbatim>\<open>sorted({...})\<close> of strings.\<close>

definition sorted_set :: "string list \<Rightarrow> string list" where
  "sorted_set xs = sort (remdups xs)"

section \<open>Dictionaries\<close>

text \<open>
  A \<^verbatim>\<open>dict\<close> is the list of its items in insertion order: \<^verbatim>\<open>d[k] = v\<close> keeps the place of a key that is there,
  and \<^verbatim>\<open>d.pop(k, None)\<close> drops it.
\<close>

fun dict_put :: "'k \<Rightarrow> 'v \<Rightarrow> ('k \<times> 'v) list \<Rightarrow> ('k \<times> 'v) list" where
  "dict_put k v [] = [(k, v)]"
| "dict_put k v ((k', w) # d) = (if k' = k then (k', v) # d else (k', w) # dict_put k v d)"

definition dict_pop :: "'k \<Rightarrow> ('k \<times> 'v) list \<Rightarrow> ('k \<times> 'v) list" where
  "dict_pop k d = filter (\<lambda>(k', _). k' \<noteq> k) d"

section \<open>JSON\<close>

text \<open>
  A float is represented by its \<^verbatim>\<open>repr\<close>, a dict by its items in insertion order.
  \<open>json_dumps\<close> is \<^verbatim>\<open>json.dumps(v, sort_keys=True, separators=(",", ":"), ensure_ascii=False)\<close>.
\<close>

datatype json =
    JNull
  | JBool bool
  | JInt int
  | JFloat string
  | JStr string
  | JArr "json list"
  | JObj "(string \<times> json) list"

type_synonym jdict = "(string \<times> json) list"

definition hex_digit :: "nat \<Rightarrow> char" where
  "hex_digit d = (if d < 10 then char_of (48 + d) else char_of (87 + d))"

definition json_escape :: "char \<Rightarrow> string" where
  "json_escape c = (let n = (of_char c :: nat) in
     if n = 34 then [CHR 0x5C, CHR 0x22]
     else if n = 92 then [CHR 0x5C, CHR 0x5C]
     else if n = 10 then [CHR 0x5C, CHR ''n'']
     else if n = 13 then [CHR 0x5C, CHR ''r'']
     else if n = 9 then [CHR 0x5C, CHR ''t'']
     else if n = 12 then [CHR 0x5C, CHR ''f'']
     else if n = 8 then [CHR 0x5C, CHR ''b'']
     else if n < 32 then [CHR 0x5C, CHR ''u'', CHR ''0'', CHR ''0'', hex_digit (n div 16), hex_digit (n mod 16)]
     else [c])"

definition json_string :: "string \<Rightarrow> string" where
  "json_string s = [CHR 0x22] @ concat (map json_escape s) @ [CHR 0x22]"

definition show_int :: "int \<Rightarrow> string" where
  "show_int i = (if i < 0 then CHR ''-'' # show_nat (nat (- i)) else show_nat (nat i))"

fun json_dumps :: "json \<Rightarrow> string" where
  "json_dumps JNull = ''null''"
| "json_dumps (JBool b) = (if b then ''true'' else ''false'')"
| "json_dumps (JInt i) = show_int i"
| "json_dumps (JFloat r) = r"
| "json_dumps (JStr s) = json_string s"
| "json_dumps (JArr vs) = ''['' @ join '','' (map json_dumps vs) @ '']''"
| "json_dumps (JObj kvs) =
     ''{'' @ join '','' (map (\<lambda>(k, t). json_string k @ '':'' @ t)
        (sort_key fst (map (\<lambda>(k, v). (k, json_dumps v)) kvs))) @ ''}''"

definition j_opt_str :: "string option \<Rightarrow> json" where
  "j_opt_str o' = (case o' of None \<Rightarrow> JNull | Some s \<Rightarrow> JStr s)"

definition j_strs :: "string list \<Rightarrow> json" where
  "j_strs xs = JArr (map JStr xs)"

text \<open>
  The two hash primitives of the standard library the sources use, as one record that the
  definitions take: \<open>sha256_hex\<close> is \<^verbatim>\<open>sha256(text.encode()).hexdigest()\<close> and \<open>uuid5_url\<close> is
  \<^verbatim>\<open>str(uuid5(NAMESPACE_URL, text))\<close>. No theorem relies on more than that they are functions,
  unless it says so.
\<close>

record hash_env =
  sha256_hex :: "string \<Rightarrow> string"
  uuid5_url :: "string \<Rightarrow> string"

section \<open>Time\<close>

text \<open>
  A \<^verbatim>\<open>datetime\<close> in microseconds since the epoch, timezone-aware or naive.
\<close>

datatype datetime = Aware (dt_us: int) | Naive (dt_us: int)

definition dt_naive :: "datetime \<Rightarrow> bool" where
  "dt_naive d = (case d of Aware _ \<Rightarrow> False | Naive _ \<Rightarrow> True)"

text \<open>\<^verbatim>\<open>d.replace(tzinfo=UTC)\<close> for a naive \<^verbatim>\<open>d\<close>, as the readers of database timestamps do.\<close>

definition as_utc :: "datetime \<Rightarrow> int" where
  "as_utc d = dt_us d"

section \<open>Tables\<close>

text \<open>
  A table is the list of its rows in insertion order; \<open>key\<close> reads the primary key.
  \<open>tab_get\<close> is \<^verbatim>\<open>session.get(Model, k)\<close>, \<open>tab_add\<close> is \<^verbatim>\<open>session.add(row); session.flush()\<close>, and
  \<open>tab_put\<close> is an attribute assignment on a loaded row.
\<close>

definition tab_get :: "('r \<Rightarrow> 'k) \<Rightarrow> 'k \<Rightarrow> 'r list \<Rightarrow> 'r option" where
  "tab_get key k rows = find (\<lambda>r. key r = k) rows"

definition tab_add :: "('r \<Rightarrow> 'k) \<Rightarrow> 'r \<Rightarrow> 'r list \<Rightarrow> 'r list res" where
  "tab_add key r rows =
     (if key r \<in> set (map key rows) then Inl (IntegrityError ''primary key'') else Inr (rows @ [r]))"

definition tab_put :: "('r \<Rightarrow> 'k) \<Rightarrow> 'r \<Rightarrow> 'r list \<Rightarrow> 'r list" where
  "tab_put key r rows = map (\<lambda>x. if key x = key r then r else x) rows"

section \<open>Simplification rules\<close>

named_theorems res_simps \<open>success and failure of sequenced operations\<close>
named_theorems tab_simps \<open>reads after writes on tables\<close>

lemma res_bind_Inl [simp]: "res_bind (Inl e) f = Inl e"
  by (simp add: res_bind_def)

lemma res_bind_Inr [simp]: "res_bind (Inr x) f = f x"
  by (simp add: res_bind_def)

lemma res_bind_eq_Inr [res_simps]: "res_bind m f = Inr y \<longleftrightarrow> (\<exists>x. m = Inr x \<and> f x = Inr y)"
  by (cases m) auto

lemma res_bind_eq_Inl [res_simps]:
  "res_bind m f = Inl e \<longleftrightarrow> m = Inl e \<or> (\<exists>x. m = Inr x \<and> f x = Inl e)"
  by (cases m) auto

lemma raise_if_eq_Inr [res_simps]: "raise_if c e r = Inr y \<longleftrightarrow> \<not> c \<and> r = Inr y"
  by (simp add: raise_if_def)

lemma raise_if_eq_Inl [res_simps]: "raise_if c e r = Inl e' \<longleftrightarrow> (c \<and> e' = e) \<or> (\<not> c \<and> r = Inl e')"
  by (auto simp: raise_if_def)

lemma raise_if_True [simp]: "raise_if True e r = Inl e"
  by (simp add: raise_if_def)

lemma raise_if_False [simp]: "raise_if False e r = r"
  by (simp add: raise_if_def)

lemma res_of_option_None [simp]: "res_of_option e None = Inl e"
  by (simp add: res_of_option_def)

lemma res_of_option_Some [simp]: "res_of_option e (Some x) = Inr x"
  by (simp add: res_of_option_def)

lemma res_of_option_eq_Inr [res_simps]: "res_of_option e o' = Inr x \<longleftrightarrow> o' = Some x"
  by (cases o') auto

lemma res_of_option_eq_Inl [res_simps]: "res_of_option e o' = Inl e' \<longleftrightarrow> o' = None \<and> e' = e"
  by (cases o') auto

lemma fold_res_prefix_induct [consumes 1, case_names start step]:
  assumes "fold_res f xs s = Inr t" and "P [] s"
    and "\<And>pre x s s'. prefix (pre @ [x]) xs \<Longrightarrow> P pre s \<Longrightarrow> f x s = Inr s' \<Longrightarrow> P (pre @ [x]) s'"
  shows "P xs t"
proof -
  have "P (pre @ xs') t" if "fold_res f xs' s' = Inr t" "P pre s'" "xs = pre @ xs'" for pre xs' s'
    using that
  proof (induction xs' arbitrary: pre s')
    case (Cons x xs')
    from Cons.prems(1) obtain s'' where "f x s' = Inr s''" "fold_res f xs' s'' = Inr t"
      by (auto simp: res_simps)
    moreover have "prefix (pre @ [x]) xs" using Cons.prems(3) by simp
    ultimately show ?case
      using Cons.IH [of s'' "pre @ [x]"] assms(3) Cons.prems(2,3) by simp
  qed simp
  from this [of xs s "[]"] assms(1,2) show ?thesis by simp
qed

lemma fold_res_unit: "fold_res (\<lambda>x _. f x) xs () = Inr u \<longleftrightarrow> (\<forall>x \<in> set xs. f x = Inr ())"
  by (induction xs) (auto simp: res_simps)

lemma find_append: "find P (xs @ ys) = (case find P xs of None \<Rightarrow> find P ys | Some x \<Rightarrow> Some x)"
  by (induction xs) auto

lemma sort_key_head:
  assumes "sort_key f xs = y # ys"
  shows "y \<in> set xs" "x \<in> set xs \<Longrightarrow> f y \<le> f x"
proof -
  have "set (sort_key f xs) = set xs" "sorted (map f (sort_key f xs))" by simp_all
  with assms show "y \<in> set xs" "x \<in> set xs \<Longrightarrow> f y \<le> f x" by auto
qed

lemma set_sorted_set [simp]: "set (sorted_set xs) = set xs"
  by (simp add: sorted_set_def)

lemma distinct_sorted_set [simp]: "distinct (sorted_set xs)"
  by (simp add: sorted_set_def)

section \<open>Lemmas on tables\<close>

lemma tab_get_Nil [simp]: "tab_get key k [] = None"
  by (simp add: tab_get_def)

lemma tab_get_Cons [simp]: "tab_get key k (r # rs) = (if key r = k then Some r else tab_get key k rs)"
  by (simp add: tab_get_def)

lemma tab_get_append [tab_simps]:
  "tab_get key k (xs @ ys) = (case tab_get key k xs of None \<Rightarrow> tab_get key k ys | Some x \<Rightarrow> Some x)"
  by (induction xs) auto

lemma tab_get_Some_D: "tab_get key k rows = Some r \<Longrightarrow> r \<in> set rows \<and> key r = k"
  by (induction rows) (auto split: if_splits)

lemma tab_get_key: "tab_get key k rows = Some r \<Longrightarrow> key r = k"
  by (auto dest: tab_get_Some_D)

lemma tab_get_in_set: "tab_get key k rows = Some r \<Longrightarrow> r \<in> set rows"
  by (auto dest: tab_get_Some_D)

lemma tab_get_None_iff: "tab_get key k rows = None \<longleftrightarrow> k \<notin> set (map key rows)"
  by (induction rows) auto

lemma tab_get_distinct:
  "distinct (map key rows) \<Longrightarrow> r \<in> set rows \<Longrightarrow> tab_get key (key r) rows = Some r"
  by (induction rows) auto

lemma tab_put_get [tab_simps]:
  "tab_get key k (tab_put key r rows) =
     (if k = key r then (if k \<in> set (map key rows) then Some r else None) else tab_get key k rows)"
  unfolding tab_put_def by (induction rows) auto

lemma tab_put_keys [simp]: "map key (tab_put key r rows) = map key rows"
  by (simp add: tab_put_def)

lemma set_tab_put: "set (tab_put key r rows) \<subseteq> insert r {x \<in> set rows. key x \<noteq> key r}"
  by (auto simp: tab_put_def)

lemma in_set_tab_put: "x \<in> set (tab_put key r rows) \<Longrightarrow> x = r \<or> (x \<in> set rows \<and> key x \<noteq> key r)"
  by (auto simp: tab_put_def split: if_splits)

lemma tab_add_eq_Inr [res_simps]:
  "tab_add key r rows = Inr rows' \<longleftrightarrow> key r \<notin> set (map key rows) \<and> rows' = rows @ [r]"
  by (auto simp: tab_add_def)

lemma tab_add_fresh: "key r \<notin> set (map key rows) \<Longrightarrow> tab_add key r rows = Inr (rows @ [r])"
  by (simp add: tab_add_def)

lemma tab_put_last:
  "key r \<notin> set (map key rows) \<Longrightarrow> key x = key r \<Longrightarrow> tab_put key r (rows @ [x]) = rows @ [r]"
proof -
  assume a: "key r \<notin> set (map key rows)" "key x = key r"
  then have "map (\<lambda>y. if key y = key r then r else y) rows = rows"
    by (intro map_idI) (metis image_eqI list.set_map)
  with a show ?thesis by (simp add: tab_put_def)
qed

section \<open>Lemmas on dictionaries\<close>

named_theorems dict_simps \<open>reads and keys after writes on dictionaries\<close>

lemma map_of_dict_put [dict_simps]: "map_of (dict_put k v d) = (map_of d)(k \<mapsto> v)"
  by (induction k v d rule: dict_put.induct) auto

lemma map_of_dict_pop [dict_simps]: "map_of (dict_pop k d) = (map_of d)(k := None)"
  by (induction d) (auto simp: dict_pop_def)

lemma keys_dict_put [dict_simps]: "fst ` set (dict_put k v d) = insert k (fst ` set d)"
  by (induction k v d rule: dict_put.induct) auto

lemma keys_dict_pop [dict_simps]: "fst ` set (dict_pop k d) = fst ` set d - {k}"
  by (auto simp: dict_pop_def)

lemma distinct_dict_put [dict_simps]: "distinct (map fst (dict_put k v d)) \<longleftrightarrow> distinct (map fst d)"
proof (induction k v d rule: dict_put.induct)
  case (2 k v k' w d)
  have "fst ` set (dict_put k v d) = insert k (fst ` set d)" by (rule keys_dict_put)
  with 2 show ?case by (auto simp del: set_map simp: set_map [symmetric])
qed simp

lemma distinct_dict_pop [intro]: "distinct (map fst d) \<Longrightarrow> distinct (map fst (dict_pop k d))"
  by (induction d) (auto simp: dict_pop_def)

lemma set_dict_pop [dict_simps]: "set (dict_pop k d) = {x \<in> set d. fst x \<noteq> k}"
  by (auto simp: dict_pop_def)

lemma set_dict_put_subset: "set (dict_put k v d) \<subseteq> insert (k, v) (set d)"
  by (induction k v d rule: dict_put.induct) auto

lemma dict_put_fresh: "k \<notin> fst ` set d \<Longrightarrow> dict_put k v d = d @ [(k, v)]"
  by (induction k v d rule: dict_put.induct) auto

section \<open>Lemmas on partitioned strings\<close>

lemma str_partition_append: "c \<notin> set a \<Longrightarrow> str_partition c (a @ c # b) = (a, [c], b)"
proof -
  assume "c \<notin> set a"
  then have "takeWhile (\<lambda>x. x \<noteq> c) a = a" by (auto simp: takeWhile_eq_all_conv)
  then show ?thesis by (simp add: str_partition_def takeWhile_tail)
qed

lemma startswith_append [simp]: "startswith (p @ s) p"
  by (simp add: startswith_def)

lemma startswith_iff: "startswith s p \<longleftrightarrow> (\<exists>t. s = p @ t)"
  by (metis append_eq_conv_conj startswith_def)

lemma removeprefix_append [simp]: "removeprefix (p @ s) p = s"
  by (simp add: removeprefix_def)

section \<open>Lemmas on decimal numerals\<close>

lemma of_char_digit: "d < 10 \<Longrightarrow> (of_char (digit_char d) :: nat) = 48 + d"
  by (simp add: digit_char_def)

lemma is_digit_digit_char: "d < 10 \<Longrightarrow> is_digit (digit_char d)"
  by (simp add: is_digit_def of_char_digit)

lemma show_nat_digits: "list_all is_digit (show_nat n)"
proof (induction n rule: show_nat.induct)
  case (1 n)
  then show ?case by (subst show_nat.simps) (simp add: is_digit_digit_char)
qed

lemma show_nat_nonempty: "show_nat n \<noteq> []"
  by (subst show_nat.simps) simp

lemma digits_value_append1: "digits_value (s @ [c]) = digits_value s * 10 + ((of_char c :: nat) - 48)"
  by (simp add: digits_value_def)

lemma digits_value_show_nat [simp]: "digits_value (show_nat n) = n"
proof (induction n rule: show_nat.induct)
  case (1 n)
  show ?case
  proof (cases "n < 10")
    case True
    then show ?thesis by (subst show_nat.simps) (simp add: digits_value_def of_char_digit)
  next
    case False
    have d: "n mod 10 < 10" by simp
    show ?thesis using 1 False
      by (subst show_nat.simps)
        (simp add: digits_value_append1 of_char_digit [OF d])
  qed
qed

lemma py_isdigit_show_nat: "py_isdigit (show_nat n)"
  using show_nat_digits [of n]
  by (auto simp: py_isdigit_def show_nat_nonempty isdigit_cp_def list_all_iff)

lemma py_int_show_nat [simp]: "py_int (show_nat n) = Inr n"
  by (simp add: py_int_def show_nat_digits)

lemma show_nat_inject [simp]: "show_nat m = show_nat n \<longleftrightarrow> m = n"
  by (metis digits_value_show_nat)

lemma at_not_in_show_nat: "CHR ''@'' \<notin> set (show_nat n)"
  using show_nat_digits [of n] by (auto simp: list_all_iff is_digit_def)

lemma rpartition_append:
  assumes "c \<notin> set t"
  shows "rpartition c (s @ c # t) = (s, [c], t)"
proof -
  have "takeWhile (\<lambda>x. x \<noteq> c) (rev t @ c # rev s) = rev t"
    using assms by (auto simp: takeWhile_tail)
  then show ?thesis by (simp add: rpartition_def)
qed

lemma blank_iff: "blank s \<longleftrightarrow> (\<forall>c \<in> set s. is_space c)"
proof -
  have "blank s \<longleftrightarrow> (\<forall>c \<in> set (dropWhile is_space s). is_space c)"
    by (simp add: blank_def strip_def)
  also have "\<dots> \<longleftrightarrow> (\<forall>c \<in> set s. is_space c)" by (induction s) auto
  finally show ?thesis .
qed

lemma blank_append: "blank (xs @ ys) \<longleftrightarrow> blank xs \<and> blank ys"
  unfolding blank_iff by (simp add: ball_Un)

lemma not_blank_Cons: "s \<noteq> [] \<Longrightarrow> \<not> is_space (hd s) \<Longrightarrow> \<not> blank s"
  by (cases s) (auto simp: blank_def strip_def)

section \<open>Interfaces shared by the components\<close>

text \<open>
  A transition system whose steps keep an invariant: the client lemma is that every reachable
  state satisfies it.
\<close>

locale invariant_system =
  fixes init :: "'s \<Rightarrow> bool"
    and step :: "'s \<Rightarrow> 's \<Rightarrow> bool"
    and inv :: "'s \<Rightarrow> bool"
  assumes inv_init: "init s \<Longrightarrow> inv s"
    and inv_step: "inv s \<Longrightarrow> step s t \<Longrightarrow> inv t"
begin

lemma inv_steps: "step\<^sup>*\<^sup>* s t \<Longrightarrow> inv s \<Longrightarrow> inv t"
  by (induction rule: rtranclp_induct) (auto intro: inv_step)

lemma inv_reachable: "init s \<Longrightarrow> step\<^sup>*\<^sup>* s t \<Longrightarrow> inv t"
  using inv_steps inv_init by blast

end

text \<open>
  A status machine: a successor function and a set of terminal states with no successor.
\<close>

locale status_machine =
  fixes succs :: "'s \<Rightarrow> 's list"
    and terminal :: "'s \<Rightarrow> bool"
  assumes terminal_iff: "terminal s \<longleftrightarrow> succs s = []"
begin

lemma terminal_stays: "(\<lambda>a b. b \<in> set (succs a))\<^sup>*\<^sup>* s t \<Longrightarrow> terminal s \<Longrightarrow> t = s"
  by (induction rule: converse_rtranclp_induct) (auto simp: terminal_iff)

lemma terminal_no_step: "terminal s \<Longrightarrow> t \<notin> set (succs s)"
  by (simp add: terminal_iff)

end

text \<open>
  A keyed log whose entries survive every step: what a component relies on when it uses a row
  another component wrote as its memory of having acted.
\<close>

locale stable_lookup =
  fixes step :: "'s \<Rightarrow> 's \<Rightarrow> bool"
    and lookup :: "'s \<Rightarrow> 'k \<Rightarrow> 'v option"
  assumes lookup_step: "step s t \<Longrightarrow> lookup s k = Some v \<Longrightarrow> lookup t k = Some v"
begin

lemma lookup_steps: "step\<^sup>*\<^sup>* s t \<Longrightarrow> lookup s k = Some v \<Longrightarrow> lookup t k = Some v"
  by (induction rule: rtranclp_induct) (auto intro: lookup_step)

end

text \<open>
  A ledger that a client spends through: it holds an amount under a key before it acts and settles
  it afterwards. The provider promises that both keep the ledger solvent and that settling leaves
  nothing held under the key.
\<close>

locale spending_port =
  fixes solvent :: "'l \<Rightarrow> bool"
    and hold :: "'l \<Rightarrow> 'k \<Rightarrow> 'l \<Rightarrow> bool"
    and settle :: "'l \<Rightarrow> 'k \<Rightarrow> 'l \<Rightarrow> bool"
    and settled :: "'l \<Rightarrow> 'k \<Rightarrow> bool"
  assumes hold_solvent: "solvent L \<Longrightarrow> hold L k M \<Longrightarrow> solvent M"
    and settle_solvent: "solvent L \<Longrightarrow> settle L k M \<Longrightarrow> solvent M"
    and settle_settles: "solvent L \<Longrightarrow> settle L k M \<Longrightarrow> settled M k"
begin

lemma spend: "solvent L \<Longrightarrow> hold L k M \<Longrightarrow> settle M k N \<Longrightarrow> solvent N \<and> settled N k"
  using hold_solvent settle_solvent settle_settles by blast

end

end
