(* ===== verification/Task_Contracts.thy ===== *)
theory Task_Contracts
  imports Runtime_Prelude
begin

text \<open>
  The contracts of \<^verbatim>\<open>packages/task_runtime/contracts\<close>: the data model (\<^verbatim>\<open>models.py\<close>), delegation
  conformance (\<^verbatim>\<open>conformance.py\<close>), dependency reasons (\<^verbatim>\<open>dependencies.py\<close>), the canonical roles
  (\<^verbatim>\<open>roles.py\<close>) and execution envelopes (\<^verbatim>\<open>execution.py\<close>). A Pydantic model is a record whose
  fields carry the model's initials as a prefix; its \<^verbatim>\<open>model_validator\<close> and field constraints are a
  function that returns the record or the exception.
\<close>

section \<open>Task kinds, profiles and effect ceilings\<close>

datatype task_kind =
    LOOKUP | RETRIEVE | VERIFY_VERSION_FIX | RESOLVE_CONFLICT | INVESTIGATE_RELATION
  | INVESTIGATE_INCIDENT | WATCH_INCIDENT | RESEARCH_INSIGHT | ASSESS_NORMATIVE_APPLICABILITY
  | OBSERVE_LIVE_ASSET | ENRICHMENT

fun task_kind_value :: "task_kind \<Rightarrow> string" where
  "task_kind_value LOOKUP = ''lookup''"
| "task_kind_value RETRIEVE = ''retrieve''"
| "task_kind_value VERIFY_VERSION_FIX = ''verify_version_fix''"
| "task_kind_value RESOLVE_CONFLICT = ''resolve_conflict''"
| "task_kind_value INVESTIGATE_RELATION = ''investigate_relation''"
| "task_kind_value INVESTIGATE_INCIDENT = ''investigate_incident''"
| "task_kind_value WATCH_INCIDENT = ''watch_incident''"
| "task_kind_value RESEARCH_INSIGHT = ''research_insight''"
| "task_kind_value ASSESS_NORMATIVE_APPLICABILITY = ''assess_normative_applicability''"
| "task_kind_value OBSERVE_LIVE_ASSET = ''observe_live_asset''"
| "task_kind_value ENRICHMENT = ''enrichment''"

datatype execution_profile = EP_DIRECT | EP_RETRIEVE | EP_VERIFY | EP_INVESTIGATE | EP_WATCH

datatype effect_ceiling = READ_ONLY | INTERNAL_STATE | EXTERNAL_SIDE_EFFECT

fun effect_value :: "effect_ceiling \<Rightarrow> string" where
  "effect_value READ_ONLY = ''read_only''"
| "effect_value INTERNAL_STATE = ''internal_state''"
| "effect_value EXTERNAL_SIDE_EFFECT = ''external_side_effect''"

fun effect_rank :: "effect_ceiling \<Rightarrow> nat" where
  "effect_rank READ_ONLY = 0"
| "effect_rank INTERNAL_STATE = 1"
| "effect_rank EXTERNAL_SIDE_EFFECT = 2"

definition effect_within_ceiling :: "effect_ceiling \<Rightarrow> effect_ceiling \<Rightarrow> bool" where
  "effect_within_ceiling effect cap = (effect_rank effect \<le> effect_rank cap)"

record delegation_ceiling =
  dc_allowed :: bool
  dc_max_depth :: nat
  dc_allowed_task_kinds :: "task_kind list"
  dc_child_effect_ceiling :: effect_ceiling

definition default_delegation_ceiling :: delegation_ceiling where
  "default_delegation_ceiling =
     \<lparr>dc_allowed = False, dc_max_depth = 0, dc_allowed_task_kinds = [],
      dc_child_effect_ceiling = READ_ONLY\<rparr>"

definition validate_disabled_shape :: "delegation_ceiling \<Rightarrow> delegation_ceiling res" where
  "validate_disabled_shape d =
     raise_if (\<not> dc_allowed d \<and> (dc_max_depth d \<noteq> 0 \<or> dc_allowed_task_kinds d \<noteq> []
                 \<or> dc_child_effect_ceiling d \<noteq> READ_ONLY))
       (ValueError ''disabled delegation cannot grant depth, task kinds, or elevated effects'')
     (raise_if (dc_allowed d \<and> dc_max_depth d < 1)
       (ValueError ''enabled delegation requires max_depth >= 1'')
     (Inr d))"

datatype cancellation_semantics = CANCELLABLE | TERMINAL_ONLY | REQUIRES_RECONCILIATION

fun cancellation_value :: "cancellation_semantics \<Rightarrow> string" where
  "cancellation_value CANCELLABLE = ''cancellable''"
| "cancellation_value TERMINAL_ONLY = ''terminal_only''"
| "cancellation_value REQUIRES_RECONCILIATION = ''requires_reconciliation''"

section \<open>Intents and contracts\<close>

record task_intent =
  ti_raw_request :: "string option"
  ti_trigger_ref :: "string option"
  ti_parsed_identifiers :: "string list"
  ti_candidate_task_kind :: "task_kind option"
  ti_candidate_targets :: "string list"
  ti_temporal_expression :: "string option"
  ti_requested_output :: jdict
  ti_requested_actions :: "string list"
  ti_context_refs :: "string list"

text \<open>Python truthiness of an optional string: absent and empty are both false.\<close>

definition falsy_str :: "string option \<Rightarrow> bool" where
  "falsy_str o' = (case o' of None \<Rightarrow> True | Some s \<Rightarrow> s = [])"

definition require_request_or_trigger :: "task_intent \<Rightarrow> task_intent res" where
  "require_request_or_trigger i =
     raise_if (falsy_str (ti_raw_request i) \<and> falsy_str (ti_trigger_ref i))
       (ValueError ''TaskIntent requires raw_request or trigger_ref'')
     (Inr i)"

record task_contract =
  tc_task_contract_id :: string
  tc_contract_revision :: nat
  tc_principal :: string
  tc_on_behalf_of :: "string option"
  tc_task_kind :: task_kind
  tc_target_resources :: "string list"
  tc_desired_state :: jdict
  tc_evidence_contract :: jdict
  tc_output_contract :: jdict
  tc_temporal_contract :: jdict
  tc_effect_ceiling :: effect_ceiling
  tc_delegation_ceiling :: delegation_ceiling
  tc_completion_predicate :: jdict
  tc_cancellation_semantics :: cancellation_semantics
  tc_policy_revision :: string

definition validate_execution_contract :: "task_contract \<Rightarrow> task_contract res" where
  "validate_execution_contract c =
     raise_if (tc_contract_revision c < 1) (ValueError ''contract_revision'')
     (raise_if (blank (tc_principal c)) (ValueError ''TaskContract principal cannot be empty'')
     (raise_if (tc_desired_state c = []) (ValueError ''TaskContract desired_state cannot be empty'')
     (raise_if (tc_completion_predicate c = [])
       (ValueError ''TaskContract completion_predicate cannot be empty'')
     (raise_if (blank (tc_policy_revision c))
       (ValueError ''TaskContract policy_revision cannot be empty'')
     (raise_if (dc_allowed (tc_delegation_ceiling c)
                \<and> \<not> effect_within_ceiling (dc_child_effect_ceiling (tc_delegation_ceiling c))
                      (tc_effect_ceiling c))
       (ValueError ''delegated child effect ceiling exceeds parent task effect ceiling'')
     (Inr c))))))"

text \<open>A contract object that exists at run time passed its own validator and its ceiling's.\<close>

definition valid_contract :: "task_contract \<Rightarrow> bool" where
  "valid_contract c \<longleftrightarrow> validate_execution_contract c = Inr c
     \<and> validate_disabled_shape (tc_delegation_ceiling c) = Inr (tc_delegation_ceiling c)"

section \<open>Task run states\<close>

datatype task_run_status =
    SUBMITTED | QUEUED | RUNNING | WAITING_INPUT | WAITING_DEPENDENCY
  | BLOCKED | COMPLETED | FAILED | CANCELLED | TIMED_OUT

fun task_run_status_value :: "task_run_status \<Rightarrow> string" where
  "task_run_status_value SUBMITTED = ''submitted''"
| "task_run_status_value QUEUED = ''queued''"
| "task_run_status_value RUNNING = ''running''"
| "task_run_status_value WAITING_INPUT = ''waiting_input''"
| "task_run_status_value WAITING_DEPENDENCY = ''waiting_dependency''"
| "task_run_status_value BLOCKED = ''blocked''"
| "task_run_status_value COMPLETED = ''completed''"
| "task_run_status_value FAILED = ''failed''"
| "task_run_status_value CANCELLED = ''cancelled''"
| "task_run_status_value TIMED_OUT = ''timed_out''"

definition terminal_task_run_statuses :: "task_run_status list" where
  "terminal_task_run_statuses = [BLOCKED, COMPLETED, FAILED, CANCELLED, TIMED_OUT]"

abbreviation terminal_status :: "task_run_status \<Rightarrow> bool" where
  "terminal_status s \<equiv> s \<in> set terminal_task_run_statuses"

fun task_run_transitions :: "task_run_status \<Rightarrow> task_run_status list" where
  "task_run_transitions SUBMITTED = [QUEUED, CANCELLED, BLOCKED]"
| "task_run_transitions QUEUED = [RUNNING, CANCELLED, BLOCKED, TIMED_OUT]"
| "task_run_transitions RUNNING =
     [WAITING_INPUT, WAITING_DEPENDENCY, BLOCKED, COMPLETED, FAILED, CANCELLED, TIMED_OUT]"
| "task_run_transitions WAITING_INPUT = [QUEUED, CANCELLED, BLOCKED, TIMED_OUT]"
| "task_run_transitions WAITING_DEPENDENCY = [QUEUED, CANCELLED, BLOCKED, TIMED_OUT]"
| "task_run_transitions BLOCKED = []"
| "task_run_transitions COMPLETED = []"
| "task_run_transitions FAILED = []"
| "task_run_transitions CANCELLED = []"
| "task_run_transitions TIMED_OUT = []"

definition can_transition_task_run :: "task_run_status \<Rightarrow> task_run_status \<Rightarrow> bool" where
  "can_transition_task_run current target = (target \<in> set (task_run_transitions current))"

record task_run =
  tv_run_id :: string
  tv_task_contract_id :: string
  tv_case_id :: "string option"
  tv_parent_run_id :: "string option"
  tv_role_id :: string
  tv_role_version :: string
  tv_context_manifest_ref :: string
  tv_status :: task_run_status
  tv_base_context_revision :: nat
  tv_execution_envelope_ref :: string
  tv_result_ref :: "string option"
  tv_stop_reason :: "string option"

record role_profile =
  rp_role_id :: string
  rp_version :: string
  rp_accepts_task_kinds :: "task_kind list"
  rp_state_model :: string
  rp_planner_profile :: string
  rp_skill_scope :: "string list"
  rp_seed_skill_refs :: "string list"
  rp_mandatory_guard_refs :: "string list"
  rp_capability_preferences :: "string list"
  rp_default_execution_profile :: execution_profile
  rp_delegation_rules :: "jdict list"

definition role_accepts :: "role_profile \<Rightarrow> task_kind \<Rightarrow> bool" where
  "role_accepts r k = (k \<in> set (rp_accepts_task_kinds r))"

record context_manifest =
  cm_context_id :: string
  cm_context_revision :: nat
  cm_parent_context_id :: "string option"
  cm_task_contract_ref :: string
  cm_role_ref :: string
  cm_case_ref :: "string option"
  cm_knowledge_revision :: "nat option"
  cm_investigation_state_ref :: "string option"
  cm_enrichment_state_refs :: "string list"
  cm_evidence_refs :: "string list"
  cm_object_refs :: "string list"
  cm_relation_refs :: "string list"
  cm_retrieval_invocation_refs :: "string list"
  cm_query_intent :: "jdict option"
  cm_query_intent_model_ref :: "string option"
  cm_trajectory_checkpoint_ref :: "string option"
  cm_skill_selection_refs :: "string list"
  cm_experience_pattern_refs :: "string list"
  cm_policy_context_ref :: string
  cm_capability_envelope_ref :: string
  cm_budget_ref :: string
  cm_cache_hint :: "string option"

section \<open>Task events\<close>

datatype task_event_type =
    TASK_CREATED | TASK_STARTED | TASK_PATCHED | CONTEXT_UPDATED | EVIDENCE_FOUND
  | KNOWLEDGE_CHANGED | ENRICHMENT_STATE_CHANGED | INVESTIGATION_STATE_CHANGED | TASK_BLOCKED
  | NEED_INPUT | NEED_CONTEXT | BUDGET_WARNING | ARTIFACT_PRODUCED | PROGRESS | TASK_COMPLETED
  | TASK_FAILED | TASK_CANCELED

fun task_event_type_value :: "task_event_type \<Rightarrow> string" where
  "task_event_type_value TASK_CREATED = ''TaskCreated''"
| "task_event_type_value TASK_STARTED = ''TaskStarted''"
| "task_event_type_value TASK_PATCHED = ''TaskPatched''"
| "task_event_type_value CONTEXT_UPDATED = ''ContextUpdated''"
| "task_event_type_value EVIDENCE_FOUND = ''EvidenceFound''"
| "task_event_type_value KNOWLEDGE_CHANGED = ''KnowledgeChanged''"
| "task_event_type_value ENRICHMENT_STATE_CHANGED = ''EnrichmentStateChanged''"
| "task_event_type_value INVESTIGATION_STATE_CHANGED = ''InvestigationStateChanged''"
| "task_event_type_value TASK_BLOCKED = ''TaskBlocked''"
| "task_event_type_value NEED_INPUT = ''NeedInput''"
| "task_event_type_value NEED_CONTEXT = ''NeedContext''"
| "task_event_type_value BUDGET_WARNING = ''BudgetWarning''"
| "task_event_type_value ARTIFACT_PRODUCED = ''ArtifactProduced''"
| "task_event_type_value PROGRESS = ''Progress''"
| "task_event_type_value TASK_COMPLETED = ''TaskCompleted''"
| "task_event_type_value TASK_FAILED = ''TaskFailed''"
| "task_event_type_value TASK_CANCELED = ''TaskCanceled''"

record task_event =
  te_event_id :: string
  te_task_run_id :: string
  te_parent_run_id :: "string option"
  te_seq :: nat
  te_event_type :: task_event_type
  te_producer :: string
  te_base_context_revision :: nat
  te_payload_ref :: string
  te_idempotency_key :: string
  te_emitted_at :: int

definition validate_non_empty_identity :: "task_event \<Rightarrow> task_event res" where
  "validate_non_empty_identity e =
     raise_if (te_seq e < 1) (ValueError ''seq'')
     (raise_if (te_base_context_revision e < 1) (ValueError ''base_context_revision'')
     (raise_if (blank (te_producer e)) (ValueError ''TaskEvent producer cannot be empty'')
     (raise_if (blank (te_payload_ref e)) (ValueError ''TaskEvent payload_ref cannot be empty'')
     (raise_if (blank (te_idempotency_key e))
       (ValueError ''TaskEvent idempotency_key cannot be empty'')
     (Inr e)))))"

section \<open>Delegation conformance\<close>

record delegation_check =
  dk_allowed :: bool
  dk_reason :: "string option"

definition validate_child_contract :: "task_contract \<Rightarrow> task_contract \<Rightarrow> delegation_check" where
  "validate_child_contract parent child =
     (let cap = tc_delegation_ceiling parent; own = tc_delegation_ceiling child in
      if \<not> dc_allowed cap then \<lparr>dk_allowed = False, dk_reason = Some ''delegation_not_allowed''\<rparr>
      else if tc_task_kind child \<notin> set (dc_allowed_task_kinds cap)
        then \<lparr>dk_allowed = False, dk_reason = Some ''child_task_kind_not_allowed''\<rparr>
      else if \<not> effect_within_ceiling (tc_effect_ceiling child) (dc_child_effect_ceiling cap)
        then \<lparr>dk_allowed = False, dk_reason = Some ''exceeds_parent_effect_ceiling''\<rparr>
      else if dc_allowed own \<and> dc_max_depth cap \<le> 1
        then \<lparr>dk_allowed = False, dk_reason = Some ''exceeds_parent_delegation_ceiling''\<rparr>
      else if dc_allowed own \<and> dc_max_depth own \<ge> dc_max_depth cap
        then \<lparr>dk_allowed = False, dk_reason = Some ''exceeds_parent_delegation_ceiling''\<rparr>
      else if dc_allowed own
           \<and> \<not> effect_within_ceiling (dc_child_effect_ceiling own) (dc_child_effect_ceiling cap)
        then \<lparr>dk_allowed = False, dk_reason = Some ''exceeds_parent_effect_ceiling''\<rparr>
      else \<lparr>dk_allowed = True, dk_reason = None\<rparr>)"

definition canonical_role_profiles :: "(string \<times> task_kind list) list" where
  "canonical_role_profiles =
     [(''EnrichmentRole'', [ENRICHMENT]),
      (''InvestigationRole'',
        [VERIFY_VERSION_FIX, RESOLVE_CONFLICT, INVESTIGATE_RELATION, INVESTIGATE_INCIDENT,
         WATCH_INCIDENT, ASSESS_NORMATIVE_APPLICABILITY, OBSERVE_LIVE_ASSET])]"

section \<open>Dependency reasons\<close>

definition task_dependency_prefix :: string where
  "task_dependency_prefix = ''task_dependency:''"

definition legacy_dependency_prefixes :: "string list" where
  "legacy_dependency_prefixes = [''delegated_enrichment:'']"

definition task_dependency_reason :: "string \<Rightarrow> string res" where
  "task_dependency_reason child_run_id =
     (let r = strip child_run_id in
      raise_if (r = []) (ValueError ''child_run_id cannot be empty'')
      (Inr (task_dependency_prefix @ r)))"

fun first_dependency :: "string list \<Rightarrow> string \<Rightarrow> string option" where
  "first_dependency [] reason = None"
| "first_dependency (p # ps) reason =
     (if startswith reason p
      then (let r = strip (drop (length p) reason) in if r = [] then None else Some r)
      else first_dependency ps reason)"

definition dependency_run_id :: "string option \<Rightarrow> string option" where
  "dependency_run_id stop_reason =
     (case stop_reason of None \<Rightarrow> None
      | Some reason \<Rightarrow>
          first_dependency (task_dependency_prefix # legacy_dependency_prefixes) reason)"

section \<open>Canonical roles\<close>

definition canonical_roles :: "(string \<times> role_profile) list" where
  "canonical_roles = map (\<lambda>r. (rp_role_id r, r))
     [\<lparr>rp_role_id = ''DecisionRole'', rp_version = ''1'',
       rp_accepts_task_kinds = [LOOKUP, RETRIEVE],
       rp_state_model = ''M4.LightweightContext'', rp_planner_profile = ''decision-v1'',
       rp_skill_scope = [''reasoning''], rp_seed_skill_refs = [], rp_mandatory_guard_refs = [],
       rp_capability_preferences = [], rp_default_execution_profile = EP_DIRECT,
       rp_delegation_rules = []\<rparr>,
      \<lparr>rp_role_id = ''EnrichmentRole'', rp_version = ''1'',
       rp_accepts_task_kinds = [ENRICHMENT],
       rp_state_model = ''M3.EnrichmentState'', rp_planner_profile = ''enrichment-v1'',
       rp_skill_scope = [''enrichment''], rp_seed_skill_refs = [], rp_mandatory_guard_refs = [],
       rp_capability_preferences = [], rp_default_execution_profile = EP_INVESTIGATE,
       rp_delegation_rules =
         [[(''allow_investigation'', JBool False), (''allow_operator_children'', JBool True)]]\<rparr>,
      \<lparr>rp_role_id = ''InvestigationRole'', rp_version = ''1'',
       rp_accepts_task_kinds =
         [VERIFY_VERSION_FIX, RESOLVE_CONFLICT, INVESTIGATE_RELATION, INVESTIGATE_INCIDENT,
          WATCH_INCIDENT, ASSESS_NORMATIVE_APPLICABILITY, OBSERVE_LIVE_ASSET],
       rp_state_model = ''M4.InvestigationState'', rp_planner_profile = ''investigation-v1'',
       rp_skill_scope = [''investigation''], rp_seed_skill_refs = [], rp_mandatory_guard_refs = [],
       rp_capability_preferences = [], rp_default_execution_profile = EP_INVESTIGATE,
       rp_delegation_rules =
         [[(''allow_enrichment'', JBool True), (''allow_child_execution'', JBool True)]]\<rparr>]"

section \<open>Execution envelopes\<close>

record execution_envelope =
  ee_execution_id :: string
  ee_parent_execution_id :: "string option"
  ee_task_contract_id :: string
  ee_task_run_id :: string
  ee_case_id :: "string option"
  ee_role_revision :: string
  ee_context_manifest_revision :: nat
  ee_execution_profile :: execution_profile
  ee_capability_scope :: "string list"
  ee_deadline_at :: datetime
  ee_budget_ref :: string
  ee_policy_revision :: string
  ee_identity_scope :: "string list"
  ee_network_policy :: string
  ee_side_effect_policy :: string
  ee_sandbox_profile_revision :: string
  ee_trace_context :: jdict

fun first_blank :: "(string \<times> string) list \<Rightarrow> string option" where
  "first_blank [] = None"
| "first_blank ((v, label) # rest) = (if blank v then Some label else first_blank rest)"

definition validate_envelope :: "execution_envelope \<Rightarrow> execution_envelope res" where
  "validate_envelope e =
     raise_if (ee_context_manifest_revision e < 1) (ValueError ''context_manifest_revision'')
     (raise_if (dt_naive (ee_deadline_at e))
       (ValueError ''ExecutionEnvelope deadline_at must be timezone-aware'')
     (case first_blank
        [(ee_execution_id e, ''execution_id''), (ee_task_contract_id e, ''task_contract_id''),
         (ee_task_run_id e, ''task_run_id''), (ee_role_revision e, ''role_revision''),
         (ee_budget_ref e, ''budget_ref''), (ee_policy_revision e, ''policy_revision''),
         (ee_network_policy e, ''network_policy''),
         (ee_side_effect_policy e, ''side_effect_policy''),
         (ee_sandbox_profile_revision e, ''sandbox_profile_revision'')] of
        Some label \<Rightarrow> Inl (ValueError (''ExecutionEnvelope '' @ label @ '' cannot be empty''))
      | None \<Rightarrow> Inr e))"

text \<open>Both envelopes passed \<open>validate_envelope\<close>, so their deadlines are comparable instants.\<close>

definition validate_child_execution_envelope ::
  "execution_envelope \<Rightarrow> execution_envelope \<Rightarrow> string list" where
  "validate_child_execution_envelope parent child =
     (if ee_parent_execution_id child \<noteq> Some (ee_execution_id parent)
      then [''parent_execution_mismatch''] else [])
   @ (if dt_us (ee_deadline_at child) > dt_us (ee_deadline_at parent)
      then [''child_deadline_exceeds_parent''] else [])
   @ (if \<not> set (ee_capability_scope child) \<subseteq> set (ee_capability_scope parent)
      then [''child_capability_scope_exceeds_parent''] else [])
   @ (if \<not> set (ee_identity_scope child) \<subseteq> set (ee_identity_scope parent)
      then [''child_identity_scope_exceeds_parent''] else [])"

text \<open>Seconds are rationals; \<^verbatim>\<open>timedelta.total_seconds()\<close> is exact on microseconds.\<close>

definition bounded_timeout_seconds :: "execution_envelope \<Rightarrow> datetime \<Rightarrow> rat \<Rightarrow> rat res" where
  "bounded_timeout_seconds e now action_timeout_seconds =
     raise_if (dt_naive now) (ValueError ''bounded timeout requires timezone-aware now'')
     (let remaining = of_int (dt_us (ee_deadline_at e) - dt_us now) / 1000000 in
      if remaining \<le> 0 then Inr 0 else Inr (min action_timeout_seconds remaining))"

section \<open>Chains of delegation\<close>

text \<open>
  A list of contracts in which each one is created as a child of the one before it, and the
  same for envelopes: what the checks above say of one hop, lifted to any depth.
\<close>

fun delegation_chain :: "task_contract list \<Rightarrow> bool" where
  "delegation_chain [] = True"
| "delegation_chain [c] = True"
| "delegation_chain (p # c # cs) =
     (dk_allowed (validate_child_contract p c) \<and> delegation_chain (c # cs))"

fun envelope_chain :: "execution_envelope list \<Rightarrow> bool" where
  "envelope_chain [] = True"
| "envelope_chain [e] = True"
| "envelope_chain (p # c # cs) =
     (validate_child_execution_envelope p c = [] \<and> envelope_chain (c # cs))"

text \<open>Contracts and envelopes for the concrete instances of the theorems.\<close>

definition sample_contract :: "string \<Rightarrow> delegation_ceiling \<Rightarrow> effect_ceiling \<Rightarrow> task_contract" where
  "sample_contract cid cap eff =
     \<lparr>tc_task_contract_id = cid, tc_contract_revision = 1, tc_principal = ''svc'',
      tc_on_behalf_of = None, tc_task_kind = ENRICHMENT, tc_target_resources = [],
      tc_desired_state = [(''done'', JBool True)], tc_evidence_contract = [],
      tc_output_contract = [], tc_temporal_contract = [], tc_effect_ceiling = eff,
      tc_delegation_ceiling = cap, tc_completion_predicate = [(''done'', JBool True)],
      tc_cancellation_semantics = CANCELLABLE, tc_policy_revision = ''p1''\<rparr>"

definition sample_ceiling :: "nat \<Rightarrow> delegation_ceiling" where
  "sample_ceiling d = \<lparr>dc_allowed = True, dc_max_depth = d, dc_allowed_task_kinds = [ENRICHMENT],
     dc_child_effect_ceiling = INTERNAL_STATE\<rparr>"

definition sample_envelope :: "string \<Rightarrow> string option \<Rightarrow> string list \<Rightarrow> int \<Rightarrow> execution_envelope" where
  "sample_envelope eid par scope deadline =
     \<lparr>ee_execution_id = eid, ee_parent_execution_id = par, ee_task_contract_id = ''t1'',
      ee_task_run_id = ''r1'', ee_case_id = None, ee_role_revision = ''EnrichmentRole@1'',
      ee_context_manifest_revision = 1, ee_execution_profile = EP_INVESTIGATE,
      ee_capability_scope = scope, ee_deadline_at = Aware deadline, ee_budget_ref = ''b1'',
      ee_policy_revision = ''p1'', ee_identity_scope = [], ee_network_policy = ''none'',
      ee_side_effect_policy = ''none'', ee_sandbox_profile_revision = ''s1'',
      ee_trace_context = []\<rparr>"

section \<open>The order on effect ceilings\<close>

instantiation effect_ceiling :: linorder
begin

definition less_eq_effect_ceiling :: "effect_ceiling \<Rightarrow> effect_ceiling \<Rightarrow> bool" where
  "less_eq_effect_ceiling a b = effect_within_ceiling a b"

definition less_effect_ceiling :: "effect_ceiling \<Rightarrow> effect_ceiling \<Rightarrow> bool" where
  "less_effect_ceiling a b = (effect_within_ceiling a b \<and> \<not> effect_within_ceiling b a)"

instance
proof
  fix x y z :: effect_ceiling
  show "x \<le> y \<Longrightarrow> y \<le> x \<Longrightarrow> x = y"
    by (cases x; cases y) (simp_all add: less_eq_effect_ceiling_def effect_within_ceiling_def)
qed (auto simp: less_eq_effect_ceiling_def less_effect_ceiling_def effect_within_ceiling_def)

end

section \<open>Facts about one hop\<close>

lemma effect_le_rank: "a \<le> b \<longleftrightarrow> effect_rank a \<le> effect_rank b"
  by (simp add: less_eq_effect_ceiling_def effect_within_ceiling_def)

lemma READ_ONLY_least [simp]: "READ_ONLY \<le> e"
  by (simp add: effect_le_rank)

lemma effect_within_ceiling_le [simp]: "effect_within_ceiling a b \<longleftrightarrow> a \<le> b"
  by (simp add: less_eq_effect_ceiling_def)


lemma child_contract_allowed_iff:
  "dk_allowed (validate_child_contract p c) \<longleftrightarrow>
     dc_allowed (tc_delegation_ceiling p)
     \<and> tc_task_kind c \<in> set (dc_allowed_task_kinds (tc_delegation_ceiling p))
     \<and> tc_effect_ceiling c \<le> dc_child_effect_ceiling (tc_delegation_ceiling p)
     \<and> (dc_allowed (tc_delegation_ceiling c) \<longrightarrow>
          1 < dc_max_depth (tc_delegation_ceiling p)
          \<and> dc_max_depth (tc_delegation_ceiling c) < dc_max_depth (tc_delegation_ceiling p)
          \<and> dc_child_effect_ceiling (tc_delegation_ceiling c)
              \<le> dc_child_effect_ceiling (tc_delegation_ceiling p))"
  by (auto simp: validate_child_contract_def Let_def)

lemma child_contract_reason:
  "\<not> dk_allowed (validate_child_contract p c) \<Longrightarrow> dk_reason (validate_child_contract p c) \<noteq> None"
  by (auto simp: validate_child_contract_def Let_def split: if_splits)

lemma valid_contract_depth:
  "valid_contract c \<Longrightarrow> dc_allowed (tc_delegation_ceiling c) \<Longrightarrow>
     1 \<le> dc_max_depth (tc_delegation_ceiling c)"
  by (auto simp: valid_contract_def validate_disabled_shape_def res_simps not_less)

lemma valid_contract_child_effect:
  "valid_contract c \<Longrightarrow> dc_allowed (tc_delegation_ceiling c) \<Longrightarrow>
     dc_child_effect_ceiling (tc_delegation_ceiling c) \<le> tc_effect_ceiling c"
  by (auto simp: valid_contract_def validate_execution_contract_def res_simps)

lemma child_envelope_accepted_iff:
  "validate_child_execution_envelope p c = [] \<longleftrightarrow>
     ee_parent_execution_id c = Some (ee_execution_id p)
     \<and> dt_us (ee_deadline_at c) \<le> dt_us (ee_deadline_at p)
     \<and> set (ee_capability_scope c) \<subseteq> set (ee_capability_scope p)
     \<and> set (ee_identity_scope c) \<subseteq> set (ee_identity_scope p)"
  by (auto simp: validate_child_execution_envelope_def)

interpretation run_status: status_machine task_run_transitions "\<lambda>s. terminal_status s"
  by unfold_locales (rename_tac s, case_tac s, simp_all add: terminal_task_run_statuses_def)

lemma delegation_chain_ConsD:
  assumes "delegation_chain (p # c # cs)"
  shows "dk_allowed (validate_child_contract p c)" "delegation_chain (c # cs)"
  using assms by auto

lemma delegation_chain_length:
  assumes "delegation_chain (c # cs)" "\<forall>x \<in> set (c # cs). valid_contract x" "cs \<noteq> []"
  shows "length cs \<le> dc_max_depth (tc_delegation_ceiling c)"
  using assms
proof (induction cs arbitrary: c)
  case Nil
  then show ?case by simp
next
  case (Cons d ds)
  note hop = delegation_chain_ConsD [OF Cons.prems(1)]
  have c: "1 \<le> dc_max_depth (tc_delegation_ceiling c)"
    using Cons.prems(2) hop(1) valid_contract_depth [of c] by (auto simp: child_contract_allowed_iff)
  show ?case
  proof (cases ds)
    case Nil
    with c show ?thesis by simp
  next
    case (Cons e es)
    have "dc_allowed (tc_delegation_ceiling d)"
      using hop(2) by (auto simp: Cons child_contract_allowed_iff)
    with hop(1) have "dc_max_depth (tc_delegation_ceiling d) < dc_max_depth (tc_delegation_ceiling c)"
      by (auto simp: child_contract_allowed_iff)
    moreover have "length ds \<le> dc_max_depth (tc_delegation_ceiling d)"
      using Cons.IH [OF hop(2)] Cons.prems(2) \<open>ds = e # es\<close> by auto
    ultimately show ?thesis by simp
  qed
qed

lemma delegation_chain_effects:
  assumes "delegation_chain (c # cs)" "x \<in> set cs"
  shows "tc_effect_ceiling x \<le> dc_child_effect_ceiling (tc_delegation_ceiling c)"
  using assms
proof (induction cs arbitrary: c)
  case Nil
  then show ?case by simp
next
  case (Cons d ds)
  note hop = delegation_chain_ConsD [OF Cons.prems(1)]
  show ?case
  proof (cases "x = d")
    case True
    then show ?thesis using hop(1) by (auto simp: child_contract_allowed_iff)
  next
    case False
    then have x: "x \<in> set ds" using Cons.prems(2) by simp
    then have "dc_allowed (tc_delegation_ceiling d)"
      using hop(2) by (cases ds) (auto simp: child_contract_allowed_iff)
    then have "dc_child_effect_ceiling (tc_delegation_ceiling d)
                 \<le> dc_child_effect_ceiling (tc_delegation_ceiling c)"
      using hop(1) by (auto simp: child_contract_allowed_iff)
    with Cons.IH [OF hop(2) x] show ?thesis by (rule order_trans)
  qed
qed

lemma strip_nonspace_idem: "strip (strip s) = strip s"
proof -
  let ?t = "dropWhile is_space s"
  let ?u = "dropWhile is_space (rev ?t)"
  have "dropWhile is_space (rev ?u) = rev ?u"
  proof (cases "rev ?u")
    case Nil
    then show ?thesis by (simp only: dropWhile.simps)
  next
    case (Cons a as)
    have "suffix ?u (rev ?t)" by (rule suffix_dropWhile)
    then obtain zs where zs: "rev ?t = zs @ ?u" by (auto simp: suffix_def)
    have "rev (rev ?t) = rev ?u @ rev zs" by (subst zs) simp
    then have "?t = rev ?u @ rev zs" by simp
    with Cons have "?t = a # (as @ rev zs)" by simp
    then have "\<not> is_space a" by (metis dropWhile_eq_Cons_conv)
    with Cons show ?thesis by simp
  qed
  then show ?thesis by (simp add: strip_def)
qed

lemma bounded_timeout_bounds:
  assumes "0 \<le> a"
  shows "\<exists>s. bounded_timeout_seconds e (Aware t) a = Inr s \<and> 0 \<le> s \<and> s \<le> a
    \<and> of_int t + s * 1000000 \<le> max (of_int t) (of_int (dt_us (ee_deadline_at e)))
    \<and> (dt_us (ee_deadline_at e) \<le> t \<longrightarrow> s = 0)"
proof -
  let ?d = "dt_us (ee_deadline_at e)"
  let ?r = "rat_of_int (?d - t) / 1000000"
  show ?thesis
  proof (cases "?r \<le> 0")
    case True
    then show ?thesis using assms by (simp add: bounded_timeout_seconds_def dt_naive_def Let_def)
  next
    case False
    then have "t < ?d" by (simp add: not_le)
    moreover have "min a ?r * 1000000 \<le> rat_of_int (?d - t)"
      using min.cobounded2 [of a ?r] by (simp add: divide_simps)
    ultimately show ?thesis using assms False
      by (simp add: bounded_timeout_seconds_def dt_naive_def Let_def)
  qed
qed

section \<open>Properties\<close>

text \<open>
  Delegation depth is bounded by the root. However contracts are chained, as long as every
  one is valid and every hop passes \<open>validate_child_contract\<close>, a chain below a contract is no
  longer than the \<open>max_depth\<close> that contract grants, and no contract of the chain has a higher
  effect ceiling than the root's own.
\<close>

theorem delegation_chain_bounded:
  assumes "delegation_chain (c # cs)"
    and "\<forall>x \<in> set (c # cs). valid_contract x"
    and "cs \<noteq> []"
  shows "length cs \<le> dc_max_depth (tc_delegation_ceiling c)
    \<and> (\<forall>x \<in> set cs. tc_effect_ceiling x \<le> tc_effect_ceiling c)"
proof -
  have "dc_allowed (tc_delegation_ceiling c)"
    using assms(1,3) by (cases cs) (auto simp: child_contract_allowed_iff)
  then have "dc_child_effect_ceiling (tc_delegation_ceiling c) \<le> tc_effect_ceiling c"
    using assms(2) by (auto intro: valid_contract_child_effect)
  then have "\<forall>x \<in> set cs. tc_effect_ceiling x \<le> tc_effect_ceiling c"
    using delegation_chain_effects [OF assms(1)] by (meson order_trans)
  then show ?thesis using delegation_chain_length [OF assms] by simp
qed

lemma sample_contract_valid:
  "valid_contract (sample_contract cid default_delegation_ceiling eff)"
  "1 \<le> d \<Longrightarrow> INTERNAL_STATE \<le> eff \<Longrightarrow> valid_contract (sample_contract cid (sample_ceiling d) eff)"
  by (auto simp: valid_contract_def validate_execution_contract_def validate_disabled_shape_def
      sample_contract_def sample_ceiling_def default_delegation_ceiling_def blank_def strip_def
      is_space_def raise_if_def not_less)

theorem delegation_chain_bounded_witness:
  "length [sample_contract ''b'' (sample_ceiling 1) INTERNAL_STATE,
           sample_contract ''c'' default_delegation_ceiling READ_ONLY]
     \<le> dc_max_depth (tc_delegation_ceiling (sample_contract ''a'' (sample_ceiling 2) EXTERNAL_SIDE_EFFECT))"
proof -
  let ?a = "sample_contract ''a'' (sample_ceiling 2) EXTERNAL_SIDE_EFFECT"
  let ?b = "sample_contract ''b'' (sample_ceiling 1) INTERNAL_STATE"
  let ?c = "sample_contract ''c'' default_delegation_ceiling READ_ONLY"
  have chain: "delegation_chain [?a, ?b, ?c]"
    by (simp add: child_contract_allowed_iff)
      (simp add: sample_contract_def sample_ceiling_def default_delegation_ceiling_def)
  have valid: "\<forall>x \<in> set [?a, ?b, ?c]. valid_contract x"
    by (simp add: sample_contract_valid effect_le_rank)
  show ?thesis using delegation_chain_bounded [OF chain valid] by simp
qed

text \<open>
  Claim C40: child execution envelopes only attenuate. Along any chain of envelopes in which every hop
  passes \<open>validate_child_execution_envelope\<close>, every envelope below the root has a deadline no
  later than the root's and capability and identity scopes contained in the root's.
\<close>

theorem envelope_chain_attenuates:
  assumes "envelope_chain (e # es)" and "x \<in> set es"
  shows "dt_us (ee_deadline_at x) \<le> dt_us (ee_deadline_at e)
    \<and> set (ee_capability_scope x) \<subseteq> set (ee_capability_scope e)
    \<and> set (ee_identity_scope x) \<subseteq> set (ee_identity_scope e)"
  using assms
proof (induction es arbitrary: e)
  case Nil
  then show ?case by simp
next
  case (Cons d ds)
  from Cons.prems(1) have hop: "validate_child_execution_envelope e d = []"
    and rest: "envelope_chain (d # ds)" by auto
  show ?case
  proof (cases "x = d")
    case True
    then show ?thesis using hop by (simp add: child_envelope_accepted_iff)
  next
    case False
    then have "x \<in> set ds" using Cons.prems(2) by simp
    from Cons.IH [OF rest this] hop show ?thesis
      by (auto simp: child_envelope_accepted_iff)
  qed
qed

theorem envelope_chain_attenuates_witness:
  "dt_us (ee_deadline_at (sample_envelope ''c'' (Some ''b'') [] 70))
     \<le> dt_us (ee_deadline_at (sample_envelope ''a'' None [''x'', ''y''] 90))"
proof -
  have "envelope_chain [sample_envelope ''a'' None [''x'', ''y''] 90,
      sample_envelope ''b'' (Some ''a'') [''y''] 80, sample_envelope ''c'' (Some ''b'') [] 70]"
    by (simp add: child_envelope_accepted_iff) (simp add: sample_envelope_def)
  from envelope_chain_attenuates [OF this, of "sample_envelope ''c'' (Some ''b'') [] 70"]
  show ?thesis by simp
qed

text \<open>
  An action never gets more time than it asked for nor more than its envelope has left.
  For a timezone-aware now and a non-negative request, \<open>bounded_timeout_seconds\<close> returns a
  timeout between zero and the request such that now plus the timeout does not pass the
  deadline, and returns zero once the deadline is reached.
\<close>

theorem bounded_timeout_within_deadline:
  assumes "0 \<le> a"
  shows "\<exists>s. bounded_timeout_seconds e (Aware t) a = Inr s \<and> 0 \<le> s \<and> s \<le> a
    \<and> of_int t + s * 1000000 \<le> max (of_int t) (of_int (dt_us (ee_deadline_at e)))
    \<and> (dt_us (ee_deadline_at e) \<le> t \<longrightarrow> s = 0)"
  by (rule bounded_timeout_bounds [OF assms])

theorem bounded_timeout_within_deadline_witness:
  "\<exists>s. bounded_timeout_seconds (sample_envelope ''a'' None [] 5000000) (Aware 2000000) 30 = Inr s \<and> s \<le> 30"
  using bounded_timeout_within_deadline [of 30 "sample_envelope ''a'' None [] 5000000" 2000000] by auto

text \<open>
  Dependency reasons round-trip. The stop reason that \<open>task_dependency_reason\<close> writes for a
  child run is read back by \<open>dependency_run_id\<close> as exactly that run (stripped of surrounding
  white space), and a blank run id is the only input that is refused.
\<close>

theorem dependency_reason_roundtrip:
  "case task_dependency_reason r of
     Inl err \<Rightarrow> blank r \<and> err = ValueError ''child_run_id cannot be empty''
   | Inr reason \<Rightarrow> \<not> blank r \<and> dependency_run_id (Some reason) = Some (strip r)"
  by (auto simp: task_dependency_reason_def raise_if_def Let_def blank_def dependency_run_id_def
      startswith_def strip_nonspace_idem)

text \<open>
  The terminal statuses are exactly the statuses with no way out, and a run that is not
  terminal can always be cancelled or blocked.
\<close>

theorem task_run_terminal_iff_stuck:
  "(terminal_status s \<longleftrightarrow> (\<forall>t. \<not> can_transition_task_run s t))
   \<and> (terminal_status s \<or> (can_transition_task_run s CANCELLED \<and> can_transition_task_run s BLOCKED))"
  by (cases s) (auto simp: terminal_task_run_statuses_def can_transition_task_run_def)

text \<open>
  The canonical roles have disjoint mandates. No task kind is accepted by two roles, the
  only kind no canonical role accepts is \<open>RESEARCH_INSIGHT\<close>, and the mandates that
  \<open>canonical_role_profiles\<close> lists are those of the role profiles.
\<close>

theorem canonical_roles_disjoint:
  "length (filter (\<lambda>(_, r). role_accepts r k) canonical_roles) = (if k = RESEARCH_INSIGHT then 0 else 1)
   \<and> list_all (\<lambda>(rid, ks). map_option rp_accepts_task_kinds (map_of canonical_roles rid) = Some ks)
       canonical_role_profiles"
  by (cases k) (simp_all add: canonical_roles_def role_accepts_def canonical_role_profiles_def)

end
