(* ===== verification/Task_Store.thy ===== *)
theory Task_Store
  imports Task_Contracts
begin

text \<open>
  \<^verbatim>\<open>packages/task_runtime/storage\<close>: the five tables of \<^verbatim>\<open>models.py\<close> and the operations of
  \<^verbatim>\<open>service.py\<close>, as functions from a store to an exception or a result with the new store.
  An operation runs inside its caller's transaction, so an exception leaves the store as it was.
  The instant an operation works at and the identifiers \<^verbatim>\<open>uuid4()\<close> would draw are arguments.
  A JSON column that holds a dumped model is the model itself, since every reader validates it
  back; the enum columns hold the enum. Column widths are not modelled.
\<close>

section \<open>Tables\<close>

record contract_row =
  cr_task_contract_version_id :: string
  cr_task_contract_id :: string
  cr_contract_revision :: nat
  cr_principal :: string
  cr_on_behalf_of :: "string option"
  cr_task_kind :: task_kind
  cr_effect_ceiling :: effect_ceiling
  cr_policy_revision :: string
  cr_contract_json :: task_contract
  cr_content_hash :: string
  cr_created_at :: int

record context_row =
  cx_context_manifest_version_id :: string
  cx_context_id :: string
  cx_context_revision :: nat
  cx_parent_context_id :: "string option"
  cx_task_contract_version_id :: string
  cx_role_ref :: string
  cx_case_ref :: "string option"
  cx_knowledge_revision :: "nat option"
  cx_manifest_json :: context_manifest
  cx_content_hash :: string
  cx_created_at :: int

record run_row =
  rr_run_id :: string
  rr_task_contract_version_id :: string
  rr_task_contract_id :: string
  rr_task_contract_revision :: nat
  rr_context_manifest_version_id :: string
  rr_context_id :: string
  rr_context_revision :: nat
  rr_case_id :: "string option"
  rr_parent_run_id :: "string option"
  rr_role_id :: string
  rr_role_version :: string
  rr_status :: task_run_status
  rr_base_context_revision :: nat
  rr_execution_envelope_ref :: string
  rr_result_ref :: "string option"
  rr_stop_reason :: "string option"
  rr_created_at :: int
  rr_updated_at :: int
  rr_finished_at :: "int option"

text \<open>The columns of \<^verbatim>\<open>TaskEventModel\<close> are the fields of \<^verbatim>\<open>TaskEvent\<close>.\<close>

type_synonym event_row = task_event

record delivery_row =
  dl_event_id :: string
  dl_stream_name :: string
  dl_status :: string
  dl_attempts :: nat
  dl_available_at :: int
  dl_delivered_at :: "datetime option"
  dl_redis_message_id :: "string option"
  dl_last_error :: "string option"

record task_store =
  ts_contracts :: "contract_row list"
  ts_contexts :: "context_row list"
  ts_runs :: "run_row list"
  ts_events :: "event_row list"
  ts_deliveries :: "delivery_row list"

definition empty_store :: task_store where
  "empty_store = \<lparr>ts_contracts = [], ts_contexts = [], ts_runs = [], ts_events = [], ts_deliveries = []\<rparr>"

abbreviation get_run :: "task_store \<Rightarrow> string \<Rightarrow> run_row option" where
  "get_run s rid \<equiv> tab_get rr_run_id rid (ts_runs s)"

abbreviation put_run :: "task_store \<Rightarrow> run_row \<Rightarrow> task_store" where
  "put_run s r \<equiv> s\<lparr>ts_runs := tab_put rr_run_id r (ts_runs s)\<rparr>"

abbreviation contract_key :: "contract_row \<Rightarrow> string \<times> nat" where
  "contract_key r \<equiv> (cr_task_contract_id r, cr_contract_revision r)"

abbreviation context_key :: "context_row \<Rightarrow> string \<times> nat" where
  "context_key r \<equiv> (cx_context_id r, cx_context_revision r)"

record persist_result =
  pr_ref :: string
  pr_replay :: bool

section \<open>References and digests\<close>

definition versioned_ref :: "string \<Rightarrow> nat \<Rightarrow> string" where
  "versioned_ref ident rev' = ident @ ''@'' @ show_nat rev'"

definition task_contract_ref :: "task_contract \<Rightarrow> string" where
  "task_contract_ref c = versioned_ref (tc_task_contract_id c) (tc_contract_revision c)"

definition context_manifest_ref :: "context_manifest \<Rightarrow> string" where
  "context_manifest_ref m = versioned_ref (cm_context_id m) (cm_context_revision m)"

definition split_ref :: "string \<Rightarrow> (string \<times> nat) res" where
  "split_ref ref' =
     (let (identity, separator, revision_text) = rpartition (CHR ''@'') ref' in
      raise_if (separator = [] \<or> identity = [] \<or> \<not> py_isdigit revision_text)
        (ValueError (''invalid versioned reference: '' @ ref'))
      (res_bind (py_int revision_text) (\<lambda>n. Inr (identity, n))))"

definition stable_id :: "hash_env \<Rightarrow> string \<Rightarrow> string" where
  "stable_id E v = uuid5_url E (''secfusion:'' @ v)"

definition digest :: "hash_env \<Rightarrow> json \<Rightarrow> string" where
  "digest E payload = sha256_hex E (json_dumps payload)"

definition dump_delegation_ceiling :: "delegation_ceiling \<Rightarrow> json" where
  "dump_delegation_ceiling d = JObj
     [(''allowed'', JBool (dc_allowed d)), (''max_depth'', JInt (int (dc_max_depth d))),
      (''allowed_task_kinds'', j_strs (map task_kind_value (dc_allowed_task_kinds d))),
      (''child_effect_ceiling'', JStr (effect_value (dc_child_effect_ceiling d)))]"

definition dump_task_contract :: "task_contract \<Rightarrow> json" where
  "dump_task_contract c = JObj
     [(''task_contract_id'', JStr (tc_task_contract_id c)),
      (''contract_revision'', JInt (int (tc_contract_revision c))),
      (''principal'', JStr (tc_principal c)),
      (''on_behalf_of'', j_opt_str (tc_on_behalf_of c)),
      (''task_kind'', JStr (task_kind_value (tc_task_kind c))),
      (''target_resources'', j_strs (tc_target_resources c)),
      (''desired_state'', JObj (tc_desired_state c)),
      (''evidence_contract'', JObj (tc_evidence_contract c)),
      (''output_contract'', JObj (tc_output_contract c)),
      (''temporal_contract'', JObj (tc_temporal_contract c)),
      (''effect_ceiling'', JStr (effect_value (tc_effect_ceiling c))),
      (''delegation_ceiling'', dump_delegation_ceiling (tc_delegation_ceiling c)),
      (''completion_predicate'', JObj (tc_completion_predicate c)),
      (''cancellation_semantics'', JStr (cancellation_value (tc_cancellation_semantics c))),
      (''policy_revision'', JStr (tc_policy_revision c))]"

definition dump_context_manifest :: "context_manifest \<Rightarrow> json" where
  "dump_context_manifest m = JObj
     [(''context_id'', JStr (cm_context_id m)),
      (''context_revision'', JInt (int (cm_context_revision m))),
      (''parent_context_id'', j_opt_str (cm_parent_context_id m)),
      (''task_contract_ref'', JStr (cm_task_contract_ref m)),
      (''role_ref'', JStr (cm_role_ref m)),
      (''case_ref'', j_opt_str (cm_case_ref m)),
      (''knowledge_revision'',
        (case cm_knowledge_revision m of None \<Rightarrow> JNull | Some n \<Rightarrow> JInt (int n))),
      (''investigation_state_ref'', j_opt_str (cm_investigation_state_ref m)),
      (''enrichment_state_refs'', j_strs (cm_enrichment_state_refs m)),
      (''evidence_refs'', j_strs (cm_evidence_refs m)),
      (''object_refs'', j_strs (cm_object_refs m)),
      (''relation_refs'', j_strs (cm_relation_refs m)),
      (''retrieval_invocation_refs'', j_strs (cm_retrieval_invocation_refs m)),
      (''query_intent'', (case cm_query_intent m of None \<Rightarrow> JNull | Some d \<Rightarrow> JObj d)),
      (''query_intent_model_ref'', j_opt_str (cm_query_intent_model_ref m)),
      (''trajectory_checkpoint_ref'', j_opt_str (cm_trajectory_checkpoint_ref m)),
      (''skill_selection_refs'', j_strs (cm_skill_selection_refs m)),
      (''experience_pattern_refs'', j_strs (cm_experience_pattern_refs m)),
      (''policy_context_ref'', JStr (cm_policy_context_ref m)),
      (''capability_envelope_ref'', JStr (cm_capability_envelope_ref m)),
      (''budget_ref'', JStr (cm_budget_ref m)),
      (''cache_hint'', j_opt_str (cm_cache_hint m))]"

section \<open>Reads\<close>

definition contract_from_ref :: "task_store \<Rightarrow> string \<Rightarrow> contract_row res" where
  "contract_from_ref s ref' =
     res_bind (split_ref ref') (\<lambda>(task_id, revision).
       res_of_option (LookupError (''task contract not found: '' @ ref'))
         (tab_get contract_key (task_id, revision) (ts_contracts s)))"

definition context_from_ref :: "task_store \<Rightarrow> string \<Rightarrow> context_row res" where
  "context_from_ref s ref' =
     res_bind (split_ref ref') (\<lambda>(context_id, revision).
       res_of_option (LookupError (''context manifest not found: '' @ ref'))
         (tab_get context_key (context_id, revision) (ts_contexts s)))"

text \<open>The constructor of \<^verbatim>\<open>TaskRun\<close> checks its field constraints.\<close>

definition task_run_view :: "run_row \<Rightarrow> task_run res" where
  "task_run_view r =
     raise_if (rr_base_context_revision r < 1) (ValueError ''base_context_revision'')
     (raise_if (case rr_stop_reason r of None \<Rightarrow> False | Some x \<Rightarrow> 128 < length x)
       (ValueError ''stop_reason'')
     (Inr \<lparr>tv_run_id = rr_run_id r, tv_task_contract_id = rr_task_contract_id r,
       tv_case_id = rr_case_id r, tv_parent_run_id = rr_parent_run_id r,
       tv_role_id = rr_role_id r, tv_role_version = rr_role_version r,
       tv_context_manifest_ref = versioned_ref (rr_context_id r) (rr_context_revision r),
       tv_status = rr_status r, tv_base_context_revision = rr_base_context_revision r,
       tv_execution_envelope_ref = rr_execution_envelope_ref r,
       tv_result_ref = rr_result_ref r, tv_stop_reason = rr_stop_reason r\<rparr>))"

definition task_event_view :: "event_row \<Rightarrow> task_event res" where
  "task_event_view e = validate_non_empty_identity e"

definition run_not_found :: "string \<Rightarrow> py_error" where
  "run_not_found rid = LookupError (''task run not found: '' @ rid)"

definition get_task_run :: "task_store \<Rightarrow> string \<Rightarrow> task_run res" where
  "get_task_run s rid = res_bind (res_of_option (run_not_found rid) (get_run s rid)) task_run_view"

definition get_context_manifest :: "task_store \<Rightarrow> string \<Rightarrow> context_manifest res" where
  "get_context_manifest s ref' = res_bind (context_from_ref s ref') (\<lambda>r. Inr (cx_manifest_json r))"

definition get_task_context :: "task_store \<Rightarrow> string \<Rightarrow> context_manifest res" where
  "get_task_context s rid =
     res_bind (res_of_option (run_not_found rid) (get_run s rid)) (\<lambda>run.
     res_bind (res_of_option (RuntimeError ''task run references missing context manifest version'')
         (tab_get cx_context_manifest_version_id (rr_context_manifest_version_id run) (ts_contexts s)))
       (\<lambda>r. Inr (cx_manifest_json r)))"

definition get_task_contract_for_run :: "task_store \<Rightarrow> string \<Rightarrow> task_contract res" where
  "get_task_contract_for_run s rid =
     res_bind (res_of_option (run_not_found rid) (get_run s rid)) (\<lambda>run.
     res_bind (res_of_option (RuntimeError ''task run references missing task contract version'')
         (tab_get cr_task_contract_version_id (rr_task_contract_version_id run) (ts_contracts s)))
       (\<lambda>r. Inr (cr_contract_json r)))"

fun view_events :: "event_row list \<Rightarrow> task_event list res" where
  "view_events [] = Inr []"
| "view_events (e # es) =
     res_bind (task_event_view e) (\<lambda>v. res_bind (view_events es) (\<lambda>vs. Inr (v # vs)))"

definition run_events :: "task_store \<Rightarrow> string \<Rightarrow> event_row list" where
  "run_events s rid = filter (\<lambda>e. te_task_run_id e = rid) (ts_events s)"

definition list_task_events :: "task_store \<Rightarrow> string \<Rightarrow> task_event list res" where
  "list_task_events s rid = view_events (sort_key te_seq (run_events s rid))"

definition get_task_event :: "task_store \<Rightarrow> string \<Rightarrow> task_event res" where
  "get_task_event s eid =
     res_bind (res_of_option (LookupError (''task event not found: '' @ eid))
       (tab_get te_event_id eid (ts_events s))) task_event_view"

section \<open>Immutable revisions\<close>

definition persist_task_contract ::
  "hash_env \<Rightarrow> task_store \<Rightarrow> task_contract \<Rightarrow> int \<Rightarrow> (persist_result \<times> task_store) res" where
  "persist_task_contract E s c now =
     (let payload = dump_task_contract c; dg = digest E payload; ref' = task_contract_ref c in
      case tab_get contract_key (tc_task_contract_id c, tc_contract_revision c) (ts_contracts s) of
        Some existing \<Rightarrow>
          raise_if (cr_content_hash existing \<noteq> dg)
            (ValueError ''task contract revision is immutable'')
          (Inr (\<lparr>pr_ref = ref', pr_replay = True\<rparr>, s))
      | None \<Rightarrow>
          res_bind (tab_add cr_task_contract_version_id
            \<lparr>cr_task_contract_version_id = stable_id E (''task-contract:'' @ ref'),
             cr_task_contract_id = tc_task_contract_id c,
             cr_contract_revision = tc_contract_revision c,
             cr_principal = tc_principal c, cr_on_behalf_of = tc_on_behalf_of c,
             cr_task_kind = tc_task_kind c, cr_effect_ceiling = tc_effect_ceiling c,
             cr_policy_revision = tc_policy_revision c, cr_contract_json = c,
             cr_content_hash = dg, cr_created_at = now\<rparr> (ts_contracts s))
            (\<lambda>rows. Inr (\<lparr>pr_ref = ref', pr_replay = False\<rparr>, s\<lparr>ts_contracts := rows\<rparr>)))"

definition persist_context_manifest ::
  "hash_env \<Rightarrow> task_store \<Rightarrow> context_manifest \<Rightarrow> int \<Rightarrow> (persist_result \<times> task_store) res" where
  "persist_context_manifest E s m now =
     res_bind (contract_from_ref s (cm_task_contract_ref m)) (\<lambda>contract.
     (let payload = dump_context_manifest m; dg = digest E payload; ref' = context_manifest_ref m in
      case tab_get context_key (cm_context_id m, cm_context_revision m) (ts_contexts s) of
        Some existing \<Rightarrow>
          raise_if (cx_content_hash existing \<noteq> dg)
            (ValueError ''context manifest revision is immutable'')
          (Inr (\<lparr>pr_ref = ref', pr_replay = True\<rparr>, s))
      | None \<Rightarrow>
          res_bind (tab_add cx_context_manifest_version_id
            \<lparr>cx_context_manifest_version_id = stable_id E (''context-manifest:'' @ ref'),
             cx_context_id = cm_context_id m, cx_context_revision = cm_context_revision m,
             cx_parent_context_id = cm_parent_context_id m,
             cx_task_contract_version_id = cr_task_contract_version_id contract,
             cx_role_ref = cm_role_ref m, cx_case_ref = cm_case_ref m,
             cx_knowledge_revision = cm_knowledge_revision m, cx_manifest_json = m,
             cx_content_hash = dg, cx_created_at = now\<rparr> (ts_contexts s))
            (\<lambda>rows. Inr (\<lparr>pr_ref = ref', pr_replay = False\<rparr>, s\<lparr>ts_contexts := rows\<rparr>))))"

section \<open>The event log\<close>

definition last_seq :: "task_store \<Rightarrow> string \<Rightarrow> nat" where
  "last_seq s rid = foldr max (map te_seq (run_events s rid)) 0"

definition find_event_by_key :: "task_store \<Rightarrow> string \<Rightarrow> string \<Rightarrow> event_row option" where
  "find_event_by_key s rid k =
     find (\<lambda>e. te_task_run_id e = rid \<and> te_idempotency_key e = k) (ts_events s)"

definition new_event_row ::
  "task_store \<Rightarrow> run_row \<Rightarrow> task_event_type \<Rightarrow> string \<Rightarrow> nat \<Rightarrow> string \<Rightarrow> string \<Rightarrow> int \<Rightarrow> string
     \<Rightarrow> event_row" where
  "new_event_row s run event_type producer base_rev payload_ref idem_key instant event_id =
     \<lparr>te_event_id = event_id, te_task_run_id = rr_run_id run,
      te_parent_run_id = rr_parent_run_id run, te_seq = last_seq s (rr_run_id run) + 1,
      te_event_type = event_type, te_producer = producer,
      te_base_context_revision = base_rev, te_payload_ref = payload_ref,
      te_idempotency_key = idem_key, te_emitted_at = instant\<rparr>"

definition new_delivery_row :: "string \<Rightarrow> string \<Rightarrow> int \<Rightarrow> delivery_row" where
  "new_delivery_row event_id stream_name instant =
     \<lparr>dl_event_id = event_id, dl_stream_name = stream_name, dl_status = ''pending'',
      dl_attempts = 0, dl_available_at = instant, dl_delivered_at = None,
      dl_redis_message_id = None, dl_last_error = None\<rparr>"

definition append_task_event ::
  "task_store \<Rightarrow> string \<Rightarrow> task_event_type \<Rightarrow> string \<Rightarrow> nat \<Rightarrow> string \<Rightarrow> string \<Rightarrow> string
     \<Rightarrow> int \<Rightarrow> string \<Rightarrow> ((task_event \<times> bool) \<times> task_store) res" where
  "append_task_event s task_run_id event_type producer base_rev payload_ref idem_key stream_name
       instant fresh_event_id =
     res_bind (res_of_option (run_not_found task_run_id) (get_run s task_run_id)) (\<lambda>run.
     case find_event_by_key s task_run_id idem_key of
       Some existing \<Rightarrow> res_bind (task_event_view existing) (\<lambda>v. Inr ((v, True), s))
     | None \<Rightarrow>
         (let event = new_event_row s run event_type producer base_rev payload_ref idem_key instant
                fresh_event_id in
          res_bind (tab_add te_event_id event (ts_events s)) (\<lambda>evs.
          res_bind (tab_add dl_event_id (new_delivery_row fresh_event_id stream_name instant)
              (ts_deliveries s)) (\<lambda>dls.
          res_bind (task_event_view event) (\<lambda>v.
          Inr ((v, False), s\<lparr>ts_events := evs, ts_deliveries := dls\<rparr>))))))"

fun event_for_transition :: "task_run_status \<Rightarrow> task_event_type" where
  "event_for_transition RUNNING = TASK_STARTED"
| "event_for_transition WAITING_INPUT = NEED_INPUT"
| "event_for_transition WAITING_DEPENDENCY = NEED_CONTEXT"
| "event_for_transition BLOCKED = TASK_BLOCKED"
| "event_for_transition COMPLETED = TASK_COMPLETED"
| "event_for_transition FAILED = TASK_FAILED"
| "event_for_transition TIMED_OUT = TASK_FAILED"
| "event_for_transition CANCELLED = TASK_CANCELED"
| "event_for_transition SUBMITTED = TASK_PATCHED"
| "event_for_transition QUEUED = TASK_PATCHED"

section \<open>Task runs\<close>

text \<open>The parent checks of \<^verbatim>\<open>create_task_run\<close>.\<close>

definition check_parent :: "task_store \<Rightarrow> task_contract \<Rightarrow> string option \<Rightarrow> unit res" where
  "check_parent s contract parent_run_id =
     (case parent_run_id of
        None \<Rightarrow> Inr ()
      | Some pid \<Rightarrow>
          res_bind (res_of_option (LookupError (''parent task run not found: '' @ pid)) (get_run s pid))
            (\<lambda>parent.
          raise_if (rr_status parent \<noteq> RUNNING)
            (ValueError ''child task can only be created from a running parent'')
          (res_bind (res_of_option
              (RuntimeError ''parent task run references missing task contract version'')
              (tab_get cr_task_contract_version_id (rr_task_contract_version_id parent)
                (ts_contracts s)))
            (\<lambda>row. let delegation = validate_child_contract (cr_contract_json row) contract in
               if dk_allowed delegation then Inr ()
               else Inl (ValueError (case dk_reason delegation of
                 None \<Rightarrow> ''delegation_denied''
               | Some r \<Rightarrow> if r = [] then ''delegation_denied'' else r))))))"

text \<open>\<^verbatim>\<open>run_id or str(uuid4())\<close>\<close>

definition resolved_run_id :: "string option \<Rightarrow> string \<Rightarrow> string" where
  "resolved_run_id rid fresh = (case rid of None \<Rightarrow> fresh | Some r \<Rightarrow> if r = [] then fresh else r)"

definition new_run_row ::
  "contract_row \<Rightarrow> context_row \<Rightarrow> task_contract \<Rightarrow> context_manifest \<Rightarrow> role_profile \<Rightarrow> string
     \<Rightarrow> string option \<Rightarrow> string option \<Rightarrow> string \<Rightarrow> int \<Rightarrow> run_row" where
  "new_run_row contract_model context_model contract manifest role envelope_ref case_id parent rid
       instant =
     \<lparr>rr_run_id = rid,
      rr_task_contract_version_id = cr_task_contract_version_id contract_model,
      rr_task_contract_id = tc_task_contract_id contract,
      rr_task_contract_revision = tc_contract_revision contract,
      rr_context_manifest_version_id = cx_context_manifest_version_id context_model,
      rr_context_id = cm_context_id manifest, rr_context_revision = cm_context_revision manifest,
      rr_case_id = case_id, rr_parent_run_id = parent, rr_role_id = rp_role_id role,
      rr_role_version = rp_version role, rr_status = SUBMITTED,
      rr_base_context_revision = cm_context_revision manifest,
      rr_execution_envelope_ref = envelope_ref, rr_result_ref = None, rr_stop_reason = None,
      rr_created_at = instant, rr_updated_at = instant, rr_finished_at = None\<rparr>"

definition create_task_run ::
  "hash_env \<Rightarrow> task_store \<Rightarrow> task_contract \<Rightarrow> context_manifest \<Rightarrow> role_profile \<Rightarrow> string \<Rightarrow> string
     \<Rightarrow> string option \<Rightarrow> string option \<Rightarrow> string option \<Rightarrow> string \<Rightarrow> int \<Rightarrow> string \<Rightarrow> string
     \<Rightarrow> (task_run \<times> task_store) res" where
  "create_task_run E s contract manifest role envelope_ref stream_name case_id parent_run_id run_id
       producer instant fresh_run_id fresh_event_id =
     raise_if (\<not> role_accepts role (tc_task_kind contract))
       (ValueError (''role '' @ rp_role_id role @ '' does not accept task kind ''
          @ task_kind_value (tc_task_kind contract)))
     (raise_if (cm_task_contract_ref manifest \<noteq> task_contract_ref contract)
       (ValueError ''ContextManifest task_contract_ref does not match TaskContract'')
     (raise_if (cm_role_ref manifest \<noteq> rp_role_id role @ ''@'' @ rp_version role)
       (ValueError ''ContextManifest role_ref does not match RoleProfile'')
     (res_bind (check_parent s contract parent_run_id) (\<lambda>_.
      res_bind (persist_task_contract E s contract instant) (\<lambda>(_, s1).
      res_bind (persist_context_manifest E s1 manifest instant) (\<lambda>(_, s2).
      res_bind (contract_from_ref s2 (task_contract_ref contract)) (\<lambda>contract_model.
      res_bind (context_from_ref s2 (context_manifest_ref manifest)) (\<lambda>context_model.
      let rid = resolved_run_id run_id fresh_run_id in
      raise_if (get_run s2 rid \<noteq> None) (ValueError (''task run already exists: '' @ rid))
      (let model = new_run_row contract_model context_model contract manifest role envelope_ref
             case_id parent_run_id rid instant;
           s3 = s2\<lparr>ts_runs := ts_runs s2 @ [model]\<rparr> in
       res_bind (append_task_event s3 rid TASK_CREATED producer (cm_context_revision manifest)
           (''task-run:'' @ rid) (''task-created:'' @ rid) stream_name instant fresh_event_id)
         (\<lambda>(_, s4).
       res_bind (task_run_view model) (\<lambda>v. Inr (v, s4))))))))))))"

definition claim_queued_task_run ::
  "task_store \<Rightarrow> string \<Rightarrow> string \<Rightarrow> string \<Rightarrow> int \<Rightarrow> string \<Rightarrow> (task_run option \<times> task_store) res" where
  "claim_queued_task_run s run_id stream_name producer instant fresh_event_id =
     res_bind (res_of_option (run_not_found run_id) (get_run s run_id)) (\<lambda>model.
     if rr_status model \<noteq> QUEUED then Inr (None, s)
     else
       (let model' = model\<lparr>rr_status := RUNNING, rr_updated_at := instant\<rparr> in
        res_bind (append_task_event (put_run s model') run_id TASK_STARTED producer
            (rr_context_revision model')
            (''role-claim:'' @ rr_role_id model' @ ''@'' @ rr_role_version model')
            (''role-claim:'' @ run_id @ '':'' @ show_nat (rr_context_revision model'))
            stream_name instant fresh_event_id)
          (\<lambda>(_, s2). res_bind (task_run_view model') (\<lambda>v. Inr (Some v, s2)))))"

text \<open>The row \<^verbatim>\<open>update_task_context\<close> writes.\<close>

definition rebound_row :: "run_row \<Rightarrow> context_row \<Rightarrow> context_manifest \<Rightarrow> int \<Rightarrow> run_row" where
  "rebound_row model context_model manifest instant = model\<lparr>
     rr_context_manifest_version_id := cx_context_manifest_version_id context_model,
     rr_context_id := cm_context_id manifest,
     rr_context_revision := cm_context_revision manifest,
     rr_base_context_revision := cm_context_revision manifest,
     rr_updated_at := instant\<rparr>"

definition update_task_context ::
  "hash_env \<Rightarrow> task_store \<Rightarrow> string \<Rightarrow> context_manifest \<Rightarrow> string \<Rightarrow> string \<Rightarrow> int \<Rightarrow> string
     \<Rightarrow> (task_run \<times> task_store) res" where
  "update_task_context E s run_id manifest stream_name producer instant fresh_event_id =
     res_bind (res_of_option (run_not_found run_id) (get_run s run_id)) (\<lambda>model.
     raise_if (terminal_status (rr_status model))
       (ValueError (''terminal task run is immutable: '' @ task_run_status_value (rr_status model)))
     (raise_if (cm_task_contract_ref manifest
                  \<noteq> versioned_ref (rr_task_contract_id model) (rr_task_contract_revision model))
       (ValueError ''updated context must reference the same task contract revision'')
     (raise_if (cm_role_ref manifest \<noteq> rr_role_id model @ ''@'' @ rr_role_version model)
       (ValueError ''updated context must preserve the TaskRun role revision'')
     (raise_if (cm_context_id manifest = rr_context_id model
                \<and> cm_context_revision manifest \<le> rr_context_revision model)
       (ValueError ''updated context revision must advance monotonically'')
     (raise_if (cm_context_id manifest \<noteq> rr_context_id model
                \<and> cm_parent_context_id manifest \<noteq> Some (rr_context_id model))
       (ValueError ''forked context must name the current context as parent_context_id'')
     (res_bind (persist_context_manifest E s manifest instant) (\<lambda>(_, s1).
      res_bind (context_from_ref s1 (context_manifest_ref manifest)) (\<lambda>context_model.
      let model' = rebound_row model context_model manifest instant in
      res_bind (append_task_event (put_run s1 model') run_id CONTEXT_UPDATED producer
          (cm_context_revision manifest) (''context:'' @ context_manifest_ref manifest)
          (''context-updated:'' @ context_manifest_ref manifest) stream_name instant fresh_event_id)
        (\<lambda>(_, s2). res_bind (task_run_view model') (\<lambda>v. Inr (v, s2)))))))))))"

text \<open>The row \<^verbatim>\<open>transition_task_run\<close> writes.\<close>

definition transitioned_row ::
  "run_row \<Rightarrow> task_run_status \<Rightarrow> string option \<Rightarrow> string option \<Rightarrow> int \<Rightarrow> run_row" where
  "transitioned_row model target result_ref stop_reason instant =
     (let m = model\<lparr>rr_status := target, rr_updated_at := instant, rr_result_ref := result_ref,
                rr_stop_reason := stop_reason\<rparr>
      in if terminal_status target then m\<lparr>rr_finished_at := Some instant\<rparr> else m)"

definition transition_task_run ::
  "task_store \<Rightarrow> string \<Rightarrow> task_run_status \<Rightarrow> string \<Rightarrow> string \<Rightarrow> string \<Rightarrow> string \<Rightarrow> string option
     \<Rightarrow> string option \<Rightarrow> int \<Rightarrow> string \<Rightarrow> (task_run \<times> task_store) res" where
  "transition_task_run s run_id target payload_ref idem_key stream_name producer result_ref
       stop_reason instant fresh_event_id =
     raise_if (case stop_reason of None \<Rightarrow> False | Some x \<Rightarrow> 128 < length x)
       (ValueError ''task stop_reason exceeds storage contract (128 characters)'')
     (res_bind (res_of_option (run_not_found run_id) (get_run s run_id)) (\<lambda>model.
     raise_if (terminal_status (rr_status model))
       (ValueError (''terminal task run is immutable: '' @ task_run_status_value (rr_status model)))
     (raise_if (\<not> can_transition_task_run (rr_status model) target)
       (ValueError (''invalid task run transition: '' @ task_run_status_value (rr_status model)
          @ ''->'' @ task_run_status_value target))
     (let model' = transitioned_row model target result_ref stop_reason instant in
      res_bind (append_task_event (put_run s model') run_id (event_for_transition target) producer
          (rr_context_revision model') payload_ref idem_key stream_name instant fresh_event_id)
        (\<lambda>(_, s2). res_bind (task_run_view model') (\<lambda>v. Inr (v, s2)))))))"

section \<open>Steps of the store\<close>

text \<open>
  One successful operation of the service on behalf of some caller; the arguments are the
  caller's. Contracts and manifests are objects that passed their validators. A contract that
  replays a stored revision has the digest of the stored one; \<open>no_collision\<close> says that the two
  then grant the same authority, which SHA-256 guarantees short of a collision.
\<close>

definition valid_manifest :: "context_manifest \<Rightarrow> bool" where
  "valid_manifest m \<longleftrightarrow> 1 \<le> cm_context_revision m"

definition contract_authority :: "task_contract \<Rightarrow> task_kind \<times> effect_ceiling \<times> delegation_ceiling" where
  "contract_authority c = (tc_task_kind c, tc_effect_ceiling c, tc_delegation_ceiling c)"

definition no_collision :: "hash_env \<Rightarrow> task_store \<Rightarrow> task_contract \<Rightarrow> bool" where
  "no_collision E s c \<longleftrightarrow>
     (\<forall>row \<in> set (ts_contracts s).
        contract_key row = (tc_task_contract_id c, tc_contract_revision c)
        \<and> cr_content_hash row = digest E (dump_task_contract c)
        \<longrightarrow> contract_authority (cr_contract_json row) = contract_authority c)"

inductive store_step :: "hash_env \<Rightarrow> task_store \<Rightarrow> task_store \<Rightarrow> bool" for E where
  persist_contract: "valid_contract c \<Longrightarrow> persist_task_contract E s c now = Inr (r, t) \<Longrightarrow> store_step E s t"
| persist_context: "valid_manifest m \<Longrightarrow> persist_context_manifest E s m now = Inr (r, t) \<Longrightarrow> store_step E s t"
| create: "valid_contract c \<Longrightarrow> valid_manifest m \<Longrightarrow> no_collision E s c \<Longrightarrow>
    create_task_run E s c m role env stream cid par rid producer now fr fe = Inr (v, t) \<Longrightarrow>
    store_step E s t"
| claim: "claim_queued_task_run s rid stream producer now fe = Inr (v', t) \<Longrightarrow> store_step E s t"
| update_context: "valid_manifest m \<Longrightarrow>
    update_task_context E s rid m stream producer now fe = Inr (v, t) \<Longrightarrow> store_step E s t"
| transition: "transition_task_run s rid target pl key stream producer rref sr now fe = Inr (v, t) \<Longrightarrow>
    store_step E s t"
| append_event: "append_task_event s rid ty producer rev' pl key stream now fe = Inr (a, t) \<Longrightarrow>
    store_step E s t"

section \<open>What every operation keeps\<close>

text \<open>
  \<open>store_evolves\<close>: rows of immutable tables are only added, every run keeps its identity columns,
  moves along the transition table, and is frozen once it is terminal.
\<close>

definition run_identity where
  "run_identity r = (rr_run_id r, rr_task_contract_version_id r,
     (rr_task_contract_id r, rr_task_contract_revision r), rr_case_id r, rr_parent_run_id r,
     (rr_role_id r, rr_role_version r), rr_execution_envelope_ref r, rr_created_at r)"

definition row_evolves :: "run_row \<Rightarrow> run_row \<Rightarrow> bool" where
  "row_evolves r r' \<longleftrightarrow> run_identity r' = run_identity r
     \<and> can_transition_task_run\<^sup>*\<^sup>* (rr_status r) (rr_status r')
     \<and> (terminal_status (rr_status r) \<longrightarrow> r' = r)"

definition store_evolves :: "task_store \<Rightarrow> task_store \<Rightarrow> bool" where
  "store_evolves s t \<longleftrightarrow>
     prefix (ts_contracts s) (ts_contracts t) \<and> prefix (ts_contexts s) (ts_contexts t)
     \<and> prefix (ts_events s) (ts_events t)
     \<and> (\<forall>rid r. get_run s rid = Some r \<longrightarrow> (\<exists>r'. get_run t rid = Some r' \<and> row_evolves r r'))"

text \<open>The invariant of the tables.\<close>

definition contracts_ok :: "task_store \<Rightarrow> bool" where
  "contracts_ok s \<longleftrightarrow> distinct (map contract_key (ts_contracts s))
     \<and> distinct (map cr_task_contract_version_id (ts_contracts s))
     \<and> (\<forall>row \<in> set (ts_contracts s). valid_contract (cr_contract_json row))"

definition contexts_ok :: "task_store \<Rightarrow> bool" where
  "contexts_ok s \<longleftrightarrow> distinct (map context_key (ts_contexts s))
     \<and> distinct (map cx_context_manifest_version_id (ts_contexts s))"

definition run_contract :: "task_store \<Rightarrow> run_row \<Rightarrow> contract_row option" where
  "run_contract s r =
     tab_get cr_task_contract_version_id (rr_task_contract_version_id r) (ts_contracts s)"

definition run_context :: "task_store \<Rightarrow> run_row \<Rightarrow> context_row option" where
  "run_context s r =
     tab_get cx_context_manifest_version_id (rr_context_manifest_version_id r) (ts_contexts s)"

definition parent_conforms :: "task_store \<Rightarrow> run_row \<Rightarrow> contract_row \<Rightarrow> bool" where
  "parent_conforms s r row \<longleftrightarrow>
     (case rr_parent_run_id r of None \<Rightarrow> True
      | Some p \<Rightarrow> \<exists>prow pcrow. get_run s p = Some prow \<and> run_contract s prow = Some pcrow
          \<and> dk_allowed (validate_child_contract (cr_contract_json pcrow) (cr_contract_json row)))"

definition row_shape_ok :: "run_row \<Rightarrow> bool" where
  "row_shape_ok r \<longleftrightarrow> (terminal_status (rr_status r) \<longleftrightarrow> rr_finished_at r \<noteq> None)
     \<and> (case rr_stop_reason r of None \<Rightarrow> True | Some x \<Rightarrow> length x \<le> 128)
     \<and> rr_base_context_revision r = rr_context_revision r \<and> 1 \<le> rr_context_revision r"

definition run_ok :: "task_store \<Rightarrow> run_row \<Rightarrow> bool" where
  "run_ok s r \<longleftrightarrow>
     (\<exists>row. run_contract s r = Some row
        \<and> contract_key row = (rr_task_contract_id r, rr_task_contract_revision r)
        \<and> parent_conforms s r row)
     \<and> (\<exists>xrow. run_context s r = Some xrow
        \<and> context_key xrow = (rr_context_id r, rr_context_revision r))
     \<and> row_shape_ok r"

definition runs_ok :: "task_store \<Rightarrow> bool" where
  "runs_ok s \<longleftrightarrow> distinct (map rr_run_id (ts_runs s)) \<and> (\<forall>r \<in> set (ts_runs s). run_ok s r)"

definition seqs_ok :: "event_row list \<Rightarrow> bool" where
  "seqs_ok es \<longleftrightarrow> map te_seq es = [1..<Suc (length es)]"

definition events_ok :: "task_store \<Rightarrow> bool" where
  "events_ok s \<longleftrightarrow> (\<forall>rid. seqs_ok (run_events s rid))
     \<and> distinct (map (\<lambda>e. (te_task_run_id e, te_idempotency_key e)) (ts_events s))
     \<and> distinct (map te_event_id (ts_events s))
     \<and> map dl_event_id (ts_deliveries s) = map te_event_id (ts_events s)
     \<and> (\<forall>e \<in> set (ts_events s). get_run s (te_task_run_id e) \<noteq> None \<and> task_event_view e = Inr e)"

definition store_inv :: "task_store \<Rightarrow> bool" where
  "store_inv s \<longleftrightarrow> contracts_ok s \<and> contexts_ok s \<and> runs_ok s \<and> events_ok s"

text \<open>Runs listed from an ancestor down to a descendant, each the parent of the next.\<close>

fun lineage :: "task_store \<Rightarrow> run_row list \<Rightarrow> bool" where
  "lineage s [] = True"
| "lineage s [r] = (get_run s (rr_run_id r) = Some r)"
| "lineage s (p # r # rs) =
     (get_run s (rr_run_id p) = Some p \<and> rr_parent_run_id r = Some (rr_run_id p) \<and> lineage s (r # rs))"

definition contract_of :: "task_store \<Rightarrow> run_row \<Rightarrow> task_contract" where
  "contract_of s r = cr_contract_json (the (run_contract s r))"

text \<open>The field constraints of \<^verbatim>\<open>TaskEvent\<close>, as one predicate.\<close>

definition event_shape_ok :: "task_event \<Rightarrow> bool" where
  "event_shape_ok e \<longleftrightarrow> 1 \<le> te_seq e \<and> 1 \<le> te_base_context_revision e \<and> \<not> blank (te_producer e)
     \<and> \<not> blank (te_payload_ref e) \<and> \<not> blank (te_idempotency_key e)"

text \<open>Arguments for the concrete instances of the theorems.\<close>

definition sample_hash :: hash_env where
  "sample_hash = \<lparr>sha256_hex = (\<lambda>_. ''h''), uuid5_url = (\<lambda>x. x)\<rparr>"

definition sample_role :: role_profile where
  "sample_role = snd (canonical_roles ! 1)"

definition sample_manifest :: "string \<Rightarrow> nat \<Rightarrow> string \<Rightarrow> context_manifest" where
  "sample_manifest xid rev' tref =
     \<lparr>cm_context_id = xid, cm_context_revision = rev', cm_parent_context_id = None,
      cm_task_contract_ref = tref, cm_role_ref = ''EnrichmentRole@1'', cm_case_ref = None,
      cm_knowledge_revision = None, cm_investigation_state_ref = None,
      cm_enrichment_state_refs = [], cm_evidence_refs = [], cm_object_refs = [],
      cm_relation_refs = [], cm_retrieval_invocation_refs = [], cm_query_intent = None,
      cm_query_intent_model_ref = None, cm_trajectory_checkpoint_ref = None,
      cm_skill_selection_refs = [], cm_experience_pattern_refs = [], cm_policy_context_ref = ''p'',
      cm_capability_envelope_ref = ''e'', cm_budget_ref = ''b'', cm_cache_hint = None\<rparr>"

definition state_of :: "('a \<times> 's) res \<Rightarrow> 's \<Rightarrow> 's" where
  "state_of r s = (case r of Inl _ \<Rightarrow> s | Inr (_, t) \<Rightarrow> t)"

definition sample_create :: "task_store \<Rightarrow> string option \<Rightarrow> string \<Rightarrow> nat \<Rightarrow> (task_run \<times> task_store) res" where
  "sample_create s par rid depth =
     create_task_run sample_hash s
       (sample_contract (''c'' @ rid)
         (if depth = 0 then default_delegation_ceiling else sample_ceiling depth) INTERNAL_STATE)
       (sample_manifest (''x'' @ rid) 1 (''c'' @ rid @ ''@1'')) sample_role ''env'' ''tasks'' None par
       (Some rid) ''svc'' 10 ''fresh'' (''e1'' @ rid)"

definition sample_move :: "task_store \<Rightarrow> string \<Rightarrow> task_run_status \<Rightarrow> string option \<Rightarrow> string
    \<Rightarrow> (task_run \<times> task_store) res" where
  "sample_move s rid target reason key =
     transition_task_run s rid target ''payload'' key ''tasks'' ''svc'' None reason 20 (key @ rid)"

text \<open>A run that is queued, and the same run running with a child that has completed.\<close>

definition sample_queued :: task_store where
  "sample_queued =
     state_of (sample_move (state_of (sample_create empty_store None ''p'' 2) empty_store)
       ''p'' QUEUED None ''k1'') empty_store"

definition sample_running :: task_store where
  "sample_running = state_of (claim_queued_task_run sample_queued ''p'' ''tasks'' ''svc'' 30 ''e3p'') empty_store"

definition sample_family :: task_store where
  "sample_family = state_of (sample_create sample_running (Some ''p'') ''q'' 0) empty_store"

text \<open>The rows of these stores.\<close>

definition sample_contract_row :: "string \<Rightarrow> delegation_ceiling \<Rightarrow> contract_row" where
  "sample_contract_row rid cap =
     \<lparr>cr_task_contract_version_id = ''secfusion:task-contract:c'' @ rid @ ''@1'',
      cr_task_contract_id = ''c'' @ rid, cr_contract_revision = 1, cr_principal = ''svc'',
      cr_on_behalf_of = None, cr_task_kind = ENRICHMENT, cr_effect_ceiling = INTERNAL_STATE,
      cr_policy_revision = ''p1'', cr_contract_json = sample_contract (''c'' @ rid) cap INTERNAL_STATE,
      cr_content_hash = ''h'', cr_created_at = 10\<rparr>"

definition sample_context_row :: "string \<Rightarrow> context_row" where
  "sample_context_row rid =
     \<lparr>cx_context_manifest_version_id = ''secfusion:context-manifest:x'' @ rid @ ''@1'',
      cx_context_id = ''x'' @ rid, cx_context_revision = 1, cx_parent_context_id = None,
      cx_task_contract_version_id = ''secfusion:task-contract:c'' @ rid @ ''@1'',
      cx_role_ref = ''EnrichmentRole@1'', cx_case_ref = None, cx_knowledge_revision = None,
      cx_manifest_json = sample_manifest (''x'' @ rid) 1 (''c'' @ rid @ ''@1''),
      cx_content_hash = ''h'', cx_created_at = 10\<rparr>"

definition sample_run_row :: "string \<Rightarrow> string option \<Rightarrow> task_run_status \<Rightarrow> int \<Rightarrow> run_row" where
  "sample_run_row rid par status updated =
     \<lparr>rr_run_id = rid, rr_task_contract_version_id = ''secfusion:task-contract:c'' @ rid @ ''@1'',
      rr_task_contract_id = ''c'' @ rid, rr_task_contract_revision = 1,
      rr_context_manifest_version_id = ''secfusion:context-manifest:x'' @ rid @ ''@1'',
      rr_context_id = ''x'' @ rid, rr_context_revision = 1, rr_case_id = None,
      rr_parent_run_id = par, rr_role_id = ''EnrichmentRole'', rr_role_version = ''1'',
      rr_status = status, rr_base_context_revision = 1, rr_execution_envelope_ref = ''env'',
      rr_result_ref = None, rr_stop_reason = None, rr_created_at = 10, rr_updated_at = updated,
      rr_finished_at = None\<rparr>"

definition sample_event_row ::
  "string \<Rightarrow> string \<Rightarrow> string option \<Rightarrow> nat \<Rightarrow> task_event_type \<Rightarrow> string \<Rightarrow> string \<Rightarrow> int \<Rightarrow> event_row" where
  "sample_event_row eid rid par seq ty payload key emitted =
     \<lparr>te_event_id = eid, te_task_run_id = rid, te_parent_run_id = par, te_seq = seq,
      te_event_type = ty, te_producer = ''svc'', te_base_context_revision = 1,
      te_payload_ref = payload, te_idempotency_key = key, te_emitted_at = emitted\<rparr>"

section \<open>What a successful operation did\<close>

lemma task_event_view_Inr [simp]: "task_event_view e = Inr v \<longleftrightarrow> v = e \<and> event_shape_ok e"
  by (auto simp: task_event_view_def validate_non_empty_identity_def res_simps event_shape_ok_def
      not_less)

lemma append_task_event_ok:
  assumes "append_task_event s rid ty producer rev' pl key stream now fe = Inr (a, t)"
  shows "\<exists>run. get_run s rid = Some run \<and>
    ((snd a \<and> t = s \<and> find_event_by_key s rid key = Some (fst a))
     \<or> (\<not> snd a \<and> find_event_by_key s rid key = None
        \<and> fe \<notin> set (map te_event_id (ts_events s))
        \<and> fst a = new_event_row s run ty producer rev' pl key now fe
        \<and> event_shape_ok (fst a)
        \<and> t = s\<lparr>ts_events := ts_events s @ [fst a],
                 ts_deliveries := ts_deliveries s @ [new_delivery_row fe stream now]\<rparr>))"
  using assms
  by (auto simp: append_task_event_def res_simps Let_def new_event_row_def [where event_id = fe]
      split: option.splits)

lemma append_task_event_tables:
  assumes "append_task_event s rid ty producer rev' pl key stream now fe = Inr (a, t)"
  shows "ts_contracts t = ts_contracts s" "ts_contexts t = ts_contexts s" "ts_runs t = ts_runs s"
    and "prefix (ts_events s) (ts_events t)"
  using append_task_event_ok [OF assms] by auto

lemma find_event_by_key_SomeD:
  "find_event_by_key s rid k = Some e \<Longrightarrow>
     e \<in> set (ts_events s) \<and> te_task_run_id e = rid \<and> te_idempotency_key e = k"
  by (auto simp: find_event_by_key_def find_Some_iff)

lemma find_event_by_key_None:
  "find_event_by_key s rid k = None \<longleftrightarrow>
     (rid, k) \<notin> set (map (\<lambda>e. (te_task_run_id e, te_idempotency_key e)) (ts_events s))"
  by (auto simp: find_event_by_key_def find_None_iff)

lemma task_run_view_Inr: "row_shape_ok r \<Longrightarrow> \<exists>v. task_run_view r = Inr v"
  by (auto simp: task_run_view_def row_shape_ok_def raise_if_def split: option.splits)

lemma task_run_view_fields:
  assumes "task_run_view r = Inr v"
  shows "tv_run_id v = rr_run_id r" "tv_status v = rr_status r" "tv_role_id v = rr_role_id r"
    "tv_stop_reason v = rr_stop_reason r" "1 \<le> rr_base_context_revision r"
  using assms by (auto simp: task_run_view_def res_simps)

lemma persist_task_contract_ok:
  assumes "persist_task_contract E s c now = Inr (r, t)"
  shows "(t = s \<and> (\<exists>row. tab_get contract_key (tc_task_contract_id c, tc_contract_revision c)
              (ts_contracts s) = Some row \<and> cr_content_hash row = digest E (dump_task_contract c)))
    \<or> (\<exists>row. t = s\<lparr>ts_contracts := ts_contracts s @ [row]\<rparr>
        \<and> contract_key row = (tc_task_contract_id c, tc_contract_revision c)
        \<and> contract_key row \<notin> set (map contract_key (ts_contracts s))
        \<and> cr_task_contract_version_id row
             \<notin> set (map cr_task_contract_version_id (ts_contracts s))
        \<and> cr_contract_json row = c)"
  using assms
  by (auto simp: persist_task_contract_def Let_def res_simps tab_get_None_iff split: option.splits)

lemma persist_context_manifest_ok:
  assumes "persist_context_manifest E s m now = Inr (r, t)"
  shows "(t = s \<and> (\<exists>row. tab_get context_key (cm_context_id m, cm_context_revision m)
              (ts_contexts s) = Some row \<and> cx_content_hash row = digest E (dump_context_manifest m)))
    \<or> (\<exists>row. t = s\<lparr>ts_contexts := ts_contexts s @ [row]\<rparr>
        \<and> context_key row = (cm_context_id m, cm_context_revision m)
        \<and> context_key row \<notin> set (map context_key (ts_contexts s))
        \<and> cx_context_manifest_version_id row
             \<notin> set (map cx_context_manifest_version_id (ts_contexts s)))"
  using assms
  by (auto simp: persist_context_manifest_def Let_def res_simps tab_get_None_iff split: option.splits)

section \<open>Evolution\<close>

lemma row_evolves_refl [simp, intro]: "row_evolves r r"
  by (simp add: row_evolves_def)

lemma row_evolves_trans:
  "row_evolves r r' \<Longrightarrow> row_evolves r' r'' \<Longrightarrow> row_evolves r r''"
  unfolding row_evolves_def by (metis rtranclp_trans)

lemma store_evolves_refl [simp, intro]: "store_evolves s s"
  by (auto simp: store_evolves_def)

lemma store_evolves_trans:
  assumes st: "store_evolves s t" and tu: "store_evolves t u"
  shows "store_evolves s u"
proof -
  have "\<exists>r'. get_run u rid = Some r' \<and> row_evolves r r'" if "get_run s rid = Some r" for rid r
    using that st tu unfolding store_evolves_def by (meson row_evolves_trans)
  then show ?thesis using st tu
    unfolding store_evolves_def by (auto intro: prefix_order.trans)
qed

lemma store_evolves_same_runs:
  assumes "ts_runs t = ts_runs s" and "prefix (ts_contracts s) (ts_contracts t)"
    and "prefix (ts_contexts s) (ts_contexts t)" and "prefix (ts_events s) (ts_events t)"
  shows "store_evolves s t"
  using assms by (auto simp: store_evolves_def)

lemma store_evolves_put_run:
  assumes "get_run s (rr_run_id r') = Some r" and "row_evolves r r'"
  shows "store_evolves s (put_run s r')"
proof -
  have "rr_run_id r' \<in> rr_run_id ` set (ts_runs s)"
    using tab_get_Some_D [OF assms(1)] by (metis image_eqI)
  then show ?thesis using assms by (auto simp: store_evolves_def tab_simps)
qed

lemma store_evolves_add_run: "store_evolves s (s\<lparr>ts_runs := ts_runs s @ [r]\<rparr>)"
  by (auto simp: store_evolves_def tab_simps)

lemma store_evolves_append:
  "append_task_event s rid ty producer rev' pl key stream now fe = Inr (a, t) \<Longrightarrow> store_evolves s t"
  using append_task_event_tables by (intro store_evolves_same_runs) auto

lemma store_evolves_persist_contract:
  "persist_task_contract E s c now = Inr (r, t) \<Longrightarrow> store_evolves s t"
  by (auto dest!: persist_task_contract_ok intro: store_evolves_same_runs)

lemma store_evolves_persist_context:
  "persist_context_manifest E s m now = Inr (r, t) \<Longrightarrow> store_evolves s t"
  by (auto dest!: persist_context_manifest_ok intro: store_evolves_same_runs)

lemma transitioned_row_fields [simp]:
  "rr_run_id (transitioned_row r target rref sr now) = rr_run_id r"
  "rr_status (transitioned_row r target rref sr now) = target"
  "rr_context_revision (transitioned_row r target rref sr now) = rr_context_revision r"
  "rr_stop_reason (transitioned_row r target rref sr now) = sr"
  "rr_role_id (transitioned_row r target rref sr now) = rr_role_id r"
  "rr_parent_run_id (transitioned_row r target rref sr now) = rr_parent_run_id r"
  "rr_updated_at (transitioned_row r target rref sr now) = now"
  by (simp_all add: transitioned_row_def Let_def)

lemma rebound_row_fields [simp]:
  "rr_run_id (rebound_row r xrow m now) = rr_run_id r"
  "rr_status (rebound_row r xrow m now) = rr_status r"
  "rr_context_revision (rebound_row r xrow m now) = cm_context_revision m"
  by (simp_all add: rebound_row_def)

lemma row_evolves_transition:
  assumes "can_transition_task_run (rr_status r) target" and "\<not> terminal_status (rr_status r)"
  shows "row_evolves r (transitioned_row r target rref sr now)"
  using assms
  by (auto simp: row_evolves_def run_identity_def transitioned_row_def Let_def)

lemma transition_task_run_ok:
  assumes "transition_task_run s rid target pl key stream producer rref sr now fe = Inr (v, t)"
  obtains r a where "get_run s rid = Some r" "\<not> terminal_status (rr_status r)"
    "can_transition_task_run (rr_status r) target"
    "append_task_event (put_run s (transitioned_row r target rref sr now)) rid
       (event_for_transition target) producer (rr_context_revision r) pl key stream now fe = Inr (a, t)"
    "task_run_view (transitioned_row r target rref sr now) = Inr v"
    "case sr of None \<Rightarrow> True | Some x \<Rightarrow> length x \<le> 128"
  using assms
  by (auto simp: transition_task_run_def res_simps Let_def split: option.splits)

lemma claim_ok:
  assumes "claim_queued_task_run s rid stream producer now fe = Inr (v', t)"
  obtains r where "get_run s rid = Some r" "rr_status r \<noteq> QUEUED" "t = s" "v' = None"
  | r a v where "get_run s rid = Some r" "rr_status r = QUEUED"
      "append_task_event (put_run s (r\<lparr>rr_status := RUNNING, rr_updated_at := now\<rparr>)) rid
         TASK_STARTED producer (rr_context_revision r)
         (''role-claim:'' @ rr_role_id r @ ''@'' @ rr_role_version r)
         (''role-claim:'' @ rid @ '':'' @ show_nat (rr_context_revision r)) stream now fe = Inr (a, t)"
      "v' = Some v" "task_run_view (r\<lparr>rr_status := RUNNING, rr_updated_at := now\<rparr>) = Inr v"
  using assms
  by (auto simp: claim_queued_task_run_def res_simps Let_def split: if_splits)

lemma update_task_context_ok:
  assumes "update_task_context E s rid m stream producer now fe = Inr (v, t)"
  obtains r p s1 xrow a where "get_run s rid = Some r" "\<not> terminal_status (rr_status r)"
    "persist_context_manifest E s m now = Inr (p, s1)"
    "context_from_ref s1 (context_manifest_ref m) = Inr xrow"
    "append_task_event (put_run s1 (rebound_row r xrow m now)) rid
       CONTEXT_UPDATED producer (cm_context_revision m) (''context:'' @ context_manifest_ref m)
       (''context-updated:'' @ context_manifest_ref m) stream now fe = Inr (a, t)"
    "cm_context_id m = rr_context_id r \<longrightarrow> rr_context_revision r < cm_context_revision m"
    "cm_task_contract_ref m = versioned_ref (rr_task_contract_id r) (rr_task_contract_revision r)"
  using assms
  by (auto simp: update_task_context_def res_simps Let_def)

lemma create_task_run_ok:
  assumes "create_task_run E s c m role env stream cid par rid producer now fr fe = Inr (v, t)"
  obtains p s1 p' s2 crow xrow a where "check_parent s c par = Inr ()"
    "role_accepts role (tc_task_kind c)" "cm_task_contract_ref m = task_contract_ref c"
    "persist_task_contract E s c now = Inr (p, s1)"
    "persist_context_manifest E s1 m now = Inr (p', s2)"
    "contract_from_ref s2 (task_contract_ref c) = Inr crow"
    "context_from_ref s2 (context_manifest_ref m) = Inr xrow"
    "get_run s2 (resolved_run_id rid fr) = None"
    "append_task_event (s2\<lparr>ts_runs := ts_runs s2 @
        [new_run_row crow xrow c m role env cid par (resolved_run_id rid fr) now]\<rparr>)
       (resolved_run_id rid fr) TASK_CREATED producer (cm_context_revision m)
       (''task-run:'' @ resolved_run_id rid fr) (''task-created:'' @ resolved_run_id rid fr)
       stream now fe = Inr (a, t)"
    "task_run_view (new_run_row crow xrow c m role env cid par (resolved_run_id rid fr) now) = Inr v"
  using assms
  by (auto simp: create_task_run_def res_simps Let_def)

lemma store_evolves_transition:
  assumes "transition_task_run s rid target pl key stream producer rref sr now fe = Inr (v, t)"
  shows "store_evolves s t"
proof -
  from assms obtain r a where r: "get_run s rid = Some r" "\<not> terminal_status (rr_status r)"
    "can_transition_task_run (rr_status r) target"
    and app: "append_task_event (put_run s (transitioned_row r target rref sr now)) rid
       (event_for_transition target) producer (rr_context_revision r) pl key stream now fe = Inr (a, t)"
    by (rule transition_task_run_ok)
  have "rr_run_id r = rid" using r(1) by (rule tab_get_key)
  then have "store_evolves s (put_run s (transitioned_row r target rref sr now))"
    using r by (intro store_evolves_put_run [where s = s and r = r]) (auto intro: row_evolves_transition)
  with store_evolves_append [OF app] show ?thesis by (blast intro: store_evolves_trans)
qed

lemma store_evolves_claim:
  assumes "claim_queued_task_run s rid stream producer now fe = Inr (v', t)"
  shows "store_evolves s t"
  using assms
proof (cases rule: claim_ok)
  case (1 r)
  then show ?thesis by simp
next
  case (2 r a v)
  let ?r = "r\<lparr>rr_status := RUNNING, rr_updated_at := now\<rparr>"
  have "rr_run_id r = rid" using 2(1) by (rule tab_get_key)
  moreover have "row_evolves r ?r" using 2(2)
    by (auto simp: row_evolves_def run_identity_def can_transition_task_run_def
        terminal_task_run_statuses_def)
  ultimately have "store_evolves s (put_run s ?r)"
    using 2(1) by (intro store_evolves_put_run [where s = s and r = r]) auto
  with store_evolves_append [OF 2(3)] show ?thesis by (blast intro: store_evolves_trans)
qed

lemma store_evolves_update:
  assumes "update_task_context E s rid m stream producer now fe = Inr (v, t)"
  shows "store_evolves s t"
proof -
  from assms obtain r p s1 xrow a where r: "get_run s rid = Some r" "\<not> terminal_status (rr_status r)"
    and per: "persist_context_manifest E s m now = Inr (p, s1)"
    and app: "append_task_event (put_run s1 (rebound_row r xrow m now)) rid
       CONTEXT_UPDATED producer (cm_context_revision m) (''context:'' @ context_manifest_ref m)
       (''context-updated:'' @ context_manifest_ref m) stream now fe = Inr (a, t)"
    by (rule update_task_context_ok)
  have "ts_runs s1 = ts_runs s" using persist_context_manifest_ok [OF per] by auto
  then have "get_run s1 (rr_run_id (rebound_row r xrow m now)) = Some r"
    using r(1) tab_get_key [OF r(1)] by simp
  moreover have "row_evolves r (rebound_row r xrow m now)"
    using r(2) by (simp add: row_evolves_def run_identity_def rebound_row_def)
  ultimately have "store_evolves s1 (put_run s1 (rebound_row r xrow m now))"
    by (rule store_evolves_put_run)
  with store_evolves_append [OF app] store_evolves_persist_context [OF per]
  show ?thesis by (blast intro: store_evolves_trans)
qed

lemma store_evolves_create:
  assumes "create_task_run E s c m role env stream cid par rid producer now fr fe = Inr (v, t)"
  shows "store_evolves s t"
  using assms
  by (rule create_task_run_ok)
    (blast intro: store_evolves_trans store_evolves_persist_contract store_evolves_persist_context
       store_evolves_add_run store_evolves_append)

lemma store_step_evolves: "store_step E s t \<Longrightarrow> store_evolves s t"
  by (induction rule: store_step.induct)
    (auto intro: store_evolves_persist_contract store_evolves_persist_context store_evolves_create
      store_evolves_claim store_evolves_update store_evolves_transition store_evolves_append)

lemma store_steps_evolve: "(store_step E)\<^sup>*\<^sup>* s t \<Longrightarrow> store_evolves s t"
  by (induction rule: rtranclp_induct) (auto intro: store_evolves_trans store_step_evolves)


section \<open>The invariant is kept\<close>

lemma split_ref_versioned_ref: "i \<noteq> [] \<Longrightarrow> split_ref (versioned_ref i n) = Inr (i, n)"
  using rpartition_append [OF at_not_in_show_nat, of i n]
  by (simp add: split_ref_def versioned_ref_def py_isdigit_show_nat)

lemma split_ref_versioned_ref_empty: "split_ref (versioned_ref [] n) \<noteq> Inr x"
  using rpartition_append [OF at_not_in_show_nat, of "[]" n]
  by (simp add: split_ref_def versioned_ref_def)

lemma contract_from_ref_ok:
  assumes "contract_from_ref s (versioned_ref i n) = Inr row"
  shows "tab_get contract_key (i, n) (ts_contracts s) = Some row"
proof (cases "i = []")
  case True
  then show ?thesis using assms split_ref_versioned_ref_empty
    by (auto simp: contract_from_ref_def res_simps)
next
  case False
  then show ?thesis using assms by (simp add: contract_from_ref_def split_ref_versioned_ref res_simps)
qed

lemma context_from_ref_ok:
  assumes "context_from_ref s (versioned_ref i n) = Inr row"
  shows "tab_get context_key (i, n) (ts_contexts s) = Some row"
proof (cases "i = []")
  case True
  then show ?thesis using assms split_ref_versioned_ref_empty
    by (auto simp: context_from_ref_def res_simps)
next
  case False
  then show ?thesis using assms by (simp add: context_from_ref_def split_ref_versioned_ref res_simps)
qed

lemma tab_get_prefix:
  "prefix xs ys \<Longrightarrow> tab_get key k xs = Some r \<Longrightarrow> tab_get key k ys = Some r"
  by (auto simp: prefix_def tab_simps)

lemma run_contract_mono:
  "store_evolves s t \<Longrightarrow> rr_task_contract_version_id r' = rr_task_contract_version_id r \<Longrightarrow>
     run_contract s r = Some row \<Longrightarrow> run_contract t r' = Some row"
  by (auto simp: run_contract_def store_evolves_def intro: tab_get_prefix)

lemma run_context_mono: "store_evolves s t \<Longrightarrow> run_context s r = Some row \<Longrightarrow> run_context t r = Some row"
  by (auto simp: run_context_def store_evolves_def intro: tab_get_prefix)

lemma parent_conforms_mono:
  assumes ev: "store_evolves s t" and "parent_conforms s r row"
    and "rr_parent_run_id r' = rr_parent_run_id r"
  shows "parent_conforms t r' row"
proof (cases "rr_parent_run_id r")
  case None
  then show ?thesis using assms(3) by (simp add: parent_conforms_def)
next
  case (Some p)
  with assms(2) obtain prow pcrow where p: "get_run s p = Some prow" "run_contract s prow = Some pcrow"
    "dk_allowed (validate_child_contract (cr_contract_json pcrow) (cr_contract_json row))"
    by (auto simp: parent_conforms_def)
  from p(1) ev obtain prow' where "get_run t p = Some prow'" "row_evolves prow prow'"
    unfolding store_evolves_def by blast
  moreover from this(2) have "run_contract t prow' = Some pcrow"
    using p(2) by (intro run_contract_mono [OF ev]) (auto simp: row_evolves_def run_identity_def)
  ultimately show ?thesis using Some assms(3) p(3) by (simp add: parent_conforms_def)
qed

lemma run_ok_mono: "store_evolves s t \<Longrightarrow> run_ok s r \<Longrightarrow> run_ok t r"
  unfolding run_ok_def
  using run_contract_mono [of s t r r] run_context_mono [of s t r] parent_conforms_mono [of s t r _ r]
  by blast

lemma run_ok_same_contract:
  assumes "store_evolves s t" "run_ok s r" "run_identity r' = run_identity r" "row_shape_ok r'"
    and "run_context t r' = Some xrow" "context_key xrow = (rr_context_id r', rr_context_revision r')"
  shows "run_ok t r'"
proof -
  from assms(2) obtain row where row: "run_contract s r = Some row"
    "contract_key row = (rr_task_contract_id r, rr_task_contract_revision r)" "parent_conforms s r row"
    by (auto simp: run_ok_def)
  have "run_contract t r' = Some row"
    using assms(3) row(1) by (intro run_contract_mono [OF assms(1)]) (auto simp: run_identity_def)
  moreover have "parent_conforms t r' row"
    using assms(3) row(3) by (intro parent_conforms_mono [OF assms(1)]) (auto simp: run_identity_def)
  ultimately show ?thesis
    using assms(3-6) row(2) by (auto simp: run_ok_def run_identity_def)
qed

lemma events_ok_runs:
  assumes "events_ok s" and "store_evolves s t"
    and "ts_events t = ts_events s" "ts_deliveries t = ts_deliveries s"
  shows "events_ok t"
proof -
  have "get_run t rid \<noteq> None" if "get_run s rid \<noteq> None" for rid
    using that assms(2) by (force simp: store_evolves_def)
  then show ?thesis using assms(1,3,4) by (auto simp: events_ok_def run_events_def)
qed

lemma run_events_append:
  "run_events (s\<lparr>ts_events := ts_events s @ [e], ts_deliveries := ds\<rparr>) rid =
     run_events s rid @ (if te_task_run_id e = rid then [e] else [])"
  by (simp add: run_events_def)

lemma foldr_max_upt: "foldr max [Suc 0..<Suc n] a = max n a"
proof (induction n arbitrary: a)
  case 0
  then show ?case by simp
next
  case (Suc n)
  have "[Suc 0..<Suc (Suc n)] = [Suc 0..<Suc n] @ [Suc n]" by simp
  then show ?case using Suc.IH by (simp del: upt_Suc add: max_def)
qed

lemma seqs_ok_last_seq: "seqs_ok (run_events s rid) \<Longrightarrow> last_seq s rid = length (run_events s rid)"
  by (simp add: seqs_ok_def last_seq_def foldr_max_upt del: upt_Suc)

lemma store_inv_append:
  assumes inv: "store_inv s"
    and app: "append_task_event s rid ty producer rev' pl key stream now fe = Inr (a, t)"
  shows "store_inv t"
proof -
  note ev = store_evolves_append [OF app]
  note tabs = append_task_event_tables [OF app]
  have runs: "runs_ok t"
    using inv tabs run_ok_mono [OF ev] by (auto simp: store_inv_def runs_ok_def)
  have others: "contracts_ok t" "contexts_ok t"
    using inv tabs by (auto simp: store_inv_def contracts_ok_def contexts_ok_def)
  from append_task_event_ok [OF app] obtain run where run: "get_run s rid = Some run"
    and alt: "t = s \<or> (find_event_by_key s rid key = None \<and> fe \<notin> set (map te_event_id (ts_events s))
        \<and> fst a = new_event_row s run ty producer rev' pl key now fe \<and> event_shape_ok (fst a)
        \<and> t = s\<lparr>ts_events := ts_events s @ [fst a],
                 ts_deliveries := ts_deliveries s @ [new_delivery_row fe stream now]\<rparr>)"
    by blast
  have rid: "rr_run_id run = rid" using run by (rule tab_get_key)
  from alt have "events_ok t"
  proof
    assume "t = s"
    then show ?thesis using inv by (simp add: store_inv_def)
  next
    assume new: "find_event_by_key s rid key = None \<and> fe \<notin> set (map te_event_id (ts_events s))
        \<and> fst a = new_event_row s run ty producer rev' pl key now fe \<and> event_shape_ok (fst a)
        \<and> t = s\<lparr>ts_events := ts_events s @ [fst a],
                 ts_deliveries := ts_deliveries s @ [new_delivery_row fe stream now]\<rparr>"
    have old: "events_ok s" using inv by (simp add: store_inv_def)
    have "seqs_ok (run_events t r')" for r'
      using old new rid seqs_ok_last_seq [of s rid]
      by (auto simp: events_ok_def run_events_append seqs_ok_def new_event_row_def)
    moreover have "distinct (map (\<lambda>e. (te_task_run_id e, te_idempotency_key e)) (ts_events t))"
      using old new rid by (auto simp: events_ok_def find_event_by_key_None new_event_row_def)
    moreover have "distinct (map te_event_id (ts_events t))"
      using old new by (auto simp: events_ok_def new_event_row_def)
    moreover have "map dl_event_id (ts_deliveries t) = map te_event_id (ts_events t)"
      using old new by (simp add: events_ok_def new_event_row_def new_delivery_row_def)
    moreover have "\<forall>e \<in> set (ts_events t). get_run t (te_task_run_id e) \<noteq> None \<and> task_event_view e = Inr e"
      using old new run rid by (auto simp: events_ok_def new_event_row_def)
    ultimately show ?thesis by (simp add: events_ok_def)
  qed
  with runs others show ?thesis by (simp add: store_inv_def)
qed

lemma store_inv_persist_contract:
  assumes inv: "store_inv s" and "valid_contract c"
    and per: "persist_task_contract E s c now = Inr (r, t)"
  shows "store_inv t"
proof -
  note ev = store_evolves_persist_contract [OF per]
  from persist_task_contract_ok [OF per]
  consider "t = s" | row where "t = s\<lparr>ts_contracts := ts_contracts s @ [row]\<rparr>"
    "contract_key row \<notin> set (map contract_key (ts_contracts s))"
    "cr_task_contract_version_id row \<notin> set (map cr_task_contract_version_id (ts_contracts s))"
    "cr_contract_json row = c"
    by blast
  then show ?thesis
  proof cases
    case 1
    then show ?thesis using inv by simp
  next
    case 2
    have "contracts_ok t" "contexts_ok t"
      using inv 2 assms(2) by (auto simp: store_inv_def contracts_ok_def contexts_ok_def)
    moreover have "runs_ok t"
      using inv 2(1) run_ok_mono [OF ev] by (auto simp: store_inv_def runs_ok_def)
    moreover have "events_ok t"
      using inv 2(1) by (intro events_ok_runs [OF _ ev]) (auto simp: store_inv_def)
    ultimately show ?thesis by (simp add: store_inv_def)
  qed
qed

lemma store_inv_persist_context:
  assumes inv: "store_inv s" and per: "persist_context_manifest E s m now = Inr (r, t)"
  shows "store_inv t"
proof -
  note ev = store_evolves_persist_context [OF per]
  from persist_context_manifest_ok [OF per]
  consider "t = s" | row where "t = s\<lparr>ts_contexts := ts_contexts s @ [row]\<rparr>"
    "context_key row \<notin> set (map context_key (ts_contexts s))"
    "cx_context_manifest_version_id row \<notin> set (map cx_context_manifest_version_id (ts_contexts s))"
    by blast
  then show ?thesis
  proof cases
    case 1
    then show ?thesis using inv by simp
  next
    case 2
    have "contracts_ok t" "contexts_ok t"
      using inv 2 by (auto simp: store_inv_def contracts_ok_def contexts_ok_def)
    moreover have "runs_ok t"
      using inv 2(1) run_ok_mono [OF ev] by (auto simp: store_inv_def runs_ok_def)
    moreover have "events_ok t"
      using inv 2(1) by (intro events_ok_runs [OF _ ev]) (auto simp: store_inv_def)
    ultimately show ?thesis by (simp add: store_inv_def)
  qed
qed

lemma store_inv_put_run:
  assumes inv: "store_inv s" and r: "get_run s (rr_run_id r') = Some r" and evo: "row_evolves r r'"
    and shape: "row_shape_ok r'" and ctx: "run_context s r' = Some xrow"
      "context_key xrow = (rr_context_id r', rr_context_revision r')"
  shows "store_inv (put_run s r')"
proof -
  have ev: "store_evolves s (put_run s r')" using r evo by (rule store_evolves_put_run)
  have ok: "run_ok s r" using inv tab_get_in_set [OF r] by (auto simp: store_inv_def runs_ok_def)
  have "run_ok (put_run s r') r'"
    using evo shape ctx run_context_mono [OF ev ctx(1)]
    by (intro run_ok_same_contract [OF ev ok]) (auto simp: row_evolves_def)
  then have "runs_ok (put_run s r')"
    using inv run_ok_mono [OF ev] by (auto simp: store_inv_def runs_ok_def dest: in_set_tab_put)
  moreover have "events_ok (put_run s r')"
    using inv by (intro events_ok_runs [OF _ ev]) (auto simp: store_inv_def)
  ultimately show ?thesis using inv by (auto simp: store_inv_def contracts_ok_def contexts_ok_def)
qed


lemma row_shape_transitioned:
  assumes "row_shape_ok r" "\<not> terminal_status (rr_status r)"
    and "case sr of None \<Rightarrow> True | Some x \<Rightarrow> length x \<le> 128"
  shows "row_shape_ok (transitioned_row r target rref sr now)"
  using assms by (auto simp: row_shape_ok_def transitioned_row_def Let_def split: option.splits)

lemma store_inv_run_row:
  assumes "store_inv s" "get_run s rid = Some r"
  shows "rr_run_id r = rid" "run_ok s r" "row_shape_ok r"
    "\<exists>xrow. run_context s r = Some xrow \<and> context_key xrow = (rr_context_id r, rr_context_revision r)"
proof -
  show ok: "run_ok s r" and "rr_run_id r = rid"
    using assms tab_get_Some_D [OF assms(2)] by (auto simp: store_inv_def runs_ok_def)
  show "row_shape_ok r"
    "\<exists>xrow. run_context s r = Some xrow \<and> context_key xrow = (rr_context_id r, rr_context_revision r)"
    using ok by (auto simp: run_ok_def)
qed

lemma store_inv_transition:
  assumes inv: "store_inv s"
    and "transition_task_run s rid target pl key stream producer rref sr now fe = Inr (v, t)"
  shows "store_inv t"
proof -
  from assms(2) obtain r a where r: "get_run s rid = Some r" "\<not> terminal_status (rr_status r)"
    "can_transition_task_run (rr_status r) target"
    and app: "append_task_event (put_run s (transitioned_row r target rref sr now)) rid
       (event_for_transition target) producer (rr_context_revision r) pl key stream now fe = Inr (a, t)"
    and sr: "case sr of None \<Rightarrow> True | Some x \<Rightarrow> length x \<le> 128"
    by (rule transition_task_run_ok)
  note row = store_inv_run_row [OF inv r(1)]
  from row(4) obtain xrow where x: "run_context s r = Some xrow"
    "context_key xrow = (rr_context_id r, rr_context_revision r)" by blast
  have "store_inv (put_run s (transitioned_row r target rref sr now))"
  proof (rule store_inv_put_run [OF inv])
    show "get_run s (rr_run_id (transitioned_row r target rref sr now)) = Some r"
      using r(1) row(1) by simp
    show "row_evolves r (transitioned_row r target rref sr now)"
      using r by (intro row_evolves_transition)
    show "row_shape_ok (transitioned_row r target rref sr now)"
      using row(3) r(2) sr by (rule row_shape_transitioned)
    show "run_context s (transitioned_row r target rref sr now) = Some xrow"
      using x(1) by (simp add: run_context_def transitioned_row_def Let_def)
    show "context_key xrow = (rr_context_id (transitioned_row r target rref sr now),
        rr_context_revision (transitioned_row r target rref sr now))"
      using x(2) by (simp add: transitioned_row_def Let_def)
  qed
  then show ?thesis using app by (rule store_inv_append)
qed

lemma store_inv_claim:
  assumes inv: "store_inv s" and "claim_queued_task_run s rid stream producer now fe = Inr (v', t)"
  shows "store_inv t"
  using assms(2)
proof (cases rule: claim_ok)
  case (1 r)
  then show ?thesis using inv by simp
next
  case (2 r a v)
  let ?r = "r\<lparr>rr_status := RUNNING, rr_updated_at := now\<rparr>"
  note row = store_inv_run_row [OF inv 2(1)]
  from row(4) obtain xrow where x: "run_context s r = Some xrow"
    "context_key xrow = (rr_context_id r, rr_context_revision r)" by blast
  have "store_inv (put_run s ?r)"
  proof (rule store_inv_put_run [OF inv])
    show "get_run s (rr_run_id ?r) = Some r" using 2(1) row(1) by simp
    show "row_evolves r ?r" using 2(2)
      by (auto simp: row_evolves_def run_identity_def can_transition_task_run_def
          terminal_task_run_statuses_def)
    show "row_shape_ok ?r"
      using row(3) 2(2) by (auto simp: row_shape_ok_def terminal_task_run_statuses_def)
    show "run_context s ?r = Some xrow" using x(1) by (simp add: run_context_def)
    show "context_key xrow = (rr_context_id ?r, rr_context_revision ?r)" using x(2) by simp
  qed
  then show ?thesis using 2(3) by (rule store_inv_append)
qed

lemma stored_context:
  assumes "contexts_ok s" "tab_get context_key k (ts_contexts s) = Some xrow"
  shows "tab_get cx_context_manifest_version_id (cx_context_manifest_version_id xrow) (ts_contexts s)
    = Some xrow"
  using assms tab_get_in_set [OF assms(2)] by (auto simp: contexts_ok_def intro: tab_get_distinct)

lemma store_inv_update:
  assumes inv: "store_inv s" and m: "valid_manifest m"
    and "update_task_context E s rid m stream producer now fe = Inr (v, t)"
  shows "store_inv t"
proof -
  from assms(3) obtain r p s1 xrow a where r: "get_run s rid = Some r" "\<not> terminal_status (rr_status r)"
    and per: "persist_context_manifest E s m now = Inr (p, s1)"
    and ref: "context_from_ref s1 (context_manifest_ref m) = Inr xrow"
    and app: "append_task_event (put_run s1 (rebound_row r xrow m now)) rid
       CONTEXT_UPDATED producer (cm_context_revision m) (''context:'' @ context_manifest_ref m)
       (''context-updated:'' @ context_manifest_ref m) stream now fe = Inr (a, t)"
    by (rule update_task_context_ok)
  have inv1: "store_inv s1" using inv per by (rule store_inv_persist_context)
  have "ts_runs s1 = ts_runs s" using persist_context_manifest_ok [OF per] by auto
  then have r1: "get_run s1 rid = Some r" using r(1) by simp
  note row = store_inv_run_row [OF inv1 r1]
  have x: "tab_get context_key (cm_context_id m, cm_context_revision m) (ts_contexts s1) = Some xrow"
    using ref unfolding context_manifest_ref_def by (rule context_from_ref_ok)
  have "store_inv (put_run s1 (rebound_row r xrow m now))"
  proof (rule store_inv_put_run [OF inv1])
    show "get_run s1 (rr_run_id (rebound_row r xrow m now)) = Some r" using r1 row(1) by simp
    show "row_evolves r (rebound_row r xrow m now)"
      using r(2) by (simp add: row_evolves_def run_identity_def rebound_row_def)
    show "row_shape_ok (rebound_row r xrow m now)"
      using row(3) m by (auto simp: row_shape_ok_def rebound_row_def valid_manifest_def)
    show "run_context s1 (rebound_row r xrow m now) = Some xrow"
      using inv1 stored_context [OF _ x] by (simp add: run_context_def rebound_row_def store_inv_def)
    show "context_key xrow = (rr_context_id (rebound_row r xrow m now),
        rr_context_revision (rebound_row r xrow m now))"
      using tab_get_key [OF x] by (simp add: rebound_row_def)
  qed
  then show ?thesis using app by (rule store_inv_append)
qed

lemma validate_child_contract_authority:
  "contract_authority c = contract_authority c' \<Longrightarrow>
     validate_child_contract p c = validate_child_contract p c'"
  by (simp add: contract_authority_def validate_child_contract_def Let_def)

lemma check_parent_ok:
  assumes "check_parent s c (Some p) = Inr ()"
  obtains prow pcrow where "get_run s p = Some prow" "rr_status prow = RUNNING"
    "run_contract s prow = Some pcrow" "dk_allowed (validate_child_contract (cr_contract_json pcrow) c)"
  using assms
  by (auto simp: check_parent_def res_simps Let_def run_contract_def split: if_splits)

lemma persisted_contract_authority:
  assumes inv: "contracts_ok s" and nc: "no_collision E s c"
    and per: "persist_task_contract E s c now = Inr (r, t)"
    and row: "tab_get contract_key (tc_task_contract_id c, tc_contract_revision c) (ts_contracts t)
      = Some row"
  shows "contract_authority (cr_contract_json row) = contract_authority c"
proof -
  from persist_task_contract_ok [OF per] consider
    r' where "t = s" "tab_get contract_key (tc_task_contract_id c, tc_contract_revision c)
        (ts_contracts s) = Some r'" "cr_content_hash r' = digest E (dump_task_contract c)"
  | r' where "t = s\<lparr>ts_contracts := ts_contracts s @ [r']\<rparr>"
      "contract_key r' = (tc_task_contract_id c, tc_contract_revision c)"
      "contract_key r' \<notin> set (map contract_key (ts_contracts s))" "cr_contract_json r' = c"
    by blast
  then show ?thesis
  proof cases
    case 1
    then have "r' = row" using row by simp
    then show ?thesis using nc tab_get_Some_D [OF 1(2)] 1(3) by (auto simp: no_collision_def)
  next
    case 2
    then have "tab_get contract_key (tc_task_contract_id c, tc_contract_revision c) (ts_contracts s) = None"
      by (simp add: tab_get_None_iff)
    then have "row = r'" using row 2(1,2) by (simp add: tab_simps)
    then show ?thesis using 2 by simp
  qed
qed

lemma store_inv_create:
  assumes inv: "store_inv s" and c: "valid_contract c" and m: "valid_manifest m"
    and nc: "no_collision E s c"
    and "create_task_run E s c m role env stream cid par rid producer now fr fe = Inr (v, t)"
  shows "store_inv t"
proof -
  let ?rid = "resolved_run_id rid fr"
  from assms(5) obtain p s1 p' s2 crow xrow a where par: "check_parent s c par = Inr ()"
    and pc: "persist_task_contract E s c now = Inr (p, s1)"
    and px: "persist_context_manifest E s1 m now = Inr (p', s2)"
    and cref: "contract_from_ref s2 (task_contract_ref c) = Inr crow"
    and xref: "context_from_ref s2 (context_manifest_ref m) = Inr xrow"
    and fresh: "get_run s2 ?rid = None"
    and app: "append_task_event (s2\<lparr>ts_runs := ts_runs s2 @
        [new_run_row crow xrow c m role env cid par ?rid now]\<rparr>) ?rid TASK_CREATED producer
        (cm_context_revision m) (''task-run:'' @ ?rid) (''task-created:'' @ ?rid) stream now fe
        = Inr (a, t)"
    by (rule create_task_run_ok)
  let ?r = "new_run_row crow xrow c m role env cid par ?rid now"
  let ?s3 = "s2\<lparr>ts_runs := ts_runs s2 @ [?r]\<rparr>"
  have inv1: "store_inv s1" using inv c pc by (rule store_inv_persist_contract)
  have inv2: "store_inv s2" using inv1 px by (rule store_inv_persist_context)
  have ev: "store_evolves s s2"
    using store_evolves_persist_contract [OF pc] store_evolves_persist_context [OF px]
    by (rule store_evolves_trans)
  note ev3 = store_evolves_add_run [of s2 ?r]
  have crow: "tab_get contract_key (tc_task_contract_id c, tc_contract_revision c) (ts_contracts s2)
      = Some crow"
    using cref unfolding task_contract_ref_def by (rule contract_from_ref_ok)
  have same: "ts_contracts s2 = ts_contracts s1" using persist_context_manifest_ok [OF px] by auto
  have auth: "contract_authority (cr_contract_json crow) = contract_authority c"
    using inv by (intro persisted_contract_authority [OF _ nc pc crow [unfolded same]])
      (simp add: store_inv_def)
  have xrow: "tab_get context_key (cm_context_id m, cm_context_revision m) (ts_contexts s2) = Some xrow"
    using xref unfolding context_manifest_ref_def by (rule context_from_ref_ok)
  have conf: "parent_conforms s ?r crow"
  proof (cases par)
    case None
    then show ?thesis by (simp add: parent_conforms_def new_run_row_def)
  next
    case (Some q)
    then obtain prow pcrow where "get_run s q = Some prow" "run_contract s prow = Some pcrow"
      "dk_allowed (validate_child_contract (cr_contract_json pcrow) c)"
      using par by (auto elim: check_parent_ok)
    then show ?thesis using Some validate_child_contract_authority [OF auth]
      by (simp add: parent_conforms_def new_run_row_def)
  qed
  have "run_ok ?s3 ?r"
  proof -
    have "run_contract ?s3 ?r = Some crow"
      using inv2 tab_get_in_set [OF crow]
      by (auto simp: run_contract_def new_run_row_def store_inv_def contracts_ok_def
          intro: tab_get_distinct)
    moreover have "contract_key crow = (rr_task_contract_id ?r, rr_task_contract_revision ?r)"
      using tab_get_key [OF crow] by (simp add: new_run_row_def)
    moreover have "parent_conforms ?s3 ?r crow"
      using conf by (rule parent_conforms_mono [OF store_evolves_trans [OF ev ev3]]) simp
    moreover have "run_context ?s3 ?r = Some xrow"
      using inv2 stored_context [OF _ xrow] by (simp add: run_context_def new_run_row_def store_inv_def)
    moreover have "context_key xrow = (rr_context_id ?r, rr_context_revision ?r)"
      using tab_get_key [OF xrow] by (simp add: new_run_row_def)
    moreover have "row_shape_ok ?r"
      using m by (simp add: row_shape_ok_def new_run_row_def valid_manifest_def
          terminal_task_run_statuses_def)
    ultimately show ?thesis by (auto simp: run_ok_def)
  qed
  moreover have "?rid \<notin> set (map rr_run_id (ts_runs s2))" using fresh by (simp add: tab_get_None_iff)
  ultimately have "runs_ok ?s3"
    using inv2 run_ok_mono [OF ev3]
    by (auto simp: store_inv_def runs_ok_def new_run_row_def)
  moreover have "events_ok ?s3"
    using inv2 by (intro events_ok_runs [OF _ ev3]) (auto simp: store_inv_def)
  ultimately have "store_inv ?s3"
    using inv2 by (auto simp: store_inv_def contracts_ok_def contexts_ok_def)
  then show ?thesis using app by (rule store_inv_append)
qed

lemma store_inv_empty: "store_inv empty_store"
  by (simp add: store_inv_def empty_store_def contracts_ok_def contexts_ok_def runs_ok_def events_ok_def
      seqs_ok_def run_events_def)

lemma store_inv_step: "store_step E s t \<Longrightarrow> store_inv s \<Longrightarrow> store_inv t"
  by (induction rule: store_step.induct)
    (auto intro: store_inv_persist_contract store_inv_persist_context store_inv_create
      store_inv_claim store_inv_update store_inv_transition store_inv_append)

interpretation task_tables: invariant_system "\<lambda>s. s = empty_store" "store_step E" store_inv for E
  by unfold_locales (auto intro: store_inv_empty store_inv_step)

section \<open>What a client reads\<close>

lemma view_events_ok: "\<forall>e \<in> set es. event_shape_ok e \<Longrightarrow> view_events es = Inr es"
proof (induction es)
  case (Cons e es)
  then have "task_event_view e = Inr e" by simp
  then show ?case using Cons by (simp del: task_event_view_Inr)
qed simp

lemma seqs_ok_sorted: "seqs_ok es \<Longrightarrow> sort_key te_seq es = es"
  by (simp add: seqs_ok_def sort_key_id_if_sorted del: upt_Suc)

lemma list_task_events_inv:
  assumes "store_inv s"
  shows "list_task_events s rid = Inr (run_events s rid)"
proof -
  have "seqs_ok (run_events s rid)" "\<forall>e \<in> set (run_events s rid). event_shape_ok e"
    using assms by (auto simp: store_inv_def events_ok_def run_events_def)
  then show ?thesis by (simp only: list_task_events_def seqs_ok_sorted view_events_ok)
qed

lemma lineage_get_run: "lineage s rs \<Longrightarrow> r \<in> set rs \<Longrightarrow> get_run s (rr_run_id r) = Some r"
  by (induction s rs rule: lineage.induct) auto

lemma run_contract_inv:
  assumes "store_inv s" "get_run s rid = Some r"
  obtains row where "run_contract s r = Some row" "valid_contract (cr_contract_json row)"
    "contract_key row = (rr_task_contract_id r, rr_task_contract_revision r)" "parent_conforms s r row"
proof -
  from store_inv_run_row(2) [OF assms] obtain row where row: "run_contract s r = Some row"
    "contract_key row = (rr_task_contract_id r, rr_task_contract_revision r)" "parent_conforms s r row"
    by (auto simp: run_ok_def)
  then have "row \<in> set (ts_contracts s)" by (auto simp: run_contract_def dest: tab_get_in_set)
  then have "valid_contract (cr_contract_json row)"
    using assms(1) by (auto simp: store_inv_def contracts_ok_def)
  with row that show ?thesis by blast
qed

lemma lineage_valid:
  assumes "store_inv s" "lineage s rs" "r \<in> set rs"
  shows "valid_contract (contract_of s r)"
  by (rule run_contract_inv [OF assms(1) lineage_get_run [OF assms(2,3)]]) (simp add: contract_of_def)

lemma lineage_delegation_chain:
  assumes "store_inv s" "lineage s rs"
  shows "delegation_chain (map (contract_of s) rs)"
  using assms(2,1)
proof (induction s rs rule: lineage.induct)
  case (3 s p r rs)
  then have p: "get_run s (rr_run_id p) = Some p" and par: "rr_parent_run_id r = Some (rr_run_id p)"
    and lin: "lineage s (r # rs)" by auto
  have r: "get_run s (rr_run_id r) = Some r" by (rule lineage_get_run [OF lin]) simp
  obtain row where "run_contract s r = Some row" "parent_conforms s r row"
    by (rule run_contract_inv [OF \<open>store_inv s\<close> r])
  then have "dk_allowed (validate_child_contract (contract_of s p) (contract_of s r))"
    using p par by (auto simp: parent_conforms_def contract_of_def)
  then show ?case using 3(1) [OF lin \<open>store_inv s\<close>] by simp
qed auto

lemma find_prefix: "prefix xs ys \<Longrightarrow> find P xs = Some x \<Longrightarrow> find P ys = Some x"
  by (induction xs arbitrary: ys) (auto simp: prefix_def split: if_splits)

lemma find_append_None: "find P xs = None \<Longrightarrow> P x \<Longrightarrow> find P (xs @ [x]) = Some x"
  by (induction xs) (auto split: if_splits)

lemma append_task_event_found:
  assumes "append_task_event s rid ty producer rev' pl key stream now fe = Inr (a, t)"
  shows "find_event_by_key t rid key = Some (fst a)"
proof -
  from append_task_event_ok [OF assms] obtain run where run: "get_run s rid = Some run"
    and cases: "(t = s \<and> find_event_by_key s rid key = Some (fst a))
     \<or> (find_event_by_key s rid key = None
        \<and> fst a = new_event_row s run ty producer rev' pl key now fe
        \<and> ts_events t = ts_events s @ [fst a])" by auto
  then show ?thesis using tab_get_key [OF run]
    by (auto simp: find_event_by_key_def new_event_row_def intro!: find_append_None)
qed

lemma append_task_event_shape:
  assumes "append_task_event s rid ty producer rev' pl key stream now fe = Inr (a, t)"
  shows "event_shape_ok (fst a)"
  using assms
  by (auto simp: append_task_event_def res_simps Let_def split: option.splits)

lemma persist_task_contract_ref:
  "persist_task_contract E s c now = Inr (r, t) \<Longrightarrow> pr_ref r = task_contract_ref c"
  by (auto simp: persist_task_contract_def Let_def res_simps split: option.splits)

lemma persisted_contract_row:
  assumes "persist_task_contract E s c now = Inr (r, t)"
  obtains row where
    "tab_get contract_key (tc_task_contract_id c, tc_contract_revision c) (ts_contracts t) = Some row"
    "cr_content_hash row = digest E (dump_task_contract c)"
  using assms
  by (auto simp: persist_task_contract_def Let_def res_simps tab_simps split: option.splits)

lemma find_event_by_key_evolves:
  "store_evolves s t \<Longrightarrow> find_event_by_key s rid k = Some e \<Longrightarrow> find_event_by_key t rid k = Some e"
  by (auto simp: store_evolves_def find_event_by_key_def intro: find_prefix)

interpretation event_log: stable_lookup "store_step E" "\<lambda>s (rid, k). find_event_by_key s rid k" for E
  by unfold_locales (auto dest: store_step_evolves intro: find_event_by_key_evolves)

lemma append_task_event_replays:
  assumes "get_run s rid = Some run" "find_event_by_key s rid key = Some e" "event_shape_ok e"
  shows "append_task_event s rid ty producer rev' pl key stream now fe = Inr ((e, True), s)"
  using assms
  by (simp add: append_task_event_def res_bind_def task_event_view_def
      validate_non_empty_identity_def event_shape_ok_def raise_if_def)

section \<open>Operations that must succeed\<close>

lemma append_task_event_succeeds:
  assumes "get_run s rid = Some run" "\<forall>e \<in> set (ts_events s). event_shape_ok e"
    and "map dl_event_id (ts_deliveries s) = map te_event_id (ts_events s)"
    and "fe \<notin> set (map te_event_id (ts_events s))"
    and "1 \<le> rev'" "\<not> blank producer" "\<not> blank pl" "\<not> blank key"
  shows "\<exists>a t. append_task_event s rid ty producer rev' pl key stream now fe = Inr (a, t)"
proof (cases "find_event_by_key s rid key")
  case None
  let ?e = "new_event_row s run ty producer rev' pl key now fe"
  have "task_event_view ?e = Inr ?e"
    using assms(5-8) by (simp add: event_shape_ok_def new_event_row_def)
  moreover have "fe \<notin> set (map dl_event_id (ts_deliveries s))"
    unfolding assms(3) by (rule assms(4))
  ultimately show ?thesis using assms(1,4) None
    by (auto simp: append_task_event_def tab_add_def Let_def new_event_row_def new_delivery_row_def
        simp del: task_event_view_Inr)
next
  case (Some e)
  then have "event_shape_ok e" using assms(2) find_event_by_key_SomeD by fastforce
  from append_task_event_replays [OF assms(1) Some this] show ?thesis by blast
qed

lemma transition_task_run_succeeds:
  assumes inv: "store_inv s" and r: "get_run s rid = Some r"
    and "can_transition_task_run (rr_status r) target"
    and "fe \<notin> set (map te_event_id (ts_events s))"
    and "\<not> blank producer" "\<not> blank pl" "\<not> blank key"
    and "case sr of None \<Rightarrow> True | Some x \<Rightarrow> length x \<le> 128"
  shows "\<exists>v t. transition_task_run s rid target pl key stream producer rref sr now fe = Inr (v, t)"
proof -
  let ?r = "transitioned_row r target rref sr now"
  note row = store_inv_run_row [OF inv r]
  have nt: "\<not> terminal_status (rr_status r)"
    using assms(3) run_status.terminal_no_step by (auto simp: can_transition_task_run_def)
  have "get_run (put_run s ?r) rid = Some ?r"
    using tab_get_Some_D [OF r] by (force simp: tab_simps)
  moreover have "\<forall>e \<in> set (ts_events s). event_shape_ok e"
    "map dl_event_id (ts_deliveries s) = map te_event_id (ts_events s)"
    using inv by (auto simp: store_inv_def events_ok_def)
  moreover have "1 \<le> rr_context_revision r" using row(3) by (simp add: row_shape_ok_def)
  ultimately obtain a t where app: "append_task_event (put_run s ?r) rid (event_for_transition target)
      producer (rr_context_revision r) pl key stream now fe = Inr (a, t)"
    using append_task_event_succeeds [where s = "put_run s ?r"] assms(4-7) by fastforce
  obtain v where "task_run_view ?r = Inr v"
    using task_run_view_Inr [OF row_shape_transitioned [OF row(3) nt assms(8)]] by blast
  with app r nt assms(3,8) show ?thesis
    by (auto simp: transition_task_run_def Let_def raise_if_def split: option.splits)
qed

lemma transition_run_rows:
  assumes "transition_task_run s rid target pl key stream producer rref sr now fe = Inr (v, t)"
    and "get_run s rid = Some r"
  shows "get_run t q = (if q = rid then Some (transitioned_row r target rref sr now) else get_run s q)"
    and "\<exists>e. find_event_by_key t rid key = Some e"
  using assms(1)
proof (atomize (full), rule transition_task_run_ok)
  fix r' a
  assume r': "get_run s rid = Some r'"
    and app: "append_task_event (put_run s (transitioned_row r' target rref sr now)) rid
       (event_for_transition target) producer (rr_context_revision r') pl key stream now fe = Inr (a, t)"
  have "rid \<in> set (map rr_run_id (ts_runs s))" "rr_run_id r = rid"
    using tab_get_Some_D [OF assms(2)] by (metis imageI set_map, simp)
  then show "get_run t q = (if q = rid then Some (transitioned_row r target rref sr now) else get_run s q)
      \<and> (\<exists>e. find_event_by_key t rid key = Some e)"
    using r' assms(2) append_task_event_tables(3) [OF app] append_task_event_found [OF app]
    by (simp add: tab_simps)
qed

section \<open>Sample stores\<close>

lemma digest_sample_hash [simp]: "digest sample_hash p = ''h''"
  by (simp add: digest_def sample_hash_def)

lemma stable_id_sample_hash [simp]: "stable_id sample_hash v = ''secfusion:'' @ v"
  by (simp add: stable_id_def sample_hash_def)

lemma show_nat_1 [simp]: "show_nat (Suc 0) = ''1''" "show_nat 1 = ''1''"
  by code_simp+

lemmas sample_defs = sample_create_def sample_move_def sample_role_def canonical_roles_def
  sample_contract_def sample_ceiling_def sample_manifest_def default_delegation_ceiling_def
  empty_store_def

lemmas store_eval = create_task_run_def role_accepts_def task_contract_ref_def versioned_ref_def
  check_parent_def persist_task_contract_def persist_context_manifest_def Let_def tab_add_def
  contract_from_ref_def context_from_ref_def split_ref_def rpartition_def py_isdigit_def
  isdigit_cp_def is_digit_def py_int_def digits_value_def context_manifest_ref_def
  resolved_run_id_def new_run_row_def append_task_event_def find_event_by_key_def new_event_row_def
  new_delivery_row_def task_event_view_def validate_non_empty_identity_def blank_def strip_def
  is_space_def last_seq_def run_events_def task_run_view_def transition_task_run_def
  can_transition_task_run_def terminal_task_run_statuses_def transitioned_row_def
  claim_queued_task_run_def tab_put_def validate_child_contract_def effect_within_ceiling_def state_of_def

text \<open>The sample stores, evaluated once.\<close>

lemmas sample_rows = sample_contract_row_def sample_context_row_def sample_run_row_def
  sample_event_row_def new_delivery_row_def

lemma sample_queued_val: "sample_queued =
  \<lparr>ts_contracts = [sample_contract_row ''p'' (sample_ceiling 2)],
   ts_contexts = [sample_context_row ''p''],
   ts_runs = [sample_run_row ''p'' None QUEUED 20],
   ts_events = [sample_event_row ''e1p'' ''p'' None 1 TASK_CREATED ''task-run:p'' ''task-created:p'' 10,
     sample_event_row ''k1p'' ''p'' None 2 TASK_PATCHED ''payload'' ''k1'' 20],
   ts_deliveries = [new_delivery_row ''e1p'' ''tasks'' 10, new_delivery_row ''k1p'' ''tasks'' 20]\<rparr>"
  by (simp add: sample_queued_def sample_defs store_eval sample_rows)

lemma sample_running_val: "sample_running = sample_queued
  \<lparr>ts_runs := [sample_run_row ''p'' None RUNNING 30],
   ts_events := ts_events sample_queued @ [sample_event_row ''e3p'' ''p'' None 3 TASK_STARTED
     ''role-claim:EnrichmentRole@1'' ''role-claim:p:1'' 30],
   ts_deliveries := ts_deliveries sample_queued @ [new_delivery_row ''e3p'' ''tasks'' 30]\<rparr>"
  by (simp add: sample_running_def sample_queued_val sample_defs store_eval sample_rows)

lemma sample_family_val: "sample_family =
  \<lparr>ts_contracts = [sample_contract_row ''p'' (sample_ceiling 2),
     sample_contract_row ''q'' default_delegation_ceiling],
   ts_contexts = [sample_context_row ''p'', sample_context_row ''q''],
   ts_runs = [sample_run_row ''p'' None RUNNING 30, sample_run_row ''q'' (Some ''p'') SUBMITTED 10],
   ts_events = ts_events sample_running @ [sample_event_row ''e1q'' ''q'' (Some ''p'') 1 TASK_CREATED
     ''task-run:q'' ''task-created:q'' 10],
   ts_deliveries = ts_deliveries sample_running @ [new_delivery_row ''e1q'' ''tasks'' 10]\<rparr>"
  by (simp add: sample_family_def sample_running_val sample_queued_val sample_defs store_eval sample_rows)

lemmas sample_eval = sample_queued_val sample_running_val sample_family_val sample_rows sample_defs
  store_eval

lemma state_of_Inr: "\<not> isl r \<Longrightarrow> r = Inr (fst (projr r), state_of r s)"
  by (cases r) (auto simp: state_of_def)

lemma sample_ops_succeed:
  "\<not> isl (sample_create empty_store None ''p'' 2)"
  "\<not> isl (sample_move (state_of (sample_create empty_store None ''p'' 2) empty_store) ''p'' QUEUED None ''k1'')"
  "\<not> isl (claim_queued_task_run sample_queued ''p'' ''tasks'' ''svc'' 30 ''e3p'')"
  "\<not> isl (sample_create sample_running (Some ''p'') ''q'' 0)"
  by (simp_all add: sample_eval)

lemma sample_create_step:
  assumes "\<not> isl (sample_create s par rid d)" and "no_collision sample_hash s
    (sample_contract (''c'' @ rid)
       (if d = 0 then default_delegation_ceiling else sample_ceiling d) INTERNAL_STATE)"
  shows "store_step sample_hash s (state_of (sample_create s par rid d) x)"
proof -
  have "valid_contract (sample_contract (''c'' @ rid)
       (if d = 0 then default_delegation_ceiling else sample_ceiling d) INTERNAL_STATE)"
    using sample_contract_valid(1) sample_contract_valid(2) [of d INTERNAL_STATE] by simp
  moreover have "valid_manifest (sample_manifest (''x'' @ rid) 1 (''c'' @ rid @ ''@1''))"
    by (simp add: valid_manifest_def sample_manifest_def)
  ultimately show ?thesis
    using assms(2) state_of_Inr [OF assms(1), of x] unfolding sample_create_def
    by (rule store_step.create)
qed

lemma sample_move_step:
  "\<not> isl (sample_move s rid target reason key) \<Longrightarrow>
     store_step sample_hash s (state_of (sample_move s rid target reason key) x)"
  unfolding sample_move_def by (rule store_step.transition [OF state_of_Inr])

lemma sample_queued_reachable: "(store_step sample_hash)\<^sup>*\<^sup>* empty_store sample_queued"
proof -
  let ?s = "state_of (sample_create empty_store None ''p'' 2) empty_store"
  have nc: "no_collision sample_hash empty_store c" for c
    by (simp add: no_collision_def empty_store_def)
  have "store_step sample_hash empty_store ?s"
    by (rule sample_create_step [OF sample_ops_succeed(1) nc])
  moreover have "store_step sample_hash ?s sample_queued"
    unfolding sample_queued_def by (rule sample_move_step [OF sample_ops_succeed(2)])
  ultimately show ?thesis by auto
qed

lemma sample_running_step: "store_step sample_hash sample_queued sample_running"
  unfolding sample_running_def by (rule store_step.claim [OF state_of_Inr [OF sample_ops_succeed(3)]])

lemma sample_running_reachable: "(store_step sample_hash)\<^sup>*\<^sup>* empty_store sample_running"
  using sample_queued_reachable sample_running_step by (rule rtranclp.rtrancl_into_rtrancl)

lemma sample_family_reachable: "(store_step sample_hash)\<^sup>*\<^sup>* empty_store sample_family"
proof -
  have "map cr_task_contract_id (ts_contracts sample_running) = [''cp'']"
    by (simp add: sample_eval)
  then have "\<forall>row \<in> set (ts_contracts sample_running). cr_task_contract_id row = ''cp''"
    by (cases "ts_contracts sample_running") auto
  then have nc: "no_collision sample_hash sample_running (sample_contract (''c'' @ ''q'') cap e)" for cap e
    by (auto simp: no_collision_def sample_contract_def)
  have "store_step sample_hash sample_running sample_family"
    unfolding sample_family_def by (rule sample_create_step [OF sample_ops_succeed(4) nc])
  with sample_running_reachable show ?thesis by (rule rtranclp.rtrancl_into_rtrancl)
qed

section \<open>Properties\<close>

text \<open>
  Claim C1: the task history is append-only. Whatever sequence of operations runs after a store,
  stored contracts, context manifests and events stay where they are, and every task run is still
  there with its identity columns unchanged, in a status reachable from its old one through the
  transition table; a run whose status is terminal is the same row, column for column.
\<close>

theorem task_history_append_only:
  assumes "(store_step E)\<^sup>*\<^sup>* s t"
  shows "prefix (ts_contracts s) (ts_contracts t) \<and> prefix (ts_contexts s) (ts_contexts t)
    \<and> prefix (ts_events s) (ts_events t)
    \<and> (\<forall>rid r. get_run s rid = Some r \<longrightarrow>
         (\<exists>r'. get_run t rid = Some r' \<and> run_identity r' = run_identity r
            \<and> can_transition_task_run\<^sup>*\<^sup>* (rr_status r) (rr_status r')
            \<and> (terminal_status (rr_status r) \<longrightarrow> r' = r)))"
  using store_steps_evolve [OF assms] by (simp add: store_evolves_def row_evolves_def)

theorem task_history_append_only_witness: "prefix (ts_events sample_queued) (ts_events sample_running)"
  using task_history_append_only [where E = sample_hash, OF r_into_rtranclp, OF sample_running_step] by simp

text \<open>
  Claim C39: in every reachable store, listing the events of any run succeeds and returns them with
  the sequence numbers 1, 2, ..., n without gap or repetition, with pairwise different
  idempotency keys, and every one of them has its outbox row.
\<close>

theorem event_log_contiguous:
  assumes "(store_step E)\<^sup>*\<^sup>* empty_store s"
  shows "\<exists>es. list_task_events s rid = Inr es \<and> map te_seq es = [1..<Suc (length es)]
    \<and> distinct (map te_idempotency_key es)
    \<and> (\<forall>e \<in> set es. te_task_run_id e = rid \<and> te_event_id e \<in> set (map dl_event_id (ts_deliveries s)))"
proof -
  have inv: "store_inv s" by (rule task_tables.inv_reachable [OF refl assms])
  have "distinct (map te_idempotency_key (run_events s rid))"
    using inv by (auto simp: store_inv_def events_ok_def run_events_def distinct_map inj_on_def)
  moreover have "seqs_ok (run_events s rid)"
    using inv by (simp add: store_inv_def events_ok_def)
  moreover have "te_event_id e \<in> set (map dl_event_id (ts_deliveries s))"
    if "e \<in> set (run_events s rid)" for e
    using inv that by (auto simp: store_inv_def events_ok_def run_events_def)
  ultimately show ?thesis
    using list_task_events_inv [OF inv, of rid] by (auto simp: seqs_ok_def run_events_def)
qed

theorem event_log_contiguous_witness:
  "\<exists>es. list_task_events sample_family ''p'' = Inr es \<and> map te_seq es = [1..<Suc (length es)]"
  using event_log_contiguous [OF sample_family_reachable, of "''p''"] by auto

text \<open>
  In every reachable store, reading a run that exists never fails: \<open>get_task_run\<close>,
  \<open>get_task_contract_for_run\<close> and \<open>get_task_context\<close> all return, the contract is valid, and the
  run's view shows the status of the row. The two \<open>RuntimeError\<close> branches for dangling
  references are unreachable.
\<close>

theorem run_reads_total:
  assumes "(store_step E)\<^sup>*\<^sup>* empty_store s" and "get_run s rid = Some r"
  shows "\<exists>v c m. get_task_run s rid = Inr v \<and> tv_run_id v = rid \<and> tv_status v = rr_status r
    \<and> get_task_contract_for_run s rid = Inr c \<and> valid_contract c
    \<and> get_task_context s rid = Inr m"
proof -
  have inv: "store_inv s" by (rule task_tables.inv_reachable [OF refl assms(1)])
  note row = store_inv_run_row [OF inv assms(2)]
  obtain v where v: "task_run_view r = Inr v" using task_run_view_Inr [OF row(3)] by blast
  obtain crow where "run_contract s r = Some crow" "valid_contract (cr_contract_json crow)"
    by (rule run_contract_inv [OF inv assms(2)])
  moreover obtain xrow where "run_context s r = Some xrow" using row(4) by blast
  ultimately show ?thesis using assms(2) v task_run_view_fields [OF v] row(1)
    by (simp add: get_task_run_def get_task_contract_for_run_def get_task_context_def
        run_contract_def run_context_def)
qed

theorem run_reads_total_witness: "\<exists>v. get_task_run sample_running ''p'' = Inr v \<and> tv_run_id v = ''p''"
proof -
  have "get_run sample_running ''p'' \<noteq> None" by (simp add: sample_eval)
  then obtain r where "get_run sample_running ''p'' = Some r" by auto
  from run_reads_total [OF sample_running_reachable this] show ?thesis by blast
qed

text \<open>
  Delegation in the store is bounded. In every reachable store, a chain of runs in which
  each is the parent of the next is no longer below its first run than the \<open>max_depth\<close> of that
  run's contract, and no descendant's contract has a higher effect ceiling than the first run's.
\<close>

theorem run_lineage_bounded:
  assumes "(store_step E)\<^sup>*\<^sup>* empty_store s" and "lineage s (r # rs)" and "rs \<noteq> []"
  shows "length rs \<le> dc_max_depth (tc_delegation_ceiling (contract_of s r))
    \<and> (\<forall>x \<in> set rs. tc_effect_ceiling (contract_of s x) \<le> tc_effect_ceiling (contract_of s r))"
proof -
  have inv: "store_inv s" by (rule task_tables.inv_reachable [OF refl assms(1)])
  have chain: "delegation_chain (contract_of s r # map (contract_of s) rs)"
    using lineage_delegation_chain [OF inv assms(2)] by simp
  have valid: "\<forall>x \<in> set (contract_of s r # map (contract_of s) rs). valid_contract x"
    using lineage_valid [OF inv assms(2)] by auto
  have "dc_allowed (tc_delegation_ceiling (contract_of s r))"
    using chain assms(3) by (cases rs) (auto simp: child_contract_allowed_iff)
  then have cap: "dc_child_effect_ceiling (tc_delegation_ceiling (contract_of s r))
      \<le> tc_effect_ceiling (contract_of s r)"
    using valid by (auto intro: valid_contract_child_effect)
  then have "tc_effect_ceiling (contract_of s x) \<le> tc_effect_ceiling (contract_of s r)"
    if "x \<in> set rs" for x
    using delegation_chain_effects [OF chain, of "contract_of s x"] that by fastforce
  then show ?thesis using delegation_chain_length [OF chain valid] assms(3) by simp
qed

theorem run_lineage_bounded_witness:
  "\<exists>r q. lineage sample_family [r, q] \<and> rr_parent_run_id q = Some ''p''
     \<and> length [q] \<le> dc_max_depth (tc_delegation_ceiling (contract_of sample_family r))"
proof -
  let ?r = "ts_runs sample_family ! 0" and ?q = "ts_runs sample_family ! 1"
  have lin: "lineage sample_family [?r, ?q]" and par: "rr_parent_run_id ?q = Some ''p''"
    by (simp_all add: sample_eval)
  have "length [?q] \<le> dc_max_depth (tc_delegation_ceiling (contract_of sample_family ?r))"
    using run_lineage_bounded [OF sample_family_reachable lin] by blast
  with lin par show ?thesis by blast
qed

text \<open>
  Appending an event is idempotent for ever. Once an append for a run and an idempotency
  key has succeeded, any later append with the same run and key, whatever its other arguments and
  whatever happened in between, returns the first event marked as a replay and changes nothing.
\<close>

theorem append_task_event_exactly_once:
  assumes "append_task_event s rid ty producer rev' pl key stream now fe = Inr (a, t)"
    and "(store_step E)\<^sup>*\<^sup>* t u"
  shows "append_task_event u rid ty' producer' rev'' pl' key stream' now' fe' = Inr ((fst a, True), u)"
proof -
  note ev = store_steps_evolve [OF assms(2)]
  obtain run where run: "get_run t rid = Some run"
    using append_task_event_ok [OF assms(1)] append_task_event_tables(3) [OF assms(1)] by auto
  have found: "find_event_by_key t rid key = Some (fst a)"
    by (rule append_task_event_found [OF assms(1)])
  have "find_event_by_key u rid key = Some (fst a)"
    using event_log.lookup_steps [OF assms(2), of "(rid, key)"] found by simp
  moreover obtain run' where "get_run u rid = Some run'"
    using run ev by (auto simp: store_evolves_def)
  ultimately show ?thesis
    using append_task_event_shape [OF assms(1)] by (auto intro: append_task_event_replays)
qed

theorem append_task_event_exactly_once_witness:
  "\<exists>a t. append_task_event sample_queued ''p'' PROGRESS ''svc'' 1 ''n1'' ''k9'' ''tasks'' 40 ''e9'' = Inr (a, t)
     \<and> append_task_event t ''p'' TASK_FAILED ''svc'' 1 ''n2'' ''k9'' ''tasks'' 50 ''e10'' = Inr ((fst a, True), t)"
proof -
  have "\<not> isl (append_task_event sample_queued ''p'' PROGRESS ''svc'' 1 ''n1'' ''k9'' ''tasks'' 40 ''e9'')"
    by (simp add: sample_eval)
  note ok = state_of_Inr [OF this, of sample_queued]
  from append_task_event_exactly_once [OF ok rtranclp.rtrancl_refl] ok show ?thesis by blast
qed

text \<open>
  A queued run is claimed once. After a successful claim the run is \<open>RUNNING\<close>, and any
  further claim of it, by anyone, returns no run and changes nothing.
\<close>

theorem claim_exclusive:
  assumes "claim_queued_task_run s rid stream producer now fe = Inr (Some v, t)"
  shows "tv_run_id v = rid \<and> tv_status v = RUNNING
    \<and> map_option rr_status (get_run t rid) = Some RUNNING
    \<and> claim_queued_task_run t rid stream' producer' now' fe' = Inr (None, t)"
  using assms
proof (cases rule: claim_ok)
  case (2 r a v')
  note rid = tab_get_key [OF 2(1)]
  have "rid \<in> set (map rr_run_id (ts_runs s))"
    using tab_get_Some_D [OF 2(1)] by (metis imageI set_map)
  then have "get_run t rid = Some (r\<lparr>rr_status := RUNNING, rr_updated_at := now\<rparr>)"
    using append_task_event_tables(3) [OF 2(3)] rid by (simp add: tab_simps)
  then show ?thesis
    using 2(4,5) rid task_run_view_fields(1,2) [OF 2(5)] by (simp add: claim_queued_task_run_def)
qed simp

theorem claim_exclusive_witness:
  "\<exists>v t. claim_queued_task_run sample_queued ''p'' ''tasks'' ''svc'' 30 ''e3p'' = Inr (Some v, t)
     \<and> claim_queued_task_run t ''p'' ''tasks'' ''other'' 31 ''e4'' = Inr (None, t)"
proof -
  have "\<exists>v t. claim_queued_task_run sample_queued ''p'' ''tasks'' ''svc'' 30 ''e3p'' = Inr (Some v, t)"
    by (simp add: sample_eval)
  then obtain v t where ok: "claim_queued_task_run sample_queued ''p'' ''tasks'' ''svc'' 30 ''e3p'' = Inr (Some v, t)"
    by blast
  from claim_exclusive [OF ok] ok show ?thesis by blast
qed

text \<open>
  Revisions are immutable. Once a contract revision is stored, persisting any contract
  under the same id and revision in any later store either replays it, exactly when the canonical
  JSON has the same digest, or is refused; in neither case does anything change.
\<close>

theorem contract_revision_immutable:
  assumes "persist_task_contract E s c now = Inr (r, t)" and "(store_step E)\<^sup>*\<^sup>* t u"
    and "tc_task_contract_id c' = tc_task_contract_id c"
    and "tc_contract_revision c' = tc_contract_revision c"
  shows "persist_task_contract E u c' now' =
    (if digest E (dump_task_contract c') = digest E (dump_task_contract c)
     then Inr (\<lparr>pr_ref = pr_ref r, pr_replay = True\<rparr>, u)
     else Inl (ValueError ''task contract revision is immutable''))"
proof -
  obtain row where row: "tab_get contract_key (tc_task_contract_id c, tc_contract_revision c)
      (ts_contracts t) = Some row" "cr_content_hash row = digest E (dump_task_contract c)"
    by (rule persisted_contract_row [OF assms(1)])
  have "tab_get contract_key (tc_task_contract_id c, tc_contract_revision c) (ts_contracts u) = Some row"
    using row(1) store_steps_evolve [OF assms(2)] by (auto simp: store_evolves_def intro: tab_get_prefix)
  then show ?thesis
    using assms(3,4) row(2) persist_task_contract_ref [OF assms(1)]
    by (auto simp: persist_task_contract_def Let_def task_contract_ref_def)
qed

theorem contract_revision_immutable_witness:
  "\<exists>r t. persist_task_contract sample_hash empty_store (sample_contract ''c'' (sample_ceiling 1) INTERNAL_STATE) 1
       = Inr (r, t)
     \<and> persist_task_contract sample_hash t (sample_contract ''c'' (sample_ceiling 1) INTERNAL_STATE) 2
       = Inr (\<lparr>pr_ref = pr_ref r, pr_replay = True\<rparr>, t)"
proof -
  let ?c = "sample_contract ''c'' (sample_ceiling 1) INTERNAL_STATE"
  have "\<not> isl (persist_task_contract sample_hash empty_store ?c 1)"
    by (simp add: sample_eval)
  note ok = state_of_Inr [OF this, of empty_store]
  from contract_revision_immutable [OF ok rtranclp.rtrancl_refl refl refl, of 2]
  show ?thesis using ok by (metis digest_sample_hash)
qed

text \<open>
  References round-trip. The reference that a successful persist returns resolves, in any
  later store, to a row stored under the contract's id and revision whose digest is the digest of
  the contract, provided the contract id is not empty.
\<close>

theorem persisted_contract_resolves:
  assumes "persist_task_contract E s c now = Inr (r, t)" and "(store_step E)\<^sup>*\<^sup>* t u"
    and "tc_task_contract_id c \<noteq> []"
  shows "\<exists>row. contract_from_ref u (pr_ref r) = Inr row
    \<and> contract_key row = (tc_task_contract_id c, tc_contract_revision c)
    \<and> cr_content_hash row = digest E (dump_task_contract c)"
proof -
  obtain row where row: "tab_get contract_key (tc_task_contract_id c, tc_contract_revision c)
      (ts_contracts t) = Some row" "cr_content_hash row = digest E (dump_task_contract c)"
    by (rule persisted_contract_row [OF assms(1)])
  have u: "tab_get contract_key (tc_task_contract_id c, tc_contract_revision c) (ts_contracts u) = Some row"
    using row(1) store_steps_evolve [OF assms(2)] by (auto simp: store_evolves_def intro: tab_get_prefix)
  then show ?thesis
    using row(2) tab_get_key [OF u] assms(3) persist_task_contract_ref [OF assms(1)]
    by (simp add: contract_from_ref_def task_contract_ref_def split_ref_versioned_ref)
qed

theorem persisted_contract_resolves_witness:
  "\<exists>r t row. persist_task_contract sample_hash empty_store (sample_contract ''c'' (sample_ceiling 1) INTERNAL_STATE) 1
       = Inr (r, t) \<and> contract_from_ref t (pr_ref r) = Inr row"
proof -
  let ?c = "sample_contract ''c'' (sample_ceiling 1) INTERNAL_STATE"
  have "\<not> isl (persist_task_contract sample_hash empty_store ?c 1)"
    by (simp add: sample_eval)
  note ok = state_of_Inr [OF this, of empty_store]
  have "tc_task_contract_id ?c \<noteq> []" by (simp add: sample_contract_def)
  from persisted_contract_resolves [OF ok rtranclp.rtrancl_refl this] ok show ?thesis by blast
qed

text \<open>
  A status change is recorded unless its idempotency key was used. A successful
  transition writes the target status; it appends exactly one event, of the type that belongs to
  the target, when the key is new for the run, and no event at all when the key was used before.
\<close>

theorem transition_event_recorded:
  assumes "transition_task_run s rid target pl key stream producer rref sr now fe = Inr (v, t)"
  shows "map_option rr_status (get_run t rid) = Some target \<and> tv_status v = target
    \<and> (case find_event_by_key s rid key of
         Some e \<Rightarrow> ts_events t = ts_events s
       | None \<Rightarrow> \<exists>e. ts_events t = ts_events s @ [e] \<and> te_task_run_id e = rid
           \<and> te_event_type e = event_for_transition target \<and> te_idempotency_key e = key)"
proof -
  obtain r a where r: "get_run s rid = Some r"
    and app: "append_task_event (put_run s (transitioned_row r target rref sr now)) rid
       (event_for_transition target) producer (rr_context_revision r) pl key stream now fe = Inr (a, t)"
    and v: "task_run_view (transitioned_row r target rref sr now) = Inr v"
    using assms by (rule transition_task_run_ok)
  have rid: "rr_run_id r = rid" by (rule tab_get_key [OF r])
  have mem: "rid \<in> set (map rr_run_id (ts_runs s))"
    using tab_get_Some_D [OF r] by (metis imageI set_map)
  have "get_run t rid = Some (transitioned_row r target rref sr now)"
    using append_task_event_tables(3) [OF app] rid mem by (simp add: tab_simps)
  moreover have "find_event_by_key (put_run s r') rid key = find_event_by_key s rid key" for r'
    by (simp add: find_event_by_key_def)
  ultimately show ?thesis
    using append_task_event_ok [OF app] task_run_view_fields(2) [OF v] rid mem
    by (auto simp: new_event_row_def tab_simps split: option.splits)
qed

theorem transition_event_recorded_witness:
  "\<exists>v t. sample_move sample_running ''p'' COMPLETED None ''k5'' = Inr (v, t)
     \<and> map_option rr_status (get_run t ''p'') = Some COMPLETED"
proof -
  have "\<not> isl (sample_move sample_running ''p'' COMPLETED None ''k5'')"
    by (simp add: sample_eval)
  note ok = state_of_Inr [OF this, of empty_store]
  from transition_event_recorded [OF ok [unfolded sample_move_def]] ok
  show ?thesis by (auto simp: sample_move_def)
qed


end
