(* ===== verification/Task_Scheduler.thy ===== *)
theory Task_Scheduler
  imports Task_Store
begin

text \<open>
  \<^verbatim>\<open>packages/task_runtime/scheduler\<close>: waking a parent run when the child it waits on has moved
  (\<^verbatim>\<open>service.py\<close>), and dispatching queued runs to Role handlers (\<^verbatim>\<open>executor.py\<close>). The handlers are
  injected by the caller, so they are an argument of \<open>execute_run\<close>: a handler takes the run id and
  the store and returns the store it leaves, with the class name of the exception it raised if it
  raised one. Each \<^verbatim>\<open>async with session\<close> block of the executor is one transaction, so what was
  committed before an exception stays.
\<close>

section \<open>Dependency wake-up\<close>

definition dependency_wake_event_types :: "task_event_type list" where
  "dependency_wake_event_types =
     [ENRICHMENT_STATE_CHANGED, TASK_COMPLETED, TASK_BLOCKED, TASK_FAILED, TASK_CANCELED]"

datatype dependency_wake_disposition =
    WAKE_QUEUED | WAKE_REPLAY | WAKE_IRRELEVANT_EVENT | WAKE_NO_PARENT | WAKE_PARENT_NOT_WAITING
  | WAKE_DIFFERENT_DEPENDENCY

record dependency_wake_result =
  wr_source_event_id :: string
  wr_child_run_id :: string
  wr_parent_run_id :: "string option"
  wr_disposition :: dependency_wake_disposition

definition wake_queued :: "dependency_wake_result \<Rightarrow> bool" where
  "wake_queued r = (wr_disposition r = WAKE_QUEUED)"

definition wake_result :: "task_event \<Rightarrow> dependency_wake_disposition \<Rightarrow> dependency_wake_result" where
  "wake_result event disposition =
     \<lparr>wr_source_event_id = te_event_id event, wr_child_run_id = te_task_run_id event,
      wr_parent_run_id = te_parent_run_id event, wr_disposition = disposition\<rparr>"

definition wake_idempotency_key :: "string \<Rightarrow> string \<Rightarrow> string" where
  "wake_idempotency_key parent_run_id source_event_id =
     ''dependency-wake:'' @ parent_run_id @ '':'' @ source_event_id"

definition process_event ::
  "task_store \<Rightarrow> task_event \<Rightarrow> string \<Rightarrow> int \<Rightarrow> string \<Rightarrow> (dependency_wake_result \<times> task_store) res" where
  "process_event s event stream_name now fresh_event_id =
     (if te_event_type event \<notin> set dependency_wake_event_types
      then Inr (wake_result event WAKE_IRRELEVANT_EVENT, s)
      else case te_parent_run_id event of
        None \<Rightarrow> Inr (wake_result event WAKE_NO_PARENT, s)
      | Some parent_run_id \<Rightarrow>
          (let wake_key = wake_idempotency_key parent_run_id (te_event_id event) in
           if find_event_by_key s parent_run_id wake_key \<noteq> None
           then Inr (wake_result event WAKE_REPLAY, s)
           else case get_run s (te_task_run_id event) of
             None \<Rightarrow> Inr (wake_result event WAKE_NO_PARENT, s)
           | Some child \<Rightarrow>
               if rr_parent_run_id child \<noteq> Some parent_run_id
               then Inr (wake_result event WAKE_NO_PARENT, s)
               else case get_run s parent_run_id of
                 None \<Rightarrow> Inr (wake_result event WAKE_NO_PARENT, s)
               | Some parent \<Rightarrow>
                   if rr_status parent \<noteq> WAITING_DEPENDENCY
                   then Inr (wake_result event WAKE_PARENT_NOT_WAITING, s)
                   else if dependency_run_id (rr_stop_reason parent) \<noteq> Some (te_task_run_id event)
                   then Inr (wake_result event WAKE_DIFFERENT_DEPENDENCY, s)
                   else res_bind (transition_task_run s (rr_run_id parent) QUEUED
                          (''dependency-wake:'' @ te_task_run_id event @ '':''
                             @ task_event_type_value (te_event_type event))
                          wake_key stream_name ''task-runtime-scheduler'' None None now
                          fresh_event_id)
                        (\<lambda>(_, s2). Inr (wake_result event WAKE_QUEUED, s2))))"

section \<open>Role dispatch\<close>

datatype role_dispatch_disposition = DISPATCH_EXECUTED | DISPATCH_NOT_QUEUED | DISPATCH_UNSUPPORTED_ROLE

record role_dispatch_result =
  rd_run_id :: string
  rd_role_id :: string
  rd_disposition :: role_dispatch_disposition
  rd_final_status :: task_run_status

type_synonym role_run_handler = "string \<Rightarrow> task_store \<Rightarrow> string option \<times> task_store"

text \<open>The \<^verbatim>\<open>except\<close> clause of \<^verbatim>\<open>execute\<close>.\<close>

definition fail_dispatched_run ::
  "task_store \<Rightarrow> string \<Rightarrow> string \<Rightarrow> string \<Rightarrow> int \<Rightarrow> string \<Rightarrow> role_dispatch_result res \<times> task_store" where
  "fail_dispatched_run s run_id error_type stream_name now fresh_event_id =
     (case get_task_run s run_id of
        Inl e \<Rightarrow> (Inl e, s)
      | Inr current \<Rightarrow>
          if tv_status current = RUNNING
          then case transition_task_run s run_id FAILED (''role-executor-error:'' @ error_type)
                 (''role-executor-failed:'' @ run_id @ '':'' @ error_type) stream_name
                 ''task-runtime-executor'' None (Some (''role_executor_error:'' @ error_type)) now
                 fresh_event_id of
               Inl e \<Rightarrow> (Inl e, s)
             | Inr (_, s2) \<Rightarrow> (Inl (HandlerError error_type), s2)
          else (Inl (HandlerError error_type), s))"

definition final_result ::
  "task_store \<Rightarrow> string \<Rightarrow> (task_run \<Rightarrow> string) \<Rightarrow> role_dispatch_disposition
     \<Rightarrow> role_dispatch_result res \<times> task_store" where
  "final_result s run_id role_of disposition =
     (case get_task_run s run_id of
        Inl e \<Rightarrow> (Inl e, s)
      | Inr v \<Rightarrow> (Inr \<lparr>rd_run_id = run_id, rd_role_id = role_of v, rd_disposition = disposition,
                      rd_final_status = tv_status v\<rparr>, s))"

definition execute_run ::
  "(string \<rightharpoonup> role_run_handler) \<Rightarrow> string \<Rightarrow> task_store \<Rightarrow> string \<Rightarrow> int \<Rightarrow> string \<Rightarrow> int \<Rightarrow> string
     \<Rightarrow> role_dispatch_result res \<times> task_store" where
  "execute_run handlers stream_name s run_id claim_now claim_event_id fail_now fail_event_id =
     (case get_task_run s run_id of
        Inl e \<Rightarrow> (Inl e, s)
      | Inr run \<Rightarrow>
          (case handlers (tv_role_id run) of
             None \<Rightarrow> (Inr \<lparr>rd_run_id = run_id, rd_role_id = tv_role_id run,
                        rd_disposition = DISPATCH_UNSUPPORTED_ROLE, rd_final_status = tv_status run\<rparr>, s)
           | Some handler \<Rightarrow>
               (case claim_queued_task_run s run_id stream_name ''task-runtime-executor'' claim_now
                       claim_event_id of
                  Inl e \<Rightarrow> (Inl e, s)
                | Inr (None, s1) \<Rightarrow> final_result s1 run_id tv_role_id DISPATCH_NOT_QUEUED
                | Inr (Some claimed, s1) \<Rightarrow>
                    (case handler run_id s1 of
                       (Some error_type, s2) \<Rightarrow>
                         fail_dispatched_run s2 run_id error_type stream_name fail_now fail_event_id
                     | (None, s2) \<Rightarrow>
                         final_result s2 run_id (\<lambda>_. tv_role_id claimed) DISPATCH_EXECUTED))))"

text \<open>
  A parent that waits on its child, the same after the child was cancelled, and a handler that
  raises without touching the store.
\<close>

definition sample_waiting :: task_store where
  "sample_waiting =
     state_of (sample_move sample_family ''p'' WAITING_DEPENDENCY (Some ''task_dependency:q'') ''k6'') empty_store"

definition sample_cancelled :: task_store where
  "sample_cancelled = state_of (sample_move sample_waiting ''q'' CANCELLED None ''k7'') empty_store"

definition sample_handler :: role_run_handler where
  "sample_handler run_id s = (Some ''KeyError'', s)"

section \<open>What a wake did\<close>

lemma not_blank_prefixed [simp]:
  "\<not> blank (''dependency-wake:'' @ x)" "\<not> blank (''role-executor-error:'' @ x)"
  "\<not> blank (''role-executor-failed:'' @ x)" "\<not> blank ''task-runtime-scheduler''"
  "\<not> blank ''task-runtime-executor''"
  by (rule not_blank_Cons; simp add: is_space_def)+

lemma process_event_cases:
  assumes "process_event s e stream now fe = Inr (r, t)"
  obtains "\<not> wake_queued r" "t = s"
  | p child parent v where "r = wake_result e WAKE_QUEUED"
    "te_event_type e \<in> set dependency_wake_event_types" "te_parent_run_id e = Some p"
    "find_event_by_key s p (wake_idempotency_key p (te_event_id e)) = None"
    "get_run s (te_task_run_id e) = Some child" "rr_parent_run_id child = Some p"
    "get_run s p = Some parent" "rr_status parent = WAITING_DEPENDENCY"
    "dependency_run_id (rr_stop_reason parent) = Some (te_task_run_id e)"
    "transition_task_run s p QUEUED (''dependency-wake:'' @ te_task_run_id e @ '':''
        @ task_event_type_value (te_event_type e)) (wake_idempotency_key p (te_event_id e)) stream
        ''task-runtime-scheduler'' None None now fe = Inr (v, t)"
proof (cases "wake_queued r")
  case False
  then have "t = s" using assms
    by (auto simp: process_event_def Let_def res_simps wake_queued_def wake_result_def
        split: if_splits option.splits)
  with False that(1) show ?thesis by blast
next
  case True
  note rules = process_event_def Let_def res_simps wake_queued_def wake_result_def
  obtain p where p: "te_parent_run_id e = Some p"
    "te_event_type e \<in> set dependency_wake_event_types"
    using assms True by (cases "te_parent_run_id e") (auto simp: rules split: if_splits)
  then have key: "find_event_by_key s p (wake_idempotency_key p (te_event_id e)) = None"
    using assms True by (auto simp: rules split: if_splits)
  with p obtain child where child: "get_run s (te_task_run_id e) = Some child"
    "rr_parent_run_id child = Some p"
    using assms True by (auto simp: rules split: if_splits option.splits)
  with p key obtain parent where parent: "get_run s p = Some parent"
    using assms True by (cases "get_run s p") (auto simp: rules)
  have "rr_run_id parent = p" by (rule tab_get_key [OF parent])
  then show ?thesis using p key child parent assms True that(2)
    by (auto simp: rules split: if_splits)
qed

lemma terminal_event_wakes: "terminal_status target \<Longrightarrow>
    event_for_transition target \<in> set dependency_wake_event_types"
  by (cases target) (auto simp: terminal_task_run_statuses_def dependency_wake_event_types_def)

lemma process_event_wakes:
  assumes inv: "store_inv s" and ev: "te_event_type e \<in> set dependency_wake_event_types"
    "te_parent_run_id e = Some p"
    and new: "find_event_by_key s p (wake_idempotency_key p (te_event_id e)) = None"
    and child: "get_run s (te_task_run_id e) = Some child" "rr_parent_run_id child = Some p"
    and parent: "get_run s p = Some parent" "rr_status parent = WAITING_DEPENDENCY"
      "dependency_run_id (rr_stop_reason parent) = Some (te_task_run_id e)"
    and fe: "fe \<notin> set (map te_event_id (ts_events s))"
  shows "\<exists>t. process_event s e stream now fe = Inr (wake_result e WAKE_QUEUED, t)"
proof -
  have "can_transition_task_run (rr_status parent) QUEUED"
    by (simp add: parent(2) can_transition_task_run_def)
  then obtain v t where tr: "transition_task_run s p QUEUED (''dependency-wake:'' @ te_task_run_id e @ '':''
      @ task_event_type_value (te_event_type e)) (wake_idempotency_key p (te_event_id e)) stream
      ''task-runtime-scheduler'' None None now fe = Inr (v, t)"
    using transition_task_run_succeeds [OF inv parent(1) _ fe, where sr = None]
    by (fastforce simp: wake_idempotency_key_def simp del: append.simps)
  moreover have "rr_run_id parent = p" by (rule tab_get_key [OF parent(1)])
  ultimately show ?thesis
    using ev new child parent by (simp add: process_event_def Let_def del: append.simps)
qed

lemmas scheduler_eval = sample_waiting_def sample_cancelled_def process_event_def wake_queued_def
  wake_result_def wake_idempotency_key_def dependency_wake_event_types_def dependency_run_id_def
  task_dependency_prefix_def startswith_def sample_eval

lemma sample_waiting_reachable: "(store_step sample_hash)\<^sup>*\<^sup>* empty_store sample_waiting"
proof -
  have "\<not> isl (sample_move sample_family ''p'' WAITING_DEPENDENCY (Some ''task_dependency:q'') ''k6'')"
    by (simp add: scheduler_eval)
  then have "store_step sample_hash sample_family sample_waiting"
    unfolding sample_waiting_def by (rule sample_move_step)
  with sample_family_reachable show ?thesis by (rule rtranclp.rtrancl_into_rtrancl)
qed

lemma sample_cancel_ok: "\<exists>v. transition_task_run sample_waiting ''q'' CANCELLED ''payload'' ''k7'' ''tasks''
    ''svc'' None None 20 ''k7q'' = Inr (v, sample_cancelled)"
proof -
  have "\<not> isl (sample_move sample_waiting ''q'' CANCELLED None ''k7'')"
    by (simp add: scheduler_eval)
  from state_of_Inr [OF this, of empty_store] show ?thesis
    by (metis append.simps sample_cancelled_def sample_move_def)
qed

lemma sample_wake_ok: "\<exists>r t. process_event sample_cancelled (last (ts_events sample_cancelled)) ''tasks'' 50 ''w1''
    = Inr (r, t) \<and> wake_queued r"
  by (simp add: scheduler_eval)

section \<open>Properties\<close>

text \<open>
  Claim C3: a wake changes nothing but the parent that waits on this child. When processing an
  event reports \<open>WAKE_QUEUED\<close>, the event names the parent of the child run, that parent was waiting
  on exactly this child, it is now queued with its stop reason cleared, and every other run is
  untouched; with any other disposition the store is unchanged.
\<close>

theorem dependency_wake_sound:
  assumes "process_event s e stream now fe = Inr (r, t)"
  shows "if wake_queued r
    then \<exists>p child parent. te_parent_run_id e = Some p
      \<and> get_run s (te_task_run_id e) = Some child \<and> rr_parent_run_id child = Some p
      \<and> get_run s p = Some parent \<and> rr_status parent = WAITING_DEPENDENCY
      \<and> dependency_run_id (rr_stop_reason parent) = Some (te_task_run_id e)
      \<and> get_run t p = Some (parent\<lparr>rr_status := QUEUED, rr_updated_at := now, rr_result_ref := None,
            rr_stop_reason := None\<rparr>)
      \<and> (\<forall>q. q \<noteq> p \<longrightarrow> get_run t q = get_run s q)
    else t = s"
  using assms
proof (cases rule: process_event_cases)
  case (2 p child parent v)
  have "transitioned_row parent QUEUED None None now = parent\<lparr>rr_status := QUEUED,
      rr_updated_at := now, rr_result_ref := None, rr_stop_reason := None\<rparr>"
    by (simp add: transitioned_row_def terminal_task_run_statuses_def)
  then show ?thesis using 2(1-9) transition_run_rows(1) [OF 2(10,7)]
    by (auto simp: wake_queued_def wake_result_def)
qed simp

theorem dependency_wake_sound_witness:
  "\<exists>r t. process_event sample_cancelled (last (ts_events sample_cancelled)) ''tasks'' 50 ''w1'' = Inr (r, t)
     \<and> wake_queued r \<and> te_parent_run_id (last (ts_events sample_cancelled)) \<noteq> None"
proof -
  obtain r t where w: "process_event sample_cancelled (last (ts_events sample_cancelled)) ''tasks'' 50 ''w1'' = Inr (r, t)"
    "wake_queued r" using sample_wake_ok by blast
  from dependency_wake_sound [OF w(1)] w show ?thesis by (auto simp: w(2))
qed

text \<open>
  A wake happens once. After an event has woken a parent, processing the same event again,
  in any later store, reports a replay and changes nothing, even if the parent waits again.
\<close>

theorem dependency_wake_exactly_once:
  assumes "process_event s e stream now fe = Inr (r, t)" and "wake_queued r"
    and "(store_step E)\<^sup>*\<^sup>* t u"
  shows "process_event u e stream' now' fe' = Inr (wake_result e WAKE_REPLAY, u)"
  using assms(1)
proof (cases rule: process_event_cases)
  case (2 p child parent v)
  from transition_run_rows(2) [OF 2(10,7)] obtain x
    where "find_event_by_key t p (wake_idempotency_key p (te_event_id e)) = Some x" by blast
  then have "find_event_by_key u p (wake_idempotency_key p (te_event_id e)) = Some x"
    using event_log.lookup_steps [OF assms(3), of "(p, wake_idempotency_key p (te_event_id e))"] by simp
  then show ?thesis using 2(2,3) by (simp add: process_event_def)
qed (use assms(2) in simp)

theorem dependency_wake_exactly_once_witness:
  "\<exists>t. process_event t (last (ts_events sample_cancelled)) ''tasks'' 60 ''w2''
     = Inr (wake_result (last (ts_events sample_cancelled)) WAKE_REPLAY, t)"
proof -
  obtain r t where w: "process_event sample_cancelled (last (ts_events sample_cancelled)) ''tasks'' 50 ''w1'' = Inr (r, t)"
    "wake_queued r" using sample_wake_ok by blast
  from dependency_wake_exactly_once [OF w rtranclp.rtrancl_refl] show ?thesis by blast
qed

text \<open>
  The end of a child wakes the parent that waits on it. In a reachable store, when a
  transition takes a child run to a terminal status under a fresh idempotency key and its parent
  waits on that child, the last event of the log is the child's, and processing it (with an event
  id not used before) queues the parent.
\<close>

theorem child_outcome_wakes_parent:
  assumes reach: "(store_step E)\<^sup>*\<^sup>* empty_store s"
    and tr: "transition_task_run s cid target pl key stream producer rref sr now fe = Inr (v, t)"
    and target: "terminal_status target" and new: "find_event_by_key s cid key = None"
    and child: "get_run s cid = Some child" "rr_parent_run_id child = Some p" "p \<noteq> cid"
    and parent: "get_run s p = Some parent" "rr_status parent = WAITING_DEPENDENCY"
      "dependency_run_id (rr_stop_reason parent) = Some cid"
    and unused: "find_event_by_key t p (wake_idempotency_key p fe) = None"
    and fresh: "fe' \<notin> set (map te_event_id (ts_events t))"
  shows "\<exists>u. process_event t (last (ts_events t)) stream' now' fe'
      = Inr (wake_result (last (ts_events t)) WAKE_QUEUED, u)
    \<and> map_option rr_status (get_run u p) = Some QUEUED"
proof -
  let ?e = "last (ts_events t)"
  have inv: "store_inv t"
    by (rule store_inv_transition [OF task_tables.inv_reachable [OF refl reach] tr])
  obtain r a where r: "get_run s cid = Some r"
    and app: "append_task_event (put_run s (transitioned_row r target rref sr now)) cid
       (event_for_transition target) producer (rr_context_revision r) pl key stream now fe = Inr (a, t)"
    using tr by (rule transition_task_run_ok)
  have mem: "cid \<in> set (map rr_run_id (ts_runs s))" "rr_run_id child = cid"
    using tab_get_Some_D [OF child(1)] by (metis imageI set_map, simp)
  have "find_event_by_key (put_run s r') cid key = None" for r'
    using new by (simp add: find_event_by_key_def)
  then have "?e = new_event_row (put_run s (transitioned_row child target rref sr now))
      (transitioned_row child target rref sr now) (event_for_transition target) producer
      (rr_context_revision child) pl key now fe"
    using append_task_event_ok [OF app] r child(1) mem by (auto simp: tab_simps)
  then have e: "te_event_type ?e = event_for_transition target" "te_parent_run_id ?e = Some p"
    "te_event_id ?e = fe" "te_task_run_id ?e = cid"
    using child(2) mem(2) by (simp_all add: new_event_row_def)
  note rows = transition_run_rows(1) [OF tr child(1)]
  have "\<exists>u. process_event t ?e stream' now' fe' = Inr (wake_result ?e WAKE_QUEUED, u)"
    using process_event_wakes [OF inv, where e = ?e and p = p and fe = fe'] e rows child(2,3) parent
      unused fresh terminal_event_wakes [OF target] by simp
  then obtain u where u: "process_event t ?e stream' now' fe' = Inr (wake_result ?e WAKE_QUEUED, u)"
    by blast
  from u have "map_option rr_status (get_run u p) = Some QUEUED"
  proof (cases rule: process_event_cases)
    case (2 p' child' parent' v')
    then show ?thesis using e(2) transition_run_rows(1) [OF 2(10,7)] by simp
  qed (simp add: wake_queued_def wake_result_def)
  with u show ?thesis by blast
qed

theorem child_outcome_wakes_parent_witness:
  "\<exists>u. process_event sample_cancelled (last (ts_events sample_cancelled)) ''tasks'' 50 ''w1''
      = Inr (wake_result (last (ts_events sample_cancelled)) WAKE_QUEUED, u)
    \<and> map_option rr_status (get_run u ''p'') = Some QUEUED"
proof -
  obtain v where tr: "transition_task_run sample_waiting ''q'' CANCELLED ''payload'' ''k7'' ''tasks''
      ''svc'' None None 20 ''k7q'' = Inr (v, sample_cancelled)" using sample_cancel_ok by blast
  have t: "terminal_status CANCELLED" by (simp add: terminal_task_run_statuses_def)
  have "find_event_by_key sample_waiting ''q'' ''k7'' = None
    \<and> get_run sample_waiting ''q'' \<noteq> None \<and> get_run sample_waiting ''p'' \<noteq> None
    \<and> rr_parent_run_id (the (get_run sample_waiting ''q'')) = Some ''p''
    \<and> rr_status (the (get_run sample_waiting ''p'')) = WAITING_DEPENDENCY
    \<and> dependency_run_id (rr_stop_reason (the (get_run sample_waiting ''p''))) = Some ''q''"
    by (simp add: scheduler_eval)
  then obtain child parent where st: "find_event_by_key sample_waiting ''q'' ''k7'' = None"
    "get_run sample_waiting ''q'' = Some child" "rr_parent_run_id child = Some ''p''"
    "get_run sample_waiting ''p'' = Some parent" "rr_status parent = WAITING_DEPENDENCY"
    "dependency_run_id (rr_stop_reason parent) = Some ''q''" by auto
  have post: "find_event_by_key sample_cancelled ''p'' (wake_idempotency_key ''p'' ''k7q'') = None"
    "''w1'' \<notin> set (map te_event_id (ts_events sample_cancelled))"
    by (simp_all add: scheduler_eval)
  show ?thesis
    by (rule child_outcome_wakes_parent [OF sample_waiting_reachable tr t st(1-3) _ st(4-6) post]) simp
qed

text \<open>
  A handler runs only for a queued run. In a reachable store, executing a run whose status
  is not \<open>QUEUED\<close> returns \<open>DISPATCH_NOT_QUEUED\<close> or \<open>DISPATCH_UNSUPPORTED_ROLE\<close> with the current
  status and leaves the store as it was, whatever the handlers would do.
\<close>

theorem dispatch_requires_queued:
  assumes "(store_step E)\<^sup>*\<^sup>* empty_store s" and "get_run s rid = Some r" and "rr_status r \<noteq> QUEUED"
  shows "\<exists>d. execute_run handlers stream s rid now1 fe1 now2 fe2 = (Inr d, s)
    \<and> rd_disposition d = (if handlers (rr_role_id r) = None then DISPATCH_UNSUPPORTED_ROLE
                           else DISPATCH_NOT_QUEUED)
    \<and> rd_final_status d = rr_status r"
proof -
  have inv: "store_inv s" by (rule task_tables.inv_reachable [OF refl assms(1)])
  obtain v where v: "task_run_view r = Inr v"
    using task_run_view_Inr [OF store_inv_run_row(3) [OF inv assms(2)]] by blast
  then have "get_task_run s rid = Inr v" using assms(2) by (simp add: get_task_run_def)
  moreover have "claim_queued_task_run s rid stream ''task-runtime-executor'' now1 fe1 = Inr (None, s)"
    using assms(2,3) by (simp add: claim_queued_task_run_def)
  ultimately show ?thesis using task_run_view_fields(2,3) [OF v]
    by (auto simp: execute_run_def final_result_def split: option.splits)
qed

theorem dispatch_requires_queued_witness:
  "\<exists>d. execute_run (\<lambda>_. Some sample_handler) ''tasks'' sample_running ''p'' 40 ''d1'' 41 ''d2''
     = (Inr d, sample_running) \<and> rd_disposition d = DISPATCH_NOT_QUEUED"
proof -
  have "get_run sample_running ''p'' \<noteq> None \<and> rr_status (the (get_run sample_running ''p'')) \<noteq> QUEUED"
    by (simp add: scheduler_eval)
  then obtain r where r: "get_run sample_running ''p'' = Some r" "rr_status r \<noteq> QUEUED" by auto
  from dispatch_requires_queued [OF sample_running_reachable r, where handlers = "\<lambda>_. Some sample_handler"]
  show ?thesis by fastforce
qed

text \<open>
  A handler that raises cannot leave its run running. Suppose a queued run of a reachable
  store is claimed, and the handler raises after a sequence of store operations. Then the
  exception reaches the caller, and the run ends \<open>FAILED\<close> with the exception class in its stop
  reason if the handler left it running; if the handler had already moved it on, its outcome is
  kept as it was. The class name must fit the 128 characters of the stop reason, and the event id
  drawn for the failure must be new.
\<close>

theorem handler_failure_recorded:
  assumes reach: "(store_step E)\<^sup>*\<^sup>* empty_store s" and run: "get_run s rid = Some r"
    and h: "handlers (rr_role_id r) = Some h"
    and claim: "claim_queued_task_run s rid stream ''task-runtime-executor'' now1 fe1 = Inr (Some c, s1)"
    and raised: "h rid s1 = (Some ty, s2)" and ops: "(store_step E)\<^sup>*\<^sup>* s1 s2"
    and fits: "length ty \<le> 108" and fresh: "fe2 \<notin> set (map te_event_id (ts_events s2))"
  shows "\<exists>t r2 r3. execute_run handlers stream s rid now1 fe1 now2 fe2 = (Inl (HandlerError ty), t)
    \<and> get_run s2 rid = Some r2 \<and> get_run t rid = Some r3
    \<and> (if rr_status r2 = RUNNING
       then rr_status r3 = FAILED \<and> rr_stop_reason r3 = Some (''role_executor_error:'' @ ty)
       else t = s2)"
proof -
  have inv: "store_inv s" by (rule task_tables.inv_reachable [OF refl reach])
  then have inv2: "store_inv s2"
    using task_tables.inv_steps [OF ops] store_inv_claim [OF inv claim] by simp
  have "store_evolves s s2"
    using store_evolves_trans [OF store_evolves_claim [OF claim] store_steps_evolve [OF ops]] .
  then obtain r2 where r2: "get_run s2 rid = Some r2" using run by (auto simp: store_evolves_def)
  obtain v where v: "task_run_view r = Inr v"
    using task_run_view_Inr [OF store_inv_run_row(3) [OF inv run]] by blast
  obtain v2 where v2: "task_run_view r2 = Inr v2"
    using task_run_view_Inr [OF store_inv_run_row(3) [OF inv2 r2]] by blast
  have get: "get_task_run s rid = Inr v" "get_task_run s2 rid = Inr v2"
    using run r2 v v2 by (simp_all add: get_task_run_def)
  have ex: "execute_run handlers stream s rid now1 fe1 now2 fe2 = fail_dispatched_run s2 rid ty stream now2 fe2"
    using get(1) h claim raised task_run_view_fields(3) [OF v] by (simp add: execute_run_def)
  show ?thesis
  proof (cases "rr_status r2 = RUNNING")
    case False
    then show ?thesis using ex get(2) task_run_view_fields(2) [OF v2] r2
      by (simp add: fail_dispatched_run_def)
  next
    case True
    let ?sr = "Some (''role_executor_error:'' @ ty)"
    have "can_transition_task_run (rr_status r2) FAILED" by (simp add: True can_transition_task_run_def)
    moreover have "case ?sr of None \<Rightarrow> True | Some x \<Rightarrow> length x \<le> 128" using fits by simp
    ultimately obtain v3 t where tr: "transition_task_run s2 rid FAILED (''role-executor-error:'' @ ty)
        (''role-executor-failed:'' @ rid @ '':'' @ ty) stream ''task-runtime-executor'' None ?sr now2 fe2
        = Inr (v3, t)"
      using transition_task_run_succeeds [OF inv2 r2 _ fresh, where sr = ?sr]
      by (fastforce simp del: append.simps)
    then show ?thesis
      using ex get(2) task_run_view_fields(2) [OF v2] True r2 transition_run_rows(1) [OF tr r2]
      by (simp add: fail_dispatched_run_def del: append.simps)
  qed
qed

theorem handler_failure_recorded_witness:
  "\<exists>t. execute_run (\<lambda>_. Some sample_handler) ''tasks'' sample_queued ''p'' 40 ''d1'' 41 ''d2''
     = (Inl (HandlerError ''KeyError''), t)"
proof -
  have "\<exists>r c s1. get_run sample_queued ''p'' = Some r
      \<and> claim_queued_task_run sample_queued ''p'' ''tasks'' ''task-runtime-executor'' 40 ''d1'' = Inr (Some c, s1)
      \<and> ''d2'' \<notin> set (map te_event_id (ts_events s1))"
    by (simp add: scheduler_eval)
  then obtain r c s1 where r: "get_run sample_queued ''p'' = Some r"
    and c: "claim_queued_task_run sample_queued ''p'' ''tasks'' ''task-runtime-executor'' 40 ''d1'' = Inr (Some c, s1)"
    and f: "''d2'' \<notin> set (map te_event_id (ts_events s1))" by blast
  have h: "sample_handler ''p'' s1 = (Some ''KeyError'', s1)" by (simp add: sample_handler_def)
  from handler_failure_recorded [where handlers = "\<lambda>_. Some sample_handler" and ?now2.0 = 41 and E = sample_hash
      and h = sample_handler, OF sample_queued_reachable r _ c h rtranclp.rtrancl_refl _ f]
  show ?thesis by auto
qed

end
