(* ===== verification/Execution_Runtime.thy ===== *)
theory Execution_Runtime
  imports Task_Store "HOL-Library.Product_Lexorder"
begin

text \<open>
  \<^verbatim>\<open>packages/runtime/execution\<close>: the guard of an agent loop (\<^verbatim>\<open>loop.py\<close>), the table of executions and
  its service (\<^verbatim>\<open>service.py\<close>, \<^verbatim>\<open>ExecutionRunModel\<close>), and the periodic recovery of runs that were
  lost (\<^verbatim>\<open>recovery.py\<close>). The JSON column of an execution holds an envelope that
  \<open>validate_envelope\<close> re-validates on every read, so a row written by something else can fail it.
\<close>

section \<open>The bounded loop\<close>

datatype loop_stop_reason =
    GOAL_SATISFIED | EVIDENCE_SUFFICIENT | BUDGET_EXHAUSTED | DEADLINE_REACHED | PROVIDER_BLOCKED
  | LOOP_CAPABILITY_DENIED | LOOP_POLICY_DENIED | EXTERNAL_FAILURE | NO_PROGRESS
  | WAITING_FOR_WORLD_UPDATE | HUMAN_REVIEW_REQUIRED

record bounded_loop_config =
  lc_loop_id :: string
  lc_execution_id :: string
  lc_max_iterations :: nat
  lc_deadline_at :: datetime
  lc_budget_ref :: string
  lc_no_progress_limit :: nat

definition validate_loop_config :: "bounded_loop_config \<Rightarrow> bounded_loop_config res" where
  "validate_loop_config c =
     raise_if (lc_max_iterations c < 1) (ValueError ''max_iterations'')
     (raise_if (lc_no_progress_limit c < 1) (ValueError ''no_progress_limit'')
     (raise_if (dt_naive (lc_deadline_at c))
       (ValueError ''BoundedLoop deadline_at must be timezone-aware'') (Inr c)))"

record loop_gate =
  lg_allowed :: bool
  lg_iteration :: nat
  lg_stop_reason :: "loop_stop_reason option"

record bounded_loop =
  bl_config :: bounded_loop_config
  bl_completed_iterations :: nat
  bl_last_progress_signature :: "string option"
  bl_no_progress_count :: nat
  bl_terminal_reason :: "loop_stop_reason option"

definition new_loop :: "bounded_loop_config \<Rightarrow> bounded_loop" where
  "new_loop c = \<lparr>bl_config = c, bl_completed_iterations = 0, bl_last_progress_signature = None,
     bl_no_progress_count = 0, bl_terminal_reason = None\<rparr>"

definition closed_gate :: "bounded_loop \<Rightarrow> loop_gate" where
  "closed_gate l = \<lparr>lg_allowed = False, lg_iteration = bl_completed_iterations l,
     lg_stop_reason = bl_terminal_reason l\<rparr>"

text \<open>The reason the \<^verbatim>\<open>if\<close> chain of \<^verbatim>\<open>before_iteration\<close> assigns.\<close>

definition gate_reason :: "bounded_loop \<Rightarrow> int \<Rightarrow> bool \<Rightarrow> loop_stop_reason option" where
  "gate_reason l now budget_available =
     (let c = bl_config l in
      if now \<ge> dt_us (lc_deadline_at c) then Some DEADLINE_REACHED
      else if \<not> budget_available then Some BUDGET_EXHAUSTED
      else if bl_completed_iterations l \<ge> lc_max_iterations c then Some BUDGET_EXHAUSTED
      else if bl_no_progress_count l \<ge> lc_no_progress_limit c then Some NO_PROGRESS
      else None)"

definition before_iteration :: "bounded_loop \<Rightarrow> datetime \<Rightarrow> bool \<Rightarrow> (loop_gate \<times> bounded_loop) res" where
  "before_iteration l now budget_available =
     raise_if (dt_naive now) (ValueError ''BoundedLoop now must be timezone-aware'')
     (if bl_terminal_reason l \<noteq> None then Inr (closed_gate l, l)
      else
        (let l' = l\<lparr>bl_terminal_reason := gate_reason l (dt_us now) budget_available\<rparr> in
         if bl_terminal_reason l' \<noteq> None then Inr (closed_gate l', l')
         else Inr (\<lparr>lg_allowed = True, lg_iteration = bl_completed_iterations l' + 1,
                     lg_stop_reason = None\<rparr>, l')))"

definition complete_iteration :: "bounded_loop \<Rightarrow> string option \<Rightarrow> (loop_gate \<times> bounded_loop) res" where
  "complete_iteration l signature =
     raise_if (bl_terminal_reason l \<noteq> None)
       (RuntimeError ''cannot complete iteration after loop termination'')
     (let l1 = l\<lparr>bl_completed_iterations := bl_completed_iterations l + 1\<rparr>;
          l2 = (if signature = None \<or> signature = bl_last_progress_signature l1
                then l1\<lparr>bl_no_progress_count := bl_no_progress_count l1 + 1\<rparr>
                else l1\<lparr>bl_last_progress_signature := signature, bl_no_progress_count := 0\<rparr>);
          l3 = (if bl_no_progress_count l2 \<ge> lc_no_progress_limit (bl_config l2)
                then l2\<lparr>bl_terminal_reason := Some NO_PROGRESS\<rparr> else l2)
      in Inr (\<lparr>lg_allowed = (bl_terminal_reason l3 = None), lg_iteration = bl_completed_iterations l3,
               lg_stop_reason = bl_terminal_reason l3\<rparr>, l3))"

definition stop_loop :: "bounded_loop \<Rightarrow> loop_stop_reason \<Rightarrow> loop_gate \<times> bounded_loop" where
  "stop_loop l reason =
     (\<lparr>lg_allowed = False, lg_iteration = bl_completed_iterations l, lg_stop_reason = Some reason\<rparr>,
      l\<lparr>bl_terminal_reason := Some reason\<rparr>)"

text \<open>
  The discipline of a caller: ask the gate, run one iteration if it is open, report its progress
  signature, and stop when the gate is closed. A round is what the caller's clock, budget and
  iteration produce.
\<close>

type_synonym loop_round = "int \<times> bool \<times> string option"

fun drive_loop :: "bounded_loop \<Rightarrow> loop_round list \<Rightarrow> loop_round list \<times> bounded_loop" where
  "drive_loop l [] = ([], l)"
| "drive_loop l ((now, budget, signature) # rounds) =
     (case before_iteration l (Aware now) budget of
        Inl _ \<Rightarrow> ([], l)
      | Inr (g, l1) \<Rightarrow>
          if \<not> lg_allowed g then ([], l1)
          else (case complete_iteration l1 signature of
                  Inl _ \<Rightarrow> ([], l1)
                | Inr (_, l2) \<Rightarrow>
                    (let (exd, l3) = drive_loop l2 rounds in ((now, budget, signature) # exd, l3))))"

section \<open>Executions\<close>

record execution_row =
  xr_execution_id :: string
  xr_parent_execution_id :: "string option"
  xr_task_run_id :: string
  xr_envelope_json :: execution_envelope
  xr_status :: string
  xr_stop_reason :: "string option"
  xr_created_at :: int
  xr_started_at :: "int option"
  xr_finished_at :: "int option"

type_synonym execution_table = "execution_row list"

abbreviation get_exec :: "execution_table \<Rightarrow> string \<Rightarrow> execution_row option" where
  "get_exec xs i \<equiv> tab_get xr_execution_id i xs"

definition create_execution ::
  "execution_table \<Rightarrow> execution_envelope \<Rightarrow> int \<Rightarrow> (execution_envelope \<times> execution_table) res" where
  "create_execution xs envelope now =
     (case get_exec xs (ee_execution_id envelope) of
        Some existing \<Rightarrow>
          raise_if (xr_envelope_json existing \<noteq> envelope)
            (ValueError ''ExecutionEnvelope identity is immutable'')
          (res_bind (validate_envelope (xr_envelope_json existing)) (\<lambda>e. Inr (e, xs)))
      | None \<Rightarrow>
          raise_if (case ee_parent_execution_id envelope of
                      None \<Rightarrow> False | Some p \<Rightarrow> get_exec xs p = None)
            (LookupError (''parent execution not found: ''
               @ (case ee_parent_execution_id envelope of None \<Rightarrow> [] | Some p \<Rightarrow> p)))
          (res_bind (tab_add xr_execution_id
             \<lparr>xr_execution_id = ee_execution_id envelope,
              xr_parent_execution_id = ee_parent_execution_id envelope,
              xr_task_run_id = ee_task_run_id envelope, xr_envelope_json = envelope,
              xr_status = ''created'', xr_stop_reason = None, xr_created_at = now,
              xr_started_at = None, xr_finished_at = None\<rparr> xs)
            (\<lambda>xs'. Inr (envelope, xs'))))"

definition lock_execution :: "execution_table \<Rightarrow> string \<Rightarrow> execution_row res" where
  "lock_execution xs i =
     res_of_option (LookupError (''execution run not found: '' @ i)) (get_exec xs i)"

definition get_execution :: "execution_table \<Rightarrow> string \<Rightarrow> execution_envelope res" where
  "get_execution xs i =
     res_bind (res_of_option (LookupError (''execution run not found: '' @ i)) (get_exec xs i))
       (\<lambda>m. validate_envelope (xr_envelope_json m))"

definition start_execution ::
  "execution_table \<Rightarrow> string \<Rightarrow> int \<Rightarrow> (execution_envelope \<times> execution_table) res" where
  "start_execution xs i now =
     res_bind (lock_execution xs i) (\<lambda>m.
     if xr_status m = ''running''
     then res_bind (validate_envelope (xr_envelope_json m)) (\<lambda>e. Inr (e, xs))
     else raise_if (xr_status m \<noteq> ''created'') (ValueError (''cannot start execution status='' @ xr_status m))
       (let m' = m\<lparr>xr_status := ''running'', xr_started_at := Some now\<rparr> in
        res_bind (validate_envelope (xr_envelope_json m'))
          (\<lambda>e. Inr (e, tab_put xr_execution_id m' xs))))"

definition terminal_execution_statuses :: "string list" where
  "terminal_execution_statuses = [''completed'', ''failed'', ''cancelled'', ''timed_out'', ''blocked'']"

definition active_execution_statuses :: "string list" where
  "active_execution_statuses = [''created'', ''running'']"

definition finish_execution ::
  "execution_table \<Rightarrow> string \<Rightarrow> string \<Rightarrow> string \<Rightarrow> int \<Rightarrow> execution_table res" where
  "finish_execution xs i status stop_reason now =
     raise_if (status \<notin> set terminal_execution_statuses) (ValueError ''invalid terminal execution status'')
     (raise_if (128 < length stop_reason)
       (ValueError ''execution stop_reason exceeds storage contract (128 characters)'')
     (res_bind (lock_execution xs i) (\<lambda>m.
      if xr_status m = status \<and> xr_finished_at m \<noteq> None then Inr xs
      else raise_if (xr_status m \<notin> set active_execution_statuses)
        (ValueError (''execution already terminal: '' @ xr_status m))
        (Inr (tab_put xr_execution_id
          (m\<lparr>xr_status := status, xr_stop_reason := Some stop_reason, xr_finished_at := Some now\<rparr>) xs)))))"

inductive execution_step :: "execution_table \<Rightarrow> execution_table \<Rightarrow> bool" where
  create: "create_execution xs env now = Inr (e, ys) \<Longrightarrow> execution_step xs ys"
| start: "start_execution xs i now = Inr (e, ys) \<Longrightarrow> execution_step xs ys"
| finish: "finish_execution xs i status reason now = Inr ys \<Longrightarrow> execution_step xs ys"

section \<open>Recovery\<close>

definition dispatched_roles :: "string list" where
  "dispatched_roles = [''EnrichmentRole'', ''InvestigationRole'']"

definition executing_roles :: "string list" where
  "executing_roles = ''DecisionRole'' # dispatched_roles"

record recovery_state =
  rs_tasks :: task_store
  rs_executions :: execution_table

text \<open>
  The \<^verbatim>\<open>select ... for update skip locked\<close> of both functions: \<open>locked\<close> holds of the runs another
  transaction has locked.
\<close>

definition select_stale_runs ::
  "task_store \<Rightarrow> task_run_status \<Rightarrow> string list \<Rightarrow> int \<Rightarrow> nat \<Rightarrow> (string \<Rightarrow> bool) \<Rightarrow> run_row list" where
  "select_stale_runs s status roles threshold limit locked =
     take limit (sort_key (\<lambda>r. (rr_updated_at r, rr_run_id r))
       (filter (\<lambda>r. rr_status r = status \<and> rr_role_id r \<in> set roles \<and> rr_updated_at r \<le> threshold
                 \<and> \<not> locked (rr_run_id r)) (ts_runs s)))"

text \<open>A terminal transition of the run, and the end of its execution if that is still active.\<close>

definition close_run ::
  "recovery_state \<Rightarrow> run_row \<Rightarrow> execution_row option \<Rightarrow> task_run_status \<Rightarrow> string \<Rightarrow> string \<Rightarrow> string
     \<Rightarrow> string \<Rightarrow> string \<Rightarrow> string \<Rightarrow> int \<Rightarrow> string \<Rightarrow> recovery_state res" where
  "close_run st run execution target payload_ref idem_key producer exec_status reason stream_name
       instant fresh_event_id =
     res_bind (transition_task_run (rs_tasks st) (rr_run_id run) target payload_ref idem_key
         stream_name producer None (Some reason) instant fresh_event_id) (\<lambda>(_, ts).
     (case execution of
        None \<Rightarrow> Inr (st\<lparr>rs_tasks := ts\<rparr>)
      | Some x \<Rightarrow>
          if xr_status x \<in> set active_execution_statuses
          then res_bind (finish_execution (rs_executions st) (xr_execution_id x) exec_status reason instant)
                 (\<lambda>xs. Inr (st\<lparr>rs_tasks := ts, rs_executions := xs\<rparr>))
          else Inr (st\<lparr>rs_tasks := ts\<rparr>)))"

text \<open>\<^verbatim>\<open>int(instant.timestamp())\<close>, which truncates towards zero.\<close>

definition epoch_seconds :: "int \<Rightarrow> int" where
  "epoch_seconds us = (if us \<ge> 0 then us div 1000000 else - ((- us) div 1000000))"

definition dispatch_events :: "task_store \<Rightarrow> string \<Rightarrow> event_row list" where
  "dispatch_events s rid =
     sort_key (\<lambda>e. (te_emitted_at e, te_seq e))
       (filter (\<lambda>e. te_task_run_id e = rid \<and> (te_event_type e = TASK_PATCHED
                 \<or> startswith (te_payload_ref e) ''role-dispatch-recovery:'')) (ts_events s))"

definition last_dispatch_event :: "task_store \<Rightarrow> string \<Rightarrow> event_row option" where
  "last_dispatch_event s rid =
     (case dispatch_events s rid of [] \<Rightarrow> None | e # es \<Rightarrow> Some (last (e # es)))"

text \<open>The three reasons to leave a queued run to its last dispatch.\<close>

definition dispatch_pending :: "task_store \<Rightarrow> string \<Rightarrow> int \<Rightarrow> bool" where
  "dispatch_pending s rid threshold =
     (case last_dispatch_event s rid of
        None \<Rightarrow> False
      | Some e \<Rightarrow>
          (case tab_get dl_event_id (te_event_id e) (ts_deliveries s) of
             None \<Rightarrow> te_emitted_at e > threshold
           | Some d \<Rightarrow> dl_status d = ''pending'' \<or> te_emitted_at e > threshold
               \<or> (case dl_delivered_at d of None \<Rightarrow> False | Some at' \<Rightarrow> as_utc at' > threshold)))"

text \<open>The envelope of a run's execution, if there is one and it validates.\<close>

definition run_envelope :: "execution_table \<Rightarrow> run_row \<Rightarrow> execution_envelope option" where
  "run_envelope xs run =
     (case get_exec xs (rr_execution_envelope_ref run) of None \<Rightarrow> None
      | Some x \<Rightarrow> (case validate_envelope (xr_envelope_json x) of Inl _ \<Rightarrow> None | Inr e \<Rightarrow> Some e))"

text \<open>The body of the loop of \<^verbatim>\<open>recover_queued_role_tasks\<close>; the pair holds \<^verbatim>\<open>retried, closed\<close>.\<close>

definition recover_queued_run ::
  "int \<Rightarrow> int \<Rightarrow> string \<Rightarrow> (string \<Rightarrow> string) \<Rightarrow> run_row
     \<Rightarrow> (string list \<times> string list) \<times> recovery_state \<Rightarrow> ((string list \<times> string list) \<times> recovery_state) res" where
  "recover_queued_run instant stale_seconds stream_name fresh run acc =
     (let ((retried, closed), st) = acc; rid = rr_run_id run;
          threshold = instant - stale_seconds * 1000000;
          execution = get_exec (rs_executions st) (rr_execution_envelope_ref run)
      in case run_envelope (rs_executions st) run of
           Some env \<Rightarrow>
             if ee_task_run_id env \<noteq> rid
             then res_bind (close_run st run execution BLOCKED
                 ''role-recovery:execution-envelope-unavailable'' (''role-recovery:invalid-execution:'' @ rid)
                 ''task-runtime-recovery'' ''blocked'' ''execution_envelope_unavailable'' stream_name instant
                 (fresh rid)) (\<lambda>st'. Inr ((retried, closed @ [rid]), st'))
             else if dt_us (ee_deadline_at env) \<le> instant
             then res_bind (close_run st run execution TIMED_OUT ''role-recovery:deadline-before-start''
                 (''role-recovery:deadline:'' @ rid) ''task-runtime-recovery'' ''timed_out''
                 ''deadline_reached_before_start'' stream_name instant (fresh rid))
                 (\<lambda>st'. Inr ((retried, closed @ [rid]), st'))
             else if dispatch_pending (rs_tasks st) rid threshold then Inr acc
             else res_bind (append_task_event (rs_tasks st) rid PROGRESS ''task-runtime-recovery''
                 (rr_context_revision run) (''role-dispatch-recovery:'' @ rid)
                 (''role-dispatch-recovery:'' @ rid @ '':'' @ show_int (epoch_seconds instant div stale_seconds))
                 stream_name instant (fresh rid))
                 (\<lambda>(_, ts). Inr ((retried @ [rid], closed), st\<lparr>rs_tasks := ts\<rparr>))
         | None \<Rightarrow>
             res_bind (close_run st run execution BLOCKED
                 ''role-recovery:execution-envelope-unavailable'' (''role-recovery:invalid-execution:'' @ rid)
                 ''task-runtime-recovery'' ''blocked'' ''execution_envelope_unavailable'' stream_name instant
                 (fresh rid)) (\<lambda>st'. Inr ((retried, closed @ [rid]), st')))"

text \<open>The body of the loop of \<^verbatim>\<open>expire_stale_running_tasks\<close>.\<close>

definition expire_running_run ::
  "int \<Rightarrow> string \<Rightarrow> (string \<Rightarrow> string) \<Rightarrow> run_row \<Rightarrow> string list \<times> recovery_state
     \<Rightarrow> (string list \<times> recovery_state) res" where
  "expire_running_run instant stream_name fresh run acc =
     (let (closed, st) = acc; rid = rr_run_id run in
      case get_exec (rs_executions st) (rr_execution_envelope_ref run) of
        None \<Rightarrow> Inr acc
      | Some x \<Rightarrow>
          if xr_status x \<notin> set active_execution_statuses then Inr acc
          else (case validate_envelope (xr_envelope_json x) of
             Inl _ \<Rightarrow> Inr acc
           | Inr env \<Rightarrow>
               if ee_task_run_id env \<noteq> rid \<or> dt_us (ee_deadline_at env) > instant then Inr acc
               else res_bind (close_run st run (Some x) TIMED_OUT ''execution-recovery:deadline-exceeded''
                   (''execution-recovery:deadline:'' @ rid) ''execution-runtime-recovery'' ''timed_out''
                   ''deadline_exceeded_without_terminal_result'' stream_name instant (fresh rid))
                   (\<lambda>st'. Inr (closed @ [rid], st'))))"

definition recover_queued_role_tasks ::
  "recovery_state \<Rightarrow> int \<Rightarrow> int \<Rightarrow> int \<Rightarrow> string \<Rightarrow> (string \<Rightarrow> bool) \<Rightarrow> (string \<Rightarrow> string)
     \<Rightarrow> ((string list \<times> string list) \<times> recovery_state) res" where
  "recover_queued_role_tasks st instant stale_seconds limit stream_name locked fresh =
     raise_if (stale_seconds < 1 \<or> limit < 1) (ValueError ''role recovery bounds must be positive'')
     (let runs = select_stale_runs (rs_tasks st) QUEUED dispatched_roles
                   (instant - stale_seconds * 1000000) (nat limit) locked
      in fold_res (recover_queued_run instant stale_seconds stream_name fresh) runs (([], []), st))"

definition expire_stale_running_tasks ::
  "recovery_state \<Rightarrow> int \<Rightarrow> int \<Rightarrow> int \<Rightarrow> string \<Rightarrow> (string \<Rightarrow> bool) \<Rightarrow> (string \<Rightarrow> string)
     \<Rightarrow> (string list \<times> recovery_state) res" where
  "expire_stale_running_tasks st instant stale_seconds limit stream_name locked fresh =
     raise_if (stale_seconds < 1 \<or> limit < 1) (ValueError ''execution recovery bounds must be positive'')
     (let runs = select_stale_runs (rs_tasks st) RUNNING executing_roles
                   (instant - stale_seconds * 1000000) (nat limit) locked
      in fold_res (expire_running_run instant stream_name fresh) runs ([], st))"

section \<open>What every operation keeps\<close>

text \<open>
  Executions are only added, keep their envelope, task run and parent, and are frozen once they
  are no longer active.
\<close>

definition execution_evolves :: "execution_table \<Rightarrow> execution_table \<Rightarrow> bool" where
  "execution_evolves xs ys \<longleftrightarrow>
     (\<forall>i m. get_exec xs i = Some m \<longrightarrow>
        (\<exists>m'. get_exec ys i = Some m' \<and> xr_envelope_json m' = xr_envelope_json m
           \<and> xr_task_run_id m' = xr_task_run_id m
           \<and> xr_parent_execution_id m' = xr_parent_execution_id m
           \<and> (xr_status m \<notin> set active_execution_statuses \<longrightarrow> m' = m)))"

text \<open>The runs the two passes may act on, and the rows they leave.\<close>

definition overdue_run :: "recovery_state \<Rightarrow> run_row \<Rightarrow> int \<Rightarrow> bool" where
  "overdue_run st r now \<longleftrightarrow>
     (\<exists>x env. get_exec (rs_executions st) (rr_execution_envelope_ref r) = Some x
        \<and> xr_status x \<in> set active_execution_statuses
        \<and> validate_envelope (xr_envelope_json x) = Inr env
        \<and> ee_task_run_id env = rr_run_id r \<and> dt_us (ee_deadline_at env) \<le> now)"

definition expired_row :: "run_row \<Rightarrow> int \<Rightarrow> run_row" where
  "expired_row r now =
     transitioned_row r TIMED_OUT None (Some ''deadline_exceeded_without_terminal_result'') now"

definition dispatchable :: "recovery_state \<Rightarrow> run_row \<Rightarrow> int \<Rightarrow> bool" where
  "dispatchable st r now \<longleftrightarrow>
     (\<exists>env. run_envelope (rs_executions st) r = Some env \<and> ee_task_run_id env = rr_run_id r
        \<and> now < dt_us (ee_deadline_at env))"

definition abandoned_row :: "recovery_state \<Rightarrow> run_row \<Rightarrow> int \<Rightarrow> run_row" where
  "abandoned_row st r now =
     (if \<exists>env. run_envelope (rs_executions st) r = Some env \<and> ee_task_run_id env = rr_run_id r
      then transitioned_row r TIMED_OUT None (Some ''deadline_reached_before_start'') now
      else transitioned_row r BLOCKED None (Some ''execution_envelope_unavailable'') now)"

definition retry_key :: "string \<Rightarrow> int \<Rightarrow> int \<Rightarrow> string" where
  "retry_key rid now stale_seconds =
     ''role-dispatch-recovery:'' @ rid @ '':'' @ show_int (epoch_seconds now div stale_seconds)"

text \<open>What a recovery pass with the result \<^term>\<open>t\<close> did to the run \<^term>\<open>r\<close>.\<close>

definition recovered ::
  "recovery_state \<Rightarrow> int \<Rightarrow> int \<Rightarrow> (string list \<times> string list) \<times> recovery_state \<Rightarrow> run_row \<Rightarrow> bool" where
  "recovered st now stale_seconds t r \<longleftrightarrow>
     (let ((retried, abandoned), st') = t; rid = rr_run_id r in
      get_run (rs_tasks st') rid = Some (if rid \<in> set abandoned then abandoned_row st r now else r)
      \<and> (rid \<in> set abandoned \<longrightarrow> \<not> dispatchable st r now)
      \<and> (rid \<in> set retried \<longrightarrow> dispatchable st r now
           \<and> find_event_by_key (rs_tasks st') rid (retry_key rid now stale_seconds) \<noteq> None))"

text \<open>Arguments for the concrete instances of the theorems.\<close>

definition sample_loop_config :: bounded_loop_config where
  "sample_loop_config = \<lparr>lc_loop_id = ''l'', lc_execution_id = ''env'', lc_max_iterations = 3,
     lc_deadline_at = Aware 100, lc_budget_ref = ''b'', lc_no_progress_limit = 2\<rparr>"

definition sample_execution :: "string \<Rightarrow> int \<Rightarrow> execution_row" where
  "sample_execution status deadline =
     \<lparr>xr_execution_id = ''env'', xr_parent_execution_id = None, xr_task_run_id = ''p'',
      xr_envelope_json = (sample_envelope ''env'' None [] deadline)\<lparr>ee_task_run_id := ''p''\<rparr>,
      xr_status = status, xr_stop_reason = None, xr_created_at = 5, xr_started_at = Some 6,
      xr_finished_at = None\<rparr>"

definition sample_lost :: "task_store \<Rightarrow> int \<Rightarrow> recovery_state" where
  "sample_lost ts deadline = \<lparr>rs_tasks = ts, rs_executions = [sample_execution ''running'' deadline]\<rparr>"

section \<open>Loop lemmas\<close>

lemma before_iteration_Aware:
  "before_iteration l (Aware now) b = Inr (g, l1) \<longleftrightarrow>
     (let r = (if bl_terminal_reason l \<noteq> None then bl_terminal_reason l else gate_reason l now b) in
      l1 = l\<lparr>bl_terminal_reason := r\<rparr>
      \<and> g = (if r = None then \<lparr>lg_allowed = True, lg_iteration = bl_completed_iterations l + 1,
               lg_stop_reason = None\<rparr> else closed_gate l1))"
  by (auto simp: before_iteration_def dt_naive_def Let_def)

lemma before_iteration_allowed:
  assumes "before_iteration l (Aware now) b = Inr (g, l1)" "lg_allowed g"
  shows "l1 = l" "bl_terminal_reason l = None" "gate_reason l now b = None"
  using assms by (auto simp: before_iteration_Aware Let_def closed_gate_def split: if_splits)

lemma gate_reason_None:
  "gate_reason l now b = None \<longleftrightarrow>
     now < dt_us (lc_deadline_at (bl_config l)) \<and> b
     \<and> bl_completed_iterations l < lc_max_iterations (bl_config l)
     \<and> bl_no_progress_count l < lc_no_progress_limit (bl_config l)"
  by (auto simp: gate_reason_def Let_def)

lemma complete_iteration_ok:
  assumes "complete_iteration l signature = Inr (g, l2)"
  shows "bl_config l2 = bl_config l" "bl_completed_iterations l2 = Suc (bl_completed_iterations l)"
    "signature = None \<Longrightarrow> bl_no_progress_count l2 = Suc (bl_no_progress_count l)"
    "bl_no_progress_count l2 \<ge> lc_no_progress_limit (bl_config l) \<Longrightarrow> bl_terminal_reason l2 \<noteq> None"
  using assms by (auto simp: complete_iteration_def res_simps Let_def split: if_splits)

lemma drive_loop_ConsE:
  assumes "drive_loop l ((now, b, sig) # rounds) = (exd, l')"
  obtains "exd = []" "bl_completed_iterations l' = bl_completed_iterations l" "bl_config l' = bl_config l"
  | g l2 exd' where "gate_reason l now b = None" "bl_terminal_reason l = None"
      "complete_iteration l sig = Inr (g, l2)"
      "drive_loop l2 rounds = (exd', l')" "exd = (now, b, sig) # exd'"
proof (cases "before_iteration l (Aware now) b")
  case (Inl e)
  then show ?thesis using assms that(1) by simp
next
  case (Inr p)
  obtain g l1 where p: "p = (g, l1)" by (cases p)
  show ?thesis
  proof (cases "lg_allowed g")
    case False
    then show ?thesis
      using assms that(1) Inr p by (auto simp: before_iteration_Aware Let_def)
  next
    case True
    note al = before_iteration_allowed [OF Inr [unfolded p] True]
    obtain g2 l2 where c: "complete_iteration l sig = Inr (g2, l2)"
      using al(2) by (auto simp: complete_iteration_def Let_def)
    then show ?thesis using assms that(2) Inr p True al by (auto split: prod.splits)
  qed
qed

lemma drive_loop_counts:
  "drive_loop l rounds = (exd, l') \<Longrightarrow> bl_completed_iterations l \<le> lc_max_iterations (bl_config l) \<Longrightarrow>
     prefix exd rounds \<and> bl_completed_iterations l' = bl_completed_iterations l + length exd
     \<and> bl_completed_iterations l' \<le> lc_max_iterations (bl_config l)
     \<and> (\<forall>(now, b, _) \<in> set exd. now < dt_us (lc_deadline_at (bl_config l)) \<and> b)"
proof (induction rounds arbitrary: l exd)
  case (Cons r rounds)
  obtain now b sig where r: "r = (now, b, sig)" by (cases r)
  from Cons.prems(1) [unfolded r] show ?case
  proof (cases rule: drive_loop_ConsE)
    case (2 g l2 exd')
    note ok = complete_iteration_ok(1,2) [OF 2(3)]
    from Cons.IH [OF 2(4)] 2(1,5) ok r show ?thesis
      by (auto simp: gate_reason_None)
  qed (use Cons.prems(2) in auto)
qed simp

lemma drive_loop_no_progress_prefix:
  "drive_loop l rounds = (ys @ zs, l') \<Longrightarrow> \<forall>(_, _, sig) \<in> set ys. sig = None \<Longrightarrow> ys \<noteq> [] \<Longrightarrow>
     bl_no_progress_count l + length ys \<le> lc_no_progress_limit (bl_config l)"
proof (induction rounds arbitrary: l ys)
  case (Cons r rounds)
  obtain now b sig where r: "r = (now, b, sig)" by (cases r)
  from Cons.prems(1) [unfolded r] show ?case
  proof (cases rule: drive_loop_ConsE)
    case (2 g l2 exd')
    then obtain ys' where ys: "ys = r # ys'" "exd' = ys' @ zs"
      using Cons.prems(3) r by (cases ys) auto
    with Cons.prems(2) r have "sig = None" by auto
    note ok = complete_iteration_ok(1) [OF 2(3)] complete_iteration_ok(3) [OF 2(3) this]
    show ?thesis
    proof (cases "ys' = []")
      case True
      then show ?thesis using ys 2(1) by (auto simp: gate_reason_None)
    next
      case False
      have "bl_no_progress_count l2 + length ys' \<le> lc_no_progress_limit (bl_config l2)"
        using Cons.IH [of l2 ys'] 2(4) ys False Cons.prems(2) by auto
      then show ?thesis using ys ok by simp
    qed
  qed (use Cons.prems in auto)
qed simp

lemma drive_loop_suffix:
  "drive_loop l rounds = (xs @ ys, l') \<Longrightarrow> \<exists>l1 rounds'. drive_loop l1 rounds' = (ys, l') \<and> bl_config l1 = bl_config l"
proof (induction xs arbitrary: l rounds)
  case (Cons x xs)
  then obtain now b sig rounds' where r: "rounds = (now, b, sig) # rounds'" by (cases rounds) auto
  from Cons.prems [unfolded r] show ?case
  proof (cases rule: drive_loop_ConsE)
    case (2 g l2 exd')
    then show ?thesis using Cons.IH [of l2 rounds'] complete_iteration_ok(1) [OF 2(3)] by auto
  qed simp
qed auto

section \<open>Execution lemmas\<close>

lemma active_not_terminal: "s \<in> set terminal_execution_statuses \<Longrightarrow> s \<notin> set active_execution_statuses"
  by (auto simp: terminal_execution_statuses_def active_execution_statuses_def)

lemma finish_execution_ok:
  assumes "finish_execution xs i status reason now = Inr ys"
  obtains m where "get_exec xs i = Some m" "status \<in> set terminal_execution_statuses" "ys = xs" "xr_status m = status"
  | m where "get_exec xs i = Some m" "status \<in> set terminal_execution_statuses"
      "xr_status m \<in> set active_execution_statuses"
      "ys = tab_put xr_execution_id
         (m\<lparr>xr_status := status, xr_stop_reason := Some reason, xr_finished_at := Some now\<rparr>) xs"
  using assms
  by (auto simp: finish_execution_def lock_execution_def res_simps split: if_splits)

lemma execution_evolves_refl [simp, intro]: "execution_evolves xs xs"
  by (auto simp: execution_evolves_def)

lemma execution_evolves_trans:
  assumes "execution_evolves xs ys" "execution_evolves ys zs"
  shows "execution_evolves xs zs"
  unfolding execution_evolves_def
proof (intro allI impI)
  fix i m
  assume "get_exec xs i = Some m"
  then obtain m1 where m1: "get_exec ys i = Some m1" "xr_envelope_json m1 = xr_envelope_json m"
    "xr_task_run_id m1 = xr_task_run_id m" "xr_parent_execution_id m1 = xr_parent_execution_id m"
    "xr_status m \<notin> set active_execution_statuses \<longrightarrow> m1 = m"
    using assms(1) unfolding execution_evolves_def by blast
  then obtain m2 where "get_exec zs i = Some m2" "xr_envelope_json m2 = xr_envelope_json m1"
    "xr_task_run_id m2 = xr_task_run_id m1" "xr_parent_execution_id m2 = xr_parent_execution_id m1"
    "xr_status m1 \<notin> set active_execution_statuses \<longrightarrow> m2 = m1"
    using assms(2) unfolding execution_evolves_def by blast
  with m1 show "\<exists>m'. get_exec zs i = Some m' \<and> xr_envelope_json m' = xr_envelope_json m
      \<and> xr_task_run_id m' = xr_task_run_id m \<and> xr_parent_execution_id m' = xr_parent_execution_id m
      \<and> (xr_status m \<notin> set active_execution_statuses \<longrightarrow> m' = m)" by auto
qed

lemma execution_evolves_put:
  assumes "get_exec xs i = Some m" "xr_status m \<in> set active_execution_statuses"
    and "xr_execution_id m' = i" "xr_envelope_json m' = xr_envelope_json m"
    and "xr_task_run_id m' = xr_task_run_id m" "xr_parent_execution_id m' = xr_parent_execution_id m"
  shows "execution_evolves xs (tab_put xr_execution_id m' xs)"
proof -
  have "i \<in> set (map xr_execution_id xs)"
    using tab_get_Some_D [OF assms(1)] by (metis imageI set_map)
  then show ?thesis using assms by (auto simp: execution_evolves_def tab_simps)
qed

lemma finish_execution_evolves:
  assumes "finish_execution xs i status reason now = Inr ys"
  shows "execution_evolves xs ys"
  using assms
proof (cases rule: finish_execution_ok)
  case (2 m)
  then show ?thesis using tab_get_key [OF 2(1)] by (auto intro: execution_evolves_put)
qed simp

lemma execution_step_evolves: "execution_step xs ys \<Longrightarrow> execution_evolves xs ys"
proof (induction rule: execution_step.induct)
  case (create xs env now e ys)
  then show ?case
    by (auto simp: create_execution_def res_simps execution_evolves_def tab_simps split: option.splits)
next
  case (start xs i now e ys)
  then obtain m where m: "get_exec xs i = Some m" and
    "ys = xs \<or> (xr_status m = ''created'' \<and> ys = tab_put xr_execution_id (m\<lparr>xr_status := ''running'', xr_started_at := Some now\<rparr>) xs)"
    by (auto simp: start_execution_def lock_execution_def res_simps split: if_splits)
  then show ?case using tab_get_key [OF m]
    by (auto simp: active_execution_statuses_def intro!: execution_evolves_put [OF m])
next
  case (finish xs i status reason now ys)
  then show ?case by (rule finish_execution_evolves)
qed

lemma execution_steps_evolve: "execution_step\<^sup>*\<^sup>* xs ys \<Longrightarrow> execution_evolves xs ys"
  by (induction rule: rtranclp_induct) (auto intro: execution_evolves_trans execution_step_evolves)

section \<open>Recovery lemmas\<close>

lemma select_stale_runs_distinct:
  "distinct (map rr_run_id (ts_runs s)) \<Longrightarrow>
     distinct (map rr_run_id (select_stale_runs s status roles threshold limit locked))"
proof -
  assume "distinct (map rr_run_id (ts_runs s))"
  then have "distinct (map rr_run_id (sort_key (\<lambda>r. (rr_updated_at r, rr_run_id r))
      (filter P (ts_runs s))))" for P
    by (auto simp: distinct_map inj_on_def)
  then show ?thesis
    by (simp add: select_stale_runs_def take_map [symmetric])
qed

lemma select_stale_runs_mem:
  assumes "distinct (map rr_run_id (ts_runs s))"
    and "r \<in> set (select_stale_runs s status roles threshold limit locked)"
  shows "get_run s (rr_run_id r) = Some r" "rr_status r = status" "rr_role_id r \<in> set roles"
    "rr_updated_at r \<le> threshold" "\<not> locked (rr_run_id r)"
proof -
  have "r \<in> set (ts_runs s)" "rr_status r = status \<and> rr_role_id r \<in> set roles
      \<and> rr_updated_at r \<le> threshold \<and> \<not> locked (rr_run_id r)"
    using assms(2) by (auto simp: select_stale_runs_def dest!: in_set_takeD)
  then show "get_run s (rr_run_id r) = Some r" "rr_status r = status" "rr_role_id r \<in> set roles"
    "rr_updated_at r \<le> threshold" "\<not> locked (rr_run_id r)"
    using tab_get_distinct [OF assms(1)] by auto
qed

lemma close_run_ok:
  assumes "close_run st run x target pl key producer xs_status reason stream now fe = Inr st'"
    and "get_run (rs_tasks st) (rr_run_id run) = Some run"
  shows "get_run (rs_tasks st') q =
      (if q = rr_run_id run then Some (transitioned_row run target None (Some reason) now)
       else get_run (rs_tasks st) q)"
    and "execution_evolves (rs_executions st) (rs_executions st')"
    and "\<forall>i m. get_exec (rs_executions st') i = Some m \<and> xr_status m \<in> set active_execution_statuses \<longrightarrow>
      get_exec (rs_executions st) i = Some m"
    and "map xr_execution_id (rs_executions st') = map xr_execution_id (rs_executions st)"
    and "store_evolves (rs_tasks st) (rs_tasks st')"
proof -
  from assms(1) obtain v ts where tr: "transition_task_run (rs_tasks st) (rr_run_id run) target pl key
      stream producer None (Some reason) now fe = Inr (v, ts)" and
    ts: "rs_tasks st' = ts" and ex: "rs_executions st' = rs_executions st \<or>
      (\<exists>i. finish_execution (rs_executions st) i xs_status reason now = Inr (rs_executions st'))"
    by (cases x) (fastforce simp: close_run_def res_simps split: if_splits)+
  show "get_run (rs_tasks st') q =
      (if q = rr_run_id run then Some (transitioned_row run target None (Some reason) now)
       else get_run (rs_tasks st) q)"
    using transition_run_rows(1) [OF tr assms(2)] ts by simp
  show "store_evolves (rs_tasks st) (rs_tasks st')"
    using store_evolves_transition [OF tr] ts by simp
  show "map xr_execution_id (rs_executions st') = map xr_execution_id (rs_executions st)"
    using ex by (auto elim: finish_execution_ok)
  show "execution_evolves (rs_executions st) (rs_executions st')"
    using ex finish_execution_evolves by auto
  show "\<forall>i m. get_exec (rs_executions st') i = Some m \<and> xr_status m \<in> set active_execution_statuses \<longrightarrow>
      get_exec (rs_executions st) i = Some m"
  proof (cases "rs_executions st' = rs_executions st")
    case False
    then obtain j where "finish_execution (rs_executions st) j xs_status reason now = Inr (rs_executions st')"
      using ex by blast
    then show ?thesis
    proof (cases rule: finish_execution_ok)
      case (2 m)
      then show ?thesis using active_not_terminal [OF 2(2)] by (auto simp: tab_simps split: if_splits)
    qed (use False in simp)
  qed simp
qed

lemma run_envelope_same:
  assumes "execution_evolves xs ys" "map xr_execution_id ys = map xr_execution_id xs"
  shows "run_envelope ys r = run_envelope xs r"
proof (cases "get_exec xs (rr_execution_envelope_ref r)")
  case None
  then have "get_exec ys (rr_execution_envelope_ref r) = None"
    using assms(2) by (metis tab_get_None_iff)
  with None show ?thesis by (simp add: run_envelope_def)
next
  case (Some m)
  then obtain m' where "get_exec ys (rr_execution_envelope_ref r) = Some m'"
    "xr_envelope_json m' = xr_envelope_json m"
    using assms(1) unfolding execution_evolves_def by blast
  with Some show ?thesis by (simp add: run_envelope_def)
qed

text \<open>What one pass over the selected runs has established so far.\<close>

lemma expire_running_run_cases:
  assumes "expire_running_run now stream fresh run (cls, st) = Inr (cls', st')"
  obtains "cls' = cls" "st' = st"
  | x env where "get_exec (rs_executions st) (rr_execution_envelope_ref run) = Some x"
    "xr_status x \<in> set active_execution_statuses" "validate_envelope (xr_envelope_json x) = Inr env"
    "ee_task_run_id env = rr_run_id run" "dt_us (ee_deadline_at env) \<le> now"
    "cls' = cls @ [rr_run_id run]"
    "close_run st run (Some x) TIMED_OUT ''execution-recovery:deadline-exceeded''
       (''execution-recovery:deadline:'' @ rr_run_id run) ''execution-runtime-recovery'' ''timed_out''
       ''deadline_exceeded_without_terminal_result'' stream now (fresh (rr_run_id run)) = Inr st'"
  using assms
  by (auto simp: expire_running_run_def Let_def res_simps simp del: append.simps
      split: option.splits if_splits sum.splits)

lemma recover_queued_run_cases:
  assumes "recover_queued_run now stale stream fresh run ((retried, cls), st) = Inr ((retried', cls'), st')"
  obtains "retried' = retried" "cls' = cls" "st' = st"
  | env a ts where "run_envelope (rs_executions st) run = Some env" "ee_task_run_id env = rr_run_id run"
    "now < dt_us (ee_deadline_at env)" "retried' = retried @ [rr_run_id run]" "cls' = cls"
    "st' = st\<lparr>rs_tasks := ts\<rparr>"
    "append_task_event (rs_tasks st) (rr_run_id run) PROGRESS ''task-runtime-recovery''
       (rr_context_revision run) (''role-dispatch-recovery:'' @ rr_run_id run)
       (''role-dispatch-recovery:'' @ rr_run_id run @ '':'' @ show_int (epoch_seconds now div stale))
       stream now (fresh (rr_run_id run)) = Inr (a, ts)"
  | env x where "run_envelope (rs_executions st) run = Some env" "ee_task_run_id env = rr_run_id run"
    "dt_us (ee_deadline_at env) \<le> now" "retried' = retried" "cls' = cls @ [rr_run_id run]"
    "close_run st run x TIMED_OUT ''role-recovery:deadline-before-start''
       (''role-recovery:deadline:'' @ rr_run_id run) ''task-runtime-recovery'' ''timed_out''
       ''deadline_reached_before_start'' stream now (fresh (rr_run_id run)) = Inr st'"
  | x where "\<forall>env. run_envelope (rs_executions st) run = Some env \<longrightarrow> ee_task_run_id env \<noteq> rr_run_id run"
    "retried' = retried" "cls' = cls @ [rr_run_id run]"
    "close_run st run x BLOCKED ''role-recovery:execution-envelope-unavailable''
       (''role-recovery:invalid-execution:'' @ rr_run_id run) ''task-runtime-recovery'' ''blocked''
       ''execution_envelope_unavailable'' stream now (fresh (rr_run_id run)) = Inr st'"
proof (cases "run_envelope (rs_executions st) run")
  case None
  then show ?thesis using assms that(4)
    by (auto simp: recover_queued_run_def Let_def res_simps simp del: append.simps)
next
  case (Some env)
  consider "ee_task_run_id env \<noteq> rr_run_id run"
    | "ee_task_run_id env = rr_run_id run" "dt_us (ee_deadline_at env) \<le> now"
    | "ee_task_run_id env = rr_run_id run" "now < dt_us (ee_deadline_at env)"
    by linarith
  then show ?thesis
  proof cases
    case 1
    with Some assms that(4) show ?thesis
      by (auto simp: recover_queued_run_def Let_def res_simps simp del: append.simps)
  next
    case 2
    with Some assms that(3) show ?thesis
      by (auto simp: recover_queued_run_def Let_def res_simps simp del: append.simps)
  next
    case 3
    with Some assms that(1,2) show ?thesis
      by (auto simp: recover_queued_run_def Let_def res_simps simp del: append.simps split: if_splits)
  qed
qed

lemma fold_fresh_run:
  assumes "distinct (map rr_run_id runs)" "prefix (pre @ [r]) runs"
  shows "r \<in> set runs" "rr_run_id r \<notin> rr_run_id ` set pre"
  using assms by (auto simp: prefix_def)

lemma expire_fold:
  assumes dist: "distinct (map rr_run_id (ts_runs (rs_tasks st)))"
    and runs: "runs = select_stale_runs (rs_tasks st) RUNNING executing_roles threshold limit locked"
    and "fold_res (expire_running_run now stream fresh) runs ([], st) = Inr t"
  shows "set (fst t) \<subseteq> rr_run_id ` set runs
    \<and> (\<forall>rid r. get_run (rs_tasks st) rid = Some r \<longrightarrow>
         get_run (rs_tasks (snd t)) rid = Some (if rid \<in> set (fst t) then expired_row r now else r)
         \<and> (rid \<in> set (fst t) \<longrightarrow> overdue_run st r now))
    \<and> (\<forall>i m. get_exec (rs_executions (snd t)) i = Some m \<and> xr_status m \<in> set active_execution_statuses \<longrightarrow>
         get_exec (rs_executions st) i = Some m)"
  using assms(3)
proof (induction rule: fold_res_prefix_induct)
  case start
  then show ?case by simp
next
  case (step pre run acc acc')
  obtain cls s cls' s' where acc: "acc = (cls, s)" "acc' = (cls', s')" by (cases acc, cases acc')
  have mem: "run \<in> set runs" and new: "rr_run_id run \<notin> rr_run_id ` set pre"
    using fold_fresh_run [OF _ step.hyps(1)] select_stale_runs_distinct [OF dist] runs by auto
  have run0: "get_run (rs_tasks st) (rr_run_id run) = Some run"
    using select_stale_runs_mem [OF dist] mem runs by blast
  then have run: "get_run (rs_tasks s) (rr_run_id run) = Some run" and ncls: "rr_run_id run \<notin> set cls"
    using step.IH new acc by auto
  from step.hyps(2) [unfolded acc] show ?case
  proof (cases rule: expire_running_run_cases)
    case 1
    then show ?thesis using step.IH acc by auto
  next
    case (2 x env)
    note cl = close_run_ok [OF 2(7) run]
    have "get_exec (rs_executions st) (rr_execution_envelope_ref run) = Some x"
      using 2(1,2) step.IH acc by auto
    then have od: "overdue_run st run now" using 2(2-5) by (auto simp: overdue_run_def)
    have "get_run (rs_tasks s') rid = Some (if rid \<in> set cls' then expired_row r now else r)
        \<and> (rid \<in> set cls' \<longrightarrow> overdue_run st r now)" if "get_run (rs_tasks st) rid = Some r" for rid r
      using that step.IH acc cl(1) [of rid] od 2(6) run0 ncls
      by (auto simp: expired_row_def)
    then show ?thesis using step.IH acc 2(6) cl(3) by auto
  qed
qed

lemma recovered_mono:
  assumes "recovered st now stale ((rtr, cls), s) r"
    and "get_run (rs_tasks s') (rr_run_id r) = get_run (rs_tasks s) (rr_run_id r)"
    and "store_evolves (rs_tasks s) (rs_tasks s')"
    and "rr_run_id r \<in> set cls' \<longleftrightarrow> rr_run_id r \<in> set cls" "rr_run_id r \<in> set rtr' \<longleftrightarrow> rr_run_id r \<in> set rtr"
  shows "recovered st now stale ((rtr', cls'), s') r"
proof -
  have "find_event_by_key (rs_tasks s') rid k \<noteq> None" if "find_event_by_key (rs_tasks s) rid k \<noteq> None" for rid k
    using that find_event_by_key_evolves [OF assms(3)] by fastforce
  then show ?thesis using assms(1,2,4,5) by (auto simp: recovered_def Let_def)
qed

lemma recover_step:
  assumes f: "recover_queued_run now stale stream fresh run ((rtr, cls), s) = Inr ((rtr', cls'), s')"
    and run: "get_run (rs_tasks s) (rr_run_id run) = Some run"
    and nin: "rr_run_id run \<notin> set cls" "rr_run_id run \<notin> set rtr"
    and env: "\<And>r. run_envelope (rs_executions s) r = run_envelope (rs_executions st) r"
  shows "recovered st now stale ((rtr', cls'), s') run
    \<and> (\<forall>q. q \<noteq> rr_run_id run \<longrightarrow> get_run (rs_tasks s') q = get_run (rs_tasks s) q)
    \<and> store_evolves (rs_tasks s) (rs_tasks s')
    \<and> (\<forall>r. run_envelope (rs_executions s') r = run_envelope (rs_executions st) r)
    \<and> set rtr' \<subseteq> insert (rr_run_id run) (set rtr) \<and> set cls' \<subseteq> insert (rr_run_id run) (set cls)
    \<and> set rtr \<subseteq> set rtr' \<and> set cls \<subseteq> set cls'"
  using f
proof (cases rule: recover_queued_run_cases)
  case 1
  then show ?thesis
    using run nin env by (auto simp: recovered_def Let_def)
next
  case (2 e a ts)
  have d: "dispatchable st run now" using 2(1-3) env by (auto simp: dispatchable_def)
  have ev: "store_evolves (rs_tasks s) (rs_tasks s')" using store_evolves_append [OF 2(7)] 2(6) by simp
  have rows: "ts_runs (rs_tasks s') = ts_runs (rs_tasks s)"
    using append_task_event_tables(3) [OF 2(7)] 2(6) by simp
  have found: "find_event_by_key (rs_tasks s') (rr_run_id run) (retry_key (rr_run_id run) now stale) \<noteq> None"
    using append_task_event_found [OF 2(7)] 2(6) by (simp add: retry_key_def)
  show ?thesis
    using d ev rows found run nin env 2(4-6) by (auto simp: recovered_def Let_def)
next
  case (3 e x)
  note cl = close_run_ok [OF 3(6) run]
  have "\<not> dispatchable st run now" "abandoned_row st run now =
      transitioned_row run TIMED_OUT None (Some ''deadline_reached_before_start'') now"
    using 3(1-3) env by (auto simp: dispatchable_def abandoned_row_def)
  then show ?thesis
    using cl(1,5) run_envelope_same [OF cl(2,4)] nin env 3(4,5) by (auto simp: recovered_def Let_def)
next
  case (4 x)
  note cl = close_run_ok [OF 4(4) run]
  have "\<not> dispatchable st run now" "abandoned_row st run now =
      transitioned_row run BLOCKED None (Some ''execution_envelope_unavailable'') now"
    using 4(1) env by (auto simp: dispatchable_def abandoned_row_def)
  then show ?thesis
    using cl(1,5) run_envelope_same [OF cl(2,4)] nin env 4(2,3) by (auto simp: recovered_def Let_def)
qed

lemma recover_fold:
  assumes dist: "distinct (map rr_run_id (ts_runs (rs_tasks st)))"
    and runs: "runs = select_stale_runs (rs_tasks st) QUEUED dispatched_roles threshold limit locked"
    and "fold_res (recover_queued_run now stale stream fresh) runs (([], []), st) = Inr t"
  shows "set (fst (fst t)) \<union> set (snd (fst t)) \<subseteq> rr_run_id ` set runs
    \<and> (\<forall>rid r. get_run (rs_tasks st) rid = Some r \<longrightarrow> recovered st now stale t r)
    \<and> (\<forall>r. run_envelope (rs_executions (snd t)) r = run_envelope (rs_executions st) r)"
  using assms(3)
proof (induction rule: fold_res_prefix_induct)
  case start
  have "recovered st now stale (([], []), st) r" if "get_run (rs_tasks st) rid = Some r" for rid r
    using that tab_get_key [OF that] by (simp add: recovered_def)
  then show ?case by simp
next
  case (step pre run acc acc')
  obtain rtr cls s rtr' cls' s' where acc: "acc = ((rtr, cls), s)" "acc' = ((rtr', cls'), s')"
    by (cases acc, cases acc') auto
  have sub: "set rtr \<union> set cls \<subseteq> rr_run_id ` set pre"
    and IH: "\<And>rid r. get_run (rs_tasks st) rid = Some r \<Longrightarrow> recovered st now stale ((rtr, cls), s) r"
    and env: "\<And>r. run_envelope (rs_executions s) r = run_envelope (rs_executions st) r"
    using step.IH by (simp_all add: acc)
  have mem: "run \<in> set runs" and new: "rr_run_id run \<notin> rr_run_id ` set pre"
    using fold_fresh_run [OF _ step.hyps(1)] select_stale_runs_distinct [OF dist] runs by auto
  have run0: "get_run (rs_tasks st) (rr_run_id run) = Some run"
    using select_stale_runs_mem [OF dist] mem runs by blast
  have nin: "rr_run_id run \<notin> set cls" "rr_run_id run \<notin> set rtr" using sub new by auto
  have run: "get_run (rs_tasks s) (rr_run_id run) = Some run"
    using IH [OF run0] nin by (simp add: recovered_def Let_def)
  have st: "recovered st now stale ((rtr', cls'), s') run"
    "\<And>q. q \<noteq> rr_run_id run \<Longrightarrow> get_run (rs_tasks s') q = get_run (rs_tasks s) q"
    "store_evolves (rs_tasks s) (rs_tasks s')"
    "\<And>r. run_envelope (rs_executions s') r = run_envelope (rs_executions st) r"
    "set rtr' \<subseteq> insert (rr_run_id run) (set rtr)" "set cls' \<subseteq> insert (rr_run_id run) (set cls)"
    "set rtr \<subseteq> set rtr'" "set cls \<subseteq> set cls'"
    using recover_step [OF step.hyps(2) [unfolded acc] run nin env] by blast+
  have "recovered st now stale ((rtr', cls'), s') r" if r: "get_run (rs_tasks st) rid = Some r" for rid r
  proof (cases "rr_run_id r = rr_run_id run")
    case True
    then have "rid = rr_run_id run" using tab_get_key [OF r] by metis
    then have "r = run" using r run0 by (metis option.inject)
    then show ?thesis using st(1) by simp
  next
    case False
    have "rr_run_id r \<in> set cls' \<longleftrightarrow> rr_run_id r \<in> set cls"
      "rr_run_id r \<in> set rtr' \<longleftrightarrow> rr_run_id r \<in> set rtr"
      using False st(5-8) by blast+
    then show ?thesis by (rule recovered_mono [OF IH [OF r] st(2) [OF False] st(3)])
  qed
  moreover have "set rtr' \<union> set cls' \<subseteq> rr_run_id ` set (pre @ [run])"
    using sub st(5,6) by auto
  ultimately show ?case using st(4) by (simp add: acc)
qed

lemmas execution_eval = sample_execution_def sample_lost_def sample_envelope_def
  finish_execution_def start_execution_def lock_execution_def validate_envelope_def
  terminal_execution_statuses_def active_execution_statuses_def dt_naive_def
  expire_stale_running_tasks_def expire_running_run_def recover_queued_role_tasks_def
  recover_queued_run_def select_stale_runs_def executing_roles_def dispatched_roles_def
  close_run_def run_envelope_def dispatch_pending_def last_dispatch_event_def dispatch_events_def

section \<open>Properties\<close>

text \<open>
  Claim C10: a loop is bounded whatever it does. A caller that asks the gate before each iteration
  runs at most \<open>max_iterations\<close> iterations, none of them at or after the deadline or without
  budget; the loop counts exactly the iterations that ran; and no more than \<open>no_progress_limit\<close>
  iterations in a row report no progress.
\<close>

theorem bounded_loop_terminates:
  assumes "drive_loop (new_loop c) rounds = (exd, l)"
  shows "prefix exd rounds \<and> length exd \<le> lc_max_iterations c \<and> bl_completed_iterations l = length exd
    \<and> (\<forall>(now, b, _) \<in> set exd. now < dt_us (lc_deadline_at c) \<and> b)
    \<and> (\<forall>xs ys zs. exd = xs @ ys @ zs \<and> (\<forall>(_, _, sig) \<in> set ys. sig = None) \<longrightarrow>
         length ys \<le> lc_no_progress_limit c)"
proof -
  have cfg: "bl_config (new_loop c) = c" "bl_completed_iterations (new_loop c) = 0"
    by (simp_all add: new_loop_def)
  have "length ys \<le> lc_no_progress_limit c"
    if seg: "exd = xs @ ys @ zs" and idle: "\<forall>(_, _, sig) \<in> set ys. sig = None" for xs ys zs
  proof (cases "ys = []")
    case False
    obtain l1 rounds' where "drive_loop l1 rounds' = (ys @ zs, l)" "bl_config l1 = c"
      using drive_loop_suffix [of "new_loop c" rounds xs "ys @ zs" l] assms seg cfg by auto
    from drive_loop_no_progress_prefix [OF this(1) idle False] this(2) show ?thesis by simp
  qed simp
  then show ?thesis using drive_loop_counts [OF assms] cfg by auto
qed

theorem bounded_loop_terminates_witness:
  "length (fst (drive_loop (new_loop sample_loop_config)
      [(1, True, Some ''a''), (2, True, None), (3, True, None), (4, True, Some ''b'')])) \<le> 3"
proof -
  obtain exd l where d: "drive_loop (new_loop sample_loop_config)
      [(1, True, Some ''a''), (2, True, None), (3, True, None), (4, True, Some ''b'')] = (exd, l)"
    by (rule prod.exhaust)
  from bounded_loop_terminates [OF d] show ?thesis unfolding d by (simp add: sample_loop_config_def)
qed

text \<open>
  The gate opens exactly when it should and never opens again. For a timezone-aware
  instant, \<open>before_iteration\<close> allows an iteration if and only if the loop has not stopped, the
  deadline is ahead, there is budget, and neither limit is reached; once it has refused, every
  later call refuses with the same reason, and completing an iteration raises.
\<close>

theorem loop_gate_exact:
  "case before_iteration l (Aware now) b of
     Inl _ \<Rightarrow> False
   | Inr (g, l1) \<Rightarrow>
      (lg_allowed g \<longleftrightarrow> bl_terminal_reason l = None \<and> now < dt_us (lc_deadline_at (bl_config l)) \<and> b
         \<and> bl_completed_iterations l < lc_max_iterations (bl_config l)
         \<and> bl_no_progress_count l < lc_no_progress_limit (bl_config l))
      \<and> (lg_allowed g
         \<or> (before_iteration l1 (Aware now') b' = Inr (closed_gate l1, l1)
            \<and> lg_stop_reason (closed_gate l1) = lg_stop_reason g
            \<and> complete_iteration l1 sig
               = Inl (RuntimeError ''cannot complete iteration after loop termination'')))"
  using gate_reason_None [of l now b]
  by (auto simp: before_iteration_def closed_gate_def complete_iteration_def dt_naive_def Let_def)

text \<open>
  Executions keep their authority and their outcome. Along any sequence of service calls
  an execution keeps its envelope, its task run and its parent, and once it is neither created nor
  running no column of it changes any more.
\<close>

theorem execution_outcome_immutable:
  assumes "execution_step\<^sup>*\<^sup>* xs ys" and "get_exec xs i = Some m"
  shows "\<exists>m'. get_exec ys i = Some m' \<and> xr_envelope_json m' = xr_envelope_json m
    \<and> xr_task_run_id m' = xr_task_run_id m \<and> xr_parent_execution_id m' = xr_parent_execution_id m
    \<and> (xr_status m \<notin> set active_execution_statuses \<longrightarrow> m' = m)"
  using execution_steps_evolve [OF assms(1)] assms(2) by (simp add: execution_evolves_def)

theorem execution_outcome_immutable_witness:
  "\<exists>ys m'. finish_execution [sample_execution ''running'' 50] ''env'' ''failed'' ''x'' 9 = Inr ys
     \<and> get_exec ys ''env'' = Some m'
     \<and> xr_envelope_json m' = xr_envelope_json (sample_execution ''running'' 50)"
proof -
  have "\<exists>ys. finish_execution [sample_execution ''running'' 50] ''env'' ''failed'' ''x'' 9 = Inr ys"
    by (simp add: execution_eval)
  then obtain ys where ys: "finish_execution [sample_execution ''running'' 50] ''env'' ''failed'' ''x'' 9 = Inr ys"
    by blast
  have st: "execution_step\<^sup>*\<^sup>* [sample_execution ''running'' 50] ys"
    using execution_step.finish [OF ys] by (rule r_into_rtranclp)
  have "get_exec [sample_execution ''running'' 50] ''env'' = Some (sample_execution ''running'' 50)"
    by (simp add: sample_execution_def)
  from execution_outcome_immutable [OF st this] ys show ?thesis by blast
qed

text \<open>
  Expiry closes only overdue runs. When \<open>expire_stale_running_tasks\<close> returns, every run it
  lists was running, in an executing role, not updated for \<open>stale_seconds\<close>, not locked by another
  transaction, and bound to a valid active execution of its own whose deadline had passed; it is
  now timed out. Every run it does not list is unchanged.
\<close>

theorem expiry_closes_only_overdue:
  assumes "(store_step E)\<^sup>*\<^sup>* empty_store (rs_tasks st)"
    and "expire_stale_running_tasks st now stale lmt stream locked fresh = Inr (ended, st')"
    and "get_run (rs_tasks st) rid = Some r"
  shows "if rid \<in> set ended
    then rr_status r = RUNNING \<and> rr_role_id r \<in> set executing_roles
      \<and> rr_updated_at r \<le> now - stale * 1000000 \<and> \<not> locked rid \<and> overdue_run st r now
      \<and> get_run (rs_tasks st') rid = Some (expired_row r now)
    else get_run (rs_tasks st') rid = Some r"
proof -
  have dist: "distinct (map rr_run_id (ts_runs (rs_tasks st)))"
    using task_tables.inv_reachable [OF refl assms(1)] by (simp add: store_inv_def runs_ok_def)
  let ?runs = "select_stale_runs (rs_tasks st) RUNNING executing_roles (now - stale * 1000000) (nat lmt) locked"
  have "fold_res (expire_running_run now stream fresh) ?runs ([], st) = Inr (ended, st')"
    using assms(2) by (simp add: expire_stale_running_tasks_def res_simps)
  note fold = expire_fold [OF dist refl this]
  have row: "get_run (rs_tasks st') rid = Some (if rid \<in> set ended then expired_row r now else r)"
    "rid \<in> set ended \<longrightarrow> overdue_run st r now" using fold assms(3) by auto
  show ?thesis
  proof (cases "rid \<in> set ended")
    case True
    then obtain r' where r': "r' \<in> set ?runs" "rid = rr_run_id r'" using fold by auto
    note sel = select_stale_runs_mem [OF dist r'(1)]
    have "r' = r" using sel(1) assms(3) r'(2) by (metis option.inject)
    then show ?thesis using True row sel(2-5) r'(2) by auto
  qed (use row in simp)
qed

theorem expiry_closes_only_overdue_witness:
  "\<exists>st'. expire_stale_running_tasks (sample_lost sample_running 5000000) 400000000 300 10 ''tasks''
       (\<lambda>_. False) (\<lambda>x. ''f'' @ x) = Inr ([''p''], st')
     \<and> map_option rr_status (get_run (rs_tasks st') ''p'') = Some TIMED_OUT"
proof -
  let ?st = "sample_lost sample_running 5000000"
  have reach: "(store_step sample_hash)\<^sup>*\<^sup>* empty_store (rs_tasks ?st)"
    using sample_running_reachable by (simp add: sample_lost_def)
  have "\<exists>st'. expire_stale_running_tasks ?st 400000000 300 10 ''tasks'' (\<lambda>_. False) (\<lambda>x. ''f'' @ x)
      = Inr ([''p''], st')"
    by (simp add: execution_eval sample_eval)
  then obtain st' where ok: "expire_stale_running_tasks ?st 400000000 300 10 ''tasks'' (\<lambda>_. False)
      (\<lambda>x. ''f'' @ x) = Inr ([''p''], st')" by blast
  have "get_run (rs_tasks ?st) ''p'' = Some (sample_run_row ''p'' None RUNNING 30)"
    by (simp add: sample_lost_def sample_running_val sample_run_row_def)
  from expiry_closes_only_overdue [OF reach ok this] ok show ?thesis
    by (auto simp: expired_row_def)
qed

text \<open>
  Recovery of queued runs is sound. When \<open>recover_queued_role_tasks\<close> returns, only queued,
  stale, unlocked runs of dispatched roles were acted on. A run it closed could not be dispatched:
  its execution envelope was missing, invalid or another run's, and it is now blocked, or its
  deadline had passed, and it is now timed out. A run it retried was still dispatchable, has the
  retry event of this recovery window in its log, and its row is unchanged: it is never executed
  in place. Every other run is unchanged.
\<close>

theorem queued_recovery_sound:
  assumes "(store_step E)\<^sup>*\<^sup>* empty_store (rs_tasks st)"
    and "recover_queued_role_tasks st now stale lmt stream locked fresh = Inr ((retried, ended), st')"
    and "get_run (rs_tasks st) rid = Some r"
  shows "get_run (rs_tasks st') rid = Some (if rid \<in> set ended then abandoned_row st r now else r)
    \<and> (rid \<in> set retried \<union> set ended \<longrightarrow> rr_status r = QUEUED \<and> rr_role_id r \<in> set dispatched_roles
         \<and> rr_updated_at r \<le> now - stale * 1000000 \<and> \<not> locked rid)
    \<and> (rid \<in> set ended \<longrightarrow> \<not> dispatchable st r now)
    \<and> (rid \<in> set retried \<longrightarrow> dispatchable st r now
         \<and> find_event_by_key (rs_tasks st') rid (retry_key rid now stale) \<noteq> None)"
proof -
  have dist: "distinct (map rr_run_id (ts_runs (rs_tasks st)))"
    using task_tables.inv_reachable [OF refl assms(1)] by (simp add: store_inv_def runs_ok_def)
  let ?runs = "select_stale_runs (rs_tasks st) QUEUED dispatched_roles (now - stale * 1000000) (nat lmt) locked"
  have "fold_res (recover_queued_run now stale stream fresh) ?runs (([], []), st) = Inr ((retried, ended), st')"
    using assms(2) by (simp add: recover_queued_role_tasks_def res_simps)
  note fold = recover_fold [OF dist refl this]
  have rid: "rr_run_id r = rid" by (rule tab_get_key [OF assms(3)])
  have "recovered st now stale ((retried, ended), st') r" using fold assms(3) by blast
  moreover have "rr_status r = QUEUED \<and> rr_role_id r \<in> set dispatched_roles
      \<and> rr_updated_at r \<le> now - stale * 1000000 \<and> \<not> locked rid" if "rid \<in> set retried \<union> set ended"
  proof -
    from that fold obtain r' where r': "r' \<in> set ?runs" "rid = rr_run_id r'" by auto
    note sel = select_stale_runs_mem [OF dist r'(1)]
    have "r' = r" using sel(1) assms(3) r'(2) by (metis option.inject)
    then show ?thesis using sel(2-5) r'(2) by auto
  qed
  ultimately show ?thesis by (simp add: recovered_def Let_def rid)
qed

theorem queued_recovery_sound_witness:
  "\<exists>st'. recover_queued_role_tasks (sample_lost sample_queued 5000000) 400000000 300 10 ''tasks''
       (\<lambda>_. False) (\<lambda>x. ''f'' @ x) = Inr (([], [''p'']), st')
     \<and> map_option rr_status (get_run (rs_tasks st') ''p'') = Some TIMED_OUT"
proof -
  let ?st = "sample_lost sample_queued 5000000"
  have reach: "(store_step sample_hash)\<^sup>*\<^sup>* empty_store (rs_tasks ?st)"
    using sample_queued_reachable by (simp add: sample_lost_def)
  have "\<exists>st'. recover_queued_role_tasks ?st 400000000 300 10 ''tasks'' (\<lambda>_. False) (\<lambda>x. ''f'' @ x)
      = Inr (([], [''p'']), st')"
    by (simp add: execution_eval sample_eval)
  then obtain st' where ok: "recover_queued_role_tasks ?st 400000000 300 10 ''tasks'' (\<lambda>_. False)
      (\<lambda>x. ''f'' @ x) = Inr (([], [''p'']), st')" by blast
  have "get_run (rs_tasks ?st) ''p'' = Some (sample_run_row ''p'' None QUEUED 20)"
    by (simp add: sample_lost_def sample_queued_val sample_run_row_def)
  from queued_recovery_sound [OF reach ok this]
  have "get_run (rs_tasks st') ''p'' = Some (abandoned_row ?st (sample_run_row ''p'' None QUEUED 20) 400000000)"
    by simp
  moreover have "rr_status (abandoned_row ?st (sample_run_row ''p'' None QUEUED 20) 400000000) = TIMED_OUT"
    by (simp add: abandoned_row_def execution_eval sample_run_row_def blank_def strip_def is_space_def)
  ultimately show ?thesis using ok by simp
qed

end
