(* ===== verification/Budget_Governor.thy ===== *)
theory Budget_Governor
  imports Task_Store
begin

text \<open>
  \<^verbatim>\<open>packages/runtime/budget\<close>: budget accounts in a tree, with reservations that are committed or
  released (\<^verbatim>\<open>contracts.py\<close>, \<^verbatim>\<open>service.py\<close>, \<^verbatim>\<open>BudgetAccountModel\<close>, \<^verbatim>\<open>BudgetReservationModel\<close>). A
  \<^verbatim>\<open>Decimal\<close> is its value, a rational; the rounding of the column type \<^verbatim>\<open>Numeric(24, 6)\<close> is not
  modelled. A Python dict is the list of its items in insertion order, so its keys are distinct.
  An exception aborts the caller's transaction and leaves the ledger as it was.
\<close>

section \<open>Data\<close>

type_synonym quantities = "(string \<times> rat) list"

text \<open>\<^verbatim>\<open>d.get(key, Decimal("0"))\<close>\<close>

definition qty :: "quantities \<Rightarrow> string \<Rightarrow> rat" where
  "qty d k = (case map_of d k of None \<Rightarrow> 0 | Some v \<Rightarrow> v)"

text \<open>\<^verbatim>\<open>BudgetLimits.validate_quantities\<close>\<close>

fun validate_quantities :: "quantities \<Rightarrow> quantities res" where
  "validate_quantities [] = Inr []"
| "validate_quantities ((resource, quantity) # rest) =
     raise_if (blank resource) (ValueError ''budget resource cannot be empty'')
     (raise_if (quantity < 0) (ValueError ''budget limit cannot be negative'')
     (res_bind (validate_quantities rest) (\<lambda>r. Inr ((resource, quantity) # r))))"

datatype reservation_status = RESERVED | COMMITTED | RELEASED

record account_row =
  ba_account_id :: string
  ba_parent_account_id :: "string option"
  ba_task_run_id :: "string option"
  ba_limits :: quantities
  ba_status :: string
  ba_created_at :: int
  ba_closed_at :: "int option"

record reservation_row =
  br_reservation_id :: string
  br_reservation_group_id :: string
  br_account_id :: string
  br_child_account_id :: "string option"
  br_resource_type :: string
  br_amount_reserved :: rat
  br_amount_committed :: rat
  br_status :: reservation_status
  br_created_at :: int
  br_updated_at :: int

record budget_ledger =
  bg_accounts :: "account_row list"
  bg_reservations :: "reservation_row list"

definition empty_ledger :: budget_ledger where
  "empty_ledger = \<lparr>bg_accounts = [], bg_reservations = []\<rparr>"

record budget_reservation =
  bv_reservation_id :: string
  bv_account_id :: string
  bv_resource_type :: string
  bv_amount_reserved :: rat
  bv_amount_committed :: rat
  bv_status :: reservation_status

record budget_account_view =
  av_account_id :: string
  av_parent_account_id :: "string option"
  av_task_run_id :: "string option"
  av_limits :: quantities
  av_status :: string

record budget_snapshot =
  bs_account_id :: string
  bs_limits :: quantities
  bs_reserved :: quantities
  bs_committed :: quantities
  bs_remaining :: quantities

record reservation_group =
  rg_reservation_group_id :: string
  rg_account_id :: string
  rg_reservations :: "budget_reservation list"
  rg_replay :: bool

abbreviation get_account :: "budget_ledger \<Rightarrow> string \<Rightarrow> account_row option" where
  "get_account L a \<equiv> tab_get ba_account_id a (bg_accounts L)"

definition serialize_limits :: "quantities \<Rightarrow> quantities" where
  "serialize_limits q = sort_key fst q"

definition account_view :: "account_row \<Rightarrow> budget_account_view" where
  "account_view m = \<lparr>av_account_id = ba_account_id m, av_parent_account_id = ba_parent_account_id m,
     av_task_run_id = ba_task_run_id m, av_limits = ba_limits m, av_status = ba_status m\<rparr>"

definition reservation_view :: "reservation_row \<Rightarrow> budget_reservation" where
  "reservation_view m = \<lparr>bv_reservation_id = br_reservation_id m, bv_account_id = br_account_id m,
     bv_resource_type = br_resource_type m, bv_amount_reserved = br_amount_reserved m,
     bv_amount_committed = br_amount_committed m, bv_status = br_status m\<rparr>"

definition group_result :: "string \<Rightarrow> string \<Rightarrow> reservation_row list \<Rightarrow> bool \<Rightarrow> reservation_group" where
  "group_result account_id group_id rows replay =
     \<lparr>rg_reservation_group_id = group_id, rg_account_id = account_id,
      rg_reservations = map reservation_view rows, rg_replay = replay\<rparr>"

section \<open>Snapshots\<close>

text \<open>\<^verbatim>\<open>d[k] = d.get(k, Decimal("0")) + v\<close>\<close>

fun add_qty :: "string \<Rightarrow> rat \<Rightarrow> quantities \<Rightarrow> quantities" where
  "add_qty k v [] = [(k, 0 + v)]"
| "add_qty k v ((k', w) # d) = (if k' = k then (k', w + v) # d else (k', w) # add_qty k v d)"

definition account_rows :: "budget_ledger \<Rightarrow> string \<Rightarrow> reservation_row list" where
  "account_rows L a = filter (\<lambda>r. br_account_id r = a) (bg_reservations L)"

definition reserved_of :: "reservation_row list \<Rightarrow> quantities" where
  "reserved_of rows = fold (\<lambda>r d. if br_status r = RESERVED
     then add_qty (br_resource_type r) (br_amount_reserved r) d else d) rows []"

definition committed_of :: "reservation_row list \<Rightarrow> quantities" where
  "committed_of rows = fold (\<lambda>r d. if br_status r = COMMITTED
     then add_qty (br_resource_type r) (br_amount_committed r) d else d) rows []"

definition account_not_found :: "string \<Rightarrow> py_error" where
  "account_not_found a = LookupError (''budget account not found: '' @ a)"

definition snapshot :: "budget_ledger \<Rightarrow> string \<Rightarrow> budget_snapshot res" where
  "snapshot L account_id =
     res_bind (res_of_option (account_not_found account_id) (get_account L account_id)) (\<lambda>account.
     (let limits = ba_limits account; rows = account_rows L account_id;
          reserved = reserved_of rows; committed = committed_of rows;
          remaining = map (\<lambda>(resource, limit). (resource,
            max 0 (limit - qty reserved resource - qty committed resource))) limits
      in Inr \<lparr>bs_account_id = account_id, bs_limits = limits, bs_reserved = reserved,
           bs_committed = committed, bs_remaining = remaining\<rparr>))"

section \<open>Reservations\<close>

definition group_rows :: "budget_ledger \<Rightarrow> string \<Rightarrow> string \<Rightarrow> reservation_row list" where
  "group_rows L account_id group_id =
     filter (\<lambda>r. br_account_id r = account_id \<and> br_reservation_group_id r = group_id)
       (bg_reservations L)"

definition over_remaining :: "budget_snapshot \<Rightarrow> quantities \<Rightarrow> (string \<times> rat) option" where
  "over_remaining snap q = find (\<lambda>(resource, amount). amount > qty (bs_remaining snap) resource) q"

definition exceeded :: "budget_snapshot \<Rightarrow> string \<times> rat \<Rightarrow> py_error" where
  "exceeded snap ra = BudgetExceeded (fst ra) (snd ra) (qty (bs_remaining snap) (fst ra))"

definition reservation_id :: "hash_env \<Rightarrow> string \<Rightarrow> string \<Rightarrow> string \<Rightarrow> string" where
  "reservation_id E account_id group_id resource =
     stable_id E (''budget-reservation:'' @ account_id @ '':'' @ group_id @ '':'' @ resource)"

definition new_reservation ::
  "hash_env \<Rightarrow> string \<Rightarrow> string \<Rightarrow> string option \<Rightarrow> int \<Rightarrow> string \<times> rat \<Rightarrow> reservation_row" where
  "new_reservation E account_id group_id child now ra =
     \<lparr>br_reservation_id = reservation_id E account_id group_id (fst ra),
      br_reservation_group_id = group_id, br_account_id = account_id, br_child_account_id = child,
      br_resource_type = fst ra, br_amount_reserved = snd ra, br_amount_committed = 0,
      br_status = RESERVED, br_created_at = now, br_updated_at = now\<rparr>"

definition reserve ::
  "hash_env \<Rightarrow> budget_ledger \<Rightarrow> string \<Rightarrow> string \<Rightarrow> quantities \<Rightarrow> string option \<Rightarrow> int
     \<Rightarrow> (reservation_group \<times> budget_ledger) res" where
  "reserve E L account_id group_id q child now =
     raise_if (q = []) (ValueError ''budget reservation requires quantities'')
     (raise_if (list_ex (\<lambda>(_, amount). amount \<le> 0) q)
       (ValueError ''budget reservation quantities must be positive'')
     (res_bind (res_of_option (account_not_found account_id) (get_account L account_id)) (\<lambda>account.
      raise_if (ba_status account \<noteq> ''active'') (ValueError ''budget account is not active'')
      (let existing = group_rows L account_id group_id in
       if existing \<noteq> [] then
         raise_if (set (map (\<lambda>r. (br_resource_type r, br_amount_reserved r)) existing) \<noteq> set q
                   \<or> set (map br_child_account_id existing) \<noteq> {child})
           (ValueError ''budget reservation group identity is immutable'')
         (Inr (group_result account_id group_id existing True, L))
       else
         res_bind (snapshot L account_id) (\<lambda>snap.
         (case over_remaining snap q of
            Some ra \<Rightarrow> Inl (exceeded snap ra)
          | None \<Rightarrow>
              (let models = map (new_reservation E account_id group_id child now) (sort_key fst q) in
               res_bind (fold_res (tab_add br_reservation_id) models (bg_reservations L)) (\<lambda>rows.
               Inr (group_result account_id group_id models False, L\<lparr>bg_reservations := rows\<rparr>)))))))))"

definition lock_group :: "budget_ledger \<Rightarrow> string \<Rightarrow> string \<Rightarrow> reservation_row list res" where
  "lock_group L account_id group_id =
     (let rows = sort_key br_resource_type (group_rows L account_id group_id) in
      raise_if (rows = []) (LookupError (''budget reservation group not found: '' @ group_id)) (Inr rows))"

definition committed_row :: "reservation_row \<Rightarrow> rat \<Rightarrow> int \<Rightarrow> reservation_row" where
  "committed_row m amount now =
     m\<lparr>br_amount_committed := amount, br_status := COMMITTED, br_updated_at := now\<rparr>"

text \<open>
  The loop of \<^verbatim>\<open>commit\<close>: the first argument list holds the rows already assigned, and the result says
  whether the group is returned as a replay.
\<close>

fun commit_loop ::
  "quantities \<Rightarrow> bool \<Rightarrow> int \<Rightarrow> reservation_row list \<Rightarrow> reservation_row list
     \<Rightarrow> (bool \<times> reservation_row list) res" where
  "commit_loop consumed allow_overrun now acc [] = Inr (False, acc)"
| "commit_loop consumed allow_overrun now acc (m # ms) =
     (if br_status m \<noteq> RESERVED then
        (let models = acc @ m # ms;
             prior = map (\<lambda>r. (br_resource_type r, br_amount_committed r)) models in
         if list_all (\<lambda>r. br_status r = COMMITTED) models
            \<and> list_all (\<lambda>(resource, amount). qty prior resource = amount) consumed
         then Inr (True, models)
         else Inl (ValueError ''budget reservation group is no longer reservable''))
      else
        (let amount = qty consumed (br_resource_type m) in
         raise_if (amount < 0 \<or> (amount > br_amount_reserved m \<and> \<not> allow_overrun))
           (ValueError (''committed amount exceeds reservation for '' @ br_resource_type m))
         (commit_loop consumed allow_overrun now (acc @ [committed_row m amount now]) ms)))"

definition put_rows :: "budget_ledger \<Rightarrow> reservation_row list \<Rightarrow> budget_ledger" where
  "put_rows L rows = L\<lparr>bg_reservations := fold (tab_put br_reservation_id) rows (bg_reservations L)\<rparr>"

definition commit ::
  "budget_ledger \<Rightarrow> string \<Rightarrow> string \<Rightarrow> quantities \<Rightarrow> bool \<Rightarrow> int
     \<Rightarrow> (reservation_group \<times> budget_ledger) res" where
  "commit L account_id group_id consumed allow_overrun now =
     res_bind (lock_group L account_id group_id) (\<lambda>models.
     raise_if (\<not> set (map fst consumed) \<subseteq> set (map br_resource_type models))
       (ValueError ''commit contains resource not present in reservation'')
     (res_bind (commit_loop consumed allow_overrun now [] models) (\<lambda>(replay, rows).
      Inr (group_result account_id group_id rows replay, put_rows L rows))))"

definition released_row :: "reservation_row \<Rightarrow> int \<Rightarrow> reservation_row" where
  "released_row m now = m\<lparr>br_status := RELEASED, br_updated_at := now\<rparr>"

definition release ::
  "budget_ledger \<Rightarrow> string \<Rightarrow> string \<Rightarrow> int \<Rightarrow> (reservation_group \<times> budget_ledger) res" where
  "release L account_id group_id now =
     res_bind (lock_group L account_id group_id) (\<lambda>models.
     if list_all (\<lambda>r. br_status r = RELEASED) models
     then Inr (group_result account_id group_id models True, L)
     else raise_if (list_ex (\<lambda>r. br_status r = COMMITTED) models)
       (ValueError ''committed reservation cannot be released'')
       (let rows = map (\<lambda>m. released_row m now) models in
        Inr (group_result account_id group_id rows False, put_rows L rows)))"

section \<open>Accounts\<close>

definition child_group :: "string \<Rightarrow> string" where
  "child_group account_id = ''child-allocation:'' @ account_id"

definition new_account :: "string \<Rightarrow> quantities \<Rightarrow> string option \<Rightarrow> string option \<Rightarrow> int \<Rightarrow> account_row" where
  "new_account account_id limits task_run_id parent now =
     \<lparr>ba_account_id = account_id, ba_parent_account_id = parent, ba_task_run_id = task_run_id,
      ba_limits = serialize_limits limits, ba_status = ''active'', ba_created_at = now,
      ba_closed_at = None\<rparr>"

text \<open>The checks of \<^verbatim>\<open>create_account\<close> on the parent.\<close>

definition check_parent_account :: "budget_ledger \<Rightarrow> quantities \<Rightarrow> string option \<Rightarrow> unit res" where
  "check_parent_account L limits parent_account_id =
     (case parent_account_id of
        None \<Rightarrow> Inr ()
      | Some pid \<Rightarrow>
          res_bind (res_of_option (LookupError (''parent budget account not found: '' @ pid))
              (get_account L pid)) (\<lambda>parent.
          raise_if (ba_status parent \<noteq> ''active'') (ValueError ''parent budget account is not active'')
          (res_bind (snapshot L pid) (\<lambda>snap.
           (case over_remaining snap limits of Some ra \<Rightarrow> Inl (exceeded snap ra) | None \<Rightarrow> Inr ())))))"

definition create_account ::
  "hash_env \<Rightarrow> budget_ledger \<Rightarrow> string \<Rightarrow> quantities \<Rightarrow> string option \<Rightarrow> string option \<Rightarrow> int
     \<Rightarrow> (budget_account_view \<times> budget_ledger) res" where
  "create_account E L account_id limits task_run_id parent_account_id now =
     (case get_account L account_id of
        Some existing \<Rightarrow>
          raise_if (ba_limits existing \<noteq> serialize_limits limits
                    \<or> ba_task_run_id existing \<noteq> task_run_id
                    \<or> ba_parent_account_id existing \<noteq> parent_account_id)
            (ValueError ''budget account identity is immutable'')
          (Inr (account_view existing, L))
      | None \<Rightarrow>
          res_bind (check_parent_account L limits parent_account_id) (\<lambda>_.
          (let model = new_account account_id limits task_run_id parent_account_id now in
           res_bind (tab_add ba_account_id model (bg_accounts L)) (\<lambda>accounts.
           (let L1 = L\<lparr>bg_accounts := accounts\<rparr> in
            case parent_account_id of
              Some pid \<Rightarrow>
                if limits = [] then Inr (account_view model, L1)
                else res_bind (reserve E L1 pid (child_group account_id) limits (Some account_id) now)
                  (\<lambda>(_, L2). Inr (account_view model, L2))
            | None \<Rightarrow> Inr (account_view model, L1))))))"

definition close_child_account ::
  "budget_ledger \<Rightarrow> string \<Rightarrow> int \<Rightarrow> (budget_account_view \<times> budget_ledger) res" where
  "close_child_account L account_id now =
     res_bind (res_of_option (account_not_found account_id) (get_account L account_id)) (\<lambda>child.
     (case ba_parent_account_id child of
        None \<Rightarrow> Inl (ValueError ''close_child_account requires a child budget account'')
      | Some pid \<Rightarrow>
          if ba_status child = ''closed'' then Inr (account_view child, L)
          else
            res_bind (snapshot L account_id) (\<lambda>snap.
            res_bind (commit L pid (child_group account_id) (bs_committed snap) True now) (\<lambda>(_, L1).
            (let child' = child\<lparr>ba_status := ''closed'', ba_closed_at := Some now\<rparr> in
             Inr (account_view child',
               L1\<lparr>bg_accounts := tab_put ba_account_id child' (bg_accounts L1)\<rparr>))))))"

section \<open>Steps of the ledger\<close>

text \<open>Limits passed \<open>validate_quantities\<close>, and dicts have distinct keys.\<close>

definition valid_limits :: "quantities \<Rightarrow> bool" where
  "valid_limits q \<longleftrightarrow> distinct (map fst q) \<and> validate_quantities q = Inr q"

inductive ledger_step :: "hash_env \<Rightarrow> budget_ledger \<Rightarrow> budget_ledger \<Rightarrow> bool" for E where
  create: "valid_limits q \<Longrightarrow> create_account E L a q trid par now = Inr (v, M) \<Longrightarrow> ledger_step E L M"
| reserve: "distinct (map fst q) \<Longrightarrow> reserve E L a g q child now = Inr (r, M) \<Longrightarrow> ledger_step E L M"
| commit: "commit L a g consumed ov now = Inr (r, M) \<Longrightarrow> ledger_step E L M"
| release: "release L a g now = Inr (r, M) \<Longrightarrow> ledger_step E L M"
| close_child: "close_child_account L a now = Inr (v, M) \<Longrightarrow> ledger_step E L M"

section \<open>Accounting\<close>

text \<open>
  What a row holds of its account: the reserved amount, the committed amount, or nothing. \<open>covered\<close>
  is the part that its reservation covers and \<open>overrun\<close> the part that it does not.
\<close>

definition charge :: "reservation_row \<Rightarrow> rat" where
  "charge r = (case br_status r of RESERVED \<Rightarrow> br_amount_reserved r
     | COMMITTED \<Rightarrow> br_amount_committed r | RELEASED \<Rightarrow> 0)"

definition covered :: "reservation_row \<Rightarrow> rat" where
  "covered r = (case br_status r of RESERVED \<Rightarrow> br_amount_reserved r
     | COMMITTED \<Rightarrow> min (br_amount_committed r) (br_amount_reserved r) | RELEASED \<Rightarrow> 0)"

definition overrun :: "reservation_row \<Rightarrow> rat" where
  "overrun r = (case br_status r of COMMITTED \<Rightarrow> max 0 (br_amount_committed r - br_amount_reserved r)
     | _ \<Rightarrow> 0)"

definition total :: "(reservation_row \<Rightarrow> rat) \<Rightarrow> budget_ledger \<Rightarrow> string \<Rightarrow> string \<Rightarrow> rat" where
  "total f L a resource =
     sum_list (map f (filter (\<lambda>r. br_account_id r = a \<and> br_resource_type r = resource) (bg_reservations L)))"

text \<open>The columns of a row that never change, and rows that only lose hold of the budget.\<close>

definition row_identity :: "reservation_row \<Rightarrow> string \<times> string \<times> string \<times> string option \<times> string \<times> rat" where
  "row_identity r = (br_reservation_id r, br_reservation_group_id r, br_account_id r,
     br_child_account_id r, br_resource_type r, br_amount_reserved r)"

definition row_settles :: "reservation_row \<Rightarrow> reservation_row \<Rightarrow> bool" where
  "row_settles r r' \<longleftrightarrow> row_identity r' = row_identity r \<and> covered r' \<le> covered r
     \<and> (br_status r \<noteq> RESERVED \<longrightarrow> charge r' = charge r \<and> br_status r' = br_status r)"

definition ledger_inv :: "budget_ledger \<Rightarrow> bool" where
  "ledger_inv L \<longleftrightarrow> distinct (map ba_account_id (bg_accounts L))
     \<and> distinct (map br_reservation_id (bg_reservations L))
     \<and> (\<forall>acct \<in> set (bg_accounts L). distinct (map fst (ba_limits acct)) \<and> (\<forall>(_, v) \<in> set (ba_limits acct). 0 \<le> v))
     \<and> (\<forall>r \<in> set (bg_reservations L). get_account L (br_account_id r) \<noteq> None \<and> 0 < br_amount_reserved r)
     \<and> (\<forall>acct \<in> set (bg_accounts L). \<forall>resource.
          total covered L (ba_account_id acct) resource \<le> qty (ba_limits acct) resource)"

text \<open>The identity of a reservation group, if it exists.\<close>

definition group_identity :: "budget_ledger \<Rightarrow> string \<times> string \<Rightarrow>
    (string \<times> string \<times> string \<times> string option \<times> string \<times> rat) list option" where
  "group_identity L ag = (case group_rows L (fst ag) (snd ag) of [] \<Rightarrow> None | r # rs \<Rightarrow> Some (map row_identity (r # rs)))"

text \<open>No commit exceeded its reservation; every row of a group is committed.\<close>

definition no_overrun :: "budget_ledger \<Rightarrow> bool" where
  "no_overrun L \<longleftrightarrow> (\<forall>r \<in> set (bg_reservations L).
     br_status r = COMMITTED \<longrightarrow> br_amount_committed r \<le> br_amount_reserved r)"

definition group_settled :: "budget_ledger \<Rightarrow> string \<times> string \<Rightarrow> bool" where
  "group_settled L ag \<longleftrightarrow> group_rows L (fst ag) (snd ag) \<noteq> []
     \<and> (\<forall>r \<in> set (group_rows L (fst ag) (snd ag)). br_status r = COMMITTED)"

text \<open>Ledgers for the concrete instances: a root account, a child, and the child's reservation.\<close>

definition sample_root :: budget_ledger where
  "sample_root = state_of (create_account sample_hash empty_ledger ''r'' [(''tokens'', 10)] None None 1) empty_ledger"

definition sample_child :: budget_ledger where
  "sample_child = state_of (create_account sample_hash sample_root ''c'' [(''tokens'', 5)] None (Some ''r'') 2) empty_ledger"

definition sample_held :: budget_ledger where
  "sample_held = state_of (reserve sample_hash sample_child ''c'' ''g'' [(''tokens'', 3)] None 3) empty_ledger"

definition sample_closed :: budget_ledger where
  "sample_closed = state_of (close_child_account sample_held ''c'' 4) empty_ledger"

definition sample_leaked :: budget_ledger where
  "sample_leaked = state_of (commit sample_closed ''c'' ''g'' [(''tokens'', 3)] False 5) empty_ledger"

section \<open>Arithmetic of snapshots\<close>

lemma qty_add_qty: "qty (add_qty k v d) j = qty d j + (if j = k then v else 0)"
  by (induction k v d rule: add_qty.induct) (auto simp: qty_def)

lemma qty_fold_add:
  "qty (fold (\<lambda>r d. if P r then add_qty (res r) (amt r) d else d) rows d) k =
     qty d k + sum_list (map amt (filter (\<lambda>r. P r \<and> res r = k) rows))"
  by (induction rows arbitrary: d) (auto simp: qty_add_qty)

lemma qty_Nil [simp]: "qty [] k = 0"
  by (simp add: qty_def)

lemma reserved_plus_committed:
  "qty (reserved_of rows) k + qty (committed_of rows) k =
     sum_list (map charge (filter (\<lambda>r. br_resource_type r = k) rows))"
proof -
  have "sum_list (map br_amount_reserved (filter (\<lambda>r. br_status r = RESERVED \<and> br_resource_type r = k) rows))
      + sum_list (map br_amount_committed (filter (\<lambda>r. br_status r = COMMITTED \<and> br_resource_type r = k) rows))
    = sum_list (map charge (filter (\<lambda>r. br_resource_type r = k) rows))"
    by (induction rows) (auto simp: charge_def split: reservation_status.splits)
  then show ?thesis by (simp add: reserved_of_def committed_of_def qty_fold_add)
qed

lemma charge_split: "charge r = covered r + overrun r"
  by (auto simp: charge_def covered_def overrun_def split: reservation_status.splits)

lemma total_split: "total charge L a res = total covered L a res + total overrun L a res"
  by (simp add: total_def charge_split [abs_def] sum_list_addf)

lemma snapshot_ok:
  "snapshot L a = Inr s \<longleftrightarrow> (\<exists>acct. get_account L a = Some acct
     \<and> s = \<lparr>bs_account_id = a, bs_limits = ba_limits acct, bs_reserved = reserved_of (account_rows L a),
            bs_committed = committed_of (account_rows L a),
            bs_remaining = map (\<lambda>(resource, limit). (resource, max 0 (limit
              - qty (reserved_of (account_rows L a)) resource
              - qty (committed_of (account_rows L a)) resource))) (ba_limits acct)\<rparr>)"
  by (auto simp: snapshot_def res_simps Let_def)

lemma account_rows_total:
  "qty (reserved_of (account_rows L a)) k + qty (committed_of (account_rows L a)) k = total charge L a k"
  by (simp add: reserved_plus_committed total_def account_rows_def conj_commute)

lemma qty_map_limits:
  "qty (map (\<lambda>(k, v). (k, f k v)) d) j = (case map_of d j of None \<Rightarrow> 0 | Some v \<Rightarrow> f j v)"
  by (induction d) (auto simp: qty_def)

lemma snapshot_remaining:
  assumes "snapshot L a = Inr s" "get_account L a = Some acct"
  shows "qty (bs_remaining s) k =
    (if map_of (ba_limits acct) k = None then 0 else max 0 (qty (ba_limits acct) k - total charge L a k))"
proof -
  have "qty (bs_remaining s) k = (case map_of (ba_limits acct) k of None \<Rightarrow> 0 | Some v \<Rightarrow>
      max 0 (v - qty (reserved_of (account_rows L a)) k - qty (committed_of (account_rows L a)) k))"
    using assms by (auto simp: snapshot_ok qty_map_limits
        [where f = "\<lambda>k v. max 0 (v - qty (reserved_of (account_rows L a)) k - qty (committed_of (account_rows L a)) k)"])
  then show ?thesis
    using account_rows_total [of L a k] by (auto simp: qty_def algebra_simps split: option.splits)
qed

section \<open>What an operation writes\<close>

lemma fold_tab_add:
  assumes "fold_res (tab_add key) ms rows = Inr rows'"
  shows "rows' = rows @ ms" "distinct (map key rows) \<Longrightarrow> distinct (map key rows')"
  using assms
proof (atomize (full), induction ms arbitrary: rows)
  case (Cons m ms)
  then have m: "key m \<notin> set (map key rows)" "fold_res (tab_add key) ms (rows @ [m]) = Inr rows'"
    by (auto simp: res_simps)
  have IH: "rows' = (rows @ [m]) @ ms" "distinct (map key (rows @ [m])) \<Longrightarrow> distinct (map key rows')"
    using Cons.IH [of "rows @ [m]"] m(2) by blast+
  have "distinct (map key (rows @ [m]))" if "distinct (map key rows)" using that m(1) by simp
  with IH(2) have "distinct (map key rows')" if "distinct (map key rows)" using that by blast
  then show ?case using IH(1) by (metis append.assoc append_Cons append_Nil)
qed simp

lemma fold_tab_put:
  "distinct (map key ms) \<Longrightarrow>
     fold (tab_put key) ms rows = map (\<lambda>x. case tab_get key (key x) ms of None \<Rightarrow> x | Some m \<Rightarrow> m) rows"
proof (induction ms arbitrary: rows)
  case (Cons m ms)
  then have "tab_get key (key m) ms = None" by (simp add: tab_get_None_iff)
  then show ?case using Cons by (auto simp: tab_put_def)
qed simp

lemma row_settles_refl [simp, intro]: "row_settles r r"
  by (simp add: row_settles_def)

lemma row_identity_eq:
  "row_identity r' = row_identity r \<longleftrightarrow> br_reservation_id r' = br_reservation_id r
     \<and> br_reservation_group_id r' = br_reservation_group_id r \<and> br_account_id r' = br_account_id r
     \<and> br_child_account_id r' = br_child_account_id r \<and> br_resource_type r' = br_resource_type r
     \<and> br_amount_reserved r' = br_amount_reserved r"
  by (auto simp: row_identity_def)

lemma row_settles_commit:
  "br_status m = RESERVED \<Longrightarrow> row_settles m (committed_row m amount now)"
  by (simp add: row_settles_def row_identity_def committed_row_def covered_def)

lemma row_settles_release:
  assumes "br_status m \<noteq> COMMITTED" "0 < br_amount_reserved m"
  shows "row_settles m (released_row m now)"
  using assms
  by (cases "br_status m") (simp_all add: row_settles_def row_identity_def released_row_def covered_def charge_def)

lemma commit_loop_settles:
  "commit_loop consumed ov now acc ms = Inr (replay, rows) \<Longrightarrow>
     \<exists>rest. rows = acc @ rest \<and> list_all2 (\<lambda>m r. r = m \<or>
        (br_status m = RESERVED \<and> r = committed_row m (qty consumed (br_resource_type m)) now
          \<and> 0 \<le> qty consumed (br_resource_type m)
          \<and> (ov \<or> qty consumed (br_resource_type m) \<le> br_amount_reserved m))) ms rest"
proof (induction ms arbitrary: acc)
  case (Cons m ms)
  show ?case
  proof (cases "br_status m = RESERVED")
    case True
    let ?c = "committed_row m (qty consumed (br_resource_type m)) now"
    from Cons.prems True have "commit_loop consumed ov now (acc @ [?c]) ms = Inr (replay, rows)"
      and ok: "0 \<le> qty consumed (br_resource_type m)" "ov \<or> qty consumed (br_resource_type m) \<le> br_amount_reserved m"
      by (auto simp: res_simps Let_def not_less)
    from Cons.IH [OF this(1)] obtain rest where "rows = acc @ ?c # rest" "list_all2 (\<lambda>m r. r = m \<or>
        (br_status m = RESERVED \<and> r = committed_row m (qty consumed (br_resource_type m)) now
          \<and> 0 \<le> qty consumed (br_resource_type m)
          \<and> (ov \<or> qty consumed (br_resource_type m) \<le> br_amount_reserved m))) ms rest" by auto
    with True ok show ?thesis by (intro exI [of _ "?c # rest"]) simp
  next
    case False
    then have "rows = acc @ m # ms" using Cons.prems by (auto simp: Let_def split: if_splits)
    then show ?thesis by (auto intro: list_all2_refl)
  qed
qed simp

text \<open>Writing settled rows back keeps every row in place.\<close>

lemma put_rows_settles:
  assumes dist: "distinct (map br_reservation_id (bg_reservations L))"
    and ms: "set ms \<subseteq> set (bg_reservations L)" "distinct (map br_reservation_id ms)"
    and settle: "list_all2 row_settles ms rows"
  shows "list_all2 row_settles (bg_reservations L) (bg_reservations (put_rows L rows))"
    and "bg_accounts (put_rows L rows) = bg_accounts L"
proof -
  have ids: "map br_reservation_id rows = map br_reservation_id ms"
    using settle by (induction rule: list_all2_induct) (auto simp: row_settles_def row_identity_eq)
  have "row_settles x (case tab_get br_reservation_id (br_reservation_id x) rows of None \<Rightarrow> x | Some m \<Rightarrow> m)"
    if x: "x \<in> set (bg_reservations L)" for x
  proof (cases "tab_get br_reservation_id (br_reservation_id x) rows")
    case (Some r)
    from tab_get_Some_D [OF Some] obtain i where i: "i < length rows" "r = rows ! i"
      by (auto simp: in_set_conv_nth)
    then have "row_settles (ms ! i) r" "ms ! i \<in> set ms" using settle by (auto simp: list_all2_conv_all_nth)
    moreover have "br_reservation_id (ms ! i) = br_reservation_id x"
      using calculation(1) tab_get_Some_D [OF Some] by (simp add: row_settles_def row_identity_eq)
    then have "ms ! i = x"
      using dist x ms(1) calculation(2) by (meson distinct_map inj_onD subsetD)
    ultimately show ?thesis using Some by simp
  qed simp
  then show "list_all2 row_settles (bg_reservations L) (bg_reservations (put_rows L rows))"
    using ms(2) by (simp add: put_rows_def fold_tab_put ids list_all2_map2 list_all2_same)
  show "bg_accounts (put_rows L rows) = bg_accounts L" by (simp add: put_rows_def)
qed

lemma group_rows_subset: "set (group_rows L a g) \<subseteq> set (bg_reservations L)"
  by (auto simp: group_rows_def)

lemma lock_group_ok:
  assumes "lock_group L a g = Inr ms"
  shows "ms = sort_key br_resource_type (group_rows L a g)" "ms \<noteq> []" "set ms \<subseteq> set (bg_reservations L)"
    "distinct (map br_reservation_id (bg_reservations L)) \<Longrightarrow> distinct (map br_reservation_id ms)"
proof -
  show ms: "ms = sort_key br_resource_type (group_rows L a g)" and "ms \<noteq> []"
    using assms by (auto simp: lock_group_def Let_def res_simps)
  then show "set ms \<subseteq> set (bg_reservations L)" using group_rows_subset [of L a g] by simp
  show "distinct (map br_reservation_id ms)" if "distinct (map br_reservation_id (bg_reservations L))"
    using that unfolding ms by (auto simp: distinct_map group_rows_def inj_on_def)
qed

text \<open>The shape of a step: accounts kept or added, rows settled in place, new rows appended.\<close>

lemma commit_settles:
  assumes inv: "ledger_inv L" and "commit L a g consumed ov now = Inr (r, M)"
  shows "list_all2 row_settles (bg_reservations L) (bg_reservations M)" "bg_accounts M = bg_accounts L"
proof -
  from assms(2) obtain ms replay rows where ms: "lock_group L a g = Inr ms"
    and loop: "commit_loop consumed ov now [] ms = Inr (replay, rows)" and M: "M = put_rows L rows"
    by (auto simp: commit_def res_simps)
  note lg = lock_group_ok [OF ms]
  have dist: "distinct (map br_reservation_id (bg_reservations L))" using inv by (simp add: ledger_inv_def)
  have "list_all2 row_settles ms rows"
    using commit_loop_settles [OF loop] by (auto elim!: list_all2_mono intro: row_settles_commit)
  from put_rows_settles [OF dist lg(3) lg(4) [OF dist] this] M
  show "list_all2 row_settles (bg_reservations L) (bg_reservations M)" "bg_accounts M = bg_accounts L"
    by simp_all
qed

lemma release_settles:
  assumes inv: "ledger_inv L" and "release L a g now = Inr (r, M)"
  shows "list_all2 row_settles (bg_reservations L) (bg_reservations M)" "bg_accounts M = bg_accounts L"
proof -
  from assms(2) obtain ms where ms: "lock_group L a g = Inr ms"
    and cases: "M = L \<or> (\<not> list_ex (\<lambda>r. br_status r = COMMITTED) ms
        \<and> M = put_rows L (map (\<lambda>m. released_row m now) ms))"
    by (auto simp: release_def res_simps Let_def split: if_splits)
  note lg = lock_group_ok [OF ms]
  have dist: "distinct (map br_reservation_id (bg_reservations L))" using inv by (simp add: ledger_inv_def)
  have "list_all2 row_settles ms (map (\<lambda>m. released_row m now) ms)"
    if "\<not> list_ex (\<lambda>r. br_status r = COMMITTED) ms"
    using that lg(3) inv
    by (auto simp: list_all2_map2 list_all2_same list_ex_iff ledger_inv_def intro!: row_settles_release)
  then show "list_all2 row_settles (bg_reservations L) (bg_reservations M)" "bg_accounts M = bg_accounts L"
    using cases put_rows_settles [OF dist lg(3) lg(4) [OF dist]] by (auto simp: list_all2_same)
qed

lemma settled_total:
  "list_all2 row_settles rows rows' \<Longrightarrow>
     sum_list (map covered (filter (\<lambda>r. br_account_id r = a \<and> br_resource_type r = k) rows'))
       \<le> sum_list (map covered (filter (\<lambda>r. br_account_id r = a \<and> br_resource_type r = k) rows))"
  by (induction rule: list_all2_induct) (auto simp: row_settles_def row_identity_eq intro: add_mono)

lemma settled_identities: "list_all2 row_settles rows rows' \<Longrightarrow> map row_identity rows' = map row_identity rows"
  by (induction rule: list_all2_induct) (auto simp: row_settles_def)

lemma map_row_identity_ids: "map row_identity rows' = map row_identity rows \<Longrightarrow>
    map br_reservation_id rows' = map br_reservation_id rows"
  by (auto simp: list_eq_iff_nth_eq row_identity_eq)

section \<open>The invariant\<close>

lemma overrun_nonneg: "0 \<le> overrun r"
  by (simp add: overrun_def split: reservation_status.splits)

lemma total_overrun_nonneg: "0 \<le> total overrun L a k"
  unfolding total_def by (rule sum_list_nonneg) (auto simp: overrun_nonneg)

lemma total_none:
  "\<forall>r \<in> set (bg_reservations L). br_account_id r \<noteq> a \<Longrightarrow> total f L a k = 0"
proof -
  assume "\<forall>r \<in> set (bg_reservations L). br_account_id r \<noteq> a"
  then have "filter (\<lambda>r. br_account_id r = a \<and> br_resource_type r = k) (bg_reservations L) = []"
    by (auto simp: filter_empty_conv)
  then show ?thesis by (simp add: total_def)
qed

lemma ledger_inv_settle:
  assumes inv: "ledger_inv L" and s: "list_all2 row_settles (bg_reservations L) (bg_reservations M)"
    and acc: "bg_accounts M = bg_accounts L"
  shows "ledger_inv M"
proof -
  have ids: "map br_reservation_id (bg_reservations M) = map br_reservation_id (bg_reservations L)"
    by (rule map_row_identity_ids [OF settled_identities [OF s]])
  have rows: "get_account M (br_account_id r) \<noteq> None \<and> 0 < br_amount_reserved r"
    if "r \<in> set (bg_reservations M)" for r
  proof -
    from that obtain i where i: "i < length (bg_reservations M)" "r = bg_reservations M ! i"
      by (auto simp: in_set_conv_nth)
    then have "row_settles (bg_reservations L ! i) r" "bg_reservations L ! i \<in> set (bg_reservations L)"
      using s by (auto simp: list_all2_conv_all_nth)
    then show ?thesis using inv acc by (auto simp: ledger_inv_def row_settles_def row_identity_eq)
  qed
  have "total covered M a k \<le> total covered L a k" for a k
    unfolding total_def by (rule settled_total [OF s])
  then have "total covered M (ba_account_id acct) k \<le> qty (ba_limits acct) k"
    if "acct \<in> set (bg_accounts M)" for acct k
    using inv that acc unfolding ledger_inv_def by (metis order_trans)
  with rows ids inv acc show ?thesis unfolding ledger_inv_def by (simp only: ids acc) auto
qed

lemma validate_quantities_ok:
  "validate_quantities q = Inr q' \<Longrightarrow> q' = q \<and> (\<forall>(_, v) \<in> set q. 0 \<le> v)"
proof (induction q arbitrary: q')
  case (Cons x q)
  then show ?case by (cases x) (auto simp: res_simps not_less)
qed simp

lemma qty_nonneg: "\<forall>(_, v) \<in> set d. 0 \<le> v \<Longrightarrow> 0 \<le> qty d k"
  by (auto simp: qty_def split: option.splits dest: map_of_SomeD)

lemma ledger_inv_add_account:
  assumes inv: "ledger_inv L" and new: "get_account L (ba_account_id acct) = None"
    and lim: "distinct (map fst (ba_limits acct))" "\<forall>(_, v) \<in> set (ba_limits acct). 0 \<le> v"
  shows "ledger_inv (L\<lparr>bg_accounts := bg_accounts L @ [acct]\<rparr>)"
proof -
  let ?M = "L\<lparr>bg_accounts := bg_accounts L @ [acct]\<rparr>"
  have tot: "total f ?M a k = total f L a k" for f a k by (simp add: total_def)
  have "\<forall>r \<in> set (bg_reservations L). br_account_id r \<noteq> ba_account_id acct"
    using inv new by (auto simp: ledger_inv_def)
  then have "total covered L (ba_account_id acct) k = 0" for k by (rule total_none)
  moreover have "ba_account_id acct \<notin> set (map ba_account_id (bg_accounts L))"
    using new by (metis tab_get_None_iff)
  moreover have "get_account ?M a \<noteq> None" if "get_account L a \<noteq> None" for a
    using that by (auto simp: tab_simps)
  ultimately show ?thesis
    using inv lim qty_nonneg [OF lim(2)] unfolding ledger_inv_def tot by auto
qed

lemma ledger_inv_put_account:
  assumes inv: "ledger_inv L" and old: "get_account L (ba_account_id acct) = Some acct0"
    and lim: "ba_limits acct = ba_limits acct0"
  shows "ledger_inv (L\<lparr>bg_accounts := tab_put ba_account_id acct (bg_accounts L)\<rparr>)"
proof -
  let ?M = "L\<lparr>bg_accounts := tab_put ba_account_id acct (bg_accounts L)\<rparr>"
  have tot: "total f ?M a k = total f L a k" for f a k by (simp add: total_def)
  have acct0: "acct0 \<in> set (bg_accounts L)" "ba_account_id acct0 = ba_account_id acct"
    using tab_get_Some_D [OF old] by auto
  have "get_account ?M a \<noteq> None" if "get_account L a \<noteq> None" for a
    using that by (auto simp: tab_get_None_iff simp flip: not_None_eq)
  moreover have "P x" if "x \<in> set (bg_accounts ?M)" "\<And>y. y \<in> set (bg_accounts L) \<Longrightarrow> P y" "P acct" for P x
    using that by (auto dest: in_set_tab_put)
  moreover have "distinct (map fst (ba_limits acct)) \<and> (\<forall>(_, v) \<in> set (ba_limits acct). 0 \<le> v)"
    "\<forall>k. total covered L (ba_account_id acct) k \<le> qty (ba_limits acct) k"
    using inv acct0 lim unfolding ledger_inv_def by (metis (no_types, lifting))+
  ultimately show ?thesis
    using inv unfolding ledger_inv_def tot by (auto dest!: in_set_tab_put)
qed

lemma reserve_cases:
  assumes "reserve E L a g q child now = Inr (r, M)"
  obtains acct where "get_account L a = Some acct" "ba_status acct = ''active''"
      "group_rows L a g \<noteq> []" "M = L" "r = group_result a g (group_rows L a g) True"
      "set (map (\<lambda>r. (br_resource_type r, br_amount_reserved r)) (group_rows L a g)) = set q"
      "set (map br_child_account_id (group_rows L a g)) = {child}"
  | acct snap where "get_account L a = Some acct" "ba_status acct = ''active''"
      "group_rows L a g = []" "snapshot L a = Inr snap"
      "\<forall>(k, amount) \<in> set q. 0 < amount \<and> amount \<le> qty (bs_remaining snap) k" "q \<noteq> []"
      "M = L\<lparr>bg_reservations := bg_reservations L @ map (new_reservation E a g child now) (sort_key fst q)\<rparr>"
      "r = group_result a g (map (new_reservation E a g child now) (sort_key fst q)) False"
      "distinct (map br_reservation_id (bg_reservations L)) \<Longrightarrow> distinct (map br_reservation_id (bg_reservations M))"
proof -
  from assms obtain acct where acct: "get_account L a = Some acct" "ba_status acct = ''active''"
    and q: "q \<noteq> []" and pre: "list_ex (\<lambda>(_, amount). amount \<le> 0) q = False"
    by (auto simp: reserve_def res_simps)
  have pos: "\<forall>(k, amount) \<in> set q. 0 < amount"
    using pre by (auto simp: list_ex_iff not_le)
  show ?thesis
  proof (cases "group_rows L a g = []")
    case False
    have "set (map (\<lambda>r. (br_resource_type r, br_amount_reserved r)) (group_rows L a g)) = set q
        \<and> set (map br_child_account_id (group_rows L a g)) = {child}
        \<and> M = L \<and> r = group_result a g (group_rows L a g) True"
      using assms acct q pre False unfolding reserve_def Let_def
      by (simp add: res_simps del: set_map list.set_map) metis
    then show ?thesis using acct that(1) False by blast
  next
    case True
    let ?ms = "map (new_reservation E a g child now) (sort_key fst q)"
    have "\<exists>snap rows. snapshot L a = Inr snap \<and> over_remaining snap q = None
        \<and> fold_res (tab_add br_reservation_id) ?ms (bg_reservations L) = Inr rows
        \<and> M = L\<lparr>bg_reservations := rows\<rparr> \<and> r = group_result a g ?ms False"
      using assms acct q pre True
      by (auto simp: reserve_def res_simps Let_def split: option.splits) (metis not_None_eq surj_pair)
    then obtain snap rows where s: "snapshot L a = Inr snap" "over_remaining snap q = None"
      and rows: "fold_res (tab_add br_reservation_id) ?ms (bg_reservations L) = Inr rows"
      and M: "M = L\<lparr>bg_reservations := rows\<rparr>" "r = group_result a g ?ms False" by blast
    have "\<forall>(k, amount) \<in> set q. 0 < amount \<and> amount \<le> qty (bs_remaining snap) k"
      using pos s(2) by (auto simp: over_remaining_def find_None_iff not_less)
    moreover have "M = L\<lparr>bg_reservations := bg_reservations L @ ?ms\<rparr>"
      using M(1) fold_tab_add(1) [OF rows] by simp
    moreover have "distinct (map br_reservation_id (bg_reservations M))"
      if "distinct (map br_reservation_id (bg_reservations L))"
      using M(1) fold_tab_add(2) [OF rows that] by simp
    ultimately show ?thesis using that(2) [OF acct True s(1) _ q _ M(2)] by blast
  qed
qed

lemma sum_filter_qty: "distinct (map fst d) \<Longrightarrow> sum_list (map snd (filter (\<lambda>x. fst x = k) d)) = qty d k"
proof (induction d)
  case (Cons x d)
  then have IH: "sum_list (map snd (filter (\<lambda>x. fst x = k) d)) = qty d k" by simp
  show ?case
  proof (cases "fst x = k")
    case True
    then have "map_of d k = None" using Cons.prems by (auto simp: map_of_eq_None_iff)
    then show ?thesis using True IH by (cases x) (simp add: qty_def)
  next
    case False
    then show ?thesis using IH by (cases x) (simp add: qty_def)
  qed
qed simp

lemma qty_sort: "distinct (map fst q) \<Longrightarrow> qty (sort_key fst q) k = qty q k"
proof -
  assume d: "distinct (map fst q)"
  then have "distinct (map fst (sort_key fst q))" by (auto simp: distinct_map)
  then have "map_of (sort_key fst q) = map_of q"
    using d by (simp add: map_of_inject_set)
  then show ?thesis by (simp add: qty_def)
qed

lemma new_reservation_holds:
  "covered \<circ> new_reservation E a g child now = snd" "charge \<circ> new_reservation E a g child now = snd"
  by (simp_all add: fun_eq_iff covered_def charge_def new_reservation_def)

lemma total_reserve:
  assumes "distinct (map fst q)" and f: "f \<circ> new_reservation E a g child now = snd"
  shows "total f (L\<lparr>bg_reservations := bg_reservations L @ map (new_reservation E a g child now) (sort_key fst q)\<rparr>) b k
    = total f L b k + (if b = a then qty q k else 0)"
proof -
  have "filter (\<lambda>r. br_account_id r = b \<and> br_resource_type r = k) (map (new_reservation E a g child now) d)
      = (if b = a then map (new_reservation E a g child now) (filter (\<lambda>x. fst x = k) d) else [])" for d
    by (induction d) (auto simp: new_reservation_def)
  moreover have "distinct (map fst (sort_key fst q))" using assms by (auto simp: distinct_map)
  ultimately show ?thesis
    using sum_filter_qty [of "sort_key fst q" k] qty_sort [OF assms(1)] by (simp add: total_def f)
qed

lemma ledger_inv_reserve:
  assumes inv: "ledger_inv L" and d: "distinct (map fst q)" and "reserve E L a g q child now = Inr (r, M)"
  shows "ledger_inv M"
  using assms(3)
proof (cases rule: reserve_cases)
  case (1 acct)
  then show ?thesis using inv by simp
next
  case (2 acct snap)
  have acct: "acct \<in> set (bg_accounts L)" "ba_account_id acct = a"
    using tab_get_Some_D [OF 2(1)] by auto
  have bound: "total covered L a k + qty q k \<le> qty (ba_limits acct) k" for k
  proof (cases "map_of q k")
    case None
    then show ?thesis using inv acct by (auto simp: ledger_inv_def qty_def)
  next
    case (Some v)
    then have "0 < v" "v \<le> qty (bs_remaining snap) k" using 2(5) by (auto dest: map_of_SomeD)
    then have "v \<le> qty (ba_limits acct) k - total charge L a k"
      using snapshot_remaining [OF 2(4,1), of k] by (auto split: if_splits)
    then show ?thesis using total_split [of L a k] total_overrun_nonneg [of L a k] Some by (simp add: qty_def)
  qed
  have "total covered M b k = total covered L b k + (if b = a then qty q k else 0)" for b k
    unfolding 2(7) by (rule total_reserve [OF d new_reservation_holds(1)])
  then have "total covered M (ba_account_id x) k \<le> qty (ba_limits x) k" if "x \<in> set (bg_accounts L)" for x k
  proof (cases "ba_account_id x = a")
    case True
    then have "x = acct" using inv that acct by (auto simp: ledger_inv_def dest: distinct_map [THEN iffD1, THEN conjunct2, THEN inj_onD])
    then show ?thesis using bound [of k] acct(2) by (simp add: \<open>\<And>b k. total covered M b k = _\<close>)
  next
    case False
    then show ?thesis using inv that by (simp add: \<open>\<And>b k. total covered M b k = _\<close> ledger_inv_def)
  qed
  moreover have "\<forall>r \<in> set (bg_reservations M). get_account M (br_account_id r) \<noteq> None \<and> 0 < br_amount_reserved r"
    using inv 2(1,5,7) by (auto simp: ledger_inv_def new_reservation_def)
  ultimately show ?thesis using inv 2(7,9) unfolding ledger_inv_def by simp
qed

lemma create_account_cases:
  assumes "create_account E L a q trid par now = Inr (v, M)"
  obtains acct where "get_account L a = Some acct" "M = L" "v = account_view acct"
  | "get_account L a = None" "v = account_view (new_account a q trid par now)"
      "par = None \<or> q = []" "M = L\<lparr>bg_accounts := bg_accounts L @ [new_account a q trid par now]\<rparr>"
  | p r where "get_account L a = None" "v = account_view (new_account a q trid par now)"
      "par = Some p" "q \<noteq> []"
      "reserve E (L\<lparr>bg_accounts := bg_accounts L @ [new_account a q trid par now]\<rparr>) p (child_group a) q (Some a) now
         = Inr (r, M)"
proof (cases "get_account L a")
  case (Some acct)
  then have "M = L \<and> v = account_view acct" using assms by (simp add: create_account_def res_simps)
  with Some that(1) show ?thesis by blast
next
  case None
  let ?n = "new_account a q trid par now" and ?L1 = "L\<lparr>bg_accounts := bg_accounts L @ [new_account a q trid par now]\<rparr>"
  have "ba_account_id ?n = a" by (simp add: new_account_def)
  then have add: "tab_add ba_account_id ?n (bg_accounts L) = Inr (bg_accounts L @ [?n])"
    using None by (simp add: tab_add_def tab_get_None_iff)
  show ?thesis
  proof (cases "par = None \<or> q = []")
    case True
    then have "v = account_view ?n \<and> M = ?L1"
      using assms None add by (cases par) (auto simp: create_account_def res_simps Let_def)
    with None True that(2) show ?thesis by blast
  next
    case False
    then obtain p where p: "par = Some p" "q \<noteq> []" by auto
    then have "v = account_view ?n \<and> (\<exists>r. reserve E ?L1 p (child_group a) q (Some a) now = Inr (r, M))"
      using assms None add by (auto simp: create_account_def res_simps Let_def)
    with None p that(3) show ?thesis by blast
  qed
qed

lemma ledger_inv_create:
  assumes inv: "ledger_inv L" and q: "valid_limits q" and "create_account E L a q trid par now = Inr (v, M)"
  shows "ledger_inv M"
proof -
  let ?n = "new_account a q trid par now"
  have lim: "distinct (map fst (ba_limits ?n))" "\<forall>(_, v) \<in> set (ba_limits ?n). 0 \<le> v"
    using q validate_quantities_ok [of q q]
    by (auto simp: valid_limits_def new_account_def serialize_limits_def distinct_map)
  have add: "ledger_inv (L\<lparr>bg_accounts := bg_accounts L @ [?n]\<rparr>)" if "get_account L a = None"
    using ledger_inv_add_account [OF inv _ lim] that by (simp add: new_account_def)
  from assms(3) show ?thesis
  proof (cases rule: create_account_cases)
    case (1 acct)
    then show ?thesis using inv by simp
  next
    case 2
    show ?thesis unfolding 2(4) by (rule add [OF 2(1)])
  next
    case (3 p r)
    show ?thesis
      by (rule ledger_inv_reserve [OF add [OF 3(1)] _ 3(5)]) (use q in \<open>simp add: valid_limits_def\<close>)
  qed
qed

lemma close_child_cases:
  assumes "close_child_account L a now = Inr (v, M)"
  obtains acct where "get_account L a = Some acct" "ba_status acct = ''closed''" "M = L"
  | acct p snap r L1 where "get_account L a = Some acct" "ba_parent_account_id acct = Some p"
      "ba_status acct \<noteq> ''closed''" "snapshot L a = Inr snap"
      "commit L p (child_group a) (bs_committed snap) True now = Inr (r, L1)"
      "M = L1\<lparr>bg_accounts := tab_put ba_account_id
         (acct\<lparr>ba_status := ''closed'', ba_closed_at := Some now\<rparr>) (bg_accounts L1)\<rparr>"
proof -
  from assms obtain acct p where acct: "get_account L a = Some acct" "ba_parent_account_id acct = Some p"
    by (auto simp: close_child_account_def res_simps split: option.splits)
  show ?thesis
  proof (cases "ba_status acct = ''closed''")
    case True
    then have "M = L" using assms acct by (simp add: close_child_account_def)
    with acct(1) True that(1) show ?thesis by blast
  next
    case False
    then have "\<exists>snap r L1. snapshot L a = Inr snap
        \<and> commit L p (child_group a) (bs_committed snap) True now = Inr (r, L1)
        \<and> M = L1\<lparr>bg_accounts := tab_put ba_account_id
             (acct\<lparr>ba_status := ''closed'', ba_closed_at := Some now\<rparr>) (bg_accounts L1)\<rparr>"
      using assms acct by (auto simp: close_child_account_def res_simps Let_def)
    with acct False that(2) show ?thesis by blast
  qed
qed

lemma ledger_inv_close:
  assumes inv: "ledger_inv L" and "close_child_account L a now = Inr (v, M)"
  shows "ledger_inv M"
  using assms(2)
proof (cases rule: close_child_cases)
  case (2 acct p snap r L1)
  have "ledger_inv L1"
    by (rule ledger_inv_settle [OF inv commit_settles(1) commit_settles(2)]) (use inv 2(5) in auto)
  moreover have "get_account L1 (ba_account_id acct) = Some acct"
    using commit_settles(2) [OF inv 2(5)] 2(1) tab_get_key [OF 2(1)] by simp
  ultimately show ?thesis unfolding 2(6) by (intro ledger_inv_put_account) auto
qed (use inv in simp)

lemma ledger_inv_step: "ledger_step E L M \<Longrightarrow> ledger_inv L \<Longrightarrow> ledger_inv M"
proof (induction rule: ledger_step.induct)
  case (commit L a g consumed ov now r M)
  then show ?case using commit_settles ledger_inv_settle by blast
next
  case (release L a g now r M)
  then show ?case using release_settles ledger_inv_settle by blast
qed (auto intro: ledger_inv_create ledger_inv_reserve ledger_inv_close)

lemma ledger_inv_empty: "ledger_inv empty_ledger"
  by (simp add: ledger_inv_def empty_ledger_def)

interpretation budget_tables: invariant_system "\<lambda>L. L = empty_ledger" "ledger_step E" ledger_inv for E
  by unfold_locales (auto intro: ledger_inv_empty ledger_inv_step)

section \<open>Reservation groups are permanent\<close>

lemma group_rows_settles:
  assumes "list_all2 row_settles (bg_reservations L) (bg_reservations M)"
  shows "list_all2 row_settles (group_rows L a g) (group_rows M a g)"
  unfolding group_rows_def using assms
  by (induction rule: list_all2_induct) (auto simp: row_settles_def row_identity_eq)

lemma group_identity_settles:
  "list_all2 row_settles (bg_reservations L) (bg_reservations M) \<Longrightarrow> group_identity M k = group_identity L k"
proof -
  assume "list_all2 row_settles (bg_reservations L) (bg_reservations M)"
  then have "map row_identity (group_rows M (fst k) (snd k)) = map row_identity (group_rows L (fst k) (snd k))"
    by (intro settled_identities group_rows_settles)
  then show ?thesis
    by (cases "group_rows M (fst k) (snd k)"; cases "group_rows L (fst k) (snd k)") (simp_all add: group_identity_def)
qed

lemma group_rows_reserve:
  assumes "reserve E L a g q child now = Inr (r, M)" "group_rows L b h \<noteq> []"
  shows "group_rows M b h = group_rows L b h"
  using assms(1)
proof (cases rule: reserve_cases)
  case (2 acct snap)
  have "(b, h) \<noteq> (a, g)" using 2(3) assms(2) by auto
  then have "filter (\<lambda>r. br_account_id r = b \<and> br_reservation_group_id r = h)
      (map (new_reservation E a g child now) d) = []" for d
    by (auto simp: filter_empty_conv new_reservation_def)
  then show ?thesis by (simp add: 2(7) group_rows_def)
qed simp

lemma group_identity_rows:
  "group_identity L k = Some x \<Longrightarrow> group_rows L (fst k) (snd k) \<noteq> [] \<and> x = map row_identity (group_rows L (fst k) (snd k))"
  by (auto simp: group_identity_def split: list.splits)

lemma group_identity_same_rows:
  "group_identity L k = Some x \<Longrightarrow> group_rows M (fst k) (snd k) = group_rows L (fst k) (snd k) \<Longrightarrow>
     group_identity M k = Some x"
  by (simp add: group_identity_def)

lemma group_rows_accounts: "group_rows (L\<lparr>bg_accounts := xs\<rparr>) a g = group_rows L a g"
  by (simp add: group_rows_def)

text \<open>Steps from ledgers that satisfy the invariant.\<close>

lemma group_identity_step:
  assumes "ledger_step E L M" "ledger_inv L" "group_identity L k = Some x"
  shows "group_identity M k = Some x"
  using assms
proof (induction rule: ledger_step.induct)
  case (create q L a trid par now v M)
  note rows = group_identity_rows [OF create.prems(2)]
  from create.hyps(2) have "group_rows M (fst k) (snd k) = group_rows L (fst k) (snd k)"
  proof (cases rule: create_account_cases)
    case (3 p r)
    then show ?thesis using group_rows_reserve [OF 3(5)] rows by (simp add: group_rows_accounts)
  qed (simp_all add: group_rows_accounts)
  then show ?case by (rule group_identity_same_rows [OF create.prems(2)])
next
  case (reserve q L a g child now r M)
  then show ?case
    using group_rows_reserve [OF reserve.hyps(2)] group_identity_rows [OF reserve.prems(2)]
    by (intro group_identity_same_rows [OF reserve.prems(2)]) simp
next
  case (commit L a g consumed ov now r M)
  then show ?case using group_identity_settles [OF commit_settles(1) [OF commit.prems(1) commit.hyps]] by simp
next
  case (release L a g now r M)
  then show ?case using group_identity_settles [OF release_settles(1) [OF release.prems(1) release.hyps]] by simp
next
  case (close_child L a now v M)
  from close_child.hyps show ?case
  proof (cases rule: close_child_cases)
    case (2 acct p snap r L1)
    have "group_identity L1 k = Some x"
      using group_identity_settles [OF commit_settles(1) [OF close_child.prems(1) 2(5)]] close_child.prems(2) by simp
    then show ?thesis unfolding 2(6) by (rule group_identity_same_rows) (simp add: group_rows_accounts)
  qed (use close_child.prems in simp)
qed

interpretation reservation_log: stable_lookup "\<lambda>L M. ledger_inv L \<and> ledger_step E L M" group_identity for E
  by unfold_locales (auto intro: group_identity_step)

lemma ledger_steps_inv:
  "(ledger_step E)\<^sup>*\<^sup>* L M \<Longrightarrow> ledger_inv L \<Longrightarrow> (\<lambda>L M. ledger_inv L \<and> ledger_step E L M)\<^sup>*\<^sup>* L M"
proof (induction rule: rtranclp_induct)
  case (step M N)
  then have "ledger_inv M" using budget_tables.inv_steps by blast
  with step show ?case
    by (auto intro: rtranclp.rtrancl_into_rtrancl [of "\<lambda>L M. ledger_inv L \<and> ledger_step E L M" L M N])
qed simp

lemma account_rows_limits:
  assumes "ledger_inv L" "get_account L a = Some acct"
  shows "total covered L a k \<le> qty (ba_limits acct) k"
  using assms tab_get_Some_D [OF assms(2)] by (auto simp: ledger_inv_def)

lemma reserve_remaining:
  assumes "reserve E L a g q child now = Inr (r, M)" and d: "distinct (map fst q)"
    and new: "group_rows L a g = []"
    and s: "snapshot L a = Inr s" "snapshot M a = Inr s'"
  shows "qty (bs_remaining s') k = qty (bs_remaining s) k - qty q k"
    and "qty q k \<le> qty (bs_remaining s) k"
  using assms(1)
proof (atomize (full), cases rule: reserve_cases)
  case (2 acct snap)
  have acct: "get_account M a = Some acct" using 2(1,7) by simp
  have tot: "total charge M a k = total charge L a k + qty q k"
    using total_reserve [OF d new_reservation_holds(2), of L E a g child now a k] 2(7) by simp
  note rem = snapshot_remaining [OF s(1) 2(1), of k] snapshot_remaining [OF s(2) acct, of k]
  show "qty (bs_remaining s') k = qty (bs_remaining s) k - qty q k \<and> qty q k \<le> qty (bs_remaining s) k"
  proof (cases "map_of q k")
    case None
    then show ?thesis using rem tot by (simp add: qty_def)
  next
    case (Some v)
    then have v: "0 < v" "v \<le> qty (bs_remaining s) k" "qty q k = v"
      using 2(4,5) s(1) by (auto simp: qty_def dest: map_of_SomeD)
    then show ?thesis using rem tot by (auto split: if_splits)
  qed
qed (use new in simp)

lemma reserved_group:
  assumes "reserve E L a g q child now = Inr (r, M)"
  shows "group_rows M a g \<noteq> []"
    "set (map (\<lambda>r. (br_resource_type r, br_amount_reserved r)) (group_rows M a g)) = set q"
    "set (map br_child_account_id (group_rows M a g)) = {child}"
    "rg_reservations r = map reservation_view (group_rows M a g)"
    "q \<noteq> []" "\<forall>(k, amount) \<in> set q. 0 < amount"
proof -
  have q: "q \<noteq> []" "list_ex (\<lambda>(_, amount). amount \<le> 0) q = False"
    using assms by (auto simp: reserve_def res_simps)
  then show "q \<noteq> []" "\<forall>(k, amount) \<in> set q. 0 < amount" by (auto simp: list_ex_iff not_le)
  have conj: "group_rows M a g \<noteq> [] \<and>
        set (map (\<lambda>r. (br_resource_type r, br_amount_reserved r)) (group_rows M a g)) = set q \<and>
        set (map br_child_account_id (group_rows M a g)) = {child} \<and>
        rg_reservations r = map reservation_view (group_rows M a g)"
    using assms
  proof (cases rule: reserve_cases)
    case (1 acct)
    then show ?thesis
      by (simp add: group_result_def)
  next
    case (2 acct snap)
    let ?ms = "map (new_reservation E a g child now) (sort_key fst q)"
    have "filter (\<lambda>r. br_account_id r = a \<and> br_reservation_group_id r = g) ?ms = ?ms"
      by (auto simp: filter_id_conv new_reservation_def)
    then have rows: "group_rows M a g = ?ms"
      using 2(3) unfolding group_rows_def 2(7) by simp
    have ne: "sort_key fst q \<noteq> []" using q(1) by (metis set_empty set_sort)
    have "(\<lambda>r. (br_resource_type r, br_amount_reserved r)) \<circ> new_reservation E a g child now = (\<lambda>x. x)"
      "br_child_account_id \<circ> new_reservation E a g child now = (\<lambda>_. child)"
      by (simp_all add: fun_eq_iff new_reservation_def)
    with ne show ?thesis
      unfolding rows using q(1) 2(8) ne by (simp add: group_result_def image_image image_constant_conv flip: image_comp)
  qed
  then show "group_rows M a g \<noteq> []"
    "set (map (\<lambda>r. (br_resource_type r, br_amount_reserved r)) (group_rows M a g)) = set q"
    "set (map br_child_account_id (group_rows M a g)) = {child}"
    "rg_reservations r = map reservation_view (group_rows M a g)" by blast+
qed

lemma reserve_replays:
  assumes "get_account N a = Some acct" "ba_status acct = ''active''" "q \<noteq> []"
    "\<forall>(k, amount) \<in> set q. 0 < amount" "group_rows N a g \<noteq> []"
    "set (map (\<lambda>r. (br_resource_type r, br_amount_reserved r)) (group_rows N a g)) = set q"
    "set (map br_child_account_id (group_rows N a g)) = {child}"
  shows "reserve E N a g q child now = Inr (group_result a g (group_rows N a g) True, N)"
proof -
  have "list_ex (\<lambda>(_, amount). amount \<le> 0) q = False" using assms(4) by (auto simp: list_ex_iff not_le)
  then show ?thesis using assms(1-3,5-7) by (simp add: reserve_def Let_def del: set_map)
qed

lemma identities_determine:
  assumes "map row_identity xs = map row_identity ys"
  shows "map (\<lambda>r. (br_resource_type r, br_amount_reserved r)) xs = map (\<lambda>r. (br_resource_type r, br_amount_reserved r)) ys"
    "map br_child_account_id xs = map br_child_account_id ys" "map br_reservation_id xs = map br_reservation_id ys"
  using assms by (auto simp: list_eq_iff_nth_eq row_identity_eq)

lemma commit_loop_outcome:
  assumes "commit_loop consumed ov now acc ms = Inr (replay, rows)" and "acc @ ms \<noteq> []"
    and "\<forall>r \<in> set acc. br_status r = COMMITTED \<and> br_amount_committed r = qty consumed (br_resource_type r)"
  shows "\<forall>r \<in> set rows. br_status r = COMMITTED"
    and "(\<forall>r \<in> set rows. br_amount_committed r = qty consumed (br_resource_type r))
      \<or> (\<forall>(k, amount) \<in> set consumed. qty (map (\<lambda>r. (br_resource_type r, br_amount_committed r)) rows) k = amount)"
proof -
  have main: "(\<forall>r \<in> set rows. br_status r = COMMITTED) \<and>
     ((\<forall>r \<in> set rows. br_amount_committed r = qty consumed (br_resource_type r))
      \<or> (\<forall>(k, amount) \<in> set consumed. qty (map (\<lambda>r. (br_resource_type r, br_amount_committed r)) rows) k = amount))"
    using assms
  proof (induction ms arbitrary: acc)
    case (Cons m ms)
    show ?case
    proof (cases "br_status m = RESERVED")
      case True
      let ?c = "committed_row m (qty consumed (br_resource_type m)) now"
      have c: "br_status ?c = COMMITTED" "br_amount_committed ?c = qty consumed (br_resource_type ?c)"
        by (simp_all add: committed_row_def)
      from Cons.prems True have "commit_loop consumed ov now (acc @ [?c]) ms = Inr (replay, rows)"
        by (auto simp: res_simps Let_def)
      then show ?thesis by (rule Cons.IH) (use Cons.prems(3) c in auto)
    next
      case False
      then have "rows = acc @ m # ms" "list_all (\<lambda>r. br_status r = COMMITTED) rows"
        "list_all (\<lambda>(k, amount). qty (map (\<lambda>r. (br_resource_type r, br_amount_committed r)) rows) k = amount) consumed"
        using Cons.prems(1) by (auto simp: Let_def split: if_splits)
      then show ?thesis by (auto simp: list_all_iff)
    qed
  qed simp
  show "\<forall>r \<in> set rows. br_status r = COMMITTED" using main by blast
  show "(\<forall>r \<in> set rows. br_amount_committed r = qty consumed (br_resource_type r))
      \<or> (\<forall>(k, amount) \<in> set consumed. qty (map (\<lambda>r. (br_resource_type r, br_amount_committed r)) rows) k = amount)"
    by (rule main [THEN conjunct2])
qed

lemma put_rows_member:
  assumes "ledger_inv L" "set ms \<subseteq> set (bg_reservations L)" "distinct (map br_reservation_id ms)"
    "list_all2 row_settles ms rows" "r \<in> set rows"
  shows "r \<in> set (bg_reservations (put_rows L rows))"
proof -
  have ids: "map br_reservation_id rows = map br_reservation_id ms"
    using assms(4) by (induction rule: list_all2_induct) (auto simp: row_settles_def row_identity_eq)
  have "br_reservation_id r \<in> set (map br_reservation_id ms)"
    using assms(5) unfolding ids [symmetric] by simp
  then obtain x where x: "x \<in> set (bg_reservations L)" "br_reservation_id x = br_reservation_id r"
    using assms(2) by auto
  have "tab_get br_reservation_id (br_reservation_id x) rows = Some r"
    using tab_get_distinct [of br_reservation_id rows r] assms(3,5) ids x(2) by simp
  then show ?thesis using x(1) assms(3)
    by (force simp: put_rows_def fold_tab_put ids intro: rev_image_eqI)
qed

lemma commit_settled_resource:
  assumes inv: "ledger_inv L" and "commit L a g consumed ov now = Inr (r, M)"
    and d: "distinct (map fst consumed)" and "(k, amount) \<in> set consumed"
  shows "\<exists>row \<in> set (group_rows M a g). br_resource_type row = k \<and> br_status row = COMMITTED
    \<and> br_amount_committed row = amount"
proof -
  from assms(2) obtain ms replay rows where ms: "lock_group L a g = Inr ms"
    and sub: "set (map fst consumed) \<subseteq> set (map br_resource_type ms)"
    and loop: "commit_loop consumed ov now [] ms = Inr (replay, rows)" and M: "M = put_rows L rows"
    by (auto simp: commit_def res_simps)
  note lg = lock_group_ok [OF ms]
  have dist: "distinct (map br_reservation_id (bg_reservations L))" using inv by (simp add: ledger_inv_def)
  have settle: "list_all2 row_settles ms rows"
    using commit_loop_settles [OF loop] by (auto elim!: list_all2_mono intro: row_settles_commit)
  then have ident: "map row_identity rows = map row_identity ms" by (rule settled_identities)
  have "map br_resource_type rows = map br_resource_type ms"
    using ident by (auto simp: list_eq_iff_nth_eq row_identity_eq)
  then have "k \<in> set (map br_resource_type rows)" using sub assms(4) by force
  then have kk: "k \<in> fst ` set (map (\<lambda>r. (br_resource_type r, br_amount_committed r)) rows)" by force
  have q: "qty consumed k = amount" using d assms(4) by (simp add: qty_def map_of_is_SomeI)
  note out = commit_loop_outcome [OF loop]
  obtain row where row: "row \<in> set rows" "br_resource_type row = k" "br_amount_committed row = amount"
  proof (cases "\<forall>r \<in> set rows. br_amount_committed r = qty consumed (br_resource_type r)")
    case True
    then show ?thesis using kk q that by auto
  next
    case False
    then have "qty (map (\<lambda>r. (br_resource_type r, br_amount_committed r)) rows) k = amount"
      using out(2) lg(2) assms(4) by auto
    moreover obtain v where "map_of (map (\<lambda>r. (br_resource_type r, br_amount_committed r)) rows) k = Some v"
      using kk by (metis map_of_eq_None_iff not_None_eq)
    ultimately show ?thesis using that by (auto simp: qty_def dest!: map_of_SomeD)
  qed
  have "br_account_id row = a \<and> br_reservation_group_id row = g"
  proof -
    from row(1) obtain i where i: "i < length rows" "row = rows ! i" by (auto simp: in_set_conv_nth)
    then have "row_settles (ms ! i) row" "ms ! i \<in> set ms" using settle by (auto simp: list_all2_conv_all_nth)
    moreover have "set ms = set (group_rows L a g)" using lg(1) by simp
    ultimately show ?thesis by (auto simp: row_settles_def row_identity_eq group_rows_def)
  qed
  moreover have "row \<in> set (bg_reservations M)"
    unfolding M by (rule put_rows_member [OF inv lg(3) lg(4) [OF dist] settle row(1)])
  ultimately have "row \<in> set (group_rows M a g)" by (simp add: group_rows_def)
  then show ?thesis using row out(1) lg(2) by auto
qed

lemma add_qty_keys: "distinct (map fst d) \<Longrightarrow> distinct (map fst (add_qty k v d)) \<and> fst ` set (add_qty k v d) = insert k (fst ` set d)"
  by (induction k v d rule: add_qty.induct) auto

lemma committed_of_distinct: "distinct (map fst (committed_of rows))"
proof -
  have "distinct (map fst d) \<Longrightarrow> distinct (map fst (fold (\<lambda>r d. if br_status r = COMMITTED
     then add_qty (br_resource_type r) (br_amount_committed r) d else d) rows d))" for d
    by (induction rows arbitrary: d) (auto simp: add_qty_keys)
  then show ?thesis by (simp add: committed_of_def)
qed

lemmas budget_eval = create_account_def check_parent_account_def new_account_def serialize_limits_def
  account_view_def reserve_def snapshot_def over_remaining_def account_rows_def reserved_of_def
  committed_of_def qty_def new_reservation_def reservation_id_def group_rows_def group_result_def
  reservation_view_def tab_add_def Let_def state_of_def empty_ledger_def child_group_def
  close_child_account_def commit_def lock_group_def committed_row_def put_rows_def tab_put_def

lemma sample_root_val: "sample_root = \<lparr>bg_accounts = [new_account ''r'' [(''tokens'', 10)] None None 1],
    bg_reservations = []\<rparr>"
  by (simp add: sample_root_def budget_eval)

lemma sample_child_val: "sample_child = \<lparr>bg_accounts =
     [new_account ''r'' [(''tokens'', 10)] None None 1, new_account ''c'' [(''tokens'', 5)] None (Some ''r'') 2],
    bg_reservations = [new_reservation sample_hash ''r'' ''child-allocation:c'' (Some ''c'') 2 (''tokens'', 5)]\<rparr>"
  by (simp add: sample_child_def sample_root_val budget_eval)

lemma sample_held_val: "sample_held = sample_child\<lparr>bg_reservations := bg_reservations sample_child
    @ [new_reservation sample_hash ''c'' ''g'' None 3 (''tokens'', 3)]\<rparr>"
  by (simp add: sample_held_def sample_child_val budget_eval)

lemma sample_ledger_ops:
  "\<not> isl (create_account sample_hash empty_ledger ''r'' [(''tokens'', 10)] None None 1)"
  "\<not> isl (create_account sample_hash sample_root ''c'' [(''tokens'', 5)] None (Some ''r'') 2)"
  "\<not> isl (reserve sample_hash sample_child ''c'' ''g'' [(''tokens'', 3)] None 3)"
  "\<not> isl (close_child_account sample_held ''c'' 4)"
  "\<not> isl (commit sample_closed ''c'' ''g'' [(''tokens'', 3)] False 5)"
  by (simp_all add: sample_closed_def sample_held_val sample_child_val sample_root_val budget_eval)

lemma sample_limits: "0 \<le> x \<Longrightarrow> valid_limits [(''tokens'', x)]"
  by (simp add: valid_limits_def blank_def strip_def is_space_def raise_if_def)

lemma sample_child_reachable: "(ledger_step sample_hash)\<^sup>*\<^sup>* empty_ledger sample_child"
proof -
  have "ledger_step sample_hash empty_ledger sample_root"
    unfolding sample_root_def by (rule ledger_step.create [OF sample_limits state_of_Inr [OF sample_ledger_ops(1)]]) simp
  moreover have "ledger_step sample_hash sample_root sample_child"
    unfolding sample_child_def by (rule ledger_step.create [OF sample_limits state_of_Inr [OF sample_ledger_ops(2)]]) simp
  ultimately show ?thesis by auto
qed

lemma sample_leaked_reachable: "(ledger_step sample_hash)\<^sup>*\<^sup>* empty_ledger sample_leaked"
proof -
  have "ledger_step sample_hash sample_child sample_held"
    unfolding sample_held_def by (rule ledger_step.reserve [OF _ state_of_Inr [OF sample_ledger_ops(3)]]) simp
  moreover have "ledger_step sample_hash sample_held sample_closed"
    unfolding sample_closed_def by (rule ledger_step.close_child [OF state_of_Inr [OF sample_ledger_ops(4)]])
  moreover have "ledger_step sample_hash sample_closed sample_leaked"
    unfolding sample_leaked_def by (rule ledger_step.commit [OF state_of_Inr [OF sample_ledger_ops(5)]])
  ultimately show ?thesis using sample_child_reachable by (meson rtranclp.rtrancl_into_rtrancl)
qed

lemma degenerate_child_cases:
  assumes "get_account L a = None" and "group_rows L p (child_group a) = []"
  shows "(\<exists>k. (k, 0) \<in> set q) \<Longrightarrow> create_account E L a q trid (Some p) now \<noteq> Inr (v, M)"
    and "create_account E L a [] trid (Some p) now = Inr (v, M) \<Longrightarrow>
      close_child_account M a now' = Inl (LookupError (''budget reservation group not found: '' @ child_group a))"
proof -
  show "create_account E L a q trid (Some p) now \<noteq> Inr (v, M)" if "\<exists>k. (k, 0) \<in> set q"
  proof
    assume "create_account E L a q trid (Some p) now = Inr (v, M)"
    then show False
    proof (cases rule: create_account_cases)
      case (3 p' r)
      then show ?thesis using reserved_group(6) [OF 3(5)] that by auto
    qed (use assms(1) that in auto)
  qed
  show "close_child_account M a now' = Inl (LookupError (''budget reservation group not found: '' @ child_group a))"
    if "create_account E L a [] trid (Some p) now = Inr (v, M)"
    using that
  proof (cases rule: create_account_cases)
    case 2
    have "get_account M a = Some (new_account a [] trid (Some p) now)"
      using 2(1,4) by (simp add: tab_simps new_account_def)
    then have "\<exists>s. snapshot M a = Inr s" by (simp add: snapshot_def Let_def)
    moreover have "group_rows M p (child_group a) = []" using assms(2) 2(4) by (simp add: group_rows_accounts)
    ultimately show ?thesis using \<open>get_account M a = Some _\<close>
      by (auto simp: close_child_account_def new_account_def commit_def lock_group_def)
  qed (use assms(1) in auto)
qed

section \<open>Spending through the governor\<close>

lemma put_rows_in:
  assumes "distinct (map br_reservation_id rows)" "r \<in> set (bg_reservations (put_rows L rows))"
  shows "r \<in> set rows \<or> (r \<in> set (bg_reservations L) \<and> br_reservation_id r \<notin> br_reservation_id ` set rows)"
proof -
  from assms obtain x where x: "x \<in> set (bg_reservations L)"
    "r = (case tab_get br_reservation_id (br_reservation_id x) rows of None \<Rightarrow> x | Some m \<Rightarrow> m)"
    by (auto simp: put_rows_def fold_tab_put)
  show ?thesis
  proof (cases "tab_get br_reservation_id (br_reservation_id x) rows")
    case None
    then have "br_reservation_id x \<notin> br_reservation_id ` set rows" by (simp add: tab_get_None_iff)
    with None show ?thesis using x by simp
  next
    case (Some m)
    then show ?thesis using x tab_get_in_set [OF Some] by simp
  qed
qed

lemma commit_rows:
  assumes inv: "ledger_inv L" and "commit L a g consumed ov now = Inr (r, M)"
  obtains ms rows where "set ms = set (group_rows L a g)" "ms \<noteq> []" "M = put_rows L rows"
    "list_all2 row_settles ms rows" "distinct (map br_reservation_id rows)"
    "br_reservation_id ` set rows = br_reservation_id ` set ms" "\<forall>r \<in> set rows. br_status r = COMMITTED"
    "\<not> ov \<Longrightarrow> no_overrun L \<Longrightarrow> \<forall>r \<in> set rows. br_amount_committed r \<le> br_amount_reserved r"
proof -
  from assms(2) obtain ms replay rows where ms: "lock_group L a g = Inr ms"
    and loop: "commit_loop consumed ov now [] ms = Inr (replay, rows)" and M: "M = put_rows L rows"
    by (auto simp: commit_def res_simps)
  note lg = lock_group_ok [OF ms] and ls = commit_loop_settles [OF loop]
  have dist: "distinct (map br_reservation_id (bg_reservations L))" using inv by (simp add: ledger_inv_def)
  have settle: "list_all2 row_settles ms rows"
    using ls by (auto elim!: list_all2_mono intro: row_settles_commit)
  then have ids: "map br_reservation_id rows = map br_reservation_id ms"
    by (induction rule: list_all2_induct) (auto simp: row_settles_def row_identity_eq)
  have com: "\<forall>r \<in> set rows. br_status r = COMMITTED" using commit_loop_outcome(1) [OF loop] lg(2) by simp
  have "br_amount_committed r \<le> br_amount_reserved r"
    if "\<not> ov" "no_overrun L" "r \<in> set rows" for r
  proof -
    from ls that(3) obtain m where m: "m \<in> set ms" and "r = m \<or>
        (r = committed_row m (qty consumed (br_resource_type m)) now
          \<and> (ov \<or> qty consumed (br_resource_type m) \<le> br_amount_reserved m))"
      by (fastforce simp: list_all2_conv_all_nth in_set_conv_nth)
    then show ?thesis using that com lg(3) by (auto simp: no_overrun_def committed_row_def)
  qed
  then show ?thesis
    using that [of ms rows] lg(1,2) lg(4) [OF dist] M settle ids com by (metis set_map set_sort)
qed

lemma commit_group_settled:
  assumes inv: "ledger_inv L" and "commit L a g consumed ov now = Inr (r, M)"
  shows "group_settled M (a, g)"
proof -
  from commit_rows [OF assms] obtain ms rows where ms: "set ms = set (group_rows L a g)" "ms \<noteq> []"
    and M: "M = put_rows L rows" "distinct (map br_reservation_id rows)"
    "br_reservation_id ` set rows = br_reservation_id ` set ms" "\<forall>r \<in> set rows. br_status r = COMMITTED"
    by metis
  have la: "list_all2 row_settles (bg_reservations L) (bg_reservations M)" by (rule commit_settles [OF assms])
  then have ne: "group_rows M a g \<noteq> []"
    using group_rows_settles [OF la, of a g] ms by (cases "group_rows M a g") auto
  have "br_status x = COMMITTED" if "x \<in> set (group_rows M a g)" for x
  proof -
    from that group_rows_settles [OF la, of a g] obtain m where "m \<in> set (group_rows L a g)" "row_settles m x"
      by (metis in_set_conv_nth list_all2_conv_all_nth)
    then have "br_reservation_id x \<in> br_reservation_id ` set rows"
      unfolding M(3) ms(1) by (auto simp: row_settles_def row_identity_eq)
    moreover have "x \<in> set (bg_reservations M)" using that by (simp add: group_rows_def)
    ultimately have "x \<in> set rows" using put_rows_in [OF M(2)] M(1) by blast
    then show ?thesis using M(4) by blast
  qed
  then show ?thesis using ne by (simp add: group_settled_def)
qed

lemma commit_no_overrun:
  assumes "ledger_inv L" "no_overrun L" "commit L a g consumed False now = Inr (r, M)"
  shows "no_overrun M"
proof -
  from commit_rows [OF assms(1,3)] obtain rows where M: "M = put_rows L rows" "distinct (map br_reservation_id rows)"
    "\<forall>r \<in> set rows. br_amount_committed r \<le> br_amount_reserved r" using assms(2) by metis
  show ?thesis
    unfolding no_overrun_def
  proof (intro ballI impI)
    fix r assume "r \<in> set (bg_reservations M)" "br_status r = COMMITTED"
    then show "br_amount_committed r \<le> br_amount_reserved r"
      using put_rows_in [OF M(2), of r L] M(1,3) assms(2) by (auto simp: no_overrun_def)
  qed
qed

lemma reserve_no_overrun:
  assumes "no_overrun L" "reserve E L a g q child now = Inr (r, M)"
  shows "no_overrun M"
  using assms(2)
proof (cases rule: reserve_cases)
  case 2
  then show ?thesis using assms(1) by (auto simp: no_overrun_def new_reservation_def)
qed (use assms(1) in simp)

lemma no_overrun_total: "no_overrun L \<Longrightarrow> total overrun L a k = 0"
proof -
  assume "no_overrun L"
  then have "\<forall>x \<in> set (filter (\<lambda>r. br_account_id r = a \<and> br_resource_type r = k) (bg_reservations L)). overrun x = 0"
    by (auto simp: no_overrun_def overrun_def split: reservation_status.splits)
  then have "map overrun (filter (\<lambda>r. br_account_id r = a \<and> br_resource_type r = k) (bg_reservations L))
      = map (\<lambda>_. 0) (filter (\<lambda>r. br_account_id r = a \<and> br_resource_type r = k) (bg_reservations L))"
    by (intro map_cong) auto
  then show ?thesis by (simp only: total_def sum_list_0)
qed

lemma snapshot_within_limits:
  assumes "ledger_inv L" "no_overrun L" "snapshot L a = Inr s"
  shows "qty (bs_reserved s) k + qty (bs_committed s) k \<le> qty (bs_limits s) k"
proof -
  obtain acct where acct: "get_account L a = Some acct" "bs_limits s = ba_limits acct"
    and sum: "qty (bs_reserved s) k + qty (bs_committed s) k = total charge L a k"
    using assms(3) account_rows_total [of L a k] by (auto simp: snapshot_ok)
  with account_rows_limits [OF assms(1) acct(1), of k] no_overrun_total [OF assms(2)] total_split [of L a k]
  show ?thesis by simp
qed

interpretation spending: spending_port "\<lambda>L. ledger_inv L \<and> no_overrun L"
  "\<lambda>L (a, g) M. \<exists>q child now r. distinct (map fst q) \<and> reserve E L a g q child now = Inr (r, M)"
  "\<lambda>L (a, g) M. \<exists>consumed now r. commit L a g consumed False now = Inr (r, M)" group_settled for E
proof (unfold_locales, goal_cases)
  case (1 L k M)
  then show ?case by (auto intro: ledger_inv_reserve reserve_no_overrun)
next
  case (2 L k M)
  then obtain a g consumed now r where c: "commit L a g consumed False now = Inr (r, M)" by auto
  with 2(1) show ?case using ledger_inv_settle [OF _ commit_settles [OF _ c]] commit_no_overrun [OF _ _ c] by blast
next
  case (3 L k M)
  then show ?case by (auto intro: commit_group_settled)
qed

section \<open>Properties\<close>

text \<open>
  Claim C2: a budget is never overdrawn except by declared overruns. In every reachable ledger, for
  every account and resource, what is reserved plus what is committed is at most the limit plus
  the amounts by which commits exceeded their own reservations; so without such commits it is at
  most the limit.
\<close>

theorem budget_never_overdrawn:
  assumes "(ledger_step E)\<^sup>*\<^sup>* empty_ledger L" and "snapshot L a = Inr s"
  shows "qty (bs_reserved s) k + qty (bs_committed s) k \<le> qty (bs_limits s) k + total overrun L a k
    \<and> ((\<forall>r \<in> set (account_rows L a). br_status r = COMMITTED \<longrightarrow> br_amount_committed r \<le> br_amount_reserved r)
       \<longrightarrow> qty (bs_reserved s) k + qty (bs_committed s) k \<le> qty (bs_limits s) k)"
proof -
  have inv: "ledger_inv L" by (rule budget_tables.inv_reachable [OF refl assms(1)])
  obtain acct where acct: "get_account L a = Some acct" "bs_limits s = ba_limits acct"
    and sum: "qty (bs_reserved s) k + qty (bs_committed s) k = total charge L a k"
    using assms(2) account_rows_total [of L a k] by (auto simp: snapshot_ok)
  have le: "total covered L a k \<le> qty (ba_limits acct) k" by (rule account_rows_limits [OF inv acct(1)])
  have "total overrun L a k = 0"
    if "\<forall>r \<in> set (account_rows L a). br_status r = COMMITTED \<longrightarrow> br_amount_committed r \<le> br_amount_reserved r"
  proof -
    have "\<forall>r \<in> set (account_rows L a). overrun r = 0"
      using that by (auto simp: overrun_def split: reservation_status.splits)
    then have "map overrun (filter (\<lambda>r. br_account_id r = a \<and> br_resource_type r = k) (bg_reservations L))
        = map (\<lambda>_. 0) (filter (\<lambda>r. br_account_id r = a \<and> br_resource_type r = k) (bg_reservations L))"
      by (auto simp: account_rows_def)
    then show ?thesis unfolding total_def by (simp only: sum_list_0)
  qed
  with le sum acct(2) total_split [of L a k] show ?thesis by auto
qed

theorem budget_never_overdrawn_witness:
  "\<exists>s. snapshot sample_child ''r'' = Inr s
     \<and> qty (bs_reserved s) ''tokens'' + qty (bs_committed s) ''tokens'' \<le> qty (bs_limits s) ''tokens''"
proof -
  have "\<exists>s. snapshot sample_child ''r'' = Inr s" by (simp add: sample_child_val budget_eval)
  then obtain s where s: "snapshot sample_child ''r'' = Inr s" by blast
  have "\<forall>r \<in> set (account_rows sample_child ''r''). br_status r = COMMITTED \<longrightarrow> br_amount_committed r \<le> br_amount_reserved r"
    by (simp add: sample_child_val budget_eval)
  with budget_never_overdrawn [OF sample_child_reachable s, of "''tokens''"] s show ?thesis by blast
qed

text \<open>
  A reservation takes exactly what it asks for. A successful reservation under a new group
  id asks for no more than what remains of each resource, and afterwards exactly that much less
  remains.
\<close>

theorem reserve_takes_exactly:
  assumes "reserve E L a g q child now = Inr (r, M)" and "distinct (map fst q)"
    and "group_rows L a g = []" and "snapshot L a = Inr s"
  shows "\<exists>s'. snapshot M a = Inr s' \<and> qty q k \<le> qty (bs_remaining s) k
    \<and> qty (bs_remaining s') k = qty (bs_remaining s) k - qty q k"
proof -
  have "get_account M a \<noteq> None"
    using assms(1) by (cases rule: reserve_cases) auto
  then obtain s' where "snapshot M a = Inr s'" by (auto simp: snapshot_ok)
  with reserve_remaining [OF assms this] show ?thesis by blast
qed

theorem reserve_takes_exactly_witness:
  "\<exists>r M s'. reserve sample_hash sample_root ''r'' ''g'' [(''tokens'', 4)] None 3 = Inr (r, M)
     \<and> snapshot M ''r'' = Inr s' \<and> qty (bs_remaining s') ''tokens'' = 6"
proof -
  have "\<not> isl (reserve sample_hash sample_root ''r'' ''g'' [(''tokens'', 4)] None 3)"
    by (simp add: sample_root_val budget_eval)
  note ok = state_of_Inr [OF this, of sample_root]
  have "\<exists>s. snapshot sample_root ''r'' = Inr s \<and> qty (bs_remaining s) ''tokens'' = 10"
    by (simp add: sample_root_val budget_eval)
  then obtain s where s: "snapshot sample_root ''r'' = Inr s" "qty (bs_remaining s) ''tokens'' = 10" by blast
  have "group_rows sample_root ''r'' ''g'' = []" by (simp add: sample_root_val budget_eval)
  from reserve_takes_exactly [OF ok _ this s(1), of "''tokens''"] s(2) ok show ?thesis
    by (auto simp: qty_def)
qed

text \<open>
  A reservation is made once. Once a reservation under a group id has succeeded, repeating
  it in any later ledger in which the account is still active returns the same reservations as a
  replay and changes nothing.
\<close>

theorem reserve_exactly_once:
  assumes "(ledger_step E)\<^sup>*\<^sup>* empty_ledger L" and "distinct (map fst q)"
    and "reserve E L a g q child now = Inr (r, M)" and "(ledger_step E)\<^sup>*\<^sup>* M N"
    and "get_account N a = Some acct" and "ba_status acct = ''active''"
  shows "\<exists>r'. reserve E N a g q child now' = Inr (r', N) \<and> rg_replay r'
    \<and> map bv_reservation_id (rg_reservations r') = map bv_reservation_id (rg_reservations r)"
proof -
  have inv: "ledger_inv M"
    using ledger_inv_reserve [OF budget_tables.inv_reachable [OF refl assms(1)] assms(2,3)] .
  note g = reserved_group [OF assms(3)]
  have "group_identity M (a, g) = Some (map row_identity (group_rows M a g))"
    using g(1) by (auto simp: group_identity_def split: list.splits)
  then have "group_identity N (a, g) = Some (map row_identity (group_rows M a g))"
    by (rule reservation_log.lookup_steps [OF ledger_steps_inv [OF assms(4) inv]])
  then have n: "group_rows N a g \<noteq> []" "map row_identity (group_rows N a g) = map row_identity (group_rows M a g)"
    by (auto dest!: group_identity_rows)
  note id = identities_determine [OF n(2)]
  have view: "bv_reservation_id \<circ> reservation_view = br_reservation_id"
    by (simp add: fun_eq_iff reservation_view_def)
  have "reserve E N a g q child now' = Inr (group_result a g (group_rows N a g) True, N)"
    by (rule reserve_replays [OF assms(5,6) g(5,6) n(1)]) (simp_all only: id g)
  then show ?thesis using id(3) g(4) by (simp add: group_result_def view)
qed

theorem reserve_exactly_once_witness:
  "\<exists>r M r'. reserve sample_hash sample_child ''c'' ''g'' [(''tokens'', 3)] None 3 = Inr (r, M)
     \<and> reserve sample_hash M ''c'' ''g'' [(''tokens'', 3)] None 9 = Inr (r', M) \<and> rg_replay r'"
proof -
  note ok = state_of_Inr [OF sample_ledger_ops(3), of empty_ledger]
  let ?M = "state_of (reserve sample_hash sample_child ''c'' ''g'' [(''tokens'', 3)] None 3) empty_ledger"
  have "\<exists>acct. get_account ?M ''c'' = Some acct \<and> ba_status acct = ''active''"
    by (simp add: sample_child_val budget_eval)
  then obtain acct where acct: "get_account ?M ''c'' = Some acct" "ba_status acct = ''active''" by blast
  from reserve_exactly_once [OF sample_child_reachable _ ok rtranclp.rtrancl_refl acct, of 9] ok
  show ?thesis by auto
qed

text \<open>
  A child account is funded by its parent. Creating a child account with limits, under a
  name not used for an allocation before, takes the whole of those limits from what remains of the
  parent; no resource of the child exceeds what the parent had left.
\<close>

theorem child_account_funded:
  assumes "valid_limits q" and "q \<noteq> []" and "get_account L a = None"
    and "create_account E L a q trid (Some p) now = Inr (v, M)"
    and "group_rows L p (child_group a) = []" and "snapshot L p = Inr s"
  shows "\<exists>s' acct. snapshot M p = Inr s' \<and> get_account M a = Some acct \<and> ba_parent_account_id acct = Some p
    \<and> qty q k \<le> qty (bs_remaining s) k
    \<and> qty (bs_remaining s') k = qty (bs_remaining s) k - qty q k"
  using assms(4)
proof (cases rule: create_account_cases)
  case (3 p' r)
  let ?n = "new_account a q trid (Some p) now" and ?L1 = "L\<lparr>bg_accounts := bg_accounts L @ [new_account a q trid (Some p) now]\<rparr>"
  have res: "reserve E ?L1 p (child_group a) q (Some a) now = Inr (r, M)" using 3(3,5) by simp
  have d: "distinct (map fst q)" using assms(1) by (simp add: valid_limits_def)
  have rows: "bg_reservations ?L1 = bg_reservations L" by simp
  obtain pacct where "get_account L p = Some pacct" using assms(6) by (auto simp: snapshot_ok)
  then have s: "snapshot ?L1 p = Inr s"
    using assms(6) by (simp add: snapshot_ok tab_simps account_rows_def)
  have "get_account M x = get_account ?L1 x" for x
    using res by (cases rule: reserve_cases) simp_all
  then have accts: "get_account M p \<noteq> None" "get_account M a = Some ?n"
    using \<open>get_account L p = Some pacct\<close> assms(3) by (auto simp: tab_simps new_account_def)
  then obtain s' where s': "snapshot M p = Inr s'" by (auto simp: snapshot_ok)
  have g: "group_rows ?L1 p (child_group a) = []" using assms(5) by (simp add: group_rows_accounts)
  show ?thesis using s' accts reserve_remaining [OF res d g s s'] by (auto simp: new_account_def)
qed (use assms(2,3) in auto)

theorem child_account_funded_witness:
  "\<exists>v M s'. create_account sample_hash sample_root ''c'' [(''tokens'', 5)] None (Some ''r'') 2 = Inr (v, M)
     \<and> snapshot M ''r'' = Inr s' \<and> qty (bs_remaining s') ''tokens'' = 5"
proof -
  note ok = state_of_Inr [OF sample_ledger_ops(2), of empty_ledger]
  have "\<exists>s. snapshot sample_root ''r'' = Inr s \<and> qty (bs_remaining s) ''tokens'' = 10"
    by (simp add: sample_root_val budget_eval)
  then obtain s where s: "snapshot sample_root ''r'' = Inr s" "qty (bs_remaining s) ''tokens'' = 10" by blast
  have pre: "group_rows sample_root ''r'' (child_group ''c'') = []" "get_account sample_root ''c'' = None"
    by (simp_all add: sample_root_val budget_eval)
  have lim: "valid_limits [(''tokens'', 5)]" by (rule sample_limits) simp
  from child_account_funded [OF lim _ pre(2) ok pre(1) s(1), of "''tokens''"] s(2) ok
  show ?thesis by (auto simp: qty_def)
qed

text \<open>
  Closing a child charges the parent with what the child spent. When a child account that
  is open is closed, its status becomes closed and, for every resource of which the child has
  committed some amount, the parent's allocation for the child is committed with exactly that
  amount, even when it exceeds the allocation.
\<close>

theorem child_close_settles:
  assumes "(ledger_step E)\<^sup>*\<^sup>* empty_ledger L" and "close_child_account L a now = Inr (v, M)"
    and "get_account L a = Some acct" and "ba_status acct \<noteq> ''closed''" and "snapshot L a = Inr s"
  shows "\<exists>p. ba_parent_account_id acct = Some p \<and> map_option ba_status (get_account M a) = Some ''closed''
    \<and> (\<forall>(k, amount) \<in> set (bs_committed s). \<exists>row \<in> set (group_rows M p (child_group a)).
         br_resource_type row = k \<and> br_status row = COMMITTED \<and> br_amount_committed row = amount)"
  using assms(2)
proof (cases rule: close_child_cases)
  case (2 acct' p snap r L1)
  have inv: "ledger_inv L" by (rule budget_tables.inv_reachable [OF refl assms(1)])
  have eq: "acct' = acct" "snap = s" using 2(1,4) assms(3,5) by simp_all
  have d: "distinct (map fst (bs_committed s))"
    using assms(5) committed_of_distinct by (auto simp: snapshot_ok)
  have rows: "group_rows M p (child_group a) = group_rows L1 p (child_group a)"
    by (simp add: 2(6) group_rows_accounts)
  have "a \<in> set (map ba_account_id (bg_accounts L1))" "ba_account_id acct = a"
    using tab_get_Some_D [OF assms(3)] commit_settles(2) [OF inv 2(5)] by force+
  then have "map_option ba_status (get_account M a) = Some ''closed''"
    by (simp add: 2(6) eq tab_simps)
  moreover have "\<exists>row \<in> set (group_rows M p (child_group a)). br_resource_type row = k
      \<and> br_status row = COMMITTED \<and> br_amount_committed row = amount" if "(k, amount) \<in> set (bs_committed s)" for k amount
    unfolding rows using commit_settled_resource [OF inv 2(5)] d that eq(2) by blast
  ultimately show ?thesis using 2(2) eq(1) by auto
qed (use assms(3,4) in simp)

theorem child_close_settles_witness:
  "\<exists>v M. close_child_account sample_held ''c'' 4 = Inr (v, M)
     \<and> map_option ba_status (get_account M ''c'') = Some ''closed''"
proof -
  note ok = state_of_Inr [OF sample_ledger_ops(4), of empty_ledger]
  have "ledger_step sample_hash sample_child sample_held"
    unfolding sample_held_def by (rule ledger_step.reserve [OF _ state_of_Inr [OF sample_ledger_ops(3)]]) simp
  then have reach: "(ledger_step sample_hash)\<^sup>*\<^sup>* empty_ledger sample_held"
    using sample_child_reachable by (meson rtranclp.rtrancl_into_rtrancl)
  have "\<exists>acct s. get_account sample_held ''c'' = Some acct \<and> ba_status acct \<noteq> ''closed'' \<and> snapshot sample_held ''c'' = Inr s"
    by (simp add: sample_held_val sample_child_val budget_eval)
  then obtain acct s where a: "get_account sample_held ''c'' = Some acct" "ba_status acct \<noteq> ''closed''"
    "snapshot sample_held ''c'' = Inr s" by blast
  from child_close_settles [OF reach ok a] ok show ?thesis by blast
qed

text \<open>
  Closing a child account does not stop its spending. There is a reachable ledger in which a
  child account is closed, three tokens are committed on it, and yet nothing is committed on the
  parent, which has all its ten tokens left: a reservation that is still open when the child is
  closed can be committed afterwards, and is never charged to the parent.
\<close>

theorem closed_child_can_spend:
  "\<exists>L s s'. (ledger_step sample_hash)\<^sup>*\<^sup>* empty_ledger L
    \<and> map_option ba_status (get_account L ''c'') = Some ''closed''
    \<and> snapshot L ''c'' = Inr s \<and> qty (bs_committed s) ''tokens'' = 3
    \<and> snapshot L ''r'' = Inr s' \<and> qty (bs_committed s') ''tokens'' = 0 \<and> qty (bs_remaining s') ''tokens'' = 10"
proof -
  have "\<exists>s s'. map_option ba_status (get_account sample_leaked ''c'') = Some ''closed''
    \<and> snapshot sample_leaked ''c'' = Inr s \<and> qty (bs_committed s) ''tokens'' = 3
    \<and> snapshot sample_leaked ''r'' = Inr s' \<and> qty (bs_committed s') ''tokens'' = 0
    \<and> qty (bs_remaining s') ''tokens'' = 10"
    by (simp add: sample_leaked_def sample_closed_def sample_held_val sample_child_val budget_eval)
  with sample_leaked_reachable show ?thesis by blast
qed

text \<open>
  Two kinds of child account the contracts allow do not work. A child with a limit of zero
  for some resource can never be created, and a child created without limits can never be closed
  while its parent has no reservation under its name: closing it raises \<open>LookupError\<close>.
\<close>

theorem degenerate_child_accounts:
  assumes "get_account L a = None" and "group_rows L p (child_group a) = []"
  shows "((\<exists>k. (k, 0) \<in> set q) \<longrightarrow> create_account E L a q trid (Some p) now \<noteq> Inr (v, M))
    \<and> (create_account E L a [] trid (Some p) now = Inr (v, M) \<longrightarrow>
       close_child_account M a now' = Inl (LookupError (''budget reservation group not found: '' @ child_group a)))"
  using degenerate_child_cases [OF assms] by blast

theorem degenerate_child_accounts_witness:
  "\<exists>v M. create_account sample_hash sample_root ''c'' [] None (Some ''r'') 2 = Inr (v, M)
     \<and> close_child_account M ''c'' 3 = Inl (LookupError (''budget reservation group not found: '' @ child_group ''c''))"
proof -
  have "\<not> isl (create_account sample_hash sample_root ''c'' [] None (Some ''r'') 2)"
    by (simp add: sample_root_val budget_eval)
  note ok = state_of_Inr [OF this, of empty_ledger]
  have pre: "get_account sample_root ''c'' = None" "group_rows sample_root ''r'' (child_group ''c'') = []"
    by (simp_all add: sample_root_val budget_eval)
  from degenerate_child_accounts [OF pre, where q = "[]" and now' = 3] ok show ?thesis by blast
qed

end
