(* ===== verification/Policy_Engine.thy ===== *)
theory Policy_Engine
  imports Runtime_Prelude
begin

text \<open>
  \<^verbatim>\<open>packages/runtime/policy\<close>: requests, decisions and their combination (\<^verbatim>\<open>contracts.py\<close>), the static
  engine that evaluates a list of rules (\<^verbatim>\<open>engine.py\<close>) and its construction from a catalogue
  (\<^verbatim>\<open>loader.py\<close>, less the reading of the file). The patterns of a rule are those of the standard
  library's \<^verbatim>\<open>fnmatch.fnmatchcase\<close>, which is modelled here.
\<close>

section \<open>Shell patterns\<close>

text \<open>An item of a pattern: \<^verbatim>\<open>*\<close>, \<^verbatim>\<open>?\<close>, a bracket expression with its ranges, or a character.\<close>

datatype glob_item = GStar | GAny | GSet bool "(char \<times> char) list" | GLit char

text \<open>
  After \<^verbatim>\<open>[\<close>: an optional \<^verbatim>\<open>!\<close>, then the members up to the next \<^verbatim>\<open>]\<close>, which is a member itself when
  it comes first. Without a closing bracket the \<^verbatim>\<open>[\<close> stands for itself.
\<close>

definition class_end :: "bool \<Rightarrow> string \<Rightarrow> string \<Rightarrow> (bool \<times> string \<times> string) option" where
  "class_end neg lead s =
     (case dropWhile (\<lambda>c. c \<noteq> CHR '']'') s of
        [] \<Rightarrow> None
      | _ # r \<Rightarrow> Some (neg, lead @ takeWhile (\<lambda>c. c \<noteq> CHR '']'') s, r))"

definition class_body :: "bool \<Rightarrow> string \<Rightarrow> (bool \<times> string \<times> string) option" where
  "class_body neg s =
     (case s of [] \<Rightarrow> None
      | c # r \<Rightarrow> if c = CHR '']'' then class_end neg [c] r else class_end neg [] s)"

definition split_class :: "string \<Rightarrow> (bool \<times> string \<times> string) option" where
  "split_class s =
     (case s of [] \<Rightarrow> None
      | c # r \<Rightarrow> if c = CHR ''!'' then class_body True r else class_body False s)"

text \<open>A member is a range or a character; a hyphen at either end is a character.\<close>

fun class_ranges :: "string \<Rightarrow> (char \<times> char) list" where
  "class_ranges (c # h # d # rest) =
     (if h = CHR ''-'' then (c, d) # class_ranges rest else (c, c) # class_ranges (h # d # rest))"
| "class_ranges (c # rest) = (c, c) # class_ranges rest"
| "class_ranges [] = []"

definition in_ranges :: "(char \<times> char) list \<Rightarrow> char \<Rightarrow> bool" where
  "in_ranges rs c = list_ex (\<lambda>(lo, hi). lo \<le> c \<and> c \<le> hi) rs"

function glob_items :: "string \<Rightarrow> glob_item list" where
  "glob_items [] = []"
| "glob_items (c # s) =
     (if c = CHR ''*'' then GStar # glob_items s
      else if c = CHR ''?'' then GAny # glob_items s
      else if c = CHR ''['' then
        (case split_class s of
           None \<Rightarrow> GLit c # glob_items s
         | Some (neg, body, rest) \<Rightarrow> GSet neg (class_ranges body) # glob_items rest)
      else GLit c # glob_items s)"
  by pat_completeness auto

lemma class_end_shorter: "class_end neg lead s = Some (n, body, rest) \<Longrightarrow> length rest < length s"
  using length_dropWhile_le [of "\<lambda>c. c \<noteq> CHR '']''" s] by (simp add: class_end_def split: list.splits)

lemma split_class_shorter: "split_class s = Some (neg, body, rest) \<Longrightarrow> length rest < length s"
  by (auto simp: split_class_def class_body_def split: list.splits if_splits dest!: class_end_shorter)

termination glob_items
  by (relation "measure length") (auto dest: split_class_shorter)


fun glob_match :: "glob_item list \<Rightarrow> string \<Rightarrow> bool" where
  "glob_match [] s = (s = [])"
| "glob_match (GStar # ps) [] = glob_match ps []"
| "glob_match (GStar # ps) (c # s) = (glob_match ps (c # s) \<or> glob_match (GStar # ps) s)"
| "glob_match (GAny # ps) s = (s \<noteq> [] \<and> glob_match ps (tl s))"
| "glob_match (GSet neg rs # ps) s = (s \<noteq> [] \<and> in_ranges rs (hd s) \<noteq> neg \<and> glob_match ps (tl s))"
| "glob_match (GLit a # ps) s = (s \<noteq> [] \<and> hd s = a \<and> glob_match ps (tl s))"

definition fnmatchcase :: "string \<Rightarrow> string \<Rightarrow> bool" where
  "fnmatchcase value pattern = glob_match (glob_items pattern) value"

section \<open>Requests and decisions\<close>

datatype policy_decision_point =
    TASK_ADMISSION | TASK_DELEGATION | CAPABILITY_VISIBILITY | CAPABILITY_INVOCATION
  | CREDENTIAL_ISSUANCE | NETWORK_EGRESS | SANDBOX_SELECTION | SIDE_EFFECT_COMMIT
  | OBSERVATION_PROMOTION | STATE_PATCH_COMMIT | CHILD_EXECUTION | WATCH_RESUME

fun decision_point_value :: "policy_decision_point \<Rightarrow> string" where
  "decision_point_value TASK_ADMISSION = ''task_admission''"
| "decision_point_value TASK_DELEGATION = ''task_delegation''"
| "decision_point_value CAPABILITY_VISIBILITY = ''capability_visibility''"
| "decision_point_value CAPABILITY_INVOCATION = ''capability_invocation''"
| "decision_point_value CREDENTIAL_ISSUANCE = ''credential_issuance''"
| "decision_point_value NETWORK_EGRESS = ''network_egress''"
| "decision_point_value SANDBOX_SELECTION = ''sandbox_selection''"
| "decision_point_value SIDE_EFFECT_COMMIT = ''side_effect_commit''"
| "decision_point_value OBSERVATION_PROMOTION = ''observation_promotion''"
| "decision_point_value STATE_PATCH_COMMIT = ''state_patch_commit''"
| "decision_point_value CHILD_EXECUTION = ''child_execution''"
| "decision_point_value WATCH_RESUME = ''watch_resume''"

datatype authorization = PERMIT | DENY | INDETERMINATE

fun authorization_value :: "authorization \<Rightarrow> string" where
  "authorization_value PERMIT = ''permit''"
| "authorization_value DENY = ''deny''"
| "authorization_value INDETERMINATE = ''indeterminate''"

record policy_obligation =
  po_kind :: string
  po_parameters :: jdict

definition validate_kind :: "policy_obligation \<Rightarrow> policy_obligation res" where
  "validate_kind ob = raise_if (blank (po_kind ob)) (ValueError ''PolicyObligation kind cannot be empty'') (Inr ob)"

record policy_request =
  pq_decision_point :: policy_decision_point
  pq_principal :: string
  pq_action :: string
  pq_resource :: string
  pq_context :: jdict

definition has_key :: "jdict \<Rightarrow> string \<Rightarrow> bool" where
  "has_key d k = (k \<in> set (map fst d))"

definition validate_request :: "policy_request \<Rightarrow> policy_request res" where
  "validate_request q =
     raise_if (blank (pq_principal q) \<or> blank (pq_action q) \<or> blank (pq_resource q))
       (ValueError ''PolicyRequest principal/action/resource cannot be empty'')
     (if pq_decision_point q = TASK_ADMISSION
      then raise_if (\<not> has_key (pq_context q) ''intent_ref'')
        (ValueError ''task_admission PolicyRequest context requires intent_ref'') (Inr q)
      else raise_if (\<not> has_key (pq_context q) ''task_contract_id'' \<or> \<not> has_key (pq_context q) ''task_run_id'')
        (ValueError ''PolicyRequest context requires task_contract_id and task_run_id'') (Inr q))"

record policy_decision =
  pd_authorization :: authorization
  pd_constraints :: "policy_obligation list"
  pd_obligations :: "policy_obligation list"
  pd_advice :: "string list"
  pd_matched_policy_ids :: "string list"
  pd_determining_policy_ids :: "string list"
  pd_policy_revision :: string
  pd_expires_at :: "int option"

definition validate_revision :: "policy_decision \<Rightarrow> policy_decision res" where
  "validate_revision d =
     raise_if (blank (pd_policy_revision d)) (ValueError ''PolicyDecision policy_revision cannot be empty'') (Inr d)"

definition obligations_satisfied :: "policy_decision \<Rightarrow> string set \<Rightarrow> bool" where
  "obligations_satisfied d fulfilled =
     (pd_authorization d = PERMIT \<and> set (map po_kind (pd_obligations d)) \<subseteq> fulfilled)"

section \<open>Combination\<close>

definition with_authorization :: "authorization \<Rightarrow> policy_decision list \<Rightarrow> policy_decision list" where
  "with_authorization a ds = filter (\<lambda>d. pd_authorization d = a) ds"

definition combine_deny_overrides :: "policy_decision list \<Rightarrow> string \<Rightarrow> policy_decision res" where
  "combine_deny_overrides decisions policy_revision =
     (let matched = sorted_set (concat (map pd_matched_policy_ids decisions));
          advice = concat (map pd_advice decisions);
          denies = with_authorization DENY decisions;
          indeterminate = with_authorization INDETERMINATE decisions;
          permits = with_authorization PERMIT decisions;
          decide = (\<lambda>a constraints obligations adv determining. validate_revision
            \<lparr>pd_authorization = a, pd_constraints = constraints, pd_obligations = obligations,
             pd_advice = adv, pd_matched_policy_ids = matched,
             pd_determining_policy_ids = sorted_set (concat (map pd_determining_policy_ids determining)),
             pd_policy_revision = policy_revision, pd_expires_at = None\<rparr>)
      in if denies \<noteq> [] then decide DENY [] [] advice denies
         else if indeterminate \<noteq> [] then decide INDETERMINATE [] [] advice indeterminate
         else if permits \<noteq> [] then decide PERMIT (concat (map pd_constraints permits))
           (concat (map pd_obligations permits)) advice permits
         else decide DENY [] [] [''implicit_deny''] [])"

section \<open>The static engine\<close>

record runtime_policy_rule =
  rl_policy_id :: string
  rl_policy_revision :: string
  rl_decision_points :: "policy_decision_point list"
  rl_principal_patterns :: "string list"
  rl_action_patterns :: "string list"
  rl_resource_patterns :: "string list"
  rl_authorization :: "authorization option"
  rl_constraints :: "policy_obligation list"
  rl_obligations :: "policy_obligation list"
  rl_advice :: "string list"

definition matches_any :: "string \<Rightarrow> string list \<Rightarrow> bool" where
  "matches_any value patterns = list_ex (fnmatchcase value) patterns"

definition rule_matches :: "runtime_policy_rule \<Rightarrow> policy_request \<Rightarrow> bool" where
  "rule_matches r q =
     (pq_decision_point q \<in> set (rl_decision_points r)
      \<and> matches_any (pq_principal q) (rl_principal_patterns r)
      \<and> matches_any (pq_action q) (rl_action_patterns r)
      \<and> matches_any (pq_resource q) (rl_resource_patterns r))"

record policy_engine =
  pe_policy_revision :: string
  pe_rules :: "runtime_policy_rule list"

definition new_policy_engine :: "string \<Rightarrow> runtime_policy_rule list \<Rightarrow> policy_engine res" where
  "new_policy_engine policy_revision rules =
     raise_if (blank policy_revision) (ValueError ''policy_revision cannot be empty'')
     (raise_if (list_ex (\<lambda>r. rl_policy_revision r \<noteq> policy_revision) rules)
       (ValueError ''policy rule revision does not match engine revision'')
     (Inr \<lparr>pe_policy_revision = policy_revision, pe_rules = rules\<rparr>))"

record runtime_policy_catalog =
  pc_policy_revision :: string
  pc_rules :: "runtime_policy_rule list"

text \<open>\<^verbatim>\<open>load_runtime_policy\<close>, from the catalogue that the file parses to.\<close>

definition load_runtime_policy :: "runtime_policy_catalog \<Rightarrow> policy_engine res" where
  "load_runtime_policy c = new_policy_engine (pc_policy_revision c) (pc_rules c)"

definition rule_decisions :: "string \<Rightarrow> runtime_policy_rule list \<Rightarrow> policy_decision list" where
  "rule_decisions policy_revision matched =
     concat (map (\<lambda>r. case rl_authorization r of None \<Rightarrow> []
       | Some a \<Rightarrow> [\<lparr>pd_authorization = a, pd_constraints = [], pd_obligations = [], pd_advice = [],
           pd_matched_policy_ids = [rl_policy_id r], pd_determining_policy_ids = [rl_policy_id r],
           pd_policy_revision = policy_revision, pd_expires_at = None\<rparr>]) matched)"

definition evaluate :: "policy_engine \<Rightarrow> policy_request \<Rightarrow> policy_decision res" where
  "evaluate eng q =
     (let matched = filter (\<lambda>r. rule_matches r q) (pe_rules eng);
          decisions = rule_decisions (pe_policy_revision eng) matched in
      res_bind (combine_deny_overrides decisions (pe_policy_revision eng)) (\<lambda>combined.
      (let c1 = combined\<lparr>pd_matched_policy_ids := sorted_set (map rl_policy_id matched)\<rparr> in
       Inr (if pd_authorization c1 = PERMIT
            then c1\<lparr>pd_constraints := concat (map rl_constraints matched),
                    pd_obligations := concat (map rl_obligations matched),
                    pd_advice := concat (map rl_advice matched)\<rparr>
            else c1))))"

section \<open>Decision references\<close>

definition dump_obligation :: "policy_obligation \<Rightarrow> json" where
  "dump_obligation ob = JObj [(''kind'', JStr (po_kind ob)), (''parameters'', JObj (po_parameters ob))]"

definition dump_policy_request :: "policy_request \<Rightarrow> json" where
  "dump_policy_request q = JObj
     [(''decision_point'', JStr (decision_point_value (pq_decision_point q))),
      (''principal'', JStr (pq_principal q)), (''action'', JStr (pq_action q)),
      (''resource'', JStr (pq_resource q)), (''context'', JObj (pq_context q))]"

text \<open>\<^verbatim>\<open>show_time\<close> prints \<^verbatim>\<open>expires_at\<close>, which the engine never sets.\<close>

definition dump_policy_decision :: "(int \<Rightarrow> string) \<Rightarrow> policy_decision \<Rightarrow> json" where
  "dump_policy_decision show_time d = JObj
     [(''authorization'', JStr (authorization_value (pd_authorization d))),
      (''constraints'', JArr (map dump_obligation (pd_constraints d))),
      (''obligations'', JArr (map dump_obligation (pd_obligations d))),
      (''advice'', j_strs (pd_advice d)),
      (''matched_policy_ids'', j_strs (pd_matched_policy_ids d)),
      (''determining_policy_ids'', j_strs (pd_determining_policy_ids d)),
      (''policy_revision'', JStr (pd_policy_revision d)),
      (''expires_at'', (case pd_expires_at d of None \<Rightarrow> JNull | Some t \<Rightarrow> JStr (show_time t)))]"

definition decision_ref ::
  "hash_env \<Rightarrow> (int \<Rightarrow> string) \<Rightarrow> policy_engine \<Rightarrow> policy_request \<Rightarrow> policy_decision \<Rightarrow> string" where
  "decision_ref E show_time eng q d =
     ''policy-decision:'' @ pe_policy_revision eng @ '':''
     @ take 32 (sha256_hex E (json_dumps (JObj [(''request'', dump_policy_request q),
         (''decision'', dump_policy_decision show_time d)])))"

definition plain_char :: "char \<Rightarrow> bool" where
  "plain_char c = (c \<noteq> CHR ''*'' \<and> c \<noteq> CHR ''?'' \<and> c \<noteq> CHR ''['')"

text \<open>The authorization that the rules which match determine, and the ids of the rules that decide.\<close>

definition verdict :: "runtime_policy_rule list \<Rightarrow> authorization" where
  "verdict matched =
     (if \<exists>r \<in> set matched. rl_authorization r = Some DENY then DENY
      else if \<exists>r \<in> set matched. rl_authorization r = Some INDETERMINATE then INDETERMINATE
      else if \<exists>r \<in> set matched. rl_authorization r = Some PERMIT then PERMIT else DENY)"

text \<open>Rules for the concrete instances of the theorems.\<close>

definition sample_rule :: "string \<Rightarrow> string \<Rightarrow> authorization option \<Rightarrow> string list \<Rightarrow> runtime_policy_rule" where
  "sample_rule pid resource a obs =
     \<lparr>rl_policy_id = pid, rl_policy_revision = ''p1'', rl_decision_points = [CAPABILITY_INVOCATION],
      rl_principal_patterns = [''*''], rl_action_patterns = [''*''], rl_resource_patterns = [resource],
      rl_authorization = a, rl_constraints = [],
      rl_obligations = map (\<lambda>k. \<lparr>po_kind = k, po_parameters = []\<rparr>) obs, rl_advice = []\<rparr>"

definition sample_engine :: "runtime_policy_rule list \<Rightarrow> policy_engine" where
  "sample_engine rules = \<lparr>pe_policy_revision = ''p1'', pe_rules = rules\<rparr>"

definition sample_request :: "string \<Rightarrow> policy_request" where
  "sample_request resource =
     \<lparr>pq_decision_point = CAPABILITY_INVOCATION, pq_principal = ''svc'', pq_action = ''invoke'',
      pq_resource = resource, pq_context = [(''task_contract_id'', JStr ''t''), (''task_run_id'', JStr ''r'')]\<rparr>"

section \<open>Patterns\<close>

lemma glob_items_plain: "list_all plain_char p \<Longrightarrow> glob_items (p @ rest) = map GLit p @ glob_items rest"
  by (induction p) (auto simp: plain_char_def)

lemma glob_match_lits: "glob_match (map GLit p @ ps) s \<longleftrightarrow> prefix p s \<and> glob_match ps (drop (length p) s)"
proof (induction p arbitrary: s)
  case (Cons c p)
  then show ?case by (cases s) auto
qed simp

lemma glob_match_star [simp]: "glob_match [GStar] s"
  by (induction s) auto

section \<open>Evaluation\<close>

lemma rule_decisions_with:
  "with_authorization a (rule_decisions rev' matched) \<noteq> [] \<longleftrightarrow> (\<exists>r \<in> set matched. rl_authorization r = Some a)"
  by (induction matched) (auto simp: with_authorization_def rule_decisions_def split: option.splits)

lemma rule_decisions_determining:
  "set (concat (map pd_determining_policy_ids (with_authorization a (rule_decisions rev' matched)))) =
     {rl_policy_id r | r. r \<in> set matched \<and> rl_authorization r = Some a}"
  by (induction matched) (auto simp: with_authorization_def rule_decisions_def split: option.splits)

lemma sorted_set_cong: "set xs = set ys \<Longrightarrow> sorted_set xs = sorted_set ys"
  unfolding sorted_set_def by (metis sorted_list_of_set_sort_remdups)

lemma verdict_permit: "verdict matched = PERMIT \<longleftrightarrow>
    (\<exists>r \<in> set matched. rl_authorization r = Some PERMIT)
    \<and> (\<forall>r \<in> set matched. rl_authorization r \<noteq> Some DENY \<and> rl_authorization r \<noteq> Some INDETERMINATE)"
  by (auto simp: verdict_def)

lemma verdict_deny: "verdict matched = DENY \<longleftrightarrow>
    (\<exists>r \<in> set matched. rl_authorization r = Some DENY) \<or> (\<forall>r \<in> set matched. rl_authorization r = None)"
proof -
  have "rl_authorization r = None \<or> rl_authorization r = Some DENY \<or> rl_authorization r = Some PERMIT
      \<or> rl_authorization r = Some INDETERMINATE" for r
    by (metis authorization.exhaust not_None_eq)
  then show ?thesis by (auto simp: verdict_def)
qed

lemma verdict_cong: "set xs = set ys \<Longrightarrow> verdict xs = verdict ys"
  by (simp add: verdict_def)

lemma combine_ok:
  assumes "\<not> blank rev'"
  shows "\<exists>c. combine_deny_overrides ds rev' = Inr c \<and> pd_policy_revision c = rev'
    \<and> pd_authorization c = (if with_authorization DENY ds \<noteq> [] then DENY
        else if with_authorization INDETERMINATE ds \<noteq> [] then INDETERMINATE
        else if with_authorization PERMIT ds \<noteq> [] then PERMIT else DENY)
    \<and> set (pd_determining_policy_ids c)
        = set (concat (map pd_determining_policy_ids (with_authorization (pd_authorization c) ds)))
    \<and> (pd_authorization c \<noteq> PERMIT \<longrightarrow> pd_obligations c = [])"
  using assms by (simp add: combine_deny_overrides_def Let_def validate_revision_def sorted_set_def)

lemma evaluate_ok:
  assumes "\<not> blank (pe_policy_revision eng)"
  obtains d where "evaluate eng q = Inr d"
    "pd_authorization d = verdict (filter (\<lambda>r. rule_matches r q) (pe_rules eng))"
    "pd_matched_policy_ids d = sorted_set (map rl_policy_id (filter (\<lambda>r. rule_matches r q) (pe_rules eng)))"
    "set (pd_determining_policy_ids d) = {rl_policy_id r | r. r \<in> set (pe_rules eng) \<and> rule_matches r q
        \<and> rl_authorization r = Some (pd_authorization d)}"
    "pd_obligations d = (if pd_authorization d = PERMIT
       then concat (map rl_obligations (filter (\<lambda>r. rule_matches r q) (pe_rules eng))) else [])"
    "pd_policy_revision d = pe_policy_revision eng"
proof -
  let ?m = "filter (\<lambda>r. rule_matches r q) (pe_rules eng)"
  let ?ds = "rule_decisions (pe_policy_revision eng) ?m"
  note rd = rule_decisions_with [of _ "pe_policy_revision eng" ?m]
    rule_decisions_determining [of _ "pe_policy_revision eng" ?m]
  from combine_ok [OF assms, of ?ds] obtain c where c: "combine_deny_overrides ?ds (pe_policy_revision eng) = Inr c"
    "pd_policy_revision c = pe_policy_revision eng"
    and a: "pd_authorization c = (if with_authorization DENY ?ds \<noteq> [] then DENY
        else if with_authorization INDETERMINATE ?ds \<noteq> [] then INDETERMINATE
        else if with_authorization PERMIT ?ds \<noteq> [] then PERMIT else DENY)"
    and det: "set (pd_determining_policy_ids c)
        = set (concat (map pd_determining_policy_ids (with_authorization (pd_authorization c) ?ds)))"
    and obl: "pd_authorization c \<noteq> PERMIT \<longrightarrow> pd_obligations c = []" by blast
  have auth: "pd_authorization c = verdict ?m" unfolding a rd verdict_def by (rule refl)
  have det': "set (pd_determining_policy_ids c) =
      {rl_policy_id r | r. r \<in> set ?m \<and> rl_authorization r = Some (pd_authorization c)}"
    unfolding det by (rule rd(2))
  show ?thesis
    by (rule that [of "let c1 = c\<lparr>pd_matched_policy_ids := sorted_set (map rl_policy_id ?m)\<rparr> in
          (if pd_authorization c1 = PERMIT
            then c1\<lparr>pd_constraints := concat (map rl_constraints ?m),
                    pd_obligations := concat (map rl_obligations ?m),
                    pd_advice := concat (map rl_advice ?m)\<rparr>
            else c1)"])
      (use c auth det' obl in \<open>auto simp: evaluate_def Let_def\<close>)
qed

lemma new_policy_engine_ok:
  "new_policy_engine rev' rules = Inr eng \<Longrightarrow> pe_rules eng = rules \<and> pe_policy_revision eng = rev' \<and> \<not> blank rev'"
  by (auto simp: new_policy_engine_def res_simps)

section \<open>Properties\<close>

text \<open>
  Claim C11: policy fails closed. A policy engine always reaches a decision. It permits a request
  exactly when some matching rule permits it and no matching rule denies it or is indeterminate,
  and it denies it exactly when a matching rule denies it or no matching rule decides at all.
\<close>

theorem policy_fails_closed:
  assumes "new_policy_engine rev' rules = Inr eng"
  shows "\<exists>d. evaluate eng q = Inr d
    \<and> (pd_authorization d = PERMIT \<longleftrightarrow>
         (\<exists>r \<in> set rules. rule_matches r q \<and> rl_authorization r = Some PERMIT)
         \<and> (\<forall>r \<in> set rules. rule_matches r q \<longrightarrow>
              rl_authorization r \<noteq> Some DENY \<and> rl_authorization r \<noteq> Some INDETERMINATE))
    \<and> (pd_authorization d = DENY \<longleftrightarrow>
         (\<exists>r \<in> set rules. rule_matches r q \<and> rl_authorization r = Some DENY)
         \<or> (\<forall>r \<in> set rules. rule_matches r q \<longrightarrow> rl_authorization r = None))"
proof -
  note eng = new_policy_engine_ok [OF assms]
  then have nb: "\<not> blank (pe_policy_revision eng)" by simp
  obtain d where d: "evaluate eng q = Inr d"
    "pd_authorization d = verdict (filter (\<lambda>r. rule_matches r q) (pe_rules eng))"
    by (rule evaluate_ok [OF nb])
  show ?thesis
    by (rule exI [of _ d]) (use d eng in \<open>auto simp: verdict_permit verdict_deny\<close>)
qed

lemma blank_p1 [simp]: "\<not> blank ''p1''"
  by (simp add: blank_def strip_def is_space_def)

theorem policy_fails_closed_witness:
  "\<exists>d. evaluate (sample_engine [sample_rule ''a'' ''x*'' (Some PERMIT) []]) (sample_request ''y'') = Inr d
     \<and> pd_authorization d = DENY"
proof -
  let ?rules = "[sample_rule ''a'' ''x*'' (Some PERMIT) []]"
  have eng: "new_policy_engine ''p1'' ?rules = Inr (sample_engine ?rules)"
    by (simp add: new_policy_engine_def sample_rule_def sample_engine_def)
  have "\<not> rule_matches (sample_rule ''a'' ''x*'' (Some PERMIT) []) (sample_request ''y'')"
    by (simp add: rule_matches_def sample_rule_def sample_request_def matches_any_def fnmatchcase_def)
  with policy_fails_closed [OF eng, of "sample_request ''y''"] show ?thesis by auto
qed

text \<open>
  Denials cannot be undone by adding rules, and the order of rules does not matter. If a
  matching rule of an engine denies a request, every engine with at least those rules denies it;
  and two engines of one revision with the same set of rules give the same authorization, the same
  matched and determining policies, and the same obligations.
\<close>

theorem policy_deny_monotone:
  assumes "new_policy_engine rev' rules = Inr eng" and "new_policy_engine rev' rules' = Inr eng'"
    and "evaluate eng q = Inr d" and "evaluate eng' q = Inr d'"
    and "set rules \<subseteq> set rules'"
  shows "((\<exists>r \<in> set rules. rule_matches r q \<and> rl_authorization r = Some DENY) \<longrightarrow> pd_authorization d' = DENY)
    \<and> (set rules = set rules' \<longrightarrow> pd_authorization d' = pd_authorization d
         \<and> pd_matched_policy_ids d' = pd_matched_policy_ids d
         \<and> set (pd_determining_policy_ids d') = set (pd_determining_policy_ids d)
         \<and> set (pd_obligations d') = set (pd_obligations d))"
proof -
  note e = new_policy_engine_ok [OF assms(1)] new_policy_engine_ok [OF assms(2)]
  then have nb: "\<not> blank (pe_policy_revision eng)" "\<not> blank (pe_policy_revision eng')" by simp_all
  let ?m = "filter (\<lambda>r. rule_matches r q) rules" and ?m' = "filter (\<lambda>r. rule_matches r q) rules'"
  have d: "pd_authorization d = verdict ?m" "pd_matched_policy_ids d = sorted_set (map rl_policy_id ?m)"
    "set (pd_determining_policy_ids d) = {rl_policy_id r | r. r \<in> set rules \<and> rule_matches r q \<and> rl_authorization r = Some (pd_authorization d)}"
    "pd_obligations d = (if pd_authorization d = PERMIT then concat (map rl_obligations ?m) else [])"
    by (rule evaluate_ok [OF nb(1), of q], simp add: e assms(3))+
  have d': "pd_authorization d' = verdict ?m'" "pd_matched_policy_ids d' = sorted_set (map rl_policy_id ?m')"
    "set (pd_determining_policy_ids d') = {rl_policy_id r | r. r \<in> set rules' \<and> rule_matches r q \<and> rl_authorization r = Some (pd_authorization d')}"
    "pd_obligations d' = (if pd_authorization d' = PERMIT then concat (map rl_obligations ?m') else [])"
    by (rule evaluate_ok [OF nb(2), of q], simp add: e assms(4))+
  have "pd_authorization d' = DENY" if "\<exists>r \<in> set rules. rule_matches r q \<and> rl_authorization r = Some DENY"
    using that assms(5) unfolding d'(1) verdict_deny by auto
  moreover have "pd_authorization d' = pd_authorization d \<and> pd_matched_policy_ids d' = pd_matched_policy_ids d
      \<and> set (pd_determining_policy_ids d') = set (pd_determining_policy_ids d)
      \<and> set (pd_obligations d') = set (pd_obligations d)" if s: "set rules = set rules'"
  proof -
    have m: "set ?m = set ?m'" using s by auto
    have "pd_authorization d' = pd_authorization d" unfolding d(1) d'(1) by (rule verdict_cong [OF m [symmetric]])
    moreover have "pd_matched_policy_ids d' = pd_matched_policy_ids d"
      unfolding d(2) d'(2) by (rule sorted_set_cong) (use m in simp)
    ultimately show ?thesis using s unfolding d(3) d'(3) d(4) d'(4) by simp
  qed
  ultimately show ?thesis by blast
qed

theorem policy_deny_monotone_witness:
  "\<exists>d'. evaluate (sample_engine [sample_rule ''a'' ''*'' (Some DENY) [], sample_rule ''b'' ''*'' (Some PERMIT) []])
       (sample_request ''y'') = Inr d' \<and> pd_authorization d' = DENY"
proof -
  let ?rules = "[sample_rule ''a'' ''*'' (Some DENY) []]"
  let ?rules' = "[sample_rule ''a'' ''*'' (Some DENY) [], sample_rule ''b'' ''*'' (Some PERMIT) []]"
  have eng: "new_policy_engine ''p1'' ?rules = Inr (sample_engine ?rules)"
    "new_policy_engine ''p1'' ?rules' = Inr (sample_engine ?rules')"
    by (simp_all add: new_policy_engine_def sample_rule_def sample_engine_def)
  have nb: "\<not> blank (pe_policy_revision (sample_engine rs))" for rs by (simp add: sample_engine_def)
  obtain d where d: "evaluate (sample_engine ?rules) (sample_request ''y'') = Inr d" by (rule evaluate_ok [OF nb])
  obtain d' where d': "evaluate (sample_engine ?rules') (sample_request ''y'') = Inr d'" by (rule evaluate_ok [OF nb])
  have "rule_matches (sample_rule ''a'' ''*'' (Some DENY) []) (sample_request ''y'')"
    by (simp add: rule_matches_def sample_rule_def sample_request_def matches_any_def fnmatchcase_def)
  moreover have "rl_authorization (sample_rule ''a'' ''*'' (Some DENY) []) = Some DENY" by (simp add: sample_rule_def)
  ultimately show ?thesis using policy_deny_monotone [OF eng d d'] d' by auto
qed

text \<open>
  A permit carries the obligations of every matching rule. A decision counts as satisfied
  for a set of fulfilled obligation kinds exactly when it permits and every obligation of every
  rule that matches the request, deciding or not, is of a fulfilled kind.
\<close>

theorem policy_obligations_complete:
  assumes "new_policy_engine rev' rules = Inr eng" and "evaluate eng q = Inr d"
  shows "obligations_satisfied d fulfilled \<longleftrightarrow>
    pd_authorization d = PERMIT
    \<and> (\<forall>r \<in> set rules. rule_matches r q \<longrightarrow> (\<forall>ob \<in> set (rl_obligations r). po_kind ob \<in> fulfilled))"
proof -
  note e = new_policy_engine_ok [OF assms(1)]
  then have nb: "\<not> blank (pe_policy_revision eng)" by simp
  have "pd_obligations d = (if pd_authorization d = PERMIT
      then concat (map rl_obligations (filter (\<lambda>r. rule_matches r q) rules)) else [])"
    by (rule evaluate_ok [OF nb, of q], simp add: e assms(2))
  then show ?thesis by (auto simp: obligations_satisfied_def)
qed

theorem policy_obligations_complete_witness:
  "\<exists>d. evaluate (sample_engine [sample_rule ''a'' ''*'' (Some PERMIT) [], sample_rule ''b'' ''*'' None [''log'']])
       (sample_request ''y'') = Inr d \<and> \<not> obligations_satisfied d {}"
proof -
  let ?rules = "[sample_rule ''a'' ''*'' (Some PERMIT) [], sample_rule ''b'' ''*'' None [''log'']]"
  have eng: "new_policy_engine ''p1'' ?rules = Inr (sample_engine ?rules)"
    by (simp add: new_policy_engine_def sample_rule_def sample_engine_def)
  have nb: "\<not> blank (pe_policy_revision (sample_engine rs))" for rs by (simp add: sample_engine_def)
  obtain d where d: "evaluate (sample_engine ?rules) (sample_request ''y'') = Inr d" by (rule evaluate_ok [OF nb])
  have "rule_matches (sample_rule ''b'' ''*'' None [''log'']) (sample_request ''y'')"
    by (simp add: rule_matches_def sample_rule_def sample_request_def matches_any_def fnmatchcase_def)
  with policy_obligations_complete [OF eng d, of "{}"] d show ?thesis by (auto simp: sample_rule_def)
qed

text \<open>
  Patterns mean what they say. A pattern without \<^verbatim>\<open>*\<close>, \<^verbatim>\<open>?\<close> and \<^verbatim>\<open>[\<close> matches itself and
  nothing else, and followed by a \<^verbatim>\<open>*\<close> it matches exactly the strings that begin with it.
\<close>

theorem fnmatchcase_plain:
  assumes "list_all plain_char p"
  shows "(fnmatchcase s p \<longleftrightarrow> s = p) \<and> (fnmatchcase s (p @ ''*'') \<longleftrightarrow> prefix p s)"
proof -
  have "glob_items p = map GLit p" "glob_items (p @ ''*'') = map GLit p @ [GStar]"
    using glob_items_plain [OF assms, of "[]"] glob_items_plain [OF assms, of "''*''"] by simp_all
  moreover have "glob_match (map GLit p) s \<longleftrightarrow> prefix p s \<and> drop (length p) s = []"
    using glob_match_lits [of p "[]" s] by simp
  moreover have "prefix p s \<and> drop (length p) s = [] \<longleftrightarrow> s = p" by (auto simp: prefix_def)
  ultimately show ?thesis using glob_match_lits [of p "[GStar]" s] by (simp add: fnmatchcase_def)
qed

theorem fnmatchcase_plain_witness: "fnmatchcase ''role:x'' (''role:'' @ ''*'') \<longleftrightarrow> prefix ''role:'' ''role:x''"
proof -
  have "list_all plain_char ''role:''" by (simp add: plain_char_def)
  from fnmatchcase_plain [OF this, of "''role:x''"] show ?thesis by simp
qed

end
