(* ===== verification/Capability_Registry.thy ===== *)
theory Capability_Registry
  imports Task_Contracts Policy_Engine "HOL-Library.Product_Lexorder"
begin

text \<open>
  \<^verbatim>\<open>packages/runtime/capability\<close>: the contracts of capabilities, tools and their bindings
  (\<^verbatim>\<open>contracts.py\<close>), ephemeral observations (\<^verbatim>\<open>observations.py\<close>) and the registry that decides what a
  task may see and which binding serves it (\<^verbatim>\<open>registry.py\<close>). A set of strings or of execution classes
  that a caller passes is a list of its members.
\<close>

section \<open>Contracts\<close>

datatype effect_semantics = OBSERVATION | ES_INTERNAL_STATE | ES_EXTERNAL_SIDE_EFFECT

fun effect_semantics_value :: "effect_semantics \<Rightarrow> string" where
  "effect_semantics_value OBSERVATION = ''observation''"
| "effect_semantics_value ES_INTERNAL_STATE = ''internal_state''"
| "effect_semantics_value ES_EXTERNAL_SIDE_EFFECT = ''external_side_effect''"

fun effect_to_ceiling :: "effect_semantics \<Rightarrow> effect_ceiling" where
  "effect_to_ceiling OBSERVATION = READ_ONLY"
| "effect_to_ceiling ES_INTERNAL_STATE = INTERNAL_STATE"
| "effect_to_ceiling ES_EXTERNAL_SIDE_EFFECT = EXTERNAL_SIDE_EFFECT"

datatype implementation_kind =
    LOCAL_FUNCTION | RETRIEVAL_OPERATOR | PROVIDER_API | MCP_TOOL | OPENAPI_OPERATION | CLI | BROWSER
  | COMPUTER_USE | SANDBOX_PROGRAM | CHILD_TASK

fun implementation_kind_value :: "implementation_kind \<Rightarrow> string" where
  "implementation_kind_value LOCAL_FUNCTION = ''local_function''"
| "implementation_kind_value RETRIEVAL_OPERATOR = ''retrieval_operator''"
| "implementation_kind_value PROVIDER_API = ''provider_api''"
| "implementation_kind_value MCP_TOOL = ''mcp_tool''"
| "implementation_kind_value OPENAPI_OPERATION = ''openapi_operation''"
| "implementation_kind_value CLI = ''cli''"
| "implementation_kind_value BROWSER = ''browser''"
| "implementation_kind_value COMPUTER_USE = ''computer_use''"
| "implementation_kind_value SANDBOX_PROGRAM = ''sandbox_program''"
| "implementation_kind_value CHILD_TASK = ''child_task''"

datatype execution_class =
    TRUSTED_LOCAL_READ | PROXIED_PROVIDER_READ | RESTRICTED_PROCESS | OCI_CONTAINER | MICROVM
  | FULLVM_BROWSER

definition json_hash :: "hash_env \<Rightarrow> json \<Rightarrow> string" where
  "json_hash E v = sha256_hex E (json_dumps v)"

definition native_schema_hash :: "hash_env \<Rightarrow> jdict \<Rightarrow> jdict \<Rightarrow> string" where
  "native_schema_hash E input_schema output_schema =
     json_hash E (JObj [(''input'', JObj input_schema), (''output'', JObj output_schema)])"

definition canonical_arguments_digest :: "hash_env \<Rightarrow> jdict \<Rightarrow> string" where
  "canonical_arguments_digest E arguments = json_hash E (JObj arguments)"

record tool_implementation =
  im_tool_impl_id :: string
  im_implementation_revision :: nat
  im_implementation_kind :: implementation_kind
  im_native_name :: string
  im_transport :: string
  im_native_input_schema :: jdict
  im_native_output_schema :: jdict
  im_server_identity :: "string option"
  im_server_origin :: "string option"
  im_auth_class :: string
  im_network_destinations :: "string list"
  im_execution_backend :: "string option"
  im_health_ref :: string
  im_native_schema_hash :: string
  im_implementation_metadata :: jdict

definition validate_implementation :: "hash_env \<Rightarrow> tool_implementation \<Rightarrow> tool_implementation res" where
  "validate_implementation E t =
     raise_if (im_implementation_revision t < 1) (ValueError ''implementation_revision'')
     (case first_blank
        [(im_tool_impl_id t, ''tool_impl_id''), (im_native_name t, ''native_name''),
         (im_transport t, ''transport''), (im_health_ref t, ''health_ref''),
         (im_native_schema_hash t, ''native_schema_hash'')] of
        Some label \<Rightarrow> Inl (ValueError (''ToolImplementation '' @ label @ '' cannot be empty''))
      | None \<Rightarrow>
          raise_if (im_native_schema_hash t
              \<noteq> native_schema_hash E (im_native_input_schema t) (im_native_output_schema t))
            (ValueError ''ToolImplementation native_schema_hash does not match native schemas'')
          (Inr t))"

record capability_contract =
  cc_capability_id :: string
  cc_contract_revision :: nat
  cc_action :: string
  cc_applicable_resource_types :: "string list"
  cc_canonical_input_schema :: jdict
  cc_canonical_output_schema :: jdict
  cc_observation_semantics :: string
  cc_effect_semantics :: effect_semantics
  cc_authority_semantics :: "string list"
  cc_preconditions :: "string list"
  cc_postconditions :: "string list"
  cc_idempotency :: string
  cc_reversibility :: string
  cc_compensation :: "string option"
  cc_data_ingress_class :: string
  cc_data_egress_class :: string
  cc_failure_semantics :: "string list"
  cc_risk_class :: string

definition validate_contract_identity :: "capability_contract \<Rightarrow> capability_contract res" where
  "validate_contract_identity c =
     raise_if (cc_contract_revision c < 1) (ValueError ''contract_revision'')
     (raise_if (blank (cc_capability_id c) \<or> blank (cc_action c))
       (ValueError ''CapabilityContract requires non-empty capability_id and action'')
     (raise_if (cc_applicable_resource_types c = [])
       (ValueError ''CapabilityContract requires applicable_resource_types'') (Inr c)))"

definition required_effect_ceiling :: "capability_contract \<Rightarrow> effect_ceiling" where
  "required_effect_ceiling c = effect_to_ceiling (cc_effect_semantics c)"

record capability_binding =
  cb_binding_id :: string
  cb_binding_revision :: nat
  cb_capability_id :: string
  cb_contract_revision :: nat
  cb_tool_impl_id :: string
  cb_implementation_revision :: nat
  cb_canonical_to_native_args :: "(string \<times> string) list"
  cb_native_to_canonical_result :: "(string \<times> string) list"
  cb_resource_resolver :: string
  cb_effect_resolver :: string
  cb_authority_mapper :: string
  cb_execution_class :: execution_class
  cb_credential_profile :: string
  cb_network_profile :: string
  cb_sandbox_profile :: string
  cb_health_requirement :: string
  cb_cost_class :: string
  cb_latency_class :: string
  cb_fallback_rank :: nat
  cb_native_schema_hash :: string

definition validate_binding_identity :: "capability_binding \<Rightarrow> capability_binding res" where
  "validate_binding_identity b =
     raise_if (cb_binding_revision b < 1 \<or> cb_contract_revision b < 1 \<or> cb_implementation_revision b < 1)
       (ValueError ''revision'')
     (case first_blank
        [(cb_binding_id b, ''binding_id''), (cb_capability_id b, ''capability_id''),
         (cb_tool_impl_id b, ''tool_impl_id''), (cb_resource_resolver b, ''resource_resolver''),
         (cb_effect_resolver b, ''effect_resolver''), (cb_authority_mapper b, ''authority_mapper''),
         (cb_health_requirement b, ''health_requirement''),
         (cb_native_schema_hash b, ''native_schema_hash'')] of
        Some label \<Rightarrow> Inl (ValueError (''CapabilityBinding '' @ label @ '' cannot be empty''))
      | None \<Rightarrow> Inr b)"

record capability_card =
  kd_capability_id :: string
  kd_contract_revision :: nat
  kd_action :: string
  kd_purpose :: string
  kd_applicable_resource_types :: "string list"
  kd_observation_semantics :: string
  kd_effect_semantics :: effect_semantics
  kd_authority_semantics :: "string list"
  kd_limitations :: "string list"
  kd_risk_class :: string
  kd_cost_class :: string
  kd_latency_class :: string

record capability_schema_view =
  sv_capability_id :: string
  sv_contract_revision :: nat
  sv_canonical_input_schema :: jdict
  sv_canonical_output_schema :: jdict
  sv_relevant_preconditions :: "string list"
  sv_failure_semantics :: "string list"
  sv_obligation_hints :: "string list"

record capability_request =
  rq_request_id :: string
  rq_task_contract_id :: string
  rq_task_run_id :: string
  rq_case_id :: "string option"
  rq_principal :: string
  rq_capability_id :: string
  rq_contract_revision :: nat
  rq_action :: string
  rq_resource :: string
  rq_resource_type :: string
  rq_canonical_arguments :: jdict
  rq_intended_effect :: effect_semantics
  rq_evidence_purpose :: "string option"
  rq_execution_context :: jdict

record capability_descriptor =
  ds_purpose :: string
  ds_limitations :: "string list"
  ds_obligation_hints :: "string list"

definition capability_visible_for_task :: "task_contract \<Rightarrow> capability_contract \<Rightarrow> bool" where
  "capability_visible_for_task task c =
     effect_within_ceiling (required_effect_ceiling c) (tc_effect_ceiling task)"

definition validate_capability_request ::
  "task_contract \<Rightarrow> capability_contract \<Rightarrow> capability_request \<Rightarrow> string list" where
  "validate_capability_request task c q =
     (if rq_task_contract_id q \<noteq> tc_task_contract_id task then [''task_contract_mismatch''] else [])
   @ (if rq_principal q \<noteq> tc_principal task then [''principal_mismatch''] else [])
   @ (if rq_capability_id q \<noteq> cc_capability_id c then [''capability_id_mismatch''] else [])
   @ (if rq_contract_revision q \<noteq> cc_contract_revision c then [''capability_revision_mismatch''] else [])
   @ (if rq_action q \<noteq> cc_action c then [''action_mismatch''] else [])
   @ (if rq_resource_type q \<notin> set (cc_applicable_resource_types c)
      then [''resource_type_not_applicable''] else [])
   @ (if rq_intended_effect q \<noteq> cc_effect_semantics c then [''intended_effect_mismatch''] else [])
   @ (if \<not> capability_visible_for_task task c then [''exceeds_task_effect_ceiling''] else [])"

section \<open>Ephemeral observations\<close>

record ephemeral_observation =
  eo_observation_id :: string
  eo_request_id :: string
  eo_capability_id :: string
  eo_source :: string
  eo_provenance :: jdict
  eo_observed_at :: datetime
  eo_raw_result_ref :: string
  eo_extracted_candidates :: "json list"
  eo_trust_label :: string
  eo_ttl_seconds :: int

definition validate_observation :: "ephemeral_observation \<Rightarrow> ephemeral_observation res" where
  "validate_observation ob =
     raise_if (eo_ttl_seconds ob \<le> 0) (ValueError ''ttl_seconds'')
     (raise_if (dt_naive (eo_observed_at ob))
       (ValueError ''EphemeralObservation observed_at must be timezone-aware'')
     (case first_blank
        [(eo_observation_id ob, ''observation_id''), (eo_request_id ob, ''request_id''),
         (eo_capability_id ob, ''capability_id''), (eo_source ob, ''source''),
         (eo_raw_result_ref ob, ''raw_result_ref''), (eo_trust_label ob, ''trust_label'')] of
        Some label \<Rightarrow> Inl (ValueError (''EphemeralObservation '' @ label @ '' cannot be empty''))
      | None \<Rightarrow> Inr ob))"

section \<open>The registry\<close>

text \<open>
  The values of \<^verbatim>\<open>{key(x): x for x in xs}\<close>: a key keeps the place of its first occurrence and takes
  the value of its last.
\<close>

definition dict_values :: "('a \<Rightarrow> 'k) \<Rightarrow> 'a list \<Rightarrow> 'a list" where
  "dict_values key xs =
     foldl (\<lambda>d x. if key x \<in> set (map key d) then tab_put key x d else d @ [x]) [] xs"

abbreviation contract_id :: "capability_contract \<Rightarrow> string \<times> nat" where
  "contract_id c \<equiv> (cc_capability_id c, cc_contract_revision c)"

abbreviation implementation_id :: "tool_implementation \<Rightarrow> string \<times> nat" where
  "implementation_id t \<equiv> (im_tool_impl_id t, im_implementation_revision t)"

record capability_registry =
  rx_revision :: string
  rx_contracts :: "capability_contract list"
  rx_descriptors :: "(string \<times> capability_descriptor) list"
  rx_implementations :: "tool_implementation list"
  rx_bindings :: "capability_binding list"

definition registry_contract :: "capability_registry \<Rightarrow> string \<Rightarrow> nat \<Rightarrow> capability_contract res" where
  "registry_contract R cid rev' =
     res_of_option (LookupError (''capability contract not found: '' @ cid @ ''@'' @ show_nat rev'))
       (tab_get contract_id (cid, rev') (rx_contracts R))"

definition registry_implementation :: "capability_registry \<Rightarrow> string \<Rightarrow> nat \<Rightarrow> tool_implementation res" where
  "registry_implementation R tid rev' =
     res_of_option (LookupError (''tool implementation not found: '' @ tid @ ''@'' @ show_nat rev'))
       (tab_get implementation_id (tid, rev') (rx_implementations R))"

fun validate_bindings :: "capability_registry \<Rightarrow> capability_binding list \<Rightarrow> unit res" where
  "validate_bindings R [] = Inr ()"
| "validate_bindings R (b # bs) =
     res_bind (registry_contract R (cb_capability_id b) (cb_contract_revision b)) (\<lambda>c.
     res_bind (registry_implementation R (cb_tool_impl_id b) (cb_implementation_revision b)) (\<lambda>t.
     raise_if (cb_native_schema_hash b \<noteq> im_native_schema_hash t)
       (ValueError (''stale CapabilityBinding '' @ cb_binding_id b @ '': native schema hash mismatch''))
     (raise_if (cc_capability_id c \<noteq> cb_capability_id b) (ValueError ''binding capability mismatch'')
     (validate_bindings R bs))))"

definition validate_registry :: "capability_registry \<Rightarrow> unit res" where
  "validate_registry R =
     raise_if (\<not> set (map cc_capability_id (rx_contracts R)) \<subseteq> set (map fst (rx_descriptors R)))
       (ValueError ''capability descriptor missing'')
     (validate_bindings R (rx_bindings R))"

definition new_registry ::
  "string \<Rightarrow> capability_contract list \<Rightarrow> (string \<times> capability_descriptor) list
     \<Rightarrow> tool_implementation list \<Rightarrow> capability_binding list \<Rightarrow> capability_registry res" where
  "new_registry revision contracts descriptors implementations bindings =
     raise_if (blank revision) (ValueError ''capability registry revision cannot be empty'')
     (let R = \<lparr>rx_revision = revision, rx_contracts = dict_values contract_id contracts,
               rx_descriptors = descriptors,
               rx_implementations = dict_values implementation_id implementations,
               rx_bindings = bindings\<rparr>
      in res_bind (validate_registry R) (\<lambda>_. Inr R))"

definition combine_registries :: "string \<Rightarrow> capability_registry list \<Rightarrow> capability_registry res" where
  "combine_registries revision registries =
     (let contracts = concat (map rx_contracts registries);
          implementations = concat (map rx_implementations registries);
          bindings = concat (map rx_bindings registries);
          descriptors = dict_values fst (concat (map rx_descriptors registries)) in
      raise_if (\<not> distinct (map contract_id contracts))
        (ValueError ''combined capability registry contains duplicate contracts'')
      (raise_if (\<not> distinct (map implementation_id implementations))
        (ValueError ''combined capability registry contains duplicate implementations'')
      (new_registry revision contracts descriptors implementations bindings)))"

definition registry_descriptor :: "capability_registry \<Rightarrow> string \<Rightarrow> capability_descriptor res" where
  "registry_descriptor R cid = res_of_option (LookupError cid) (map_of (rx_descriptors R) cid)"

definition schema_view :: "capability_registry \<Rightarrow> string \<Rightarrow> nat \<Rightarrow> capability_schema_view res" where
  "schema_view R cid rev' =
     res_bind (registry_contract R cid rev') (\<lambda>c.
     res_bind (registry_descriptor R cid) (\<lambda>d.
     Inr \<lparr>sv_capability_id = cc_capability_id c, sv_contract_revision = cc_contract_revision c,
       sv_canonical_input_schema = cc_canonical_input_schema c,
       sv_canonical_output_schema = cc_canonical_output_schema c,
       sv_relevant_preconditions = cc_preconditions c, sv_failure_semantics = cc_failure_semantics c,
       sv_obligation_hints = ds_obligation_hints d\<rparr>))"

definition binding_eligible ::
  "capability_contract \<Rightarrow> capability_binding \<Rightarrow> tool_implementation \<Rightarrow> string list option
     \<Rightarrow> execution_class list option \<Rightarrow> bool" where
  "binding_eligible c b t healthy_refs classes =
     (cb_native_schema_hash b = im_native_schema_hash t
      \<and> (case healthy_refs of None \<Rightarrow> True | Some hs \<Rightarrow> im_health_ref t \<in> set hs)
      \<and> (case classes of None \<Rightarrow> True | Some xs \<Rightarrow> cb_execution_class b \<in> set xs))"

fun collect_bindings ::
  "capability_registry \<Rightarrow> capability_contract \<Rightarrow> string list option \<Rightarrow> execution_class list option
     \<Rightarrow> capability_binding list \<Rightarrow> capability_binding list res" where
  "collect_bindings R c healthy_refs classes [] = Inr []"
| "collect_bindings R c healthy_refs classes (b # bs) =
     (if cb_capability_id b \<noteq> cc_capability_id c \<or> cb_contract_revision b \<noteq> cc_contract_revision c
      then collect_bindings R c healthy_refs classes bs
      else res_bind (registry_implementation R (cb_tool_impl_id b) (cb_implementation_revision b)) (\<lambda>t.
        res_bind (collect_bindings R c healthy_refs classes bs) (\<lambda>rest.
        Inr (if binding_eligible c b t healthy_refs classes then b # rest else rest))))"

definition eligible_bindings ::
  "capability_registry \<Rightarrow> capability_contract \<Rightarrow> string list option \<Rightarrow> execution_class list option
     \<Rightarrow> capability_binding list res" where
  "eligible_bindings R c healthy_refs classes =
     res_bind (collect_bindings R c healthy_refs classes (rx_bindings R)) (\<lambda>bs.
     Inr (sort_key (\<lambda>b. (cb_fallback_rank b, cb_binding_id b)) bs))"

definition resolve_binding ::
  "capability_registry \<Rightarrow> capability_contract \<Rightarrow> string list option \<Rightarrow> execution_class list option
     \<Rightarrow> (capability_binding \<times> tool_implementation) res" where
  "resolve_binding R c healthy_refs classes =
     res_bind (eligible_bindings R c healthy_refs classes) (\<lambda>bs.
     (case bs of
        [] \<Rightarrow> Inl (LookupError (''no healthy capability binding: '' @ cc_capability_id c))
      | b # _ \<Rightarrow>
          res_bind (registry_implementation R (cb_tool_impl_id b) (cb_implementation_revision b)) (\<lambda>t.
          raise_if (cb_native_schema_hash b \<noteq> im_native_schema_hash t)
            (RuntimeError ''capability binding is stale after native schema change'')
          (Inr (b, t)))))"

section \<open>Visibility\<close>

record visible_capability_set =
  vs_registry_revision :: string
  vs_cards :: "capability_card list"
  vs_hidden_reasons :: "(string \<times> string list) list"

definition visibility_request :: "task_contract \<Rightarrow> string \<Rightarrow> capability_contract \<Rightarrow> policy_request" where
  "visibility_request task task_run_id c =
     \<lparr>pq_decision_point = CAPABILITY_VISIBILITY, pq_principal = tc_principal task,
      pq_action = cc_action c, pq_resource = ''capability:'' @ cc_capability_id c,
      pq_context = [(''task_contract_id'', JStr (tc_task_contract_id task)),
        (''task_run_id'', JStr task_run_id), (''capability_id'', JStr (cc_capability_id c))]\<rparr>"

definition capability_card_of ::
  "capability_contract \<Rightarrow> capability_descriptor \<Rightarrow> capability_binding \<Rightarrow> capability_card" where
  "capability_card_of c d b =
     \<lparr>kd_capability_id = cc_capability_id c, kd_contract_revision = cc_contract_revision c,
      kd_action = cc_action c, kd_purpose = ds_purpose d,
      kd_applicable_resource_types = cc_applicable_resource_types c,
      kd_observation_semantics = cc_observation_semantics c, kd_effect_semantics = cc_effect_semantics c,
      kd_authority_semantics = cc_authority_semantics c, kd_limitations = ds_limitations d,
      kd_risk_class = cc_risk_class c, kd_cost_class = cb_cost_class b, kd_latency_class = cb_latency_class b\<rparr>"

definition visibility_reasons ::
  "task_contract \<Rightarrow> string list option \<Rightarrow> string list \<Rightarrow> capability_contract \<Rightarrow> capability_binding list
     \<Rightarrow> policy_decision \<Rightarrow> string list" where
  "visibility_reasons task scope satisfiable c bindings d =
     (if (case scope of None \<Rightarrow> False | Some xs \<Rightarrow> cc_capability_id c \<notin> set xs)
      then [''outside_execution_capability_scope''] else [])
   @ (if \<not> capability_visible_for_task task c then [''exceeds_task_effect_ceiling''] else [])
   @ (if bindings = [] then [''no_healthy_binding''] else [])
   @ (if pd_authorization d \<noteq> PERMIT then [''visibility_policy_denied'']
      else if \<not> obligations_satisfied d (set satisfiable) then [''visibility_obligation_unsatisfied''] else [])"

text \<open>The body of the loop of \<^verbatim>\<open>visible_capabilities\<close> for one contract.\<close>

definition visible_step ::
  "capability_registry \<Rightarrow> task_contract \<Rightarrow> string \<Rightarrow> policy_engine \<Rightarrow> string list option
     \<Rightarrow> string list option \<Rightarrow> execution_class list option \<Rightarrow> string list \<Rightarrow> capability_contract
     \<Rightarrow> visible_capability_set \<Rightarrow> visible_capability_set res" where
  "visible_step R task task_run_id eng scope healthy_refs classes satisfiable c acc =
     res_bind (eligible_bindings R c healthy_refs classes) (\<lambda>bindings.
     res_bind (validate_request (visibility_request task task_run_id c)) (\<lambda>q.
     res_bind (evaluate eng q) (\<lambda>d.
     (let reasons = visibility_reasons task scope satisfiable c bindings d in
      if reasons \<noteq> [] then
        Inr (acc\<lparr>vs_hidden_reasons := vs_hidden_reasons acc
          @ [(cc_capability_id c @ ''@'' @ show_nat (cc_contract_revision c), sorted_set reasons)]\<rparr>)
      else res_bind (registry_descriptor R (cc_capability_id c)) (\<lambda>desc.
        Inr (acc\<lparr>vs_cards := vs_cards acc @ [capability_card_of c desc (hd bindings)]\<rparr>))))))"

definition visible_capabilities ::
  "capability_registry \<Rightarrow> task_contract \<Rightarrow> string \<Rightarrow> policy_engine \<Rightarrow> string list option
     \<Rightarrow> string list option \<Rightarrow> execution_class list option \<Rightarrow> string list \<Rightarrow> visible_capability_set res" where
  "visible_capabilities R task task_run_id eng scope healthy_refs classes satisfiable =
     fold_res (visible_step R task task_run_id eng scope healthy_refs classes satisfiable)
       (sort_key contract_id (rx_contracts R))
       \<lparr>vs_registry_revision = rx_revision R, vs_cards = [], vs_hidden_reasons = []\<rparr>"

section \<open>The specification of a registry\<close>

text \<open>
  What the constructor checks, and what it is for a binding to serve a contract under the health and
  execution-class restrictions of a caller.
\<close>

definition registry_valid :: "capability_registry \<Rightarrow> bool" where
  "registry_valid R \<longleftrightarrow> distinct (map contract_id (rx_contracts R))
     \<and> distinct (map implementation_id (rx_implementations R))
     \<and> (\<forall>c \<in> set (rx_contracts R). map_of (rx_descriptors R) (cc_capability_id c) \<noteq> None)
     \<and> (\<forall>b \<in> set (rx_bindings R).
          (\<exists>c \<in> set (rx_contracts R). contract_id c = (cb_capability_id b, cb_contract_revision b))
          \<and> (\<exists>t. registry_implementation R (cb_tool_impl_id b) (cb_implementation_revision b) = Inr t
               \<and> im_native_schema_hash t = cb_native_schema_hash b))"

definition serves ::
  "capability_registry \<Rightarrow> capability_contract \<Rightarrow> string list option \<Rightarrow> execution_class list option
     \<Rightarrow> capability_binding \<Rightarrow> bool" where
  "serves R c healthy_refs classes b =
     (cb_capability_id b = cc_capability_id c \<and> cb_contract_revision b = cc_contract_revision c
      \<and> (case registry_implementation R (cb_tool_impl_id b) (cb_implementation_revision b) of
           Inl _ \<Rightarrow> False | Inr t \<Rightarrow> binding_eligible c b t healthy_refs classes))"

definition binding_rank :: "capability_binding \<Rightarrow> nat \<times> string" where
  "binding_rank b = (cb_fallback_rank b, cb_binding_id b)"

text \<open>
  A contract is exposed to a task when it is in scope, within the effect ceiling, served by a
  binding and permitted with obligations the caller can satisfy.
\<close>

definition exposed ::
  "capability_registry \<Rightarrow> task_contract \<Rightarrow> string \<Rightarrow> policy_engine \<Rightarrow> string list option
     \<Rightarrow> string list option \<Rightarrow> execution_class list option \<Rightarrow> string list \<Rightarrow> capability_contract \<Rightarrow> bool" where
  "exposed R task task_run_id eng scope healthy_refs classes satisfiable c \<longleftrightarrow>
     (\<forall>xs. scope = Some xs \<longrightarrow> cc_capability_id c \<in> set xs)
     \<and> effect_within_ceiling (required_effect_ceiling c) (tc_effect_ceiling task)
     \<and> (\<exists>b \<in> set (rx_bindings R). serves R c healthy_refs classes b)
     \<and> (\<exists>d. evaluate eng (visibility_request task task_run_id c) = Inr d \<and> pd_authorization d = PERMIT
          \<and> set (map po_kind (pd_obligations d)) \<subseteq> set satisfiable)"

text \<open>A registry of one contract served by two bindings, for the concrete instances.\<close>

definition sample_capability :: "string \<Rightarrow> effect_semantics \<Rightarrow> capability_contract" where
  "sample_capability cid eff =
     \<lparr>cc_capability_id = cid, cc_contract_revision = 1, cc_action = ''lookup'',
      cc_applicable_resource_types = [''cve''], cc_canonical_input_schema = [], cc_canonical_output_schema = [],
      cc_observation_semantics = ''record'', cc_effect_semantics = eff, cc_authority_semantics = [],
      cc_preconditions = [], cc_postconditions = [], cc_idempotency = ''idempotent'',
      cc_reversibility = ''none'', cc_compensation = None, cc_data_ingress_class = ''public'',
      cc_data_egress_class = ''public'', cc_failure_semantics = [], cc_risk_class = ''low''\<rparr>"

definition sample_tool :: "string \<Rightarrow> tool_implementation" where
  "sample_tool tid =
     \<lparr>im_tool_impl_id = tid, im_implementation_revision = 1, im_implementation_kind = LOCAL_FUNCTION,
      im_native_name = ''f'', im_transport = ''local'', im_native_input_schema = [],
      im_native_output_schema = [], im_server_identity = None, im_server_origin = None,
      im_auth_class = ''none'', im_network_destinations = [], im_execution_backend = None,
      im_health_ref = ''health:'' @ tid, im_native_schema_hash = ''h'', im_implementation_metadata = []\<rparr>"

definition sample_binding :: "string \<Rightarrow> string \<Rightarrow> string \<Rightarrow> nat \<Rightarrow> capability_binding" where
  "sample_binding bid cid tid rank =
     \<lparr>cb_binding_id = bid, cb_binding_revision = 1, cb_capability_id = cid, cb_contract_revision = 1,
      cb_tool_impl_id = tid, cb_implementation_revision = 1, cb_canonical_to_native_args = [(''id'', ''cve_id'')],
      cb_native_to_canonical_result = [], cb_resource_resolver = ''r'', cb_effect_resolver = ''e'',
      cb_authority_mapper = ''a'', cb_execution_class = TRUSTED_LOCAL_READ, cb_credential_profile = ''none'',
      cb_network_profile = ''none'', cb_sandbox_profile = ''none'', cb_health_requirement = ''h'',
      cb_cost_class = ''free'', cb_latency_class = ''fast'', cb_fallback_rank = rank,
      cb_native_schema_hash = ''h''\<rparr>"

definition sample_registry :: capability_registry where
  "sample_registry =
     \<lparr>rx_revision = ''p1'', rx_contracts = [sample_capability ''cap'' OBSERVATION],
      rx_descriptors = [(''cap'', \<lparr>ds_purpose = ''look up'', ds_limitations = [], ds_obligation_hints = []\<rparr>)],
      rx_implementations = [sample_tool ''t1'', sample_tool ''t2''],
      rx_bindings = [sample_binding ''b2'' ''cap'' ''t2'' 1, sample_binding ''b1'' ''cap'' ''t1'' 0]\<rparr>"

definition sample_visibility_engine :: policy_engine where
  "sample_visibility_engine = sample_engine
     [(sample_rule ''a'' ''*'' (Some PERMIT) [])\<lparr>rl_decision_points := [CAPABILITY_VISIBILITY, CAPABILITY_INVOCATION]\<rparr>]"

lemmas sample_registry_defs =
  sample_registry_def sample_capability_def sample_tool_def sample_binding_def

section \<open>Lemmas on registries\<close>

lemma dict_values_snoc: "dict_values key (xs @ [x]) =
    (if key x \<in> set (map key (dict_values key xs)) then tab_put key x (dict_values key xs)
     else dict_values key xs @ [x])"
  by (simp add: dict_values_def)

lemma dict_values_distinct: "distinct (map key (dict_values key xs))"
proof (induction xs rule: rev_induct)
  case Nil
  then show ?case by (simp add: dict_values_def)
next
  case (snoc x xs)
  then show ?case by (simp add: dict_values_snoc)
qed

lemma dict_values_keys: "set (map key (dict_values key xs)) = set (map key xs)"
proof (induction xs rule: rev_induct)
  case Nil
  then show ?case by (simp add: dict_values_def)
next
  case (snoc x xs)
  have put: "key ` set (tab_put key x d) = key ` set d" for d
    using tab_put_keys [of key x d] by (metis set_map)
  from snoc show ?case by (auto simp: dict_values_snoc put)
qed

lemma validate_bindings_ok:
  "validate_bindings R bs = Inr () \<Longrightarrow> b \<in> set bs \<Longrightarrow>
     (\<exists>c \<in> set (rx_contracts R). contract_id c = (cb_capability_id b, cb_contract_revision b))
     \<and> (\<exists>t. registry_implementation R (cb_tool_impl_id b) (cb_implementation_revision b) = Inr t
          \<and> im_native_schema_hash t = cb_native_schema_hash b)"
proof (induction bs)
  case (Cons x bs)
  then obtain c t where "registry_contract R (cb_capability_id x) (cb_contract_revision x) = Inr c"
    "registry_implementation R (cb_tool_impl_id x) (cb_implementation_revision x) = Inr t"
    "im_native_schema_hash t = cb_native_schema_hash x" "validate_bindings R bs = Inr ()"
    by (auto simp: res_simps)
  moreover from this(1) have "c \<in> set (rx_contracts R)"
    "contract_id c = (cb_capability_id x, cb_contract_revision x)"
    by (auto simp: registry_contract_def res_simps dest: tab_get_Some_D)
  ultimately show ?case using Cons by auto
qed simp

lemma new_registry_valid:
  assumes "new_registry rev' contracts descriptors implementations bindings = Inr R"
  shows "registry_valid R"
proof -
  from assms have R: "rx_contracts R = dict_values contract_id contracts"
    "rx_implementations R = dict_values implementation_id implementations"
    and v: "validate_registry R = Inr ()"
    by (auto simp: new_registry_def Let_def res_simps)
  from v have d: "cc_capability_id c \<in> fst ` set (rx_descriptors R)" if "c \<in> set (rx_contracts R)" for c
    using that by (auto simp: validate_registry_def res_simps)
  then have "\<forall>c \<in> set (rx_contracts R). map_of (rx_descriptors R) (cc_capability_id c) \<noteq> None"
    by (auto simp: map_of_eq_None_iff)
  moreover have "validate_bindings R (rx_bindings R) = Inr ()"
    using v by (auto simp: validate_registry_def res_simps)
  moreover have "distinct (map contract_id (rx_contracts R))"
    "distinct (map implementation_id (rx_implementations R))"
    unfolding R by (rule dict_values_distinct)+
  ultimately show ?thesis
    unfolding registry_valid_def using validate_bindings_ok by blast
qed

lemma collect_bindings_spec:
  assumes "registry_valid R" "set bs \<subseteq> set (rx_bindings R)"
  shows "collect_bindings R c healthy_refs classes bs = Inr (filter (serves R c healthy_refs classes) bs)"
  using assms(2)
proof (induction bs)
  case (Cons b bs)
  with assms(1) obtain t where
    "registry_implementation R (cb_tool_impl_id b) (cb_implementation_revision b) = Inr t"
    by (auto simp: registry_valid_def)
  with Cons show ?case by (auto simp: serves_def)
qed simp

lemma eligible_bindings_spec:
  "registry_valid R \<Longrightarrow> eligible_bindings R c healthy_refs classes =
     Inr (sort_key binding_rank (filter (serves R c healthy_refs classes) (rx_bindings R)))"
  by (simp add: eligible_bindings_def collect_bindings_spec binding_rank_def [abs_def])

lemma serves_implementation:
  assumes "serves R c healthy_refs classes b"
  obtains t where "registry_implementation R (cb_tool_impl_id b) (cb_implementation_revision b) = Inr t"
    "binding_eligible c b t healthy_refs classes"
  using assms by (auto simp: serves_def split: sum.splits)

lemma resolve_binding_spec:
  assumes "registry_valid R"
  shows "resolve_binding R c healthy_refs classes = Inr (b, t) \<longleftrightarrow>
    (\<exists>bs. sort_key binding_rank (filter (serves R c healthy_refs classes) (rx_bindings R)) = b # bs
      \<and> registry_implementation R (cb_tool_impl_id b) (cb_implementation_revision b) = Inr t)"
    (is "_ \<longleftrightarrow> (\<exists>bs. ?s = b # bs \<and> _)")
proof (cases ?s)
  case Nil
  then show ?thesis by (simp add: resolve_binding_def eligible_bindings_spec [OF assms])
next
  case (Cons b' bs)
  then have "serves R c healthy_refs classes b'"
    using sort_key_head(1) [OF Cons] by simp
  then obtain t' where "registry_implementation R (cb_tool_impl_id b') (cb_implementation_revision b') = Inr t'"
    "binding_eligible c b' t' healthy_refs classes" by (rule serves_implementation)
  with Cons show ?thesis
    by (auto simp: resolve_binding_def eligible_bindings_spec [OF assms] binding_eligible_def)
qed

lemma validate_capability_request_spec:
  "validate_capability_request task c q = [] \<longleftrightarrow>
     rq_task_contract_id q = tc_task_contract_id task \<and> rq_principal q = tc_principal task
     \<and> (rq_capability_id q, rq_contract_revision q) = contract_id c \<and> rq_action q = cc_action c
     \<and> rq_resource_type q \<in> set (cc_applicable_resource_types c)
     \<and> rq_intended_effect q = cc_effect_semantics c
     \<and> effect_within_ceiling (required_effect_ceiling c) (tc_effect_ceiling task)"
  by (auto simp: validate_capability_request_def capability_visible_for_task_def)

section \<open>Lemmas on visibility\<close>

lemma visibility_reasons_empty:
  "visibility_reasons task scope satisfiable c bindings d = [] \<longleftrightarrow>
     (\<forall>xs. scope = Some xs \<longrightarrow> cc_capability_id c \<in> set xs)
     \<and> effect_within_ceiling (required_effect_ceiling c) (tc_effect_ceiling task)
     \<and> bindings \<noteq> [] \<and> pd_authorization d = PERMIT
     \<and> set (map po_kind (pd_obligations d)) \<subseteq> set satisfiable"
  by (cases scope; simp add: visibility_reasons_def capability_visible_for_task_def obligations_satisfied_def)

lemma visible_step_cases:
  assumes R: "registry_valid R" and c: "c \<in> set (rx_contracts R)"
    and nb: "\<not> blank (tc_principal task)" "\<not> blank (cc_action c)" "\<not> blank (pe_policy_revision eng)"
  shows "if exposed R task run eng scope hs cl sat c
    then \<exists>k. visible_step R task run eng scope hs cl sat c acc = Inr (acc\<lparr>vs_cards := vs_cards acc @ [k]\<rparr>)
      \<and> (kd_capability_id k, kd_contract_revision k) = contract_id c
    else \<exists>rs. rs \<noteq> [] \<and> visible_step R task run eng scope hs cl sat c acc =
      Inr (acc\<lparr>vs_hidden_reasons := vs_hidden_reasons acc
        @ [(cc_capability_id c @ ''@'' @ show_nat (cc_contract_revision c), rs)]\<rparr>)"
proof -
  let ?bs = "sort_key binding_rank (filter (serves R c hs cl) (rx_bindings R))"
  from nb have q: "validate_request (visibility_request task run c) = Inr (visibility_request task run c)"
    by (simp add: validate_request_def visibility_request_def has_key_def blank_append)
      (simp add: blank_def strip_def is_space_def)
  obtain d where d: "evaluate eng (visibility_request task run c) = Inr d" by (rule evaluate_ok [OF nb(3)])
  have bs: "?bs = [] \<longleftrightarrow> \<not> (\<exists>b \<in> set (rx_bindings R). serves R c hs cl b)"
    by (metis (no_types, lifting) empty_filter_conv length_0_conv length_sort)
  have exp: "exposed R task run eng scope hs cl sat c \<longleftrightarrow> visibility_reasons task scope sat c ?bs d = []"
    unfolding visibility_reasons_empty exposed_def bs using d by auto
  have ss: "rs \<noteq> [] \<Longrightarrow> sorted_set rs \<noteq> []" for rs
    by (simp add: sorted_set_def) (metis length_0_conv length_sort remdups_eq_nil_iff)
  from R c obtain desc where desc: "map_of (rx_descriptors R) (cc_capability_id c) = Some desc"
    by (auto simp: registry_valid_def)
  have step: "visible_step R task run eng scope hs cl sat c acc =
      (if visibility_reasons task scope sat c ?bs d \<noteq> [] then
         Inr (acc\<lparr>vs_hidden_reasons := vs_hidden_reasons acc
           @ [(cc_capability_id c @ ''@'' @ show_nat (cc_contract_revision c),
               sorted_set (visibility_reasons task scope sat c ?bs d))]\<rparr>)
       else Inr (acc\<lparr>vs_cards := vs_cards acc @ [capability_card_of c desc (hd ?bs)]\<rparr>))"
    by (simp only: visible_step_def eligible_bindings_spec [OF R] q d desc res_bind_Inr Let_def
        registry_descriptor_def res_of_option_Some)
  show ?thesis
  proof (cases "visibility_reasons task scope sat c ?bs d = []")
    case True
    then show ?thesis unfolding exp step if_P [OF True]
      by (intro exI [of _ "capability_card_of c desc (hd ?bs)"]) (simp add: capability_card_of_def)
  next
    case False
    then show ?thesis unfolding exp step if_not_P [OF False] using ss [OF False] by auto
  qed
qed

section \<open>Properties\<close>

text \<open>
  The registry resolves a contract to its best serving binding. In a constructed registry
  \<open>resolve_binding\<close> returns a binding exactly when some registered binding serves the contract (it
  names the contract's id and revision, its tool is healthy and its execution class is available),
  and the one it returns has the least fallback rank, ties broken by the binding id; its tool is the
  registered implementation with the schema hash the binding was made for. No other error is possible.
\<close>

theorem resolve_binding_best:
  assumes "new_registry rev' contracts descriptors implementations bindings = Inr R"
  shows "(resolve_binding R c healthy_refs classes
            = Inl (LookupError (''no healthy capability binding: '' @ cc_capability_id c))
          \<and> (\<forall>b \<in> set bindings. \<not> serves R c healthy_refs classes b))
    \<or> (\<exists>b t. resolve_binding R c healthy_refs classes = Inr (b, t)
        \<and> b \<in> set bindings \<and> serves R c healthy_refs classes b
        \<and> registry_implementation R (cb_tool_impl_id b) (cb_implementation_revision b) = Inr t
        \<and> im_native_schema_hash t = cb_native_schema_hash b
        \<and> (\<forall>b' \<in> set bindings. serves R c healthy_refs classes b' \<longrightarrow>
             (cb_fallback_rank b, cb_binding_id b) \<le> (cb_fallback_rank b', cb_binding_id b')))"
proof -
  note valid = new_registry_valid [OF assms]
  let ?f = "filter (serves R c healthy_refs classes) (rx_bindings R)"
  have rb: "rx_bindings R = bindings" using assms by (auto simp: new_registry_def Let_def res_simps)
  show ?thesis
  proof (cases "sort_key binding_rank ?f")
    case Nil
    then have "?f = []" by (metis length_0_conv length_sort)
    then have "\<forall>b \<in> set bindings. \<not> serves R c healthy_refs classes b" by (simp add: rb filter_empty_conv)
    moreover have "resolve_binding R c healthy_refs classes
        = Inl (LookupError (''no healthy capability binding: '' @ cc_capability_id c))"
      by (simp add: resolve_binding_def eligible_bindings_spec [OF valid] Nil)
    ultimately show ?thesis by blast
  next
    case (Cons b bs)
    note h = sort_key_head [OF Cons]
    then have b: "b \<in> set bindings" "serves R c healthy_refs classes b" by (simp_all add: rb)
    then obtain t where t: "registry_implementation R (cb_tool_impl_id b) (cb_implementation_revision b) = Inr t"
      "binding_eligible c b t healthy_refs classes" by (elim serves_implementation)
    then have "resolve_binding R c healthy_refs classes = Inr (b, t)"
      using resolve_binding_spec [OF valid] Cons by blast
    moreover have "\<forall>b' \<in> set bindings. serves R c healthy_refs classes b' \<longrightarrow> binding_rank b \<le> binding_rank b'"
      using h(2) by (simp add: rb)
    ultimately show ?thesis using b t by (auto simp: binding_eligible_def binding_rank_def)
  qed
qed

lemma sample_registry_new:
  "new_registry ''p1'' (rx_contracts sample_registry) (rx_descriptors sample_registry)
     (rx_implementations sample_registry) (rx_bindings sample_registry) = Inr sample_registry"
  by (simp add: new_registry_def sample_registry_defs dict_values_def validate_registry_def
      registry_contract_def registry_implementation_def Let_def)

lemma sample_registry_serves:
  "serves sample_registry (sample_capability ''cap'' OBSERVATION) None None (sample_binding ''b1'' ''cap'' ''t1'' 0)"
  by (simp add: serves_def sample_registry_defs registry_implementation_def binding_eligible_def)

theorem resolve_binding_best_witness:
  "\<exists>b t. resolve_binding sample_registry (sample_capability ''cap'' OBSERVATION) None None = Inr (b, t)
     \<and> cb_fallback_rank b = 0"
proof -
  let ?b = "sample_binding ''b1'' ''cap'' ''t1'' 0"
  have m: "?b \<in> set (rx_bindings sample_registry)" by (simp add: sample_registry_def)
  from resolve_binding_best [OF sample_registry_new, of "sample_capability ''cap'' OBSERVATION" None None]
    m sample_registry_serves
  obtain b t where "resolve_binding sample_registry (sample_capability ''cap'' OBSERVATION) None None = Inr (b, t)"
    and "(cb_fallback_rank b, cb_binding_id b) \<le> (cb_fallback_rank ?b, cb_binding_id ?b)" by blast
  then show ?thesis by (auto simp: sample_binding_def)
qed

text \<open>
  Claim C12: a task sees exactly the capabilities it may use. For a constructed registry with valid
  contracts, a valid task and a constructed policy engine, \<open>visible_capabilities\<close> succeeds; each
  contract becomes either one card or one hidden entry with a reason, in the order of their ids; and
  the cards are those of the contracts that are within the requested scope and the task's effect
  ceiling, are served by some healthy binding, and are permitted by the policy with obligations the
  caller can satisfy.
\<close>

theorem visible_capabilities_exact:
  assumes "new_registry rev' contracts descriptors implementations bindings = Inr R"
    and "new_policy_engine pol rules = Inr eng" and "validate_execution_contract task = Inr task"
    and "\<forall>c \<in> set (rx_contracts R). validate_contract_identity c = Inr c"
  shows "\<exists>vs. visible_capabilities R task run eng scope healthy_refs classes satisfiable = Inr vs
    \<and> map (\<lambda>k. (kd_capability_id k, kd_contract_revision k)) (vs_cards vs)
        = map contract_id (filter (exposed R task run eng scope healthy_refs classes satisfiable)
            (sort_key contract_id (rx_contracts R)))
    \<and> map fst (vs_hidden_reasons vs)
        = map (\<lambda>c. cc_capability_id c @ ''@'' @ show_nat (cc_contract_revision c))
            (filter (\<lambda>c. \<not> exposed R task run eng scope healthy_refs classes satisfiable c)
              (sort_key contract_id (rx_contracts R)))
    \<and> (\<forall>h \<in> set (vs_hidden_reasons vs). snd h \<noteq> [])"
proof -
  note valid = new_registry_valid [OF assms(1)]
  have nb: "\<not> blank (pe_policy_revision eng)" "\<not> blank (tc_principal task)"
    "\<And>c. c \<in> set (rx_contracts R) \<Longrightarrow> \<not> blank (cc_action c)"
    using new_policy_engine_ok [OF assms(2)] assms(3,4)
    by (auto simp: validate_execution_contract_def validate_contract_identity_def res_simps)
  let ?e = "exposed R task run eng scope healthy_refs classes satisfiable"
  let ?step = "visible_step R task run eng scope healthy_refs classes satisfiable"
  have loop: "\<exists>vs. fold_res ?step cs acc = Inr vs
      \<and> map (\<lambda>k. (kd_capability_id k, kd_contract_revision k)) (vs_cards vs)
          = map (\<lambda>k. (kd_capability_id k, kd_contract_revision k)) (vs_cards acc)
            @ map contract_id (filter ?e cs)
      \<and> map fst (vs_hidden_reasons vs) = map fst (vs_hidden_reasons acc)
          @ map (\<lambda>c. cc_capability_id c @ ''@'' @ show_nat (cc_contract_revision c)) (filter (\<lambda>c. \<not> ?e c) cs)
      \<and> (\<forall>h \<in> set (vs_hidden_reasons vs). snd h \<noteq> [])"
    if "set cs \<subseteq> set (rx_contracts R)" "\<forall>h \<in> set (vs_hidden_reasons acc). snd h \<noteq> []" for cs acc
    using that
  proof (induction cs arbitrary: acc)
    case (Cons c cs)
    then have c: "c \<in> set (rx_contracts R)" by simp
    note step = visible_step_cases [OF valid c nb(2) nb(3) [OF c] nb(1), of run scope healthy_refs classes
        satisfiable acc]
    show ?case
    proof (cases "?e c")
      case True
      with step obtain k where k: "?step c acc = Inr (acc\<lparr>vs_cards := vs_cards acc @ [k]\<rparr>)"
        "(kd_capability_id k, kd_contract_revision k) = contract_id c" by auto
      from Cons.IH [of "acc\<lparr>vs_cards := vs_cards acc @ [k]\<rparr>"] Cons.prems k True show ?thesis by simp
    next
      case False
      with step obtain rs where rs: "rs \<noteq> []" "?step c acc = Inr (acc\<lparr>vs_hidden_reasons := vs_hidden_reasons acc
          @ [(cc_capability_id c @ ''@'' @ show_nat (cc_contract_revision c), rs)]\<rparr>)" by auto
      from Cons.IH [of "acc\<lparr>vs_hidden_reasons := vs_hidden_reasons acc
          @ [(cc_capability_id c @ ''@'' @ show_nat (cc_contract_revision c), rs)]\<rparr>"] Cons.prems rs False
      show ?thesis by simp
    qed
  qed simp
  from loop [of "sort_key contract_id (rx_contracts R)" "\<lparr>vs_registry_revision = rx_revision R, vs_cards = [],
      vs_hidden_reasons = []\<rparr>"]
  show ?thesis by (simp add: visible_capabilities_def)
qed

lemma sample_exposed:
  "exposed sample_registry (sample_contract ''t1'' (sample_ceiling 1) INTERNAL_STATE) ''r1''
     sample_visibility_engine (Some [''cap'']) None None [] (sample_capability ''cap'' OBSERVATION)"
proof -
  let ?q = "visibility_request (sample_contract ''t1'' (sample_ceiling 1) INTERNAL_STATE) ''r1''
    (sample_capability ''cap'' OBSERVATION)"
  have m: "filter (\<lambda>r. rule_matches r ?q) (pe_rules sample_visibility_engine) = pe_rules sample_visibility_engine"
    by (simp add: sample_visibility_engine_def sample_engine_def sample_rule_def rule_matches_def
        visibility_request_def matches_any_def fnmatchcase_def)
  have "\<not> blank (pe_policy_revision sample_visibility_engine)"
    by (simp add: sample_visibility_engine_def sample_engine_def)
  then obtain d where "evaluate sample_visibility_engine ?q = Inr d"
    "pd_authorization d = verdict (pe_rules sample_visibility_engine)"
    "pd_obligations d = (if pd_authorization d = PERMIT
       then concat (map rl_obligations (pe_rules sample_visibility_engine)) else [])"
    using evaluate_ok [of sample_visibility_engine ?q thesis] m by simp
  then have "\<exists>d. evaluate sample_visibility_engine ?q = Inr d \<and> pd_authorization d = PERMIT
      \<and> set (map po_kind (pd_obligations d)) \<subseteq> set []"
    by (simp add: verdict_def sample_visibility_engine_def sample_engine_def sample_rule_def)
  moreover have "\<exists>b \<in> set (rx_bindings sample_registry). serves sample_registry
      (sample_capability ''cap'' OBSERVATION) None None b"
    using sample_registry_serves by (auto simp: sample_registry_def)
  ultimately show ?thesis
    unfolding exposed_def
    by (simp add: required_effect_ceiling_def sample_capability_def sample_contract_def effect_within_ceiling_def)
qed

theorem visible_capabilities_exact_witness:
  "\<exists>vs. visible_capabilities sample_registry (sample_contract ''t1'' (sample_ceiling 1) INTERNAL_STATE) ''r1''
      sample_visibility_engine (Some [''cap'']) None None [] = Inr vs
    \<and> map (\<lambda>k. (kd_capability_id k, kd_contract_revision k)) (vs_cards vs) = [(''cap'', 1)]
    \<and> vs_hidden_reasons vs = []"
proof -
  let ?task = "sample_contract ''t1'' (sample_ceiling 1) INTERNAL_STATE"
  have eng: "new_policy_engine ''p1'' (pe_rules sample_visibility_engine) = Inr sample_visibility_engine"
    by (simp add: new_policy_engine_def sample_rule_def sample_engine_def sample_visibility_engine_def)
  have task: "validate_execution_contract ?task = Inr ?task"
    by (simp add: validate_execution_contract_def sample_contract_def sample_ceiling_def
        effect_within_ceiling_def) (simp add: blank_iff is_space_def)
  have contracts: "\<forall>c \<in> set (rx_contracts sample_registry). validate_contract_identity c = Inr c"
    by (simp add: validate_contract_identity_def sample_registry_defs) (simp add: blank_iff is_space_def)
  have s: "sort_key contract_id (rx_contracts sample_registry) = [sample_capability ''cap'' OBSERVATION]"
    by (simp add: sample_registry_def)
  from visible_capabilities_exact [OF sample_registry_new eng task contracts, of "''r1''" "Some [''cap'']" None None "[]"]
  show ?thesis unfolding s by (simp add: sample_exposed del: One_nat_def) (auto simp: sample_capability_def)
qed

end
