(* ===== verification/Capability_Broker.thy ===== *)
theory Capability_Broker
  imports Capability_Registry Budget_Governor
begin

text \<open>
  \<^verbatim>\<open>packages/runtime/capability/broker.py\<close>: the one way to a tool. \<open>invoke\<close> replays a finished
  invocation, or passes the request through the gates of the envelope, the contract, the registry,
  the policy and the budget, runs the executor once, settles the budget and writes the audit row.
  The executor is a parameter; the clock is timezone-aware and its readings are arguments, in the
  order the code takes them. The Pydantic models that the audit row stores as JSON are stored as
  they are, and reading them back runs their validators again.
\<close>

section \<open>Plans, invocations and results\<close>

record invocation_plan =
  ip_invocation_plan_id :: string
  ip_capability_request_ref :: string
  ip_binding_id :: string
  ip_binding_revision :: nat
  ip_resolved_resource :: string
  ip_resolved_effect :: effect_semantics
  ip_canonical_arguments_digest :: string
  ip_native_arguments_ref :: string
  ip_execution_class :: execution_class
  ip_credential_requirement :: string
  ip_network_requirement :: string
  ip_sandbox_requirement :: string
  ip_deadline_at :: datetime
  ip_budget_reservation_ref :: string

definition validate_plan :: "invocation_plan \<Rightarrow> invocation_plan res" where
  "validate_plan p =
     raise_if (dt_naive (ip_deadline_at p))
       (ValueError ''InvocationPlan deadline_at must be timezone-aware'') (Inr p)"

record capability_invocation =
  ci_invocation_id :: string
  ci_invocation_plan_id :: string
  ci_policy_decision_ref :: string
  ci_credential_grant_ref :: "string option"
  ci_network_grant_ref :: "string option"
  ci_sandbox_instance_ref :: "string option"
  ci_started_at :: int

datatype capability_result_status = CR_SUCCEEDED | CR_PARTIAL | CR_FAILED | CR_BLOCKED | CR_TIMED_OUT

fun result_status_value :: "capability_result_status \<Rightarrow> string" where
  "result_status_value CR_SUCCEEDED = ''succeeded''"
| "result_status_value CR_PARTIAL = ''partial''"
| "result_status_value CR_FAILED = ''failed''"
| "result_status_value CR_BLOCKED = ''blocked''"
| "result_status_value CR_TIMED_OUT = ''timed_out''"

record capability_result =
  cr_invocation_id :: string
  cr_status :: capability_result_status
  cr_canonical_output_ref :: "string option"
  cr_raw_artifact_ref :: "string option"
  cr_effect_receipt_ref :: "string option"
  cr_observation_class :: string
  cr_provenance :: jdict
  cr_latency :: jdict
  cr_cost :: jdict
  cr_failure_code :: "string option"
  cr_failure_detail :: "string option"

record native_execution_result =
  nx_status :: capability_result_status
  nx_canonical_output_ref :: "string option"
  nx_raw_artifact_ref :: "string option"
  nx_effect_receipt_ref :: "string option"
  nx_observation_class :: string
  nx_provenance :: jdict
  nx_latency :: jdict
  nx_cost :: jdict
  nx_consumed_budget :: quantities
  nx_failure_code :: "string option"
  nx_failure_detail :: "string option"
  nx_extracted_candidates :: "json list"
  nx_trust_label :: string
  nx_observation_ttl_seconds :: int

text \<open>\<^verbatim>\<open>CapabilityExecutor.execute\<close>: it returns a native result or raises.\<close>

type_synonym capability_executor =
  "tool_implementation \<Rightarrow> jdict \<Rightarrow> rat \<Rightarrow> native_execution_result res"

record invocation_grants =
  ig_fulfilled_obligation_kinds :: "string list"
  ig_credential_grant_ref :: "string option"
  ig_network_grant_ref :: "string option"
  ig_sandbox_instance_ref :: "string option"

record invocation_outcome =
  oc_invocation :: capability_invocation
  oc_plan :: invocation_plan
  oc_policy_decision :: policy_decision
  oc_result :: capability_result
  oc_observation :: "ephemeral_observation option"
  oc_replay :: bool

record invocation_row =
  iv_invocation_id :: string
  iv_task_run_id :: string
  iv_case_id :: "string option"
  iv_request_id :: string
  iv_capability_id :: string
  iv_contract_revision :: nat
  iv_binding_id :: string
  iv_binding_revision :: nat
  iv_tool_impl_id :: string
  iv_implementation_revision :: nat
  iv_request_json :: capability_request
  iv_plan_json :: invocation_plan
  iv_policy_decision_ref :: string
  iv_policy_decision_json :: policy_decision
  iv_arguments_digest :: string
  iv_result_json :: "capability_result option"
  iv_observation_json :: "ephemeral_observation option"
  iv_status :: string
  iv_started_at :: int
  iv_finished_at :: "int option"
  iv_failure_code :: "string option"
  iv_failure_detail :: "string option"

record broker_state =
  bk_budget :: budget_ledger
  bk_invocations :: "invocation_row list"

record capability_broker =
  kb_registry :: capability_registry
  kb_policy :: policy_engine

text \<open>The readings of the broker's clock and, for the budget, of the governor's, in one call of \<open>invoke\<close>.\<close>

record broker_clock =
  ck_gate :: int
  ck_reserved :: int
  ck_started :: int
  ck_committed :: int
  ck_observed :: int
  ck_finished :: int

section \<open>Helpers\<close>

text \<open>\<^verbatim>\<open>{**d, **e}\<close>\<close>

definition dict_merge :: "(string \<times> 'v) list \<Rightarrow> (string \<times> 'v) list \<Rightarrow> (string \<times> 'v) list" where
  "dict_merge d e = fold (\<lambda>(k, v). dict_put k v) e d"

definition map_native_arguments :: "jdict \<Rightarrow> (string \<times> string) list \<Rightarrow> jdict" where
  "map_native_arguments canonical mapping =
     fold (\<lambda>(k, v). dict_put (case map_of mapping k of None \<Rightarrow> k | Some k' \<Rightarrow> k') v) canonical []"

text \<open>\<^verbatim>\<open>type(exc).__name__\<close>\<close>

fun error_class_name :: "py_error \<Rightarrow> string" where
  "error_class_name (ValueError _) = ''ValueError''"
| "error_class_name (LookupError _) = ''LookupError''"
| "error_class_name (RuntimeError _) = ''RuntimeError''"
| "error_class_name (TypeError _) = ''TypeError''"
| "error_class_name (IntegrityError _) = ''IntegrityError''"
| "error_class_name (BudgetExceeded _ _ _) = ''BudgetExceeded''"
| "error_class_name (CapabilityDenied _) = ''CapabilityDenied''"
| "error_class_name (TaskAdmissionDenied _) = ''TaskAdmissionDenied''"
| "error_class_name (SandboxUnavailable _) = ''SandboxUnavailable''"
| "error_class_name (StateRevisionConflict _) = ''StateRevisionConflict''"
| "error_class_name (StatePatchRejected _) = ''StatePatchRejected''"
| "error_class_name (EvidenceNeedResolutionRejected _) = ''EvidenceNeedResolutionRejected''"
| "error_class_name (HandlerError n) = n"

text \<open>\<^verbatim>\<open>a or b\<close> on optional strings.\<close>

definition str_or :: "string option \<Rightarrow> string option \<Rightarrow> string option" where
  "str_or a b = (if a = None \<or> a = Some [] then b else a)"

definition ephemeral_observation_of ::
  "hash_env \<Rightarrow> capability_request \<Rightarrow> tool_implementation \<Rightarrow> capability_result \<Rightarrow> native_execution_result
     \<Rightarrow> int \<Rightarrow> ephemeral_observation option res" where
  "ephemeral_observation_of E q t result native observed_at =
     (if cr_status result \<noteq> CR_SUCCEEDED \<and> cr_status result \<noteq> CR_PARTIAL then Inr None
      else case str_or (cr_raw_artifact_ref result) (cr_canonical_output_ref result) of
        None \<Rightarrow> Inr None
      | Some raw_ref \<Rightarrow>
          res_bind (validate_observation
            \<lparr>eo_observation_id = stable_id E (''ephemeral-observation:'' @ rq_task_run_id q @ '':'' @ rq_request_id q),
             eo_request_id = rq_request_id q, eo_capability_id = rq_capability_id q,
             eo_source = ''tool:'' @ im_tool_impl_id t @ ''@'' @ show_nat (im_implementation_revision t),
             eo_provenance = dict_merge
               [(''implementation_kind'', JStr (implementation_kind_value (im_implementation_kind t))),
                (''server_identity'', j_opt_str (im_server_identity t))] (nx_provenance native),
             eo_observed_at = Aware observed_at, eo_raw_result_ref = raw_ref,
             eo_extracted_candidates = nx_extracted_candidates native,
             eo_trust_label = ''untrusted_tool_output'',
             eo_ttl_seconds = nx_observation_ttl_seconds native\<rparr>) (\<lambda>ob. Inr (Some ob)))"

definition finish_audit ::
  "invocation_row \<Rightarrow> capability_result \<Rightarrow> ephemeral_observation option \<Rightarrow> int \<Rightarrow> invocation_row" where
  "finish_audit audit result observation finished_at =
     audit\<lparr>iv_result_json := Some result, iv_observation_json := observation,
       iv_status := result_status_value (cr_status result), iv_finished_at := Some finished_at,
       iv_failure_code := cr_failure_code result, iv_failure_detail := cr_failure_detail result\<rparr>"

fun opt_res :: "('a \<Rightarrow> 'b res) \<Rightarrow> 'a option \<Rightarrow> 'b option res" where
  "opt_res f None = Inr None"
| "opt_res f (Some x) = res_bind (f x) (\<lambda>y. Inr (Some y))"

definition replay_outcome :: "invocation_row \<Rightarrow> invocation_outcome res" where
  "replay_outcome m =
     (case (iv_result_json m, iv_finished_at m) of
        (Some result, Some _) \<Rightarrow>
          res_bind (validate_plan (iv_plan_json m)) (\<lambda>plan.
          res_bind (validate_revision (iv_policy_decision_json m)) (\<lambda>decision.
          res_bind (opt_res validate_observation (iv_observation_json m)) (\<lambda>observation.
          Inr \<lparr>oc_invocation = \<lparr>ci_invocation_id = iv_invocation_id m,
                 ci_invocation_plan_id = ip_invocation_plan_id plan,
                 ci_policy_decision_ref = iv_policy_decision_ref m, ci_credential_grant_ref = None,
                 ci_network_grant_ref = None, ci_sandbox_instance_ref = None,
                 ci_started_at = iv_started_at m\<rparr>,
               oc_plan = plan, oc_policy_decision = decision, oc_result = result,
               oc_observation = observation, oc_replay = True\<rparr>)))
      | _ \<Rightarrow> Inl (RuntimeError ''capability invocation is already running and cannot be replayed yet''))"

section \<open>The gates\<close>

definition find_invocation :: "broker_state \<Rightarrow> string \<Rightarrow> string \<Rightarrow> invocation_row option" where
  "find_invocation st run_id request_id =
     find (\<lambda>m. iv_task_run_id m = run_id \<and> iv_request_id m = request_id) (bk_invocations st)"

definition check_envelope :: "capability_broker \<Rightarrow> execution_envelope \<Rightarrow> capability_request \<Rightarrow> int \<Rightarrow> unit res" where
  "check_envelope B env q now =
     raise_if (ee_task_run_id env \<noteq> rq_task_run_id q) (CapabilityDenied ''execution_envelope_task_run_mismatch'')
     (raise_if (ee_task_contract_id env \<noteq> rq_task_contract_id q)
       (CapabilityDenied ''execution_envelope_task_contract_mismatch'')
     (raise_if (ee_case_id env \<noteq> rq_case_id q) (CapabilityDenied ''execution_envelope_case_mismatch'')
     (raise_if (ee_policy_revision env \<noteq> pe_policy_revision (kb_policy B))
       (CapabilityDenied ''execution_envelope_policy_revision_mismatch'')
     (raise_if (rq_capability_id q \<notin> set (ee_capability_scope env))
       (CapabilityDenied ''capability_outside_execution_envelope_scope'')
     (raise_if (dt_naive (ee_deadline_at env)) (TypeError ''can't compare offset-naive and offset-aware datetimes'')
     (raise_if (now \<ge> dt_us (ee_deadline_at env)) (CapabilityDenied ''execution_deadline_reached'')
     (Inr ())))))))"

definition invocation_policy_request ::
  "execution_envelope \<Rightarrow> capability_request \<Rightarrow> string \<Rightarrow> policy_request" where
  "invocation_policy_request env q args_digest =
     \<lparr>pq_decision_point = CAPABILITY_INVOCATION, pq_principal = rq_principal q, pq_action = rq_action q,
      pq_resource = rq_resource q,
      pq_context = [(''task_contract_id'', JStr (rq_task_contract_id q)),
        (''task_run_id'', JStr (rq_task_run_id q)), (''capability_id'', JStr (rq_capability_id q)),
        (''arguments_digest'', JStr args_digest),
        (''intended_effect'', JStr (effect_semantics_value (rq_intended_effect q))),
        (''evidence_purpose'', j_opt_str (rq_evidence_purpose q)), (''budget_ref'', JStr (ee_budget_ref env))]\<rparr>"

definition required_grants :: "policy_decision \<Rightarrow> string list" where
  "required_grants d = map po_kind (pd_constraints d @ pd_obligations d)"

definition check_decision :: "policy_decision \<Rightarrow> invocation_grants \<Rightarrow> unit res" where
  "check_decision d grants =
     raise_if (pd_authorization d \<noteq> PERMIT)
       (CapabilityDenied (''policy_'' @ authorization_value (pd_authorization d)))
     (raise_if (\<not> set (required_grants d) \<subseteq> set (ig_fulfilled_obligation_kinds grants))
       (CapabilityDenied (''policy_obligation_unsatisfied:'' @ join '',''
         (sorted_set (filter (\<lambda>k. k \<notin> set (ig_fulfilled_obligation_kinds grants)) (required_grants d)))))
     (Inr ()))"

text \<open>What the gates establish about one request.\<close>

record admitted_call =
  ac_contract :: capability_contract
  ac_binding :: capability_binding
  ac_implementation :: tool_implementation
  ac_args_digest :: string
  ac_policy_request :: policy_request
  ac_decision :: policy_decision

definition admit_call ::
  "hash_env \<Rightarrow> capability_broker \<Rightarrow> task_contract \<Rightarrow> execution_envelope \<Rightarrow> capability_request
     \<Rightarrow> invocation_grants \<Rightarrow> string list option \<Rightarrow> execution_class list option \<Rightarrow> int \<Rightarrow> admitted_call res" where
  "admit_call E B task env q grants healthy_refs classes now =
     res_bind (check_envelope B env q now) (\<lambda>_.
     res_bind (registry_contract (kb_registry B) (rq_capability_id q) (rq_contract_revision q)) (\<lambda>c.
     (let request_errors = validate_capability_request task c q in
      raise_if (request_errors \<noteq> []) (CapabilityDenied (join '','' (sort request_errors)))
      (res_bind (resolve_binding (kb_registry B) c healthy_refs classes) (\<lambda>(b, t).
       (let args_digest = canonical_arguments_digest E (rq_canonical_arguments q) in
        res_bind (validate_request (invocation_policy_request env q args_digest)) (\<lambda>pq.
        res_bind (evaluate (kb_policy B) pq) (\<lambda>d.
        res_bind (check_decision d grants) (\<lambda>_.
        Inr \<lparr>ac_contract = c, ac_binding = b, ac_implementation = t, ac_args_digest = args_digest,
          ac_policy_request = pq, ac_decision = d\<rparr>)))))))))"

section \<open>The call\<close>

definition reservation_group_of :: "capability_request \<Rightarrow> string" where
  "reservation_group_of q = ''capability:'' @ rq_task_run_id q @ '':'' @ rq_request_id q"

definition invocation_plan_of ::
  "hash_env \<Rightarrow> execution_envelope \<Rightarrow> capability_request \<Rightarrow> admitted_call \<Rightarrow> invocation_plan" where
  "invocation_plan_of E env q call =
     (let b = ac_binding call in
      \<lparr>ip_invocation_plan_id = stable_id E (''invocation-plan:'' @ rq_task_run_id q @ '':'' @ rq_request_id q
         @ '':'' @ cb_binding_id b),
       ip_capability_request_ref = ''capability-request:'' @ rq_request_id q,
       ip_binding_id = cb_binding_id b, ip_binding_revision = cb_binding_revision b,
       ip_resolved_resource = rq_resource q, ip_resolved_effect = cc_effect_semantics (ac_contract call),
       ip_canonical_arguments_digest = ac_args_digest call,
       ip_native_arguments_ref = ''native-args:'' @ rq_request_id q @ '':'' @ take 24 (ac_args_digest call),
       ip_execution_class = cb_execution_class b, ip_credential_requirement = cb_credential_profile b,
       ip_network_requirement = cb_network_profile b, ip_sandbox_requirement = cb_sandbox_profile b,
       ip_deadline_at = ee_deadline_at env,
       ip_budget_reservation_ref = ''budget-reservation:'' @ reservation_group_of q\<rparr>)"

definition invocation_of ::
  "hash_env \<Rightarrow> capability_request \<Rightarrow> invocation_grants \<Rightarrow> invocation_plan \<Rightarrow> string \<Rightarrow> int
     \<Rightarrow> capability_invocation" where
  "invocation_of E q grants plan policy_decision_ref started_at =
     \<lparr>ci_invocation_id = stable_id E (''capability-invocation:'' @ rq_task_run_id q @ '':'' @ rq_request_id q),
      ci_invocation_plan_id = ip_invocation_plan_id plan, ci_policy_decision_ref = policy_decision_ref,
      ci_credential_grant_ref = ig_credential_grant_ref grants,
      ci_network_grant_ref = ig_network_grant_ref grants,
      ci_sandbox_instance_ref = ig_sandbox_instance_ref grants, ci_started_at = started_at\<rparr>"

definition running_audit ::
  "capability_request \<Rightarrow> admitted_call \<Rightarrow> invocation_plan \<Rightarrow> capability_invocation \<Rightarrow> invocation_row" where
  "running_audit q call plan invocation =
     \<lparr>iv_invocation_id = ci_invocation_id invocation, iv_task_run_id = rq_task_run_id q, iv_case_id = rq_case_id q,
      iv_request_id = rq_request_id q, iv_capability_id = cc_capability_id (ac_contract call),
      iv_contract_revision = cc_contract_revision (ac_contract call),
      iv_binding_id = cb_binding_id (ac_binding call), iv_binding_revision = cb_binding_revision (ac_binding call),
      iv_tool_impl_id = im_tool_impl_id (ac_implementation call),
      iv_implementation_revision = im_implementation_revision (ac_implementation call),
      iv_request_json = q, iv_plan_json = plan, iv_policy_decision_ref = ci_policy_decision_ref invocation,
      iv_policy_decision_json = ac_decision call, iv_arguments_digest = ac_args_digest call,
      iv_result_json = None, iv_observation_json = None, iv_status = ''running'',
      iv_started_at = ci_started_at invocation, iv_finished_at = None, iv_failure_code = None,
      iv_failure_detail = None\<rparr>"

definition failed_result :: "string \<Rightarrow> py_error \<Rightarrow> capability_result" where
  "failed_result invocation_id exc =
     \<lparr>cr_invocation_id = invocation_id, cr_status = CR_FAILED, cr_canonical_output_ref = None,
      cr_raw_artifact_ref = None, cr_effect_receipt_ref = None, cr_observation_class = ''none'',
      cr_provenance = [], cr_latency = [], cr_cost = [], cr_failure_code = Some ''executor_exception'',
      cr_failure_detail = Some (error_class_name exc)\<rparr>"

definition native_result_of :: "string \<Rightarrow> native_execution_result \<Rightarrow> capability_result" where
  "native_result_of invocation_id native =
     \<lparr>cr_invocation_id = invocation_id, cr_status = nx_status native,
      cr_canonical_output_ref = nx_canonical_output_ref native, cr_raw_artifact_ref = nx_raw_artifact_ref native,
      cr_effect_receipt_ref = nx_effect_receipt_ref native, cr_observation_class = nx_observation_class native,
      cr_provenance = nx_provenance native, cr_latency = nx_latency native, cr_cost = nx_cost native,
      cr_failure_code = nx_failure_code native, cr_failure_detail = nx_failure_detail native\<rparr>"

text \<open>
  What the executor's answer amounts to: the consumption to commit, the result, and the observation,
  which is built after the commit.
\<close>

definition executed_call ::
  "hash_env \<Rightarrow> capability_request \<Rightarrow> tool_implementation \<Rightarrow> string \<Rightarrow> quantities \<Rightarrow> int
     \<Rightarrow> native_execution_result res \<Rightarrow> quantities \<times> capability_result \<times> ephemeral_observation option res" where
  "executed_call E q t invocation_id estimated observed_at answer =
     (case answer of
        Inl exc \<Rightarrow> (estimated, failed_result invocation_id exc, Inr None)
      | Inr native \<Rightarrow>
          (let result = native_result_of invocation_id native in
           (nx_consumed_budget native, result, ephemeral_observation_of E q t result native observed_at)))"

definition invoke ::
  "hash_env \<Rightarrow> (int \<Rightarrow> string) \<Rightarrow> capability_broker \<Rightarrow> broker_state \<Rightarrow> task_contract \<Rightarrow> execution_envelope
     \<Rightarrow> capability_request \<Rightarrow> capability_executor \<Rightarrow> quantities \<Rightarrow> invocation_grants \<Rightarrow> string list option
     \<Rightarrow> execution_class list option \<Rightarrow> rat \<Rightarrow> broker_clock \<Rightarrow> (invocation_outcome \<times> broker_state) res" where
  "invoke E show_time B st task env q executor estimated grants healthy_refs classes action_timeout ck =
     (case find_invocation st (rq_task_run_id q) (rq_request_id q) of
        Some existing \<Rightarrow> res_bind (replay_outcome existing) (\<lambda>oc. Inr (oc, st))
      | None \<Rightarrow>
          res_bind (admit_call E B task env q grants healthy_refs classes (ck_gate ck)) (\<lambda>call.
          (let group = reservation_group_of q;
               native_arguments = map_native_arguments (rq_canonical_arguments q)
                 (cb_canonical_to_native_args (ac_binding call)) in
           res_bind (reserve E (bk_budget st) (ee_budget_ref env) group estimated None (ck_reserved ck)) (\<lambda>(_, L1).
           res_bind (validate_plan (invocation_plan_of E env q call)) (\<lambda>plan.
           (let invocation = invocation_of E q grants plan
                  (decision_ref E show_time (kb_policy B) (ac_policy_request call) (ac_decision call)) (ck_started ck);
                audit = running_audit q call plan invocation in
            res_bind (tab_add iv_invocation_id audit (bk_invocations st)) (\<lambda>rows.
            res_bind (bounded_timeout_seconds env (Aware (ck_started ck)) action_timeout) (\<lambda>timeout.
            (case executed_call E q (ac_implementation call) (ci_invocation_id invocation) estimated (ck_observed ck)
                    (executor (ac_implementation call) native_arguments timeout) of
               (consumed, result, built) \<Rightarrow>
                 res_bind (commit L1 (ee_budget_ref env) group consumed False (ck_committed ck)) (\<lambda>(_, L2).
                 res_bind built (\<lambda>observation.
                 Inr (\<lparr>oc_invocation = invocation, oc_plan = plan, oc_policy_decision = ac_decision call,
                        oc_result = result, oc_observation = observation, oc_replay = False\<rparr>,
                      \<lparr>bk_budget = L2, bk_invocations = tab_put iv_invocation_id
                         (finish_audit audit result observation (ck_finished ck)) rows\<rparr>))))))))))))"

inductive broker_step :: "hash_env \<Rightarrow> (int \<Rightarrow> string) \<Rightarrow> capability_broker \<Rightarrow> broker_state \<Rightarrow> broker_state \<Rightarrow> bool"
  for E show_time B where
  invoke: "distinct (map fst estimated) \<Longrightarrow>
    invoke E show_time B st task env q executor estimated grants hs cl tmo ck = Inr (oc, st') \<Longrightarrow>
    broker_step E show_time B st st'"

text \<open>
  What happens to the audit: calls of any broker, under any policy and registry, and between them any change of the ledger.
\<close>

inductive audit_step :: "broker_state \<Rightarrow> broker_state \<Rightarrow> bool" where
  call: "invoke E show_time B st task env q executor estimated grants hs cl tmo ck = Inr (oc, st') \<Longrightarrow> audit_step st st'"
| ledger: "audit_step st (st\<lparr>bk_budget := L\<rparr>)"

text \<open>
  The states between calls: the ledger is solvent, and the audit has one finished row per request,
  which validates when it is read back and whose observation, if any, is untrusted.
\<close>

definition audit_ok :: "invocation_row \<Rightarrow> bool" where
  "audit_ok m \<longleftrightarrow> (\<exists>result. iv_result_json m = Some result \<and> iv_status m = result_status_value (cr_status result))
     \<and> iv_finished_at m \<noteq> None \<and> validate_plan (iv_plan_json m) = Inr (iv_plan_json m)
     \<and> validate_revision (iv_policy_decision_json m) = Inr (iv_policy_decision_json m)
     \<and> (\<forall>ob. iv_observation_json m = Some ob \<longrightarrow> validate_observation ob = Inr ob
          \<and> eo_trust_label ob = ''untrusted_tool_output'' \<and> eo_request_id ob = iv_request_id m)
     \<and> pd_authorization (iv_policy_decision_json m) = PERMIT"

definition audit_inv :: "broker_state \<Rightarrow> bool" where
  "audit_inv st \<longleftrightarrow> distinct (map (\<lambda>m. (iv_task_run_id m, iv_request_id m)) (bk_invocations st))
     \<and> (\<forall>m \<in> set (bk_invocations st). audit_ok m)"

definition broker_inv :: "broker_state \<Rightarrow> bool" where
  "broker_inv st \<longleftrightarrow> ledger_inv (bk_budget st) \<and> no_overrun (bk_budget st) \<and> audit_inv st"

text \<open>The audit row of a fresh call before and after, and its invocation.\<close>

definition fresh_invocation ::
  "hash_env \<Rightarrow> (int \<Rightarrow> string) \<Rightarrow> capability_broker \<Rightarrow> execution_envelope \<Rightarrow> capability_request \<Rightarrow> invocation_grants
     \<Rightarrow> admitted_call \<Rightarrow> broker_clock \<Rightarrow> capability_invocation" where
  "fresh_invocation E show_time B env q grants call ck =
     invocation_of E q grants (invocation_plan_of E env q call)
       (decision_ref E show_time (kb_policy B) (ac_policy_request call) (ac_decision call)) (ck_started ck)"

definition fresh_row ::
  "hash_env \<Rightarrow> (int \<Rightarrow> string) \<Rightarrow> capability_broker \<Rightarrow> execution_envelope \<Rightarrow> capability_request \<Rightarrow> invocation_grants
     \<Rightarrow> admitted_call \<Rightarrow> broker_clock \<Rightarrow> invocation_row" where
  "fresh_row E show_time B env q grants call ck =
     running_audit q call (invocation_plan_of E env q call) (fresh_invocation E show_time B env q grants call ck)"

text \<open>
  For the concrete instances: a run with ten tool calls left asks once for the registered capability;
  one executor answers, one raises and one reports twice the estimate.
\<close>

definition sample_ledger :: budget_ledger where
  "sample_ledger = state_of (create_account sample_hash empty_ledger ''b1'' [(''tokens'', 10)] None None 1) empty_ledger"

definition sample_broker :: capability_broker where
  "sample_broker = \<lparr>kb_registry = sample_registry, kb_policy = sample_visibility_engine\<rparr>"

definition sample_state :: broker_state where
  "sample_state = \<lparr>bk_budget = sample_ledger, bk_invocations = []\<rparr>"

definition sample_capability_request :: capability_request where
  "sample_capability_request =
     \<lparr>rq_request_id = ''q1'', rq_task_contract_id = ''t1'', rq_task_run_id = ''r1'', rq_case_id = None,
      rq_principal = ''svc'', rq_capability_id = ''cap'', rq_contract_revision = 1, rq_action = ''lookup'',
      rq_resource = ''cve:1'', rq_resource_type = ''cve'', rq_canonical_arguments = [(''id'', JStr ''1'')],
      rq_intended_effect = OBSERVATION, rq_evidence_purpose = None, rq_execution_context = []\<rparr>"

definition sample_grants :: invocation_grants where
  "sample_grants = \<lparr>ig_fulfilled_obligation_kinds = [], ig_credential_grant_ref = None,
     ig_network_grant_ref = None, ig_sandbox_instance_ref = None\<rparr>"

definition sample_clock :: broker_clock where
  "sample_clock = \<lparr>ck_gate = 1, ck_reserved = 2, ck_started = 3, ck_committed = 4, ck_observed = 5, ck_finished = 6\<rparr>"

definition sample_native :: "rat \<Rightarrow> native_execution_result" where
  "sample_native spent =
     \<lparr>nx_status = CR_SUCCEEDED, nx_canonical_output_ref = Some ''artifact:1'', nx_raw_artifact_ref = None,
      nx_effect_receipt_ref = None, nx_observation_class = ''ephemeral'', nx_provenance = [], nx_latency = [],
      nx_cost = [], nx_consumed_budget = [(''tokens'', spent)], nx_failure_code = None,
      nx_failure_detail = None, nx_extracted_candidates = [], nx_trust_label = ''confirmed'',
      nx_observation_ttl_seconds = 900\<rparr>"

abbreviation sample_invoke :: "capability_executor \<Rightarrow> (invocation_outcome \<times> broker_state) res" where
  "sample_invoke executor \<equiv> invoke sample_hash (\<lambda>_. []) sample_broker sample_state
     (sample_contract ''t1'' (sample_ceiling 1) INTERNAL_STATE) (sample_envelope ''x'' None [''cap''] 9000000)
     sample_capability_request executor [(''tokens'', 4)] sample_grants None None 30 sample_clock"

section \<open>Lemmas on the broker\<close>

lemma validate_plan_ok [res_simps]:
  "validate_plan p = Inr p' \<longleftrightarrow> p' = p \<and> \<not> dt_naive (ip_deadline_at p)"
  by (auto simp: validate_plan_def res_simps)

lemma validate_observation_same: "validate_observation ob = Inr ob' \<Longrightarrow> ob' = ob"
  by (auto simp: validate_observation_def res_simps split: option.splits)

lemma evaluate_revision: "evaluate eng q = Inr d \<Longrightarrow> validate_revision d = Inr d"
proof -
  assume e: "evaluate eng q = Inr d"
  then have nb: "\<not> blank (pe_policy_revision eng)"
    by (auto simp: evaluate_def combine_deny_overrides_def Let_def res_simps validate_revision_def split: if_splits)
  obtain d' where "evaluate eng q = Inr d'" "pd_policy_revision d' = pe_policy_revision eng"
    by (rule evaluate_ok [OF nb])
  with e nb show ?thesis by (simp add: validate_revision_def)
qed

lemma admit_call_ok:
  assumes "admit_call E B task env q grants hs cl now = Inr call"
  shows "ee_task_run_id env = rq_task_run_id q" "ee_task_contract_id env = rq_task_contract_id q"
    "ee_case_id env = rq_case_id q" "ee_policy_revision env = pe_policy_revision (kb_policy B)"
    "rq_capability_id q \<in> set (ee_capability_scope env)" "\<not> dt_naive (ee_deadline_at env)"
    "now < dt_us (ee_deadline_at env)"
    "registry_contract (kb_registry B) (rq_capability_id q) (rq_contract_revision q) = Inr (ac_contract call)"
    "validate_capability_request task (ac_contract call) q = []"
    "resolve_binding (kb_registry B) (ac_contract call) hs cl = Inr (ac_binding call, ac_implementation call)"
    "ac_policy_request call
       = invocation_policy_request env q (canonical_arguments_digest E (rq_canonical_arguments q))"
    "evaluate (kb_policy B) (ac_policy_request call) = Inr (ac_decision call)"
    "pd_authorization (ac_decision call) = PERMIT"
    "set (required_grants (ac_decision call)) \<subseteq> set (ig_fulfilled_obligation_kinds grants)"
proof -
  have vr: "validate_request x = Inr y \<Longrightarrow> y = x" for x y
    by (auto simp: validate_request_def res_simps split: if_splits)
  from assms obtain pq where "check_envelope B env q now = Inr ()"
    and "registry_contract (kb_registry B) (rq_capability_id q) (rq_contract_revision q) = Inr (ac_contract call)"
    "validate_capability_request task (ac_contract call) q = []"
    "resolve_binding (kb_registry B) (ac_contract call) hs cl = Inr (ac_binding call, ac_implementation call)"
    "validate_request (invocation_policy_request env q (canonical_arguments_digest E (rq_canonical_arguments q))) = Inr pq"
    "ac_policy_request call = pq" "evaluate (kb_policy B) pq = Inr (ac_decision call)"
    "check_decision (ac_decision call) grants = Inr ()"
    by (auto simp: admit_call_def Let_def res_simps)
  moreover from calculation(1) have "ee_task_run_id env = rq_task_run_id q"
    "ee_task_contract_id env = rq_task_contract_id q"
    "ee_case_id env = rq_case_id q" "ee_policy_revision env = pe_policy_revision (kb_policy B)"
    "rq_capability_id q \<in> set (ee_capability_scope env)" "\<not> dt_naive (ee_deadline_at env)"
    "now < dt_us (ee_deadline_at env)"
    by (simp_all add: check_envelope_def res_simps)
  moreover from calculation(8) have "pd_authorization (ac_decision call) = PERMIT"
    "set (required_grants (ac_decision call)) \<subseteq> set (ig_fulfilled_obligation_kinds grants)"
    by (simp_all add: check_decision_def res_simps)
  ultimately show "ee_task_run_id env = rq_task_run_id q" "ee_task_contract_id env = rq_task_contract_id q"
    "ee_case_id env = rq_case_id q" "ee_policy_revision env = pe_policy_revision (kb_policy B)"
    "rq_capability_id q \<in> set (ee_capability_scope env)" "\<not> dt_naive (ee_deadline_at env)"
    "now < dt_us (ee_deadline_at env)"
    "registry_contract (kb_registry B) (rq_capability_id q) (rq_contract_revision q) = Inr (ac_contract call)"
    "validate_capability_request task (ac_contract call) q = []"
    "resolve_binding (kb_registry B) (ac_contract call) hs cl = Inr (ac_binding call, ac_implementation call)"
    "ac_policy_request call
       = invocation_policy_request env q (canonical_arguments_digest E (rq_canonical_arguments q))"
    "evaluate (kb_policy B) (ac_policy_request call) = Inr (ac_decision call)"
    "pd_authorization (ac_decision call) = PERMIT"
    "set (required_grants (ac_decision call)) \<subseteq> set (ig_fulfilled_obligation_kinds grants)"
    using vr by blast+
qed

lemma running_audit_ids [simp]:
  "iv_invocation_id (running_audit q call plan i) = ci_invocation_id i"
  "iv_invocation_id (finish_audit m r ob now) = iv_invocation_id m"
  by (simp_all add: running_audit_def finish_audit_def)

lemma invoke_cases:
  assumes "invoke E show_time B st task env q executor estimated grants hs cl tmo ck = Inr (oc, st')"
  obtains (replay) m where "find_invocation st (rq_task_run_id q) (rq_request_id q) = Some m"
      "replay_outcome m = Inr oc" "st' = st"
  | (fresh) call r1 L1 r2 L2 timeout consumed result observation where
      "find_invocation st (rq_task_run_id q) (rq_request_id q) = None"
      "admit_call E B task env q grants hs cl (ck_gate ck) = Inr call"
      "reserve E (bk_budget st) (ee_budget_ref env) (reservation_group_of q) estimated None (ck_reserved ck) = Inr (r1, L1)"
      "bounded_timeout_seconds env (Aware (ck_started ck)) tmo = Inr timeout"
      "executed_call E q (ac_implementation call)
         (ci_invocation_id (fresh_invocation E show_time B env q grants call ck)) estimated (ck_observed ck)
         (executor (ac_implementation call) (map_native_arguments (rq_canonical_arguments q)
            (cb_canonical_to_native_args (ac_binding call))) timeout) = (consumed, result, Inr observation)"
      "commit L1 (ee_budget_ref env) (reservation_group_of q) consumed False (ck_committed ck) = Inr (r2, L2)"
      "oc = \<lparr>oc_invocation = fresh_invocation E show_time B env q grants call ck,
         oc_plan = invocation_plan_of E env q call, oc_policy_decision = ac_decision call,
         oc_result = result, oc_observation = observation, oc_replay = False\<rparr>"
      "st' = \<lparr>bk_budget = L2, bk_invocations = bk_invocations st
         @ [finish_audit (fresh_row E show_time B env q grants call ck) result observation (ck_finished ck)]\<rparr>"
proof (cases "find_invocation st (rq_task_run_id q) (rq_request_id q)")
  case (Some m)
  with assms show ?thesis by (intro replay [of m]) (auto simp: invoke_def res_simps)
next
  case None
  let ?inv = "fresh_invocation E show_time B env q grants"
  let ?row = "fresh_row E show_time B env q grants"
  let ?group = "reservation_group_of q"
  let ?answer = "\<lambda>call timeout. executed_call E q (ac_implementation call) (ci_invocation_id (?inv call ck)) estimated
    (ck_observed ck) (executor (ac_implementation call) (map_native_arguments (rq_canonical_arguments q)
       (cb_canonical_to_native_args (ac_binding call))) timeout)"
  note unf = invoke_def Let_def fresh_row_def fresh_invocation_def
  from assms None obtain call where 1: "admit_call E B task env q grants hs cl (ck_gate ck) = Inr call"
    by (cases "admit_call E B task env q grants hs cl (ck_gate ck)") (auto simp: invoke_def)
  from assms None 1 obtain r1 L1 where r:
    "reserve E (bk_budget st) (ee_budget_ref env) ?group estimated None (ck_reserved ck) = Inr (r1, L1)"
    by (cases "reserve E (bk_budget st) (ee_budget_ref env) ?group estimated None (ck_reserved ck)") (auto simp: invoke_def)
  have p: "validate_plan (invocation_plan_of E env q call) = Inr (invocation_plan_of E env q call)"
    using admit_call_ok(6) [OF 1] by (simp add: validate_plan_def invocation_plan_of_def Let_def)
  from assms None 1 r p obtain rows where 2: "tab_add iv_invocation_id (?row call ck) (bk_invocations st) = Inr rows"
    by (cases "tab_add iv_invocation_id (?row call ck) (bk_invocations st)") (auto simp: unf)
  from assms None 1 r p 2 obtain timeout where 3: "bounded_timeout_seconds env (Aware (ck_started ck)) tmo = Inr timeout"
    by (cases "bounded_timeout_seconds env (Aware (ck_started ck)) tmo") (auto simp: unf)
  obtain consumed result built where x: "?answer call timeout = (consumed, result, built)" by (metis prod_cases3)
  from assms None 1 r p 2 3 x obtain r2 L2 where c:
    "commit L1 (ee_budget_ref env) ?group consumed False (ck_committed ck) = Inr (r2, L2)"
    by (cases "commit L1 (ee_budget_ref env) ?group consumed False (ck_committed ck)") (auto simp: unf)
  from assms None 1 r p 2 3 x c obtain observation where o: "built = Inr observation"
    by (cases built) (auto simp: unf)
  from assms None 1 r p 2 3 x c o have
    5: "oc = \<lparr>oc_invocation = ?inv call ck, oc_plan = invocation_plan_of E env q call,
         oc_policy_decision = ac_decision call, oc_result = result, oc_observation = observation, oc_replay = False\<rparr>"
    and 6: "st' = \<lparr>bk_budget = L2, bk_invocations = tab_put iv_invocation_id
         (finish_audit (?row call ck) result observation (ck_finished ck)) rows\<rparr>"
    by (auto simp: unf)
  from 2 have "tab_put iv_invocation_id (finish_audit (?row call ck) result observation (ck_finished ck)) rows
      = bk_invocations st @ [finish_audit (?row call ck) result observation (ck_finished ck)]"
    by (auto simp: res_simps fresh_row_def intro!: tab_put_last)
  with 6 have "st' = \<lparr>bk_budget = L2, bk_invocations = bk_invocations st
      @ [finish_audit (?row call ck) result observation (ck_finished ck)]\<rparr>" by simp
  with None 1 r 3 x c o 5 show ?thesis by (intro fresh) auto
qed

lemma executed_call_observation:
  assumes "executed_call E q t i estimated now answer = (consumed, result, Inr (Some ob))"
  shows "validate_observation ob = Inr ob" "eo_trust_label ob = ''untrusted_tool_output''"
    "eo_request_id ob = rq_request_id q" "eo_capability_id ob = rq_capability_id q"
    "cr_status result = CR_SUCCEEDED \<or> cr_status result = CR_PARTIAL"
proof -
  from assms obtain native where o: "ephemeral_observation_of E q t result native now = Inr (Some ob)"
    by (auto simp: executed_call_def Let_def split: sum.splits)
  then obtain ob' where "validate_observation ob' = Inr ob" "eo_trust_label ob' = ''untrusted_tool_output''"
    "eo_request_id ob' = rq_request_id q" "eo_capability_id ob' = rq_capability_id q"
    and s: "cr_status result = CR_SUCCEEDED \<or> cr_status result = CR_PARTIAL"
    by (force simp: ephemeral_observation_of_def res_simps split: if_splits option.splits)
  moreover from this validate_observation_same have "ob' = ob" by blast
  ultimately show "validate_observation ob = Inr ob" "eo_trust_label ob = ''untrusted_tool_output''"
    "eo_request_id ob = rq_request_id q" "eo_capability_id ob = rq_capability_id q"
    "cr_status result = CR_SUCCEEDED \<or> cr_status result = CR_PARTIAL" by auto
qed

lemma fresh_row_audit_ok:
  assumes call: "admit_call E B task env q grants hs cl now = Inr call"
    and x: "executed_call E q t i estimated obs answer = (consumed, result, Inr observation)"
  shows "audit_ok (finish_audit (fresh_row E show_time B env q grants call ck) result observation fin)"
  using admit_call_ok [OF call] evaluate_revision executed_call_observation x
  by (auto simp: audit_ok_def finish_audit_def fresh_row_def running_audit_def invocation_plan_of_def
      validate_plan_def Let_def)

lemma replay_outcome_ok:
  assumes "audit_ok m"
  obtains result where "iv_result_json m = Some result"
    "replay_outcome m = Inr \<lparr>oc_invocation = \<lparr>ci_invocation_id = iv_invocation_id m,
         ci_invocation_plan_id = ip_invocation_plan_id (iv_plan_json m),
         ci_policy_decision_ref = iv_policy_decision_ref m, ci_credential_grant_ref = None,
         ci_network_grant_ref = None, ci_sandbox_instance_ref = None, ci_started_at = iv_started_at m\<rparr>,
       oc_plan = iv_plan_json m, oc_policy_decision = iv_policy_decision_json m, oc_result = result,
       oc_observation = iv_observation_json m, oc_replay = True\<rparr>"
proof -
  from assms have "opt_res validate_observation (iv_observation_json m) = Inr (iv_observation_json m)"
    by (cases "iv_observation_json m") (auto simp: audit_ok_def)
  with assms that show ?thesis by (auto simp: audit_ok_def replay_outcome_def)
qed

lemma find_invocation_snoc:
  "find_invocation \<lparr>bk_budget = L, bk_invocations = rows @ [m]\<rparr> run req =
     (case find_invocation \<lparr>bk_budget = L', bk_invocations = rows\<rparr> run req of
        Some x \<Rightarrow> Some x
      | None \<Rightarrow> if iv_task_run_id m = run \<and> iv_request_id m = req then Some m else None)"
  by (induction rows) (auto simp: find_invocation_def)

lemma find_invocation_None:
  "find_invocation st run req = None \<longleftrightarrow> (run, req) \<notin> set (map (\<lambda>m. (iv_task_run_id m, iv_request_id m)) (bk_invocations st))"
  by (auto simp: find_invocation_def find_None_iff)

lemma find_invocation_Some:
  "find_invocation st run req = Some m \<Longrightarrow>
     m \<in> set (bk_invocations st) \<and> iv_task_run_id m = run \<and> iv_request_id m = req"
  by (auto simp: find_invocation_def find_Some_iff)

lemma invocation_kept:
  assumes "audit_step st st'" "find_invocation st run req = Some m"
  shows "find_invocation st' run req = Some m"
  using assms(1)
proof cases
  case (call E show_time B task env q executor estimated grants hs cl tmo ck oc)
  then show ?thesis
  proof (cases rule: invoke_cases)
    case (fresh call r1 L1 r2 L2 timeout consumed result observation)
    have "find_invocation \<lparr>bk_budget = L2, bk_invocations = bk_invocations st\<rparr> run req = Some m"
      using assms(2) by (simp add: find_invocation_def)
    then show ?thesis unfolding fresh(8) find_invocation_snoc [of L2 _ _ _ _ L2] by simp
  qed (use assms(2) in simp)
next
  case ledger
  then show ?thesis using assms(2) by (simp add: find_invocation_def)
qed

interpretation invocation_log: stable_lookup audit_step "\<lambda>st (run, req). find_invocation st run req"
  by unfold_locales (auto intro: invocation_kept)

lemma fresh_row_ids [simp]:
  "iv_task_run_id (finish_audit (fresh_row E show_time B env q grants call ck) r ob now) = rq_task_run_id q"
  "iv_request_id (finish_audit (fresh_row E show_time B env q grants call ck) r ob now) = rq_request_id q"
  by (simp_all add: finish_audit_def fresh_row_def running_audit_def)

lemma audit_inv_step:
  assumes "audit_inv st" "audit_step st st'"
  shows "audit_inv st'"
  using assms(2)
proof cases
  case (call E show_time B task env q executor estimated grants hs cl tmo ck oc)
  then show ?thesis
  proof (cases rule: invoke_cases)
    case (fresh call r1 L1 r2 L2 timeout consumed result observation)
    have "audit_ok (finish_audit (fresh_row E show_time B env q grants call ck) result observation (ck_finished ck))"
      by (rule fresh_row_audit_ok [OF fresh(2,5)])
    moreover have "(rq_task_run_id q, rq_request_id q) \<notin> set (map (\<lambda>m. (iv_task_run_id m, iv_request_id m)) (bk_invocations st))"
      by (rule find_invocation_None [THEN iffD1, OF fresh(1)])
    ultimately show ?thesis using assms(1) unfolding fresh(8) by (auto simp: audit_inv_def)
  qed (use assms(1) in simp)
next
  case ledger
  then show ?thesis using assms(1) by (simp add: audit_inv_def)
qed

interpretation audit_table: invariant_system "\<lambda>st. bk_invocations st = []" audit_step audit_inv
proof (unfold_locales, goal_cases)
  case (1 st)
  then show ?case by (simp add: audit_inv_def)
next
  case (2 st st')
  then show ?case by (rule audit_inv_step)
qed

lemma broker_inv_step:
  assumes "broker_inv st" "broker_step E show_time B st st'"
  shows "broker_inv st'"
  using assms(2)
proof cases
  case (invoke estimated task env q executor grants hs cl tmo ck oc)
  have "audit_inv st'" using assms(1) audit_inv_step [OF _ audit_step.call [OF invoke(2)]] by (simp add: broker_inv_def)
  from invoke(2) show ?thesis
  proof (cases rule: invoke_cases)
    case (fresh call r1 L1 r2 L2 timeout consumed result observation)
    have "(ledger_inv L2 \<and> no_overrun L2) \<and> group_settled L2 (ee_budget_ref env, reservation_group_of q)"
      using spending.spend [of "bk_budget st" E "(ee_budget_ref env, reservation_group_of q)" L1 L2]
        fresh(3,6) invoke(1) assms(1) by (auto simp: broker_inv_def)
    with \<open>audit_inv st'\<close> show ?thesis unfolding broker_inv_def by (simp add: fresh(8))
  qed (use assms(1) in simp)
qed

interpretation broker_tables: invariant_system "\<lambda>st. bk_invocations st = [] \<and> ledger_inv (bk_budget st) \<and> no_overrun (bk_budget st)"
  "broker_step E show_time B" broker_inv for E show_time B
proof (unfold_locales, goal_cases)
  case (1 st)
  then show ?case by (simp add: broker_inv_def audit_inv_def)
next
  case (2 st st')
  then show ?case by (rule broker_inv_step)
qed

text \<open>Committing an amount within each reservation of a group that is reserved succeeds.\<close>

lemma commit_loop_reserved:
  "\<forall>m \<in> set ms. br_status m = RESERVED \<and> 0 \<le> qty consumed (br_resource_type m)
      \<and> qty consumed (br_resource_type m) \<le> br_amount_reserved m \<Longrightarrow>
     \<exists>rows. commit_loop consumed ov now acc ms = Inr (False, rows)"
proof (induction ms arbitrary: acc)
  case (Cons m ms)
  then show ?case by (auto simp: raise_if_def Let_def)
qed simp

lemma commit_fresh_reservation:
  assumes "reserve E L a g q child now = Inr (r, M)" "group_rows L a g = []" "distinct (map fst q)"
  shows "\<exists>r' N. commit M a g q False now' = Inr (r', N)"
  using assms(1)
proof (cases rule: reserve_cases)
  case (2 acct snap)
  have "group_rows M a g = map (new_reservation E a g child now) (sort_key fst q)"
    using assms(2) by (simp add: 2(7) group_rows_def new_reservation_def filter_map o_def)
  then have lg: "lock_group M a g = Inr (sort_key br_resource_type (map (new_reservation E a g child now) (sort_key fst q)))"
    (is "_ = Inr ?ms") using 2(6) by (simp add: lock_group_def Let_def raise_if_def) (metis length_0_conv length_map length_sort)
  have rows: "m \<in> set ?ms \<longleftrightarrow> (\<exists>k v. (k, v) \<in> set q \<and> m = new_reservation E a g child now (k, v))" for m by auto
  have "\<forall>m \<in> set ?ms. br_status m = RESERVED \<and> 0 \<le> qty q (br_resource_type m)
      \<and> qty q (br_resource_type m) \<le> br_amount_reserved m"
    unfolding Ball_def rows using 2(5) assms(3)
    by (auto simp: new_reservation_def qty_def map_of_is_SomeI less_imp_le)
  from commit_loop_reserved [OF this, of False now' "[]"] obtain rows' where
    "commit_loop q False now' [] ?ms = Inr (False, rows')" by blast
  moreover have "set (map fst q) \<subseteq> set (map br_resource_type ?ms)"
    by (force simp: rows image_iff new_reservation_def)
  ultimately show ?thesis by (simp add: commit_def lg)
qed (use assms(2) in simp)

text \<open>Without leave to overrun, a group that is within its reservations stays within them.\<close>

lemma reserve_within:
  assumes "ledger_inv L" "reserve E L a g q child now = Inr (r, M)"
    "\<forall>r \<in> set (group_rows L a g). br_amount_committed r \<le> br_amount_reserved r"
  shows "\<forall>r \<in> set (group_rows M a g). br_amount_committed r \<le> br_amount_reserved r"
  using assms(2)
proof (cases rule: reserve_cases)
  case (2 acct snap)
  have "0 \<le> snd x" if "x \<in> set q" for x using 2(5) that by (auto simp: less_imp_le)
  then show ?thesis using assms(3) by (auto simp: 2(7) group_rows_def new_reservation_def)
qed (use assms(3) in simp)

lemma commit_within:
  assumes inv: "ledger_inv L" and "commit L a g consumed False now = Inr (r, M)"
    and "\<forall>r \<in> set (group_rows L a g). br_amount_committed r \<le> br_amount_reserved r"
  shows "\<forall>r \<in> set (group_rows M a g). br_amount_committed r \<le> br_amount_reserved r"
proof
  from assms(2) obtain ms replay rows where ms: "lock_group L a g = Inr ms"
    and loop: "commit_loop consumed False now [] ms = Inr (replay, rows)" and M: "M = put_rows L rows"
    by (auto simp: commit_def res_simps)
  note lg = lock_group_ok [OF ms] and ls = commit_loop_settles [OF loop]
  have dist: "distinct (map br_reservation_id (bg_reservations L))" using inv by (simp add: ledger_inv_def)
  have settle: "list_all2 row_settles ms rows"
    using ls by (auto elim!: list_all2_mono intro: row_settles_commit)
  then have ids: "map br_reservation_id rows = map br_reservation_id ms"
    by (induction rule: list_all2_induct) (auto simp: row_settles_def row_identity_eq)
  fix x assume x: "x \<in> set (group_rows M a g)"
  with group_rows_settles [OF commit_settles(1) [OF inv assms(2)], of a g] obtain m where
    m: "m \<in> set (group_rows L a g)" "row_settles m x"
    by (metis in_set_conv_nth list_all2_conv_all_nth)
  then have "br_reservation_id x \<in> set (map br_reservation_id rows)"
    unfolding ids lg(1) by (auto simp: row_settles_def row_identity_eq)
  moreover have "x \<in> set (bg_reservations (put_rows L rows))" using x by (simp add: group_rows_def M)
  moreover have "distinct (map br_reservation_id rows)" unfolding ids by (rule lg(4) [OF dist])
  ultimately have "x \<in> set rows" using put_rows_in [of rows x L] by auto
  with ls obtain y where "y \<in> set ms" "x = y \<or>
      (x = committed_row y (qty consumed (br_resource_type y)) now \<and> qty consumed (br_resource_type y) \<le> br_amount_reserved y)"
    by (fastforce simp: list_all2_conv_all_nth in_set_conv_nth)
  then show "br_amount_committed x \<le> br_amount_reserved x"
    using assms(3) lg(1) by (auto simp: committed_row_def)
qed

text \<open>A call that passes the gates and holds its budget reaches the executor.\<close>

lemma invoke_reaches_executor:
  assumes "find_invocation st (rq_task_run_id q) (rq_request_id q) = None"
    and call: "admit_call E B task env q grants hs cl (ck_gate ck) = Inr call"
    and "reserve E (bk_budget st) (ee_budget_ref env) (reservation_group_of q) estimated None (ck_reserved ck) = Inr (r1, L1)"
    and new: "stable_id E (''capability-invocation:'' @ rq_task_run_id q @ '':'' @ rq_request_id q)
      \<notin> set (map iv_invocation_id (bk_invocations st))"
    and "bounded_timeout_seconds env (Aware (ck_started ck)) tmo = Inr timeout"
    and "executed_call E q (ac_implementation call)
         (ci_invocation_id (fresh_invocation E show_time B env q grants call ck)) estimated (ck_observed ck)
         (executor (ac_implementation call) (map_native_arguments (rq_canonical_arguments q)
            (cb_canonical_to_native_args (ac_binding call))) timeout) = (consumed, result, Inr observation)"
    and "commit L1 (ee_budget_ref env) (reservation_group_of q) consumed False (ck_committed ck) = Inr (r2, L2)"
  shows "invoke E show_time B st task env q executor estimated grants hs cl tmo ck =
    Inr (\<lparr>oc_invocation = fresh_invocation E show_time B env q grants call ck,
         oc_plan = invocation_plan_of E env q call, oc_policy_decision = ac_decision call,
         oc_result = result, oc_observation = observation, oc_replay = False\<rparr>,
       \<lparr>bk_budget = L2, bk_invocations = bk_invocations st
         @ [finish_audit (fresh_row E show_time B env q grants call ck) result observation (ck_finished ck)]\<rparr>)"
proof -
  let ?row = "fresh_row E show_time B env q grants call ck"
  have id: "iv_invocation_id ?row \<notin> set (map iv_invocation_id (bk_invocations st))"
    using new by (simp add: fresh_row_def fresh_invocation_def invocation_of_def)
  have "tab_add iv_invocation_id ?row (bk_invocations st) = Inr (bk_invocations st @ [?row])"
    by (rule tab_add_fresh [OF id])
  moreover have "tab_put iv_invocation_id (finish_audit ?row result observation (ck_finished ck)) (bk_invocations st @ [?row])
      = bk_invocations st @ [finish_audit ?row result observation (ck_finished ck)]"
    using id by (intro tab_put_last) (simp_all add: fresh_row_def)
  moreover have "validate_plan (invocation_plan_of E env q call) = Inr (invocation_plan_of E env q call)"
    using admit_call_ok(6) [OF call] by (simp add: validate_plan_def invocation_plan_of_def Let_def)
  ultimately show ?thesis using assms(1-3,5-7)
    by (simp add: invoke_def Let_def fresh_row_def fresh_invocation_def)
qed

section \<open>A concrete call\<close>

lemma sample_ledger_val: "sample_ledger = \<lparr>bg_accounts = [new_account ''b1'' [(''tokens'', 10)] None None 1], bg_reservations = []\<rparr>"
  by (simp add: sample_ledger_def budget_eval)

lemma sample_ledger_reachable: "(ledger_step sample_hash)\<^sup>*\<^sup>* empty_ledger sample_ledger"
proof -
  have "\<not> isl (create_account sample_hash empty_ledger ''b1'' [(''tokens'', 10)] None None 1)"
    by (simp add: budget_eval)
  from ledger_step.create [OF sample_limits state_of_Inr [OF this, of empty_ledger]]
  show ?thesis by (auto simp: sample_ledger_def)
qed

lemma sample_no_overrun: "no_overrun sample_ledger"
  by (simp add: sample_ledger_val no_overrun_def)

lemma sample_broker_inv: "broker_inv sample_state"
  using budget_tables.inv_reachable [OF refl sample_ledger_reachable] sample_no_overrun
  by (simp add: broker_inv_def audit_inv_def sample_state_def)

lemma sample_reserve:
  "\<exists>r L. reserve sample_hash (bk_budget sample_state) ''b1'' ''capability:r1:q1'' [(''tokens'', 4)] None 2 = Inr (r, L)"
  by (simp add: sample_state_def sample_ledger_val budget_eval)

lemma sample_group_new: "group_rows (bk_budget sample_state) ''b1'' ''capability:r1:q1'' = []"
  by (simp add: sample_state_def sample_ledger_val group_rows_def)

lemma sample_admit:
  "\<exists>call. admit_call sample_hash sample_broker (sample_contract ''t1'' (sample_ceiling 1) INTERNAL_STATE)
     (sample_envelope ''x'' None [''cap''] 9000000) sample_capability_request sample_grants None None (ck_gate sample_clock)
   = Inr call"
proof -
  let ?env = "sample_envelope ''x'' None [''cap''] 9000000" and ?q = sample_capability_request
  let ?c = "sample_capability ''cap'' OBSERVATION"
  let ?pq = "invocation_policy_request ?env ?q (canonical_arguments_digest sample_hash (rq_canonical_arguments ?q))"
  have "check_envelope sample_broker ?env ?q (ck_gate sample_clock) = Inr ()"
    by (simp add: check_envelope_def sample_envelope_def sample_capability_request_def sample_broker_def
        sample_visibility_engine_def sample_engine_def sample_clock_def dt_naive_def)
  moreover have "registry_contract (kb_registry sample_broker) (rq_capability_id ?q) (rq_contract_revision ?q) = Inr ?c"
    by (simp add: registry_contract_def sample_broker_def sample_registry_defs sample_capability_request_def)
  moreover have "validate_capability_request (sample_contract ''t1'' (sample_ceiling 1) INTERNAL_STATE) ?c ?q = []"
    by (simp add: validate_capability_request_def sample_contract_def sample_capability_def
        sample_capability_request_def capability_visible_for_task_def required_effect_ceiling_def effect_within_ceiling_def)
  moreover obtain b t where "resolve_binding (kb_registry sample_broker) ?c None None = Inr (b, t)"
    using resolve_binding_spec [OF new_registry_valid [OF sample_registry_new], of ?c None None]
    by (auto simp: sample_broker_def resolve_binding_def eligible_bindings_def sample_registry_defs
        registry_implementation_def binding_eligible_def)
  moreover have "validate_request ?pq = Inr ?pq"
    by (simp add: validate_request_def invocation_policy_request_def sample_capability_request_def has_key_def)
      (simp add: blank_iff is_space_def)
  moreover obtain d where "evaluate (kb_policy sample_broker) ?pq = Inr d" "check_decision d sample_grants = Inr ()"
  proof -
    have "evaluate (kb_policy sample_broker) ?pq = Inr d \<Longrightarrow> check_decision d sample_grants = Inr ()" for d
      by (auto simp: evaluate_def Let_def sample_broker_def sample_visibility_engine_def sample_engine_def sample_rule_def
        rule_matches_def invocation_policy_request_def matches_any_def fnmatchcase_def rule_decisions_def
        combine_deny_overrides_def with_authorization_def validate_revision_def res_simps check_decision_def
        required_grants_def raise_if_def)
    moreover obtain d where "evaluate (kb_policy sample_broker) ?pq = Inr d"
      by (rule evaluate_ok [of "kb_policy sample_broker" ?pq])
        (auto simp: sample_broker_def sample_visibility_engine_def sample_engine_def)
    ultimately show ?thesis using that by blast
  qed
  ultimately show ?thesis by (simp add: admit_call_def Let_def)
qed

lemma sample_group_of: "reservation_group_of sample_capability_request = ''capability:r1:q1''"
  by (simp add: reservation_group_of_def sample_capability_request_def)

lemma sample_find: "find_invocation sample_state run req = None"
  by (simp add: find_invocation_def sample_state_def)

lemma sample_answer:
  "\<exists>observation. executed_call sample_hash sample_capability_request t i est now (Inr (sample_native x))
     = ([(''tokens'', x)], native_result_of i (sample_native x), Inr observation)"
proof -
  have "\<not> blank (''tool:'' @ s)" "\<not> blank (stable_id sample_hash (''ephemeral-observation:'' @ s))" for s
    by (simp_all add: blank_iff is_space_def sample_hash_def stable_id_def)
  then show ?thesis
    by (simp add: executed_call_def Let_def ephemeral_observation_of_def native_result_of_def sample_native_def
        str_or_def validate_observation_def dt_naive_def sample_capability_request_def blank_append)
      (simp add: blank_iff is_space_def)
qed

lemma sample_invoke_ok: "\<exists>oc st'. sample_invoke (\<lambda>_ _ _. Inr (sample_native 4)) = Inr (oc, st') \<and> \<not> oc_replay oc"
proof -
  let ?env = "sample_envelope ''x'' None [''cap''] 9000000"
  have env: "ee_budget_ref ?env = ''b1''" by (simp add: sample_envelope_def)
  obtain call where call: "admit_call sample_hash sample_broker (sample_contract ''t1'' (sample_ceiling 1) INTERNAL_STATE)
      ?env sample_capability_request sample_grants None None (ck_gate sample_clock) = Inr call"
    using sample_admit by blast
  obtain r L where r: "reserve sample_hash (bk_budget sample_state) (ee_budget_ref ?env)
      (reservation_group_of sample_capability_request) [(''tokens'', 4)] None (ck_reserved sample_clock) = Inr (r, L)"
    using sample_reserve unfolding env sample_group_of by (auto simp: sample_clock_def)
  have g: "group_rows (bk_budget sample_state) (ee_budget_ref ?env) (reservation_group_of sample_capability_request) = []"
    unfolding env sample_group_of by (rule sample_group_new)
  have d: "distinct (map fst [(''tokens'', 4 :: rat)])" by simp
  from commit_fresh_reservation [OF r g d, of "ck_committed sample_clock"] obtain r2 L2 where c: "commit L (ee_budget_ref ?env)
      (reservation_group_of sample_capability_request) [(''tokens'', 4)] False (ck_committed sample_clock) = Inr (r2, L2)"
    by blast
  obtain timeout where tm: "bounded_timeout_seconds ?env (Aware (ck_started sample_clock)) 30 = Inr timeout"
    using bounded_timeout_bounds [of 30 ?env] by auto
  obtain observation where x: "executed_call sample_hash sample_capability_request (ac_implementation call)
      (ci_invocation_id (fresh_invocation sample_hash (\<lambda>_. []) sample_broker ?env sample_capability_request sample_grants
         call sample_clock)) [(''tokens'', 4)] (ck_observed sample_clock) (Inr (sample_native 4))
      = ([(''tokens'', 4)], native_result_of (ci_invocation_id (fresh_invocation sample_hash (\<lambda>_. []) sample_broker
           ?env sample_capability_request sample_grants call sample_clock)) (sample_native 4), Inr observation)"
    using sample_answer by blast
  from invoke_reaches_executor [where executor = "\<lambda>_ _ _. Inr (sample_native 4)", OF sample_find call r _ tm x c]
  show ?thesis by (simp add: sample_state_def)
qed

section \<open>Properties\<close>

text \<open>
  Claim C5: no tool runs outside its authority. When \<open>invoke\<close> returns an outcome that is not a
  replay, the request and the envelope name the same run, contract and case; the capability is in
  the envelope's scope and the deadline was ahead; the contract is registered, the task's principal
  asked, and the capability's effect is within the task's ceiling; the binding is the one the
  registry resolves; the policy permitted this request and every constraint and obligation it
  imposes is of a fulfilled kind; the budget was reserved; and exactly one audit row was added, with
  the request, the decision and the result. The result, the observation and the consumption that is committed are made of the
  executor's answer to a call with the resolved implementation, the mapped arguments and a timeout that, for a requested timeout that is
  not negative, is at most the requested one and ends by the deadline, or is zero when the deadline has passed by the start.
\<close>

theorem capability_call_gated:
  assumes "invoke E show_time B st task env q executor estimated grants hs cl tmo ck = Inr (oc, st')"
    and "\<not> oc_replay oc"
  shows "ee_task_run_id env = rq_task_run_id q \<and> ee_task_contract_id env = rq_task_contract_id q
    \<and> ee_case_id env = rq_case_id q \<and> rq_capability_id q \<in> set (ee_capability_scope env)
    \<and> ck_gate ck < dt_us (ee_deadline_at env) \<and> rq_principal q = tc_principal task
    \<and> rq_task_contract_id q = tc_task_contract_id task
    \<and> (\<exists>c b t d timeout consumed r L r' L'.
        registry_contract (kb_registry B) (rq_capability_id q) (rq_contract_revision q) = Inr c
        \<and> effect_within_ceiling (required_effect_ceiling c) (tc_effect_ceiling task)
        \<and> resolve_binding (kb_registry B) c hs cl = Inr (b, t)
        \<and> evaluate (kb_policy B) (invocation_policy_request env q
             (canonical_arguments_digest E (rq_canonical_arguments q))) = Inr d
        \<and> pd_authorization d = PERMIT
        \<and> set (map po_kind (pd_constraints d @ pd_obligations d)) \<subseteq> set (ig_fulfilled_obligation_kinds grants)
        \<and> (0 \<le> tmo \<longrightarrow> 0 \<le> timeout \<and> timeout \<le> tmo
             \<and> of_int (ck_started ck) + timeout * 1000000 \<le> max (of_int (ck_started ck)) (of_int (dt_us (ee_deadline_at env))))
        \<and> executed_call E q t (ci_invocation_id (oc_invocation oc)) estimated (ck_observed ck)
             (executor t (map_native_arguments (rq_canonical_arguments q) (cb_canonical_to_native_args b)) timeout)
           = (consumed, oc_result oc, Inr (oc_observation oc))
        \<and> reserve E (bk_budget st) (ee_budget_ref env) (reservation_group_of q) estimated None (ck_reserved ck) = Inr (r, L)
        \<and> commit L (ee_budget_ref env) (reservation_group_of q) consumed False (ck_committed ck) = Inr (r', L')
        \<and> bk_budget st' = L'
        \<and> (\<exists>m. bk_invocations st' = bk_invocations st @ [m] \<and> iv_request_json m = q
             \<and> iv_tool_impl_id m = im_tool_impl_id t \<and> iv_policy_decision_json m = d
             \<and> iv_result_json m = Some (oc_result oc) \<and> iv_observation_json m = oc_observation oc))"
  using assms(1)
proof (cases rule: invoke_cases)
  case (replay m)
  from replay(2) have "oc_replay oc" by (auto simp: replay_outcome_def res_simps split: option.splits)
  with assms(2) show ?thesis by simp
next
  case (fresh call r1 L1 r2 L2 timeout consumed result observation)
  note ok = admit_call_ok [OF fresh(2)]
  note vc = ok(9) [unfolded validate_capability_request_spec]
  let ?m = "finish_audit (fresh_row E show_time B env q grants call ck) result observation (ck_finished ck)"
  have tl: "0 \<le> tmo \<longrightarrow> 0 \<le> timeout \<and> timeout \<le> tmo
      \<and> of_int (ck_started ck) + timeout * 1000000 \<le> max (of_int (ck_started ck)) (of_int (dt_us (ee_deadline_at env)))"
    using bounded_timeout_bounds [of tmo env "ck_started ck"] fresh(4) by auto
  have x: "executed_call E q (ac_implementation call) (ci_invocation_id (oc_invocation oc)) estimated (ck_observed ck)
      (executor (ac_implementation call) (map_native_arguments (rq_canonical_arguments q)
         (cb_canonical_to_native_args (ac_binding call))) timeout) = (consumed, oc_result oc, Inr (oc_observation oc))"
    using fresh(5) by (simp add: fresh(7))
  have l: "bk_budget st' = L2" by (simp add: fresh(8))
  have m: "bk_invocations st' = bk_invocations st @ [?m] \<and> iv_request_json ?m = q
      \<and> iv_tool_impl_id ?m = im_tool_impl_id (ac_implementation call) \<and> iv_policy_decision_json ?m = ac_decision call
      \<and> iv_result_json ?m = Some (oc_result oc) \<and> iv_observation_json ?m = oc_observation oc"
    by (simp add: fresh(7,8) finish_audit_def fresh_row_def running_audit_def)
  have gr: "set (map po_kind (pd_constraints (ac_decision call) @ pd_obligations (ac_decision call)))
      \<subseteq> set (ig_fulfilled_obligation_kinds grants)"
    using ok(14) by (simp add: required_grants_def)
  show ?thesis using ok(1-3,5,7,8,10,12,13) vc fresh(3,6) tl x l m gr unfolding ok(11) by blast
qed

theorem capability_call_gated_witness:
  "\<exists>oc st'. sample_invoke (\<lambda>_ _ _. Inr (sample_native 4)) = Inr (oc, st')
     \<and> length (bk_invocations st') = 1 \<and> rq_capability_id sample_capability_request \<in> set [''cap'']"
proof -
  obtain oc st' where r: "sample_invoke (\<lambda>_ _ _. Inr (sample_native 4)) = Inr (oc, st')" "\<not> oc_replay oc"
    using sample_invoke_ok by blast
  from capability_call_gated [OF this] obtain m where "bk_invocations st' = bk_invocations sample_state @ [m]"
    and "rq_capability_id sample_capability_request \<in> set (ee_capability_scope (sample_envelope ''x'' None [''cap''] 9000000))"
    by auto
  with r(1) show ?thesis by (simp add: sample_state_def sample_envelope_def)
qed

text \<open>
  Claim C4: a request is executed once. The audit starts empty; calls of any brokers, under any policies, and any changes of the
  budget ledger follow each other. After a successful call, any call with the same task run and
  request id, in any later state and whatever its broker, task, envelope, body, executor, grants, budget
  estimate or clock, returns the recorded plan, decision, result and observation as a replay and
  changes nothing.
\<close>

theorem capability_replay_stable:
  assumes "audit_step\<^sup>*\<^sup>* \<lparr>bk_budget = L, bk_invocations = []\<rparr> st"
    and "invoke E show_time B st task env q executor estimated grants hs cl tmo ck = Inr (oc, st')"
    and "audit_step\<^sup>*\<^sup>* st' u"
    and "rq_task_run_id q' = rq_task_run_id q" and "rq_request_id q' = rq_request_id q"
  shows "\<exists>oc'. invoke E' show' B' u task' env' q' executor' estimated' grants' hs' cl' tmo' ck' = Inr (oc', u)
    \<and> oc_replay oc' \<and> oc_result oc' = oc_result oc \<and> oc_plan oc' = oc_plan oc
    \<and> oc_policy_decision oc' = oc_policy_decision oc \<and> oc_observation oc' = oc_observation oc
    \<and> ci_invocation_id (oc_invocation oc') = ci_invocation_id (oc_invocation oc)"
proof -
  have inv: "audit_inv st" by (rule audit_table.inv_reachable [OF _ assms(1)]) simp
  have inv': "audit_inv st'" by (rule audit_inv_step [OF inv audit_step.call [OF assms(2)]])
  obtain m where m: "find_invocation st' (rq_task_run_id q) (rq_request_id q) = Some m"
    and same: "iv_result_json m = Some (oc_result oc)" "iv_plan_json m = oc_plan oc"
      "iv_policy_decision_json m = oc_policy_decision oc" "iv_observation_json m = oc_observation oc"
      "iv_invocation_id m = ci_invocation_id (oc_invocation oc)"
    using assms(2)
  proof (cases rule: invoke_cases)
    case (replay m)
    then have "audit_ok m" using find_invocation_Some [OF replay(1)] inv by (auto simp: audit_inv_def)
    with replay(2) have "iv_result_json m = Some (oc_result oc)" "iv_plan_json m = oc_plan oc"
      "iv_policy_decision_json m = oc_policy_decision oc" "iv_observation_json m = oc_observation oc"
      "iv_invocation_id m = ci_invocation_id (oc_invocation oc)"
      by (auto elim!: replay_outcome_ok)
    with replay(1,3) that show ?thesis by simp
  next
    case (fresh call r1 L1 r2 L2 timeout consumed result observation)
    let ?m = "finish_audit (fresh_row E show_time B env q grants call ck) result observation (ck_finished ck)"
    have "find_invocation \<lparr>bk_budget = L2, bk_invocations = bk_invocations st\<rparr> (rq_task_run_id q) (rq_request_id q) = None"
      using fresh(1) by (simp add: find_invocation_def)
    then have "find_invocation st' (rq_task_run_id q) (rq_request_id q) = Some ?m"
      unfolding fresh(8) find_invocation_snoc [of L2 _ _ _ _ L2] by simp
    moreover have "iv_result_json ?m = Some (oc_result oc)" "iv_plan_json ?m = oc_plan oc"
      "iv_policy_decision_json ?m = oc_policy_decision oc" "iv_observation_json ?m = oc_observation oc"
      "iv_invocation_id ?m = ci_invocation_id (oc_invocation oc)"
      by (simp_all add: fresh(7) finish_audit_def fresh_row_def running_audit_def)
    ultimately show ?thesis using that by blast
  qed
  have u: "find_invocation u (rq_task_run_id q) (rq_request_id q) = Some m"
    using invocation_log.lookup_steps [OF assms(3), of "(rq_task_run_id q, rq_request_id q)" m] m by simp
  have "audit_ok m" using find_invocation_Some [OF m] inv' by (simp add: audit_inv_def)
  then show ?thesis
    by (rule replay_outcome_ok) (use u same assms(4,5) in \<open>simp add: invoke_def\<close>)
qed

theorem capability_replay_stable_witness:
  "\<exists>oc st' oc'. sample_invoke (\<lambda>_ _ _. Inr (sample_native 4)) = Inr (oc, st')
     \<and> invoke sample_hash (\<lambda>_. []) sample_broker st' (sample_contract ''t2'' (sample_ceiling 1) READ_ONLY)
         (sample_envelope ''y'' None [] 0) (sample_capability_request\<lparr>rq_resource := ''other''\<rparr>)
         (\<lambda>_ _ _. Inl (HandlerError ''X'')) [] sample_grants None None 30 sample_clock = Inr (oc', st')
     \<and> oc_replay oc' \<and> oc_result oc' = oc_result oc"
proof -
  obtain oc st' where r: "sample_invoke (\<lambda>_ _ _. Inr (sample_native 4)) = Inr (oc, st')"
    using sample_invoke_ok by blast
  have s: "audit_step\<^sup>*\<^sup>* \<lparr>bk_budget = sample_ledger, bk_invocations = []\<rparr> sample_state" by (simp add: sample_state_def)
  from capability_replay_stable [where q' = "sample_capability_request\<lparr>rq_resource := ''other''\<rparr>",
      OF s r rtranclp.rtrancl_refl, of sample_hash "\<lambda>_. []" sample_broker
        "sample_contract ''t2'' (sample_ceiling 1) READ_ONLY" "sample_envelope ''y'' None [] 0"
        "\<lambda>_ _ _. Inl (HandlerError ''X'')" "[]" sample_grants None None 30 sample_clock] r
  show ?thesis by auto
qed

text \<open>
  Claim C23: tools cannot overdraw a budget, and the audit is complete. From any reachable ledger without
  overruns and an empty audit, after any sequence of successful calls with any executors: on every
  account and resource, reserved plus committed is at most the limit; each request has at most one
  audit row, which has finished with the status of its result under a permit; and every
  observation is labelled untrusted, whatever label the executor gave.
\<close>

theorem broker_budget_and_audit:
  assumes "(ledger_step E)\<^sup>*\<^sup>* empty_ledger L" and "no_overrun L"
    and "(broker_step E show_time B)\<^sup>*\<^sup>* \<lparr>bk_budget = L, bk_invocations = []\<rparr> st"
  shows "(\<forall>a s k. snapshot (bk_budget st) a = Inr s \<longrightarrow>
       qty (bs_reserved s) k + qty (bs_committed s) k \<le> qty (bs_limits s) k)
    \<and> distinct (map (\<lambda>m. (iv_task_run_id m, iv_request_id m)) (bk_invocations st))
    \<and> (\<forall>m \<in> set (bk_invocations st). iv_finished_at m \<noteq> None
        \<and> pd_authorization (iv_policy_decision_json m) = PERMIT
        \<and> (\<exists>result. iv_result_json m = Some result \<and> iv_status m = result_status_value (cr_status result))
        \<and> (\<forall>ob. iv_observation_json m = Some ob \<longrightarrow>
             eo_trust_label ob = ''untrusted_tool_output'' \<and> eo_request_id ob = iv_request_id m))"
proof -
  have "ledger_inv L" by (rule budget_tables.inv_reachable [OF refl assms(1)])
  then have "broker_inv st"
    by (intro broker_tables.inv_reachable [OF _ assms(3)]) (simp add: assms(2))
  then show ?thesis using snapshot_within_limits by (auto simp: broker_inv_def audit_inv_def audit_ok_def)
qed

theorem broker_budget_and_audit_witness:
  "\<exists>oc st'. sample_invoke (\<lambda>_ _ _. Inr (sample_native 4)) = Inr (oc, st')
     \<and> (\<forall>m \<in> set (bk_invocations st'). iv_finished_at m \<noteq> None)"
proof -
  obtain oc st' where r: "sample_invoke (\<lambda>_ _ _. Inr (sample_native 4)) = Inr (oc, st')"
    using sample_invoke_ok by blast
  have d: "distinct (map fst [(''tokens'', 4 :: rat)])" by simp
  have "(broker_step sample_hash (\<lambda>_. []) sample_broker)\<^sup>*\<^sup>* \<lparr>bk_budget = sample_ledger, bk_invocations = []\<rparr> st'"
    using broker_step.invoke [OF d r] by (simp add: sample_state_def r_into_rtranclp)
  from broker_budget_and_audit [OF sample_ledger_reachable sample_no_overrun this] r show ?thesis by blast
qed

text \<open>
  An executor that raises is contained. For a request that passes the gates and whose budget
  can be reserved under a new group, if the executor raises any exception, the call still returns:
  the result is failed with the exception's class, there is no observation, the whole estimate is
  committed resource by resource, and the audit row is failed.
\<close>

theorem executor_exception_contained:
  assumes "find_invocation st (rq_task_run_id q) (rq_request_id q) = None"
    and "admit_call E B task env q grants hs cl (ck_gate ck) = Inr call"
    and "reserve E (bk_budget st) (ee_budget_ref env) (reservation_group_of q) estimated None (ck_reserved ck) = Inr (r1, L1)"
    and "group_rows (bk_budget st) (ee_budget_ref env) (reservation_group_of q) = []"
    and "distinct (map fst estimated)" and "ledger_inv (bk_budget st)"
    and "stable_id E (''capability-invocation:'' @ rq_task_run_id q @ '':'' @ rq_request_id q)
      \<notin> set (map iv_invocation_id (bk_invocations st))"
    and "\<forall>t args s. executor t args s = Inl exc"
  shows "\<exists>oc st' m. invoke E show_time B st task env q executor estimated grants hs cl tmo ck = Inr (oc, st')
    \<and> cr_status (oc_result oc) = CR_FAILED \<and> cr_failure_code (oc_result oc) = Some ''executor_exception''
    \<and> cr_failure_detail (oc_result oc) = Some (error_class_name exc) \<and> oc_observation oc = None
    \<and> (\<forall>(k, amount) \<in> set estimated.
         \<exists>row \<in> set (group_rows (bk_budget st') (ee_budget_ref env) (reservation_group_of q)).
           br_resource_type row = k \<and> br_status row = COMMITTED \<and> br_amount_committed row = amount)
    \<and> bk_invocations st' = bk_invocations st @ [m] \<and> iv_status m = ''failed''"
proof -
  from commit_fresh_reservation [OF assms(3,4,5), of "ck_committed ck"] obtain r2 L2 where
    c: "commit L1 (ee_budget_ref env) (reservation_group_of q) estimated False (ck_committed ck) = Inr (r2, L2)" by blast
  obtain timeout where tm: "bounded_timeout_seconds env (Aware (ck_started ck)) tmo = Inr timeout"
    by (cases "of_int (dt_us (ee_deadline_at env) - ck_started ck) / (1000000 :: rat) \<le> 0")
      (simp_all add: bounded_timeout_seconds_def dt_naive_def Let_def)
  let ?i = "ci_invocation_id (fresh_invocation E show_time B env q grants call ck)"
  have x: "executed_call E q (ac_implementation call) ?i estimated (ck_observed ck)
      (executor (ac_implementation call) (map_native_arguments (rq_canonical_arguments q)
         (cb_canonical_to_native_args (ac_binding call))) timeout) = (estimated, failed_result ?i exc, Inr None)"
    using assms(8) by (simp add: executed_call_def)
  note run = invoke_reaches_executor [where executor = executor and show_time = show_time, OF assms(1-3,7) tm x c]
  have inv1: "ledger_inv L1" by (rule ledger_inv_reserve [OF assms(6,5,3)])
  have "\<forall>(k, amount) \<in> set estimated.
      \<exists>row \<in> set (group_rows L2 (ee_budget_ref env) (reservation_group_of q)).
        br_resource_type row = k \<and> br_status row = COMMITTED \<and> br_amount_committed row = amount"
    using commit_settled_resource [OF inv1 c assms(5)] by blast
  with run show ?thesis by (simp add: failed_result_def finish_audit_def)
qed

theorem executor_exception_contained_witness:
  "\<exists>oc st'. sample_invoke (\<lambda>_ _ _. Inl (HandlerError ''TimeoutError'')) = Inr (oc, st')
     \<and> cr_failure_detail (oc_result oc) = Some ''TimeoutError''"
proof -
  let ?env = "sample_envelope ''x'' None [''cap''] 9000000"
  have env: "ee_budget_ref ?env = ''b1''" by (simp add: sample_envelope_def)
  obtain call where call: "admit_call sample_hash sample_broker (sample_contract ''t1'' (sample_ceiling 1) INTERNAL_STATE)
      ?env sample_capability_request sample_grants None None (ck_gate sample_clock) = Inr call"
    using sample_admit by blast
  obtain r L where r: "reserve sample_hash (bk_budget sample_state) (ee_budget_ref ?env)
      (reservation_group_of sample_capability_request) [(''tokens'', 4)] None (ck_reserved sample_clock) = Inr (r, L)"
    using sample_reserve unfolding env sample_group_of by (auto simp: sample_clock_def)
  have g: "group_rows (bk_budget sample_state) (ee_budget_ref ?env) (reservation_group_of sample_capability_request) = []"
    unfolding env sample_group_of by (rule sample_group_new)
  have inv: "ledger_inv (bk_budget sample_state)" using sample_broker_inv by (simp add: broker_inv_def)
  from executor_exception_contained [where executor = "\<lambda>_ _ _. Inl (HandlerError ''TimeoutError'')" and show_time = "\<lambda>_. []",
      OF sample_find call r g _ inv]
  show ?thesis by (fastforce simp: sample_state_def)
qed

text \<open>
  Claim C22: a tool that spends more than the estimate is not recorded. In any reachable ledger, whatever overruns it holds, for a
  request that has no audit row and whose own reservation group, if it has one, is not overrun: if the executor returns and
  reports a consumption above the estimate for some resource, \<open>invoke\<close> ends in an exception, so
  neither the spend nor the audit row of a tool that has run is kept.
\<close>

theorem tool_overspend_unrecorded:
  assumes "(ledger_step E)\<^sup>*\<^sup>* empty_ledger (bk_budget st)"
    and "find_invocation st (rq_task_run_id q) (rq_request_id q) = None"
    and "\<forall>r \<in> set (group_rows (bk_budget st) (ee_budget_ref env) (reservation_group_of q)).
      br_amount_committed r \<le> br_amount_reserved r"
    and "distinct (map fst estimated)" and "\<forall>t args s. executor t args s = Inr native"
    and "distinct (map fst (nx_consumed_budget native))" and "(k, amount) \<in> set (nx_consumed_budget native)"
    and "qty estimated k < amount"
  shows "\<exists>e. invoke E show_time B st task env q executor estimated grants hs cl tmo ck = Inl e"
proof (rule ccontr)
  assume "\<nexists>e. invoke E show_time B st task env q executor estimated grants hs cl tmo ck = Inl e"
  then obtain oc st' where "invoke E show_time B st task env q executor estimated grants hs cl tmo ck = Inr (oc, st')"
    by (metis obj_sumE surj_pair)
  then show False
  proof (cases rule: invoke_cases)
    case (fresh call r1 L1 r2 L2 timeout consumed result observation)
    have c: "consumed = nx_consumed_budget native" using fresh(5) assms(5) by (simp add: executed_call_def Let_def)
    have inv0: "ledger_inv (bk_budget st)" by (rule budget_tables.inv_reachable [OF refl assms(1)])
    have inv: "ledger_inv L1" by (rule ledger_inv_reserve [OF inv0 assms(4) fresh(3)])
    from commit_settled_resource [OF inv fresh(6)] assms(6,7) c obtain row where
      row: "row \<in> set (group_rows L2 (ee_budget_ref env) (reservation_group_of q))" "br_resource_type row = k"
      "br_status row = COMMITTED" "br_amount_committed row = amount" by blast
    have "amount \<le> br_amount_reserved row"
      using commit_within [OF inv fresh(6) reserve_within [OF inv0 fresh(3) assms(3)]] row(1,4) by auto
    moreover have "(k, br_amount_reserved row) \<in> set estimated"
    proof -
      from row(1) group_rows_settles [OF commit_settles(1) [OF inv fresh(6)]] obtain m where
        "m \<in> set (group_rows L1 (ee_budget_ref env) (reservation_group_of q))" "row_settles m row"
        by (metis in_set_conv_nth list_all2_conv_all_nth)
      then have "(br_resource_type row, br_amount_reserved row) \<in> set (map (\<lambda>r. (br_resource_type r, br_amount_reserved r))
          (group_rows L1 (ee_budget_ref env) (reservation_group_of q)))"
        by (force simp: row_settles_def row_identity_eq)
      then show ?thesis unfolding reserved_group(2) [OF fresh(3)] row(2) .
    qed
    ultimately show False using assms(4,8) by (simp add: qty_def map_of_is_SomeI)
  qed (use assms(2) in simp)
qed

theorem tool_overspend_unrecorded_witness:
  "\<exists>e. sample_invoke (\<lambda>_ _ _. Inr (sample_native 8)) = Inl e"
proof -
  have "distinct (map fst [(''tokens'', 4 :: rat)])" "distinct (map fst (nx_consumed_budget (sample_native 8)))"
    "(''tokens'', 8) \<in> set (nx_consumed_budget (sample_native 8))" "qty [(''tokens'', 4)] ''tokens'' < (8 :: rat)"
    by (simp_all add: sample_native_def qty_def)
  note h = this
  have r: "(ledger_step sample_hash)\<^sup>*\<^sup>* empty_ledger (bk_budget sample_state)"
    using sample_ledger_reachable by (simp add: sample_state_def)
  show ?thesis
    by (rule tool_overspend_unrecorded [OF r sample_find _ h(1) _ h(2-4)])
      (simp_all add: sample_state_def sample_ledger_val group_rows_def)
qed

end
