(* ===== verification/Task_Context.thy ===== *)
theory Task_Context
  imports Task_Store
begin

text \<open>
  \<^verbatim>\<open>packages/task_runtime/context\<close>: the references a task may see. \<^verbatim>\<open>service.py\<close> derives, forks,
  filters, refreshes, compares and merges context manifests and gates results against a context that
  has moved on; \<^verbatim>\<open>handoff.py\<close> creates child runs and reads their results. The names that the code
  uses with \<^verbatim>\<open>getattr\<close> are the datatypes \<open>ref_field\<close> and \<open>scalar_field\<close>.
\<close>

section \<open>Contracts\<close>

record child_context_spec =
  cs_context_id :: string
  cs_policy_context_ref :: string
  cs_capability_envelope_ref :: string
  cs_budget_ref :: string
  cs_include_case :: bool
  cs_include_investigation_state :: bool
  cs_include_trajectory_checkpoint :: bool
  cs_evidence_refs :: "string list"
  cs_object_refs :: "string list"
  cs_relation_refs :: "string list"
  cs_enrichment_state_refs :: "string list"
  cs_skill_selection_refs :: "string list"
  cs_experience_pattern_refs :: "string list"
  cs_cache_hint :: "string option"

definition validate_context_spec :: "child_context_spec \<Rightarrow> child_context_spec res" where
  "validate_context_spec spec =
     (case first_blank [(cs_context_id spec, ''context_id''), (cs_policy_context_ref spec, ''policy_context_ref''),
        (cs_capability_envelope_ref spec, ''capability_envelope_ref''), (cs_budget_ref spec, ''budget_ref'')] of
        Some label \<Rightarrow> Inl (ValueError (''ChildContextSpec '' @ label @ '' cannot be empty''))
      | None \<Rightarrow> Inr spec)"

record context_refresh =
  fr_context_revision :: nat
  fr_knowledge_revision :: "nat option"
  fr_investigation_state_ref :: "string option"
  fr_add_evidence_refs :: "string list"
  fr_add_object_refs :: "string list"
  fr_add_relation_refs :: "string list"
  fr_add_enrichment_state_refs :: "string list"
  fr_add_skill_selection_refs :: "string list"
  fr_add_experience_pattern_refs :: "string list"
  fr_cache_hint :: "string option"

text \<open>\<^verbatim>\<open>context_revision: int = Field(ge=2)\<close>\<close>

definition validate_refresh :: "context_refresh \<Rightarrow> context_refresh res" where
  "validate_refresh f = raise_if (fr_context_revision f < 2) (ValueError ''context_revision'') (Inr f)"

record context_scalar_change =
  sc_field :: string
  sc_before :: json
  sc_after :: json

record context_delta =
  cd_base_ref :: string
  cd_current_ref :: string
  cd_scalar_changes :: "context_scalar_change list"
  cd_added_refs :: "(string \<times> string list) list"
  cd_removed_refs :: "(string \<times> string list) list"

definition delta_is_empty :: "context_delta \<Rightarrow> bool" where
  "delta_is_empty d = (cd_scalar_changes d = [] \<and> cd_added_refs d = [] \<and> cd_removed_refs d = [])"

record context_dependency_set =
  dp_knowledge_revision :: bool
  dp_investigation_state_ref :: bool
  dp_trajectory_checkpoint_ref :: bool
  dp_evidence_refs :: "string list"
  dp_object_refs :: "string list"
  dp_relation_refs :: "string list"
  dp_enrichment_state_refs :: "string list"
  dp_skill_selection_refs :: "string list"
  dp_experience_pattern_refs :: "string list"

record context_result_provenance =
  pv_based_on_context_id :: string
  pv_based_on_context_revision :: nat
  pv_dependencies :: context_dependency_set

datatype context_compatibility_status = CC_VALID | CC_REBASE_REQUIRED | CC_STALE | CC_CONFLICT

record context_compatibility =
  co_status :: context_compatibility_status
  co_reasons :: "string list"
  co_delta :: context_delta

section \<open>Fields by name\<close>

datatype ref_field =
    RF_ENRICHMENT | RF_EVIDENCE | RF_OBJECT | RF_RELATION | RF_SKILL | RF_EXPERIENCE

definition reference_fields :: "ref_field list" where
  "reference_fields = [RF_ENRICHMENT, RF_EVIDENCE, RF_OBJECT, RF_RELATION, RF_SKILL, RF_EXPERIENCE]"

fun ref_field_name :: "ref_field \<Rightarrow> string" where
  "ref_field_name RF_ENRICHMENT = ''enrichment_state_refs''"
| "ref_field_name RF_EVIDENCE = ''evidence_refs''"
| "ref_field_name RF_OBJECT = ''object_refs''"
| "ref_field_name RF_RELATION = ''relation_refs''"
| "ref_field_name RF_SKILL = ''skill_selection_refs''"
| "ref_field_name RF_EXPERIENCE = ''experience_pattern_refs''"

fun manifest_refs :: "ref_field \<Rightarrow> context_manifest \<Rightarrow> string list" where
  "manifest_refs RF_ENRICHMENT m = cm_enrichment_state_refs m"
| "manifest_refs RF_EVIDENCE m = cm_evidence_refs m"
| "manifest_refs RF_OBJECT m = cm_object_refs m"
| "manifest_refs RF_RELATION m = cm_relation_refs m"
| "manifest_refs RF_SKILL m = cm_skill_selection_refs m"
| "manifest_refs RF_EXPERIENCE m = cm_experience_pattern_refs m"

fun spec_refs :: "ref_field \<Rightarrow> child_context_spec \<Rightarrow> string list" where
  "spec_refs RF_ENRICHMENT s = cs_enrichment_state_refs s"
| "spec_refs RF_EVIDENCE s = cs_evidence_refs s"
| "spec_refs RF_OBJECT s = cs_object_refs s"
| "spec_refs RF_RELATION s = cs_relation_refs s"
| "spec_refs RF_SKILL s = cs_skill_selection_refs s"
| "spec_refs RF_EXPERIENCE s = cs_experience_pattern_refs s"

fun refresh_refs :: "ref_field \<Rightarrow> context_refresh \<Rightarrow> string list" where
  "refresh_refs RF_ENRICHMENT f = fr_add_enrichment_state_refs f"
| "refresh_refs RF_EVIDENCE f = fr_add_evidence_refs f"
| "refresh_refs RF_OBJECT f = fr_add_object_refs f"
| "refresh_refs RF_RELATION f = fr_add_relation_refs f"
| "refresh_refs RF_SKILL f = fr_add_skill_selection_refs f"
| "refresh_refs RF_EXPERIENCE f = fr_add_experience_pattern_refs f"

fun dependency_refs :: "ref_field \<Rightarrow> context_dependency_set \<Rightarrow> string list" where
  "dependency_refs RF_ENRICHMENT d = dp_enrichment_state_refs d"
| "dependency_refs RF_EVIDENCE d = dp_evidence_refs d"
| "dependency_refs RF_OBJECT d = dp_object_refs d"
| "dependency_refs RF_RELATION d = dp_relation_refs d"
| "dependency_refs RF_SKILL d = dp_skill_selection_refs d"
| "dependency_refs RF_EXPERIENCE d = dp_experience_pattern_refs d"

definition set_refs :: "(ref_field \<Rightarrow> string list) \<Rightarrow> context_manifest \<Rightarrow> context_manifest" where
  "set_refs f m = m\<lparr>cm_enrichment_state_refs := f RF_ENRICHMENT, cm_evidence_refs := f RF_EVIDENCE,
     cm_object_refs := f RF_OBJECT, cm_relation_refs := f RF_RELATION,
     cm_skill_selection_refs := f RF_SKILL, cm_experience_pattern_refs := f RF_EXPERIENCE\<rparr>"

datatype scalar_field =
    SF_TASK_CONTRACT | SF_ROLE | SF_CASE | SF_POLICY | SF_CAPABILITY | SF_BUDGET
  | SF_KNOWLEDGE | SF_INVESTIGATION | SF_TRAJECTORY

definition authority_fields :: "scalar_field list" where
  "authority_fields = [SF_TASK_CONTRACT, SF_ROLE, SF_CASE, SF_POLICY, SF_CAPABILITY, SF_BUDGET]"

definition state_scalar_fields :: "scalar_field list" where
  "state_scalar_fields = [SF_KNOWLEDGE, SF_INVESTIGATION, SF_TRAJECTORY]"

fun scalar_field_name :: "scalar_field \<Rightarrow> string" where
  "scalar_field_name SF_TASK_CONTRACT = ''task_contract_ref''"
| "scalar_field_name SF_ROLE = ''role_ref''"
| "scalar_field_name SF_CASE = ''case_ref''"
| "scalar_field_name SF_POLICY = ''policy_context_ref''"
| "scalar_field_name SF_CAPABILITY = ''capability_envelope_ref''"
| "scalar_field_name SF_BUDGET = ''budget_ref''"
| "scalar_field_name SF_KNOWLEDGE = ''knowledge_revision''"
| "scalar_field_name SF_INVESTIGATION = ''investigation_state_ref''"
| "scalar_field_name SF_TRAJECTORY = ''trajectory_checkpoint_ref''"

fun manifest_scalar :: "scalar_field \<Rightarrow> context_manifest \<Rightarrow> json" where
  "manifest_scalar SF_TASK_CONTRACT m = JStr (cm_task_contract_ref m)"
| "manifest_scalar SF_ROLE m = JStr (cm_role_ref m)"
| "manifest_scalar SF_CASE m = j_opt_str (cm_case_ref m)"
| "manifest_scalar SF_POLICY m = JStr (cm_policy_context_ref m)"
| "manifest_scalar SF_CAPABILITY m = JStr (cm_capability_envelope_ref m)"
| "manifest_scalar SF_BUDGET m = JStr (cm_budget_ref m)"
| "manifest_scalar SF_KNOWLEDGE m =
     (case cm_knowledge_revision m of None \<Rightarrow> JNull | Some n \<Rightarrow> JInt (int n))"
| "manifest_scalar SF_INVESTIGATION m = j_opt_str (cm_investigation_state_ref m)"
| "manifest_scalar SF_TRAJECTORY m = j_opt_str (cm_trajectory_checkpoint_ref m)"

section \<open>Operations on manifests\<close>

definition stable_refs :: "string list \<Rightarrow> string list" where
  "stable_refs values = sorted_set values"

definition union_refs :: "string list \<Rightarrow> string list \<Rightarrow> string list" where
  "union_refs left right = sorted_set (left @ right)"

definition context_ref :: "context_manifest \<Rightarrow> string" where
  "context_ref m = cm_context_id m @ ''@'' @ show_nat (cm_context_revision m)"

text \<open>\<^verbatim>\<open>sorted(set(xs) - set(ys))\<close>\<close>

definition ref_diff :: "string list \<Rightarrow> string list \<Rightarrow> string list" where
  "ref_diff xs ys = sorted_set (filter (\<lambda>x. x \<notin> set ys) xs)"

definition require_subset :: "string \<Rightarrow> string list \<Rightarrow> string list \<Rightarrow> unit res" where
  "require_subset field selected available =
     (case ref_diff selected available of
        [] \<Rightarrow> Inr ()
      | x # _ \<Rightarrow> Inl (ValueError (''context selection expands parent '' @ field @ '': '' @ x)))"

fun require_subsets ::
  "(ref_field \<Rightarrow> string list) \<Rightarrow> (ref_field \<Rightarrow> string list) \<Rightarrow> ref_field list \<Rightarrow> unit res" where
  "require_subsets selected available [] = Inr ()"
| "require_subsets selected available (f # fs) =
     res_bind (require_subset (ref_field_name f) (selected f) (available f)) (\<lambda>_.
     require_subsets selected available fs)"

definition derive_child_context ::
  "context_manifest \<Rightarrow> task_contract \<Rightarrow> role_profile \<Rightarrow> child_context_spec \<Rightarrow> context_manifest res" where
  "derive_child_context parent child_contract child_role spec =
     raise_if (\<not> role_accepts child_role (tc_task_kind child_contract))
       (ValueError (''role '' @ rp_role_id child_role @ '' does not accept task kind ''
          @ task_kind_value (tc_task_kind child_contract)))
     (res_bind (require_subsets (\<lambda>f. spec_refs f spec) (\<lambda>f. manifest_refs f parent) reference_fields) (\<lambda>_.
      Inr \<lparr>cm_context_id = cs_context_id spec, cm_context_revision = 1,
        cm_parent_context_id = Some (cm_context_id parent),
        cm_task_contract_ref = tc_task_contract_id child_contract @ ''@'' @ show_nat (tc_contract_revision child_contract),
        cm_role_ref = rp_role_id child_role @ ''@'' @ rp_version child_role,
        cm_case_ref = (if cs_include_case spec then cm_case_ref parent else None),
        cm_knowledge_revision = cm_knowledge_revision parent,
        cm_investigation_state_ref =
          (if cs_include_investigation_state spec then cm_investigation_state_ref parent else None),
        cm_enrichment_state_refs = stable_refs (cs_enrichment_state_refs spec),
        cm_evidence_refs = stable_refs (cs_evidence_refs spec),
        cm_object_refs = stable_refs (cs_object_refs spec),
        cm_relation_refs = stable_refs (cs_relation_refs spec),
        cm_retrieval_invocation_refs = [], cm_query_intent = None, cm_query_intent_model_ref = None,
        cm_trajectory_checkpoint_ref =
          (if cs_include_trajectory_checkpoint spec then cm_trajectory_checkpoint_ref parent else None),
        cm_skill_selection_refs = stable_refs (cs_skill_selection_refs spec),
        cm_experience_pattern_refs = stable_refs (cs_experience_pattern_refs spec),
        cm_policy_context_ref = cs_policy_context_ref spec,
        cm_capability_envelope_ref = cs_capability_envelope_ref spec,
        cm_budget_ref = cs_budget_ref spec, cm_cache_hint = cs_cache_hint spec\<rparr>))"

definition refresh_context :: "context_manifest \<Rightarrow> context_refresh \<Rightarrow> context_manifest res" where
  "refresh_context m f =
     raise_if (fr_context_revision f \<le> cm_context_revision m)
       (ValueError ''refreshed context revision must advance'')
     (let knowledge = (case fr_knowledge_revision f of None \<Rightarrow> cm_knowledge_revision m | Some k \<Rightarrow> Some k) in
      raise_if (case (cm_knowledge_revision m, knowledge) of (Some old, Some new) \<Rightarrow> new < old | _ \<Rightarrow> False)
        (ValueError ''knowledge_revision cannot move backwards during refresh'')
      (Inr (set_refs (\<lambda>r. union_refs (manifest_refs r m) (refresh_refs r f))
         (m\<lparr>cm_context_revision := fr_context_revision f, cm_knowledge_revision := knowledge,
            cm_investigation_state_ref := (case fr_investigation_state_ref f of
               Some x \<Rightarrow> Some x | None \<Rightarrow> cm_investigation_state_ref m),
            cm_cache_hint := fr_cache_hint f\<rparr>))))"

definition pin_context ::
  "context_manifest \<Rightarrow> nat \<Rightarrow> nat \<Rightarrow> string option \<Rightarrow> context_manifest res" where
  "pin_context m context_revision knowledge_revision investigation_state_ref =
     res_bind (validate_refresh \<lparr>fr_context_revision = context_revision,
       fr_knowledge_revision = Some knowledge_revision,
       fr_investigation_state_ref = investigation_state_ref, fr_add_evidence_refs = [],
       fr_add_object_refs = [], fr_add_relation_refs = [], fr_add_enrichment_state_refs = [],
       fr_add_skill_selection_refs = [], fr_add_experience_pattern_refs = [],
       fr_cache_hint = cm_cache_hint m\<rparr>) (refresh_context m)"

definition fork_context :: "context_manifest \<Rightarrow> string \<Rightarrow> context_manifest" where
  "fork_context m new_context_id =
     m\<lparr>cm_context_id := new_context_id, cm_context_revision := 1,
       cm_parent_context_id := Some (cm_context_id m), cm_cache_hint := None\<rparr>"

text \<open>The selections of \<^verbatim>\<open>filter_context\<close> are given by field; \<open>None\<close> keeps the manifest's.\<close>

definition selection_order :: "ref_field list" where
  "selection_order = [RF_EVIDENCE, RF_OBJECT, RF_RELATION, RF_ENRICHMENT, RF_SKILL, RF_EXPERIENCE]"

definition filter_context ::
  "context_manifest \<Rightarrow> string \<Rightarrow> (ref_field \<Rightarrow> string list option) \<Rightarrow> bool \<Rightarrow> bool \<Rightarrow> context_manifest res" where
  "filter_context m new_context_id chosen keep_investigation_state keep_trajectory_checkpoint =
     (let selections = (\<lambda>f. case chosen f of None \<Rightarrow> manifest_refs f m | Some xs \<Rightarrow> xs) in
      res_bind (require_subsets selections (\<lambda>f. manifest_refs f m) selection_order) (\<lambda>_.
      Inr (set_refs (\<lambda>f. stable_refs (selections f))
        (m\<lparr>cm_context_id := new_context_id, cm_context_revision := 1,
           cm_parent_context_id := Some (cm_context_id m),
           cm_investigation_state_ref :=
             (if keep_investigation_state then cm_investigation_state_ref m else None),
           cm_trajectory_checkpoint_ref :=
             (if keep_trajectory_checkpoint then cm_trajectory_checkpoint_ref m else None),
           cm_cache_hint := None\<rparr>))))"

definition scalar_changes :: "context_manifest \<Rightarrow> context_manifest \<Rightarrow> scalar_field list \<Rightarrow> context_scalar_change list" where
  "scalar_changes base current fs =
     map (\<lambda>f. \<lparr>sc_field = scalar_field_name f, sc_before = manifest_scalar f base, sc_after = manifest_scalar f current\<rparr>)
       (filter (\<lambda>f. manifest_scalar f base \<noteq> manifest_scalar f current) fs)"

definition ref_changes :: "context_manifest \<Rightarrow> context_manifest \<Rightarrow> (string \<times> string list) list" where
  "ref_changes before after =
     filter (\<lambda>(_, xs). xs \<noteq> [])
       (map (\<lambda>f. (ref_field_name f, ref_diff (manifest_refs f after) (manifest_refs f before))) reference_fields)"

definition diff_contexts :: "context_manifest \<Rightarrow> context_manifest \<Rightarrow> context_delta" where
  "diff_contexts base current =
     \<lparr>cd_base_ref = context_ref base, cd_current_ref = context_ref current,
      cd_scalar_changes = scalar_changes base current (authority_fields @ state_scalar_fields),
      cd_added_refs = ref_changes base current, cd_removed_refs = ref_changes current base\<rparr>"

definition merge_contexts ::
  "context_manifest \<Rightarrow> context_manifest \<Rightarrow> string \<Rightarrow> nat \<Rightarrow> context_manifest res" where
  "merge_contexts left right context_id context_revision =
     (case find (\<lambda>f. manifest_scalar f left \<noteq> manifest_scalar f right) (authority_fields @ state_scalar_fields) of
        Some f \<Rightarrow> Inl (ValueError (''cannot merge contexts with different '' @ scalar_field_name f))
      | None \<Rightarrow>
          raise_if (context_revision < 1) (ValueError ''context_revision must be positive'')
          (Inr (set_refs (\<lambda>f. union_refs (manifest_refs f left) (manifest_refs f right))
             (left\<lparr>cm_context_id := context_id, cm_context_revision := context_revision,
               cm_parent_context_id := Some (cm_context_id left), cm_cache_hint := None\<rparr>))))"

section \<open>The revision gate\<close>

definition changed_names :: "context_delta \<Rightarrow> string list" where
  "changed_names d = map sc_field (cd_scalar_changes d)"

definition removed_of :: "context_delta \<Rightarrow> ref_field \<Rightarrow> string list" where
  "removed_of d f = (case map_of (cd_removed_refs d) (ref_field_name f) of None \<Rightarrow> [] | Some xs \<Rightarrow> xs)"

text \<open>The reasons for which a result is stale, in the order the code collects them.\<close>

definition stale_reasons :: "context_dependency_set \<Rightarrow> context_delta \<Rightarrow> string list" where
  "stale_reasons dep d =
     (if dp_knowledge_revision dep \<and> ''knowledge_revision'' \<in> set (changed_names d)
      then [''knowledge_revision_changed''] else [])
   @ (if dp_investigation_state_ref dep \<and> ''investigation_state_ref'' \<in> set (changed_names d)
      then [''investigation_state_changed''] else [])
   @ (if dp_trajectory_checkpoint_ref dep \<and> ''trajectory_checkpoint_ref'' \<in> set (changed_names d)
      then [''trajectory_checkpoint_changed''] else [])
   @ concat (map (\<lambda>f. case sorted_set (filter (\<lambda>x. x \<in> set (removed_of d f)) (dependency_refs f dep)) of
        [] \<Rightarrow> [] | x # _ \<Rightarrow> [''dependency_removed:'' @ ref_field_name f @ '':'' @ x]) reference_fields)"

definition gate_evaluate ::
  "context_manifest \<Rightarrow> context_manifest \<Rightarrow> context_result_provenance \<Rightarrow> context_compatibility" where
  "gate_evaluate base current result =
     (let delta = diff_contexts base current;
          verdict = (\<lambda>status reasons. \<lparr>co_status = status, co_reasons = reasons, co_delta = delta\<rparr>) in
      if pv_based_on_context_id result \<noteq> cm_context_id base
        then verdict CC_CONFLICT [''result_context_id_mismatch'']
      else if pv_based_on_context_revision result \<noteq> cm_context_revision base
        then verdict CC_CONFLICT [''result_context_revision_mismatch'']
      else if cm_context_id current \<noteq> cm_context_id base
        then verdict CC_CONFLICT [''current_context_lineage_changed'']
      else if cm_context_revision current < cm_context_revision base
        then verdict CC_CONFLICT [''current_context_revision_regressed'']
      else if cm_context_revision current = cm_context_revision base \<and> \<not> delta_is_empty delta
        then verdict CC_CONFLICT [''immutable_revision_content_mismatch'']
      else if cm_context_revision current = cm_context_revision base
        then verdict CC_VALID []
      else
        (let authority_changed =
               sorted_set (filter (\<lambda>n. n \<in> set (map scalar_field_name authority_fields)) (changed_names delta)) in
         if authority_changed \<noteq> []
           then verdict CC_CONFLICT (map (\<lambda>n. ''authority_context_changed:'' @ n) authority_changed)
         else
           (let reasons = stale_reasons (pv_dependencies result) delta in
            if reasons \<noteq> [] then verdict CC_STALE reasons
            else if delta_is_empty delta then verdict CC_VALID [''revision_changed_without_semantic_delta'']
            else verdict CC_REBASE_REQUIRED [''context_advanced_without_invalidating_dependencies''])))"

section \<open>Handoff\<close>

record task_result_envelope =
  tr_result_id :: string
  tr_sender :: string
  tr_task_run_id :: string
  tr_parent_run_id :: "string option"
  tr_status :: task_run_status
  tr_based_on_context_id :: string
  tr_based_on_context_revision :: nat
  tr_payload_ref :: string
  tr_evidence_refs :: "string list"
  tr_state_refs :: "string list"
  tr_artifact_refs :: "string list"
  tr_dependencies :: context_dependency_set

definition context_provenance :: "task_result_envelope \<Rightarrow> context_result_provenance" where
  "context_provenance r = \<lparr>pv_based_on_context_id = tr_based_on_context_id r,
     pv_based_on_context_revision = tr_based_on_context_revision r, pv_dependencies = tr_dependencies r\<rparr>"

definition validate_child_delegation :: "task_contract \<Rightarrow> task_contract \<Rightarrow> unit res" where
  "validate_child_delegation parent child =
     (let cap = tc_delegation_ceiling parent in
      raise_if (\<not> dc_allowed cap) (ValueError ''parent task contract does not allow delegation'')
      (raise_if (tc_task_kind child \<notin> set (dc_allowed_task_kinds cap))
        (ValueError ''child task kind exceeds parent delegation ceiling'')
      (raise_if (\<not> effect_within_ceiling (tc_effect_ceiling child) (dc_child_effect_ceiling cap))
        (ValueError ''child task effect exceeds parent delegation ceiling'')
      (Inr ()))))"

function delegation_depth_loop :: "task_store \<Rightarrow> string \<Rightarrow> string list \<Rightarrow> nat \<Rightarrow> nat res" where
  "delegation_depth_loop s current seen depth =
     (if current \<in> set seen then Inl (RuntimeError ''task parent chain contains a cycle'')
      else case get_run s current of
        None \<Rightarrow> Inl (LookupError (''task run not found while computing delegation depth: '' @ current))
      | Some run \<Rightarrow>
          (case rr_parent_run_id run of
             None \<Rightarrow> Inr depth
           | Some p \<Rightarrow> delegation_depth_loop s p (current # seen) (depth + 1)))"
  by pat_completeness auto

termination delegation_depth_loop
proof (relation "measure (\<lambda>(s, current, seen, depth). card (set (map rr_run_id (ts_runs s)) - set seen))", goal_cases)
  case (2 s current seen depth run p)
  from tab_get_Some_D [OF 2(2)] have "current \<in> set (map rr_run_id (ts_runs s))" by auto
  with 2(1) have "card (set (map rr_run_id (ts_runs s)) - set (current # seen))
      < card (set (map rr_run_id (ts_runs s)) - set seen)"
    by (intro psubset_card_mono) auto
  then show ?case by simp
qed simp

declare delegation_depth_loop.simps [simp del]

definition delegation_depth :: "task_store \<Rightarrow> string \<Rightarrow> nat res" where
  "delegation_depth s run_id = delegation_depth_loop s run_id [] 0"

definition create_child_task_run ::
  "hash_env \<Rightarrow> task_store \<Rightarrow> string \<Rightarrow> task_contract \<Rightarrow> role_profile \<Rightarrow> child_context_spec \<Rightarrow> string \<Rightarrow> string
     \<Rightarrow> string option \<Rightarrow> string \<Rightarrow> int \<Rightarrow> string \<Rightarrow> string \<Rightarrow> (task_run \<times> task_store) res" where
  "create_child_task_run E s parent_run_id child_contract child_role spec envelope_ref stream_name run_id
       producer instant fresh_run_id fresh_event_id =
     res_bind (res_of_option (LookupError (''parent task run not found: '' @ parent_run_id)) (get_run s parent_run_id)) (\<lambda>parent.
     raise_if (rr_status parent \<noteq> RUNNING) (ValueError ''child task can only be created from a running parent'')
     (res_bind (get_task_contract_for_run s parent_run_id) (\<lambda>parent_contract.
      res_bind (validate_child_delegation parent_contract child_contract) (\<lambda>_.
      res_bind (delegation_depth s parent_run_id) (\<lambda>depth.
      raise_if (depth + 1 > dc_max_depth (tc_delegation_ceiling parent_contract))
        (ValueError ''child task exceeds parent delegation depth ceiling'')
      (res_bind (get_task_context s parent_run_id) (\<lambda>parent_manifest.
       res_bind (derive_child_context parent_manifest child_contract child_role spec) (\<lambda>child_manifest.
       create_task_run E s child_contract child_manifest child_role envelope_ref stream_name
         (cm_case_ref child_manifest) (Some parent_run_id) run_id producer instant fresh_run_id fresh_event_id))))))))"

text \<open>\<^verbatim>\<open>a or b\<close> on optional strings, as \<^verbatim>\<open>payload_ref or run.result_ref\<close>.\<close>

definition first_nonempty :: "string option \<Rightarrow> string option \<Rightarrow> string option" where
  "first_nonempty a b = (if a = None \<or> a = Some [] then b else a)"

definition build_task_result_envelope ::
  "task_store \<Rightarrow> string \<Rightarrow> string \<Rightarrow> context_dependency_set \<Rightarrow> string option \<Rightarrow> string list \<Rightarrow> string list
     \<Rightarrow> string list \<Rightarrow> task_result_envelope res" where
  "build_task_result_envelope s run_id result_id dependencies payload_ref evidence_refs state_refs artifact_refs =
     res_bind (res_of_option (run_not_found run_id) (get_run s run_id)) (\<lambda>run.
     raise_if (\<not> terminal_status (rr_status run))
       (ValueError ''TaskResultEnvelope can only be built for a terminal TaskRun'')
     (res_bind (get_task_context s run_id) (\<lambda>m.
      (case first_nonempty payload_ref (rr_result_ref run) of
         Some payload \<Rightarrow>
           if payload = [] then Inl (ValueError ''TaskResultEnvelope requires payload_ref or TaskRun.result_ref'')
           else Inr \<lparr>tr_result_id = result_id, tr_sender = rr_role_id run @ ''@'' @ rr_role_version run,
             tr_task_run_id = rr_run_id run, tr_parent_run_id = rr_parent_run_id run, tr_status = rr_status run,
             tr_based_on_context_id = cm_context_id m, tr_based_on_context_revision = cm_context_revision m,
             tr_payload_ref = payload, tr_evidence_refs = sorted_set evidence_refs,
             tr_state_refs = sorted_set state_refs, tr_artifact_refs = sorted_set artifact_refs,
             tr_dependencies = dependencies\<rparr>
       | None \<Rightarrow> Inl (ValueError ''TaskResultEnvelope requires payload_ref or TaskRun.result_ref'')))))"

definition evaluate_task_result_context ::
  "task_store \<Rightarrow> task_result_envelope \<Rightarrow> string option \<Rightarrow> context_compatibility res" where
  "evaluate_task_result_context s result current_context_ref =
     res_bind (get_context_manifest s (versioned_ref (tr_based_on_context_id result) (tr_based_on_context_revision result))) (\<lambda>base.
     res_bind (case current_context_ref of
         Some ref' \<Rightarrow> get_context_manifest s ref' | None \<Rightarrow> get_task_context s (tr_task_run_id result)) (\<lambda>current.
     Inr (gate_evaluate base current (context_provenance result))))"

section \<open>Specifications\<close>

text \<open>Operations that hand a context on, and refreshes of one context.\<close>

inductive narrows :: "context_manifest \<Rightarrow> context_manifest \<Rightarrow> bool" where
  derive: "derive_child_context p c role spec = Inr m \<Longrightarrow> narrows p m"
| fork: "narrows p (fork_context p i)"
| filter: "filter_context p i chosen ki kt = Inr m \<Longrightarrow> narrows p m"

inductive refreshes :: "context_manifest \<Rightarrow> context_manifest \<Rightarrow> bool" where
  refresh: "refresh_context m f = Inr m' \<Longrightarrow> refreshes m m'"

inductive_cases refreshesE [elim!]: "refreshes m m'"

text \<open>Two manifests that no reader of the compared fields can tell apart.\<close>

definition same_content :: "context_manifest \<Rightarrow> context_manifest \<Rightarrow> bool" where
  "same_content a b \<longleftrightarrow> (\<forall>f. manifest_scalar f a = manifest_scalar f b)
     \<and> (\<forall>f. set (manifest_refs f a) = set (manifest_refs f b))"

definition same_authority :: "context_manifest \<Rightarrow> context_manifest \<Rightarrow> bool" where
  "same_authority a b \<longleftrightarrow> (\<forall>f \<in> set authority_fields. manifest_scalar f a = manifest_scalar f b)"

text \<open>What a result declared to depend on, and that base had, is still there.\<close>

definition dependencies_hold :: "context_dependency_set \<Rightarrow> context_manifest \<Rightarrow> context_manifest \<Rightarrow> bool" where
  "dependencies_hold dep base current \<longleftrightarrow>
     (dp_knowledge_revision dep \<longrightarrow> cm_knowledge_revision current = cm_knowledge_revision base)
     \<and> (dp_investigation_state_ref dep \<longrightarrow> cm_investigation_state_ref current = cm_investigation_state_ref base)
     \<and> (dp_trajectory_checkpoint_ref dep \<longrightarrow> cm_trajectory_checkpoint_ref current = cm_trajectory_checkpoint_ref base)
     \<and> (\<forall>f. set (dependency_refs f dep) \<inter> set (manifest_refs f base) \<subseteq> set (manifest_refs f current))"

definition based_on :: "context_result_provenance \<Rightarrow> context_manifest \<Rightarrow> context_manifest \<Rightarrow> bool" where
  "based_on result base current \<longleftrightarrow> pv_based_on_context_id result = cm_context_id base
     \<and> pv_based_on_context_revision result = cm_context_revision base
     \<and> cm_context_id current = cm_context_id base \<and> cm_context_revision base \<le> cm_context_revision current"

text \<open>For the concrete instances: a context with two pieces of evidence and a result that needs one of them.\<close>

definition sample_context :: context_manifest where
  "sample_context = (sample_manifest ''c'' 1 ''t1@1'')\<lparr>cm_evidence_refs := [''e1'', ''e2'']\<rparr>"

text \<open>
  A store in which a run is created, queued and running; a root that may delegate over three levels and its child, both
  running.
\<close>

definition sample_started :: "task_store \<Rightarrow> string option \<Rightarrow> string \<Rightarrow> nat \<Rightarrow> task_store" where
  "sample_started s par rid d =
     (let s1 = state_of (sample_create s par rid d) empty_store; s2 = state_of (sample_move s1 rid QUEUED None ''k1'') empty_store
      in state_of (claim_queued_task_run s2 rid ''tasks'' ''svc'' 30 (''e3'' @ rid)) empty_store)"

definition sample_top :: task_store where
  "sample_top = sample_started empty_store None ''p'' 3"

definition sample_deep :: task_store where
  "sample_deep = sample_started sample_top (Some ''p'') ''q'' 2"

definition sample_spec :: child_context_spec where
  "sample_spec = \<lparr>cs_context_id = ''k'', cs_policy_context_ref = ''p'', cs_capability_envelope_ref = ''v'',
     cs_budget_ref = ''b'', cs_include_case = False, cs_include_investigation_state = False,
     cs_include_trajectory_checkpoint = False, cs_evidence_refs = [''e2''], cs_object_refs = [],
     cs_relation_refs = [], cs_enrichment_state_refs = [], cs_skill_selection_refs = [],
     cs_experience_pattern_refs = [], cs_cache_hint = None\<rparr>"

definition sample_refresh :: context_refresh where
  "sample_refresh = \<lparr>fr_context_revision = 2, fr_knowledge_revision = None, fr_investigation_state_ref = None,
     fr_add_evidence_refs = [''e3''], fr_add_object_refs = [], fr_add_relation_refs = [],
     fr_add_enrichment_state_refs = [], fr_add_skill_selection_refs = [], fr_add_experience_pattern_refs = [],
     fr_cache_hint = None\<rparr>"

definition sample_provenance :: context_result_provenance where
  "sample_provenance = \<lparr>pv_based_on_context_id = ''c'', pv_based_on_context_revision = 1,
     pv_dependencies = \<lparr>dp_knowledge_revision = True, dp_investigation_state_ref = True,
       dp_trajectory_checkpoint_ref = False, dp_evidence_refs = [''e1''], dp_object_refs = [],
       dp_relation_refs = [], dp_enrichment_state_refs = [], dp_skill_selection_refs = [],
       dp_experience_pattern_refs = []\<rparr>\<rparr>"

section \<open>Lemmas on fields\<close>

lemma all_reference_fields [simp]: "f \<in> set reference_fields" "f \<in> set selection_order"
  by (cases f; simp add: reference_fields_def selection_order_def)+

lemma all_scalar_fields: "f \<in> set authority_fields \<or> f \<in> set state_scalar_fields"
  by (cases f) (simp_all add: authority_fields_def state_scalar_fields_def)

lemma ref_field_name_inject [simp]: "ref_field_name f = ref_field_name g \<longleftrightarrow> f = g"
  by (cases f; cases g) simp_all

lemma scalar_field_name_inject [simp]: "scalar_field_name f = scalar_field_name g \<longleftrightarrow> f = g"
  by (cases f; cases g) simp_all

lemma sorted_set_Nil_iff [simp]: "sorted_set xs = [] \<longleftrightarrow> xs = []"
  by (metis set_empty set_sorted_set)

lemma sorted_set_shape: "sorted (sorted_set xs) \<and> distinct (sorted_set xs)"
  by (simp add: sorted_set_def)

lemma set_ref_diff [simp]: "set (ref_diff xs ys) = set xs - set ys"
  by (auto simp: ref_diff_def)

lemma ref_diff_Nil_iff: "ref_diff xs ys = [] \<longleftrightarrow> set xs \<subseteq> set ys"
  by (metis Diff_eq_empty_iff set_empty set_ref_diff)

lemma require_subset_ok [res_simps]: "require_subset n xs ys = Inr u \<longleftrightarrow> set xs \<subseteq> set ys"
  by (auto simp: require_subset_def ref_diff_Nil_iff [symmetric] split: list.splits)

lemma require_subsets_ok:
  "require_subsets selected available fs = Inr u \<longleftrightarrow> (\<forall>f \<in> set fs. set (selected f) \<subseteq> set (available f))"
  by (induction fs) (auto simp: res_simps)

lemma manifest_refs_set_refs [simp]: "manifest_refs f (set_refs g m) = g f"
  by (cases f) (simp_all add: set_refs_def)

lemma manifest_scalar_set_refs [simp]: "manifest_scalar f (set_refs g m) = manifest_scalar f m"
  by (cases f) (simp_all add: set_refs_def)

lemma set_refs_identity [simp]:
  "cm_context_id (set_refs g m) = cm_context_id m" "cm_context_revision (set_refs g m) = cm_context_revision m"
  "cm_parent_context_id (set_refs g m) = cm_parent_context_id m"
  "cm_knowledge_revision (set_refs g m) = cm_knowledge_revision m"
  "cm_investigation_state_ref (set_refs g m) = cm_investigation_state_ref m"
  "cm_trajectory_checkpoint_ref (set_refs g m) = cm_trajectory_checkpoint_ref m"
  "cm_case_ref (set_refs g m) = cm_case_ref m"
  by (simp_all add: set_refs_def)

lemma derive_child_ok:
  assumes "derive_child_context p c role spec = Inr m"
  shows "set (manifest_refs f m) = set (spec_refs f spec)" "set (spec_refs f spec) \<subseteq> set (manifest_refs f p)"
    "sorted (manifest_refs f m) \<and> distinct (manifest_refs f m)"
proof -
  from assms have "\<forall>f. set (spec_refs f spec) \<subseteq> set (manifest_refs f p)"
    by (auto simp: derive_child_context_def res_simps require_subsets_ok)
  then show "set (spec_refs f spec) \<subseteq> set (manifest_refs f p)" by blast
  show "set (manifest_refs f m) = set (spec_refs f spec)" "sorted (manifest_refs f m) \<and> distinct (manifest_refs f m)"
    using assms sorted_set_shape
    by (cases f; force simp: derive_child_context_def res_simps stable_refs_def)+
qed

lemma filter_context_ok:
  assumes "filter_context p i chosen ki kt = Inr m"
  shows "set (manifest_refs f m) \<subseteq> set (manifest_refs f p)"
  using assms by (auto simp: filter_context_def Let_def res_simps require_subsets_ok stable_refs_def split: option.splits)
    (metis all_reference_fields(2) option.simps(5) subsetD)

lemma narrows_refs:
  assumes "narrows p m" shows "set (manifest_refs f m) \<subseteq> set (manifest_refs f p)"
  using assms
proof (cases rule: narrows.cases)
  case (derive c role spec)
  then show ?thesis using derive_child_ok(1,2) by blast
next
  case (fork i)
  then show ?thesis by (cases f) (simp_all add: fork_context_def)
next
  case (filter i chosen ki kt)
  then show ?thesis by (rule filter_context_ok)
qed

lemma scalar_changes_Nil: "scalar_changes a b fs = [] \<longleftrightarrow> (\<forall>f \<in> set fs. manifest_scalar f a = manifest_scalar f b)"
  by (auto simp: scalar_changes_def filter_empty_conv)

lemma ref_changes_Nil: "ref_changes a b = [] \<longleftrightarrow> (\<forall>f. set (manifest_refs f b) \<subseteq> set (manifest_refs f a))"
  by (auto simp: ref_changes_def filter_empty_conv ref_diff_Nil_iff)

lemma delta_is_empty_iff: "delta_is_empty (diff_contexts a b) \<longleftrightarrow> same_content a b"
  using all_scalar_fields
  by (auto simp: delta_is_empty_def diff_contexts_def scalar_changes_Nil ref_changes_Nil same_content_def)

lemma changed_names_diff:
  "scalar_field_name f \<in> set (changed_names (diff_contexts a b)) \<longleftrightarrow> manifest_scalar f a \<noteq> manifest_scalar f b"
  using all_scalar_fields [of f]
  by (auto simp: changed_names_def diff_contexts_def scalar_changes_def image_iff)

lemma map_of_ref_changes:
  "distinct fs \<Longrightarrow> map_of (filter (\<lambda>(_, xs). xs \<noteq> []) (map (\<lambda>f. (ref_field_name f, g f)) fs)) (ref_field_name f)
     = (if f \<in> set fs \<and> g f \<noteq> [] then Some (g f) else None)"
  by (induction fs) auto

lemma removed_of_diff: "removed_of (diff_contexts a b) f = ref_diff (manifest_refs f a) (manifest_refs f b)"
proof -
  have "distinct reference_fields" by (simp add: reference_fields_def)
  then show ?thesis
    by (simp add: removed_of_def diff_contexts_def ref_changes_def map_of_ref_changes)
qed

lemma manifest_scalar_eq_iff:
  "manifest_scalar SF_KNOWLEDGE a = manifest_scalar SF_KNOWLEDGE b \<longleftrightarrow> cm_knowledge_revision a = cm_knowledge_revision b"
  "manifest_scalar SF_INVESTIGATION a = manifest_scalar SF_INVESTIGATION b \<longleftrightarrow> cm_investigation_state_ref a = cm_investigation_state_ref b"
  "manifest_scalar SF_TRAJECTORY a = manifest_scalar SF_TRAJECTORY b \<longleftrightarrow> cm_trajectory_checkpoint_ref a = cm_trajectory_checkpoint_ref b"
  by (auto simp: j_opt_str_def split: option.splits)

lemma stale_reasons_Nil:
  "stale_reasons dep (diff_contexts a b) = [] \<longleftrightarrow> dependencies_hold dep a b"
proof -
  have cons: "(case sorted_set xs of [] \<Rightarrow> [] | y # _ \<Rightarrow> [h y]) = [] \<longleftrightarrow> xs = []" for xs and h :: "string \<Rightarrow> string"
  proof (cases "sorted_set xs")
    case Nil
    then show ?thesis by (metis list.simps(4) sorted_set_Nil_iff)
  next
    case (Cons y ys)
    then have "xs \<noteq> []" using sorted_set_Nil_iff [of xs] by auto
    with Cons show ?thesis by simp
  qed
  have names: "''knowledge_revision'' \<in> set (changed_names (diff_contexts a b)) \<longleftrightarrow> cm_knowledge_revision a \<noteq> cm_knowledge_revision b"
    "''investigation_state_ref'' \<in> set (changed_names (diff_contexts a b)) \<longleftrightarrow> cm_investigation_state_ref a \<noteq> cm_investigation_state_ref b"
    "''trajectory_checkpoint_ref'' \<in> set (changed_names (diff_contexts a b)) \<longleftrightarrow> cm_trajectory_checkpoint_ref a \<noteq> cm_trajectory_checkpoint_ref b"
    using changed_names_diff [of SF_KNOWLEDGE a b] changed_names_diff [of SF_INVESTIGATION a b]
      changed_names_diff [of SF_TRAJECTORY a b] manifest_scalar_eq_iff [of a b] by simp_all
  show ?thesis
    unfolding stale_reasons_def names append_is_Nil_conv concat_eq_Nil_conv
    by (auto simp: cons removed_of_diff dependencies_hold_def filter_empty_conv)
qed

lemma authority_changed_Nil:
  "sorted_set (filter (\<lambda>n. n \<in> set (map scalar_field_name authority_fields)) (changed_names (diff_contexts a b))) = []
     \<longleftrightarrow> same_authority a b"
  using changed_names_diff [of _ a b]
  by (auto simp: filter_empty_conv same_authority_def)

lemma refresh_ok:
  assumes "refresh_context m f = Inr m'"
  shows "cm_context_id m' = cm_context_id m" "cm_context_revision m < cm_context_revision m'"
    "\<And>g. set (manifest_refs g m) \<subseteq> set (manifest_refs g m')" "same_authority m m'"
    "cm_trajectory_checkpoint_ref m' = cm_trajectory_checkpoint_ref m"
    "\<And>k. cm_knowledge_revision m = Some k \<Longrightarrow> \<exists>k'. cm_knowledge_revision m' = Some k' \<and> k \<le> k'"
proof -
  from assms have adv: "cm_context_revision m < fr_context_revision f"
    and know: "\<not> (case (cm_knowledge_revision m, case fr_knowledge_revision f of None \<Rightarrow> cm_knowledge_revision m
        | Some k \<Rightarrow> Some k) of (Some old, Some new) \<Rightarrow> new < old | _ \<Rightarrow> False)"
    and m': "m' = set_refs (\<lambda>r. union_refs (manifest_refs r m) (refresh_refs r f))
         (m\<lparr>cm_context_revision := fr_context_revision f,
            cm_knowledge_revision := (case fr_knowledge_revision f of None \<Rightarrow> cm_knowledge_revision m | Some k \<Rightarrow> Some k),
            cm_investigation_state_ref := (case fr_investigation_state_ref f of
               Some x \<Rightarrow> Some x | None \<Rightarrow> cm_investigation_state_ref m),
            cm_cache_hint := fr_cache_hint f\<rparr>)"
    by (auto simp: refresh_context_def Let_def res_simps)
  show "cm_context_id m' = cm_context_id m" "cm_context_revision m < cm_context_revision m'"
    "\<And>g. set (manifest_refs g m) \<subseteq> set (manifest_refs g m')"
    "cm_trajectory_checkpoint_ref m' = cm_trajectory_checkpoint_ref m"
    using adv by (simp_all add: m' union_refs_def)
  show "same_authority m m'" by (simp add: m' same_authority_def authority_fields_def)
  show "\<exists>k'. cm_knowledge_revision m' = Some k' \<and> k \<le> k'" if "cm_knowledge_revision m = Some k" for k
    using that know by (cases "fr_knowledge_revision f") (simp_all add: m')
qed

lemma refreshes_ok:
  assumes "refreshes\<^sup>*\<^sup>* m m'"
  shows "cm_context_id m' = cm_context_id m" "m' \<noteq> m \<Longrightarrow> cm_context_revision m < cm_context_revision m'"
    "\<And>g. set (manifest_refs g m) \<subseteq> set (manifest_refs g m')" "same_authority m m'"
    "cm_trajectory_checkpoint_ref m' = cm_trajectory_checkpoint_ref m"
    "\<And>k. cm_knowledge_revision m = Some k \<Longrightarrow> \<exists>k'. cm_knowledge_revision m' = Some k' \<and> k \<le> k'"
proof -
  have "cm_context_id m' = cm_context_id m \<and> (m' \<noteq> m \<longrightarrow> cm_context_revision m < cm_context_revision m')
      \<and> (\<forall>g. set (manifest_refs g m) \<subseteq> set (manifest_refs g m')) \<and> same_authority m m'
      \<and> cm_trajectory_checkpoint_ref m' = cm_trajectory_checkpoint_ref m
      \<and> (\<forall>k. cm_knowledge_revision m = Some k \<longrightarrow> (\<exists>k'. cm_knowledge_revision m' = Some k' \<and> k \<le> k'))"
    using assms
  proof (induction rule: rtranclp_induct)
    case base
    then show ?case by (simp add: same_authority_def)
  next
    case (step y z)
    from step(2) obtain f where f: "refresh_context y f = Inr z" by (rule refreshesE)
    note ok = refresh_ok [OF f]
    have "cm_context_revision m < cm_context_revision z" using ok(2) step.IH by fastforce
    moreover have "set (manifest_refs g m) \<subseteq> set (manifest_refs g z)" for g using ok(3) [of g] step.IH by blast
    moreover have "same_authority m z" using ok(4) step.IH by (auto simp: same_authority_def)
    moreover have "\<exists>k'. cm_knowledge_revision z = Some k' \<and> k \<le> k'" if "cm_knowledge_revision m = Some k" for k
      using that step.IH ok(6) by (meson le_trans)
    ultimately show ?case using ok(1,5) step.IH by simp
  qed
  then show "cm_context_id m' = cm_context_id m" "m' \<noteq> m \<Longrightarrow> cm_context_revision m < cm_context_revision m'"
    "\<And>g. set (manifest_refs g m) \<subseteq> set (manifest_refs g m')" "same_authority m m'"
    "cm_trajectory_checkpoint_ref m' = cm_trajectory_checkpoint_ref m"
    "\<And>k. cm_knowledge_revision m = Some k \<Longrightarrow> \<exists>k'. cm_knowledge_revision m' = Some k' \<and> k \<le> k'"
    by blast+
qed

text \<open>The gate in terms of the specifications.\<close>

lemma gate_status:
  "co_status (gate_evaluate base current result) =
     (if \<not> based_on result base current then CC_CONFLICT
      else if cm_context_revision current = cm_context_revision base
        then (if same_content base current then CC_VALID else CC_CONFLICT)
      else if \<not> same_authority base current then CC_CONFLICT
      else if \<not> dependencies_hold (pv_dependencies result) base current then CC_STALE
      else if same_content base current then CC_VALID else CC_REBASE_REQUIRED)"
  unfolding gate_evaluate_def Let_def delta_is_empty_iff authority_changed_Nil stale_reasons_Nil based_on_def
  by (simp add: not_le not_less)

lemma same_content_holds: "same_content a b \<Longrightarrow> same_authority a b \<and> dependencies_hold dep a b"
  using manifest_scalar_eq_iff [of b a] by (auto simp: same_content_def same_authority_def dependencies_hold_def)

section \<open>Lemmas on delegation depth\<close>

lemma child_rank:
  assumes "store_inv s" "get_run s c = Some r" "rr_parent_run_id r = Some p"
  obtains pr where "get_run s p = Some pr"
    "dc_max_depth (tc_delegation_ceiling (contract_of s r)) < dc_max_depth (tc_delegation_ceiling (contract_of s pr))"
proof -
  from run_contract_inv [OF assms(1,2)] obtain row where row: "run_contract s r = Some row"
    "valid_contract (cr_contract_json row)" "parent_conforms s r row" by metis
  from row(3) assms(3) obtain pr prow where pr: "get_run s p = Some pr" "run_contract s pr = Some prow"
    "dk_allowed (validate_child_contract (cr_contract_json prow) (cr_contract_json row))"
    by (auto simp: parent_conforms_def)
  from run_contract_inv [OF assms(1) pr(1)] pr(2) have vp: "valid_contract (cr_contract_json prow)" by auto
  let ?own = "tc_delegation_ceiling (cr_contract_json row)" and ?cap = "tc_delegation_ceiling (cr_contract_json prow)"
  have cap: "dc_allowed ?cap" and lt: "dc_allowed ?own \<Longrightarrow> dc_max_depth ?own < dc_max_depth ?cap"
    using pr(3) by (auto simp: validate_child_contract_def Let_def split: if_splits)
  have "\<not> dc_allowed ?own \<Longrightarrow> dc_max_depth ?own = 0"
    using row(2) by (auto simp: valid_contract_def validate_disabled_shape_def res_simps)
  then have "dc_max_depth ?own < dc_max_depth ?cap"
    using lt valid_contract_depth [OF vp cap] by (cases "dc_allowed ?own") auto
  with pr row(1) show ?thesis using that by (simp add: contract_of_def)
qed

lemma lineage_snoc:
  "lineage s (x # xs) \<Longrightarrow> rr_parent_run_id r = Some (rr_run_id (last (x # xs))) \<Longrightarrow>
     get_run s (rr_run_id r) = Some r \<Longrightarrow> lineage s (x # xs @ [r])"
proof (induction xs arbitrary: x)
  case (Cons y ys)
  then have "lineage s (y # ys @ [r])" by simp
  with Cons.prems(1) show ?case by simp
qed simp

text \<open>Going up, ranks grow, so the loop meets no run twice and counts the hops to the root.\<close>

lemma delegation_depth_loop_ok:
  assumes "store_inv s" "get_run s c = Some r"
    and "\<forall>i \<in> set seen. \<exists>x. get_run s i = Some x
      \<and> dc_max_depth (tc_delegation_ceiling (contract_of s x)) < dc_max_depth (tc_delegation_ceiling (contract_of s r))"
  shows "\<exists>d path root. delegation_depth_loop s c seen depth = Inr (depth + d) \<and> lineage s (root # path)
    \<and> length path = d \<and> last (root # path) = r \<and> rr_parent_run_id root = None
    \<and> dc_max_depth (tc_delegation_ceiling (contract_of s r)) + d \<le> dc_max_depth (tc_delegation_ceiling (contract_of s root))"
  using assms
proof (induction s c seen depth arbitrary: r rule: delegation_depth_loop.induct)
  case (1 s c seen depth)
  let ?rank = "\<lambda>x. dc_max_depth (tc_delegation_ceiling (contract_of s x))"
  have new: "c \<notin> set seen" using 1(3,4) by auto
  have self: "get_run s (rr_run_id r) = Some r" using tab_get_key [OF 1(3)] 1(3) by simp
  show ?case
  proof (cases "rr_parent_run_id r")
    case None
    then show ?thesis using new 1(3) self
      by (intro exI [of _ 0] exI [of _ "[]"] exI [of _ r]) (simp add: delegation_depth_loop.simps)
  next
    case (Some p)
    from child_rank [OF 1(2,3) Some] obtain pr where pr: "get_run s p = Some pr" "?rank r < ?rank pr" by blast
    have "\<forall>i \<in> set (c # seen). \<exists>x. get_run s i = Some x \<and> ?rank x < ?rank pr"
      using 1(3,4) pr(2) by (auto intro: less_trans)
    from 1(1) [OF new 1(3) Some 1(2) pr(1) this] obtain d path root where
      IH: "delegation_depth_loop s p (c # seen) (depth + 1) = Inr (depth + 1 + d)" "lineage s (root # path)"
      "length path = d" "last (root # path) = pr" "rr_parent_run_id root = None" "?rank pr + d \<le> ?rank root" by blast
    have "delegation_depth_loop s c seen depth = Inr (depth + Suc d)"
      using new 1(3) Some IH(1) by (subst delegation_depth_loop.simps) simp
    moreover have "lineage s (root # path @ [r])"
      using IH(2,4) self Some tab_get_key [OF pr(1)] by (intro lineage_snoc) simp_all
    moreover have "?rank r + Suc d \<le> ?rank root" using IH(6) pr(2) by simp
    ultimately show ?thesis using IH(3,5)
      by (intro exI [of _ "Suc d"] exI [of _ "path @ [r]"] exI [of _ root]) simp
  qed
qed

lemma create_child_ok:
  assumes "create_child_task_run E s p c role spec env stream rid producer now fr fe = Inr (v, t)"
  obtains parent pc d pm m where "get_run s p = Some parent" "rr_status parent = RUNNING"
    "get_task_contract_for_run s p = Inr pc" "delegation_depth s p = Inr d"
    "d + 1 \<le> dc_max_depth (tc_delegation_ceiling pc)" "get_task_context s p = Inr pm"
    "derive_child_context pm c role spec = Inr m"
    "create_task_run E s c m role env stream (cm_case_ref m) (Some p) rid producer now fr fe = Inr (v, t)"
  using assms by (auto simp: create_child_task_run_def res_simps not_less)

lemma delegation_depth_reachable:
  assumes "(store_step E)\<^sup>*\<^sup>* empty_store s" and "get_run s rid = Some r"
  obtains root path where "delegation_depth s rid = Inr (length path)" "lineage s (root # path)"
    "last (root # path) = r" "rr_parent_run_id root = None"
    "dc_max_depth (tc_delegation_ceiling (contract_of s r)) + length path
       \<le> dc_max_depth (tc_delegation_ceiling (contract_of s root))"
proof -
  have "store_inv s" by (rule task_tables.inv_reachable [OF refl assms(1)])
  from delegation_depth_loop_ok [OF this assms(2), of "[]" 0] show ?thesis
    using that by (auto simp: delegation_depth_def)
qed

section \<open>Properties\<close>

text \<open>
  Claim C37: a context only ever narrows as it is handed down. However many times a manifest is derived for
  a child, forked or filtered, each of its six groups of references stays within the references of
  the manifest it started from.
\<close>

theorem context_only_narrows:
  assumes "narrows\<^sup>*\<^sup>* orig m"
  shows "\<forall>f. set (manifest_refs f m) \<subseteq> set (manifest_refs f orig)"
  using assms
proof (induction rule: rtranclp_induct)
  case (step y z)
  then show ?case using narrows_refs by blast
qed simp

theorem context_only_narrows_witness:
  "\<exists>m. derive_child_context sample_context (sample_contract ''k'' default_delegation_ceiling INTERNAL_STATE)
      sample_role sample_spec = Inr m
    \<and> manifest_refs RF_EVIDENCE m = [''e2'']
    \<and> (\<forall>f. set (manifest_refs f (fork_context m ''n'')) \<subseteq> set (manifest_refs f sample_context))"
proof -
  let ?c = "sample_contract ''k'' default_delegation_ceiling INTERNAL_STATE"
  have "\<exists>m. derive_child_context sample_context ?c sample_role sample_spec = Inr m
      \<and> manifest_refs RF_EVIDENCE m = [''e2'']"
    by (simp add: derive_child_context_def sample_spec_def sample_context_def sample_defs role_accepts_def raise_if_def
        reference_fields_def require_subset_def ref_diff_def stable_refs_def sorted_set_def)
  then obtain m where m: "derive_child_context sample_context ?c sample_role sample_spec = Inr m"
    "manifest_refs RF_EVIDENCE m = [''e2'']" by blast
  have "narrows\<^sup>*\<^sup>* sample_context (fork_context m ''n'')"
    using narrows.derive [OF m(1)] narrows.fork by (rule rtranclp.rtrancl_into_rtrancl [OF r_into_rtranclp])
  from context_only_narrows [OF this] m show ?thesis by blast
qed

text \<open>
  The revision gate decides exactly. A result is accepted, as valid or to be rebased, if and
  only if it was based on the given context, the context has the same identity and has not gone
  back, nothing that carries authority has changed, everything the result declared to depend on is
  still as it was, and a context that claims the same revision has the same content; and it is
  valid as it is if and only if, besides, no compared field differs.
\<close>

theorem context_gate_exact:
  "(co_status (gate_evaluate base current result) \<in> {CC_VALID, CC_REBASE_REQUIRED} \<longleftrightarrow>
     based_on result base current \<and> same_authority base current
     \<and> dependencies_hold (pv_dependencies result) base current
     \<and> \<not> (cm_context_revision current = cm_context_revision base \<and> \<not> same_content base current))
   \<and> (co_status (gate_evaluate base current result) = CC_VALID \<longleftrightarrow>
     based_on result base current \<and> same_content base current)"
  using same_content_holds [of base current "pv_dependencies result"] by (auto simp: gate_status)

text \<open>
  Refreshing a context never puts a result in conflict. A result based on a manifest that has since
  been refreshed any number of times is stale exactly when it declared a dependency on the
  knowledge revision or on the investigation state and that one changed; otherwise it is accepted.
  In particular the references it used are all still there.
\<close>

theorem refresh_keeps_results:
  assumes "refreshes\<^sup>*\<^sup>* m m'" and "pv_based_on_context_id result = cm_context_id m"
    and "pv_based_on_context_revision result = cm_context_revision m"
  shows "co_status (gate_evaluate m m' result) =
    (if (dp_knowledge_revision (pv_dependencies result) \<and> cm_knowledge_revision m' \<noteq> cm_knowledge_revision m)
        \<or> (dp_investigation_state_ref (pv_dependencies result)
            \<and> cm_investigation_state_ref m' \<noteq> cm_investigation_state_ref m)
     then CC_STALE else if same_content m m' then CC_VALID else CC_REBASE_REQUIRED)"
proof (cases "m' = m")
  case True
  then show ?thesis using assms(2,3) by (simp add: gate_status based_on_def same_content_def)
next
  case False
  note ok = refreshes_ok [OF assms(1)]
  have "based_on result m m'" using assms(2,3) ok(1) ok(2) [OF False] by (simp add: based_on_def)
  moreover have "dependencies_hold (pv_dependencies result) m m' \<longleftrightarrow>
      \<not> (dp_knowledge_revision (pv_dependencies result) \<and> cm_knowledge_revision m' \<noteq> cm_knowledge_revision m)
      \<and> \<not> (dp_investigation_state_ref (pv_dependencies result)
            \<and> cm_investigation_state_ref m' \<noteq> cm_investigation_state_ref m)"
    using ok(3,5) by (auto simp: dependencies_hold_def)
  ultimately show ?thesis using ok(2) [OF False] ok(4) by (simp add: gate_status)
qed

theorem refresh_keeps_results_witness:
  "\<exists>m'. refresh_context sample_context sample_refresh = Inr m'
     \<and> co_status (gate_evaluate sample_context m' sample_provenance) = CC_REBASE_REQUIRED"
proof -
  have "\<exists>m'. refresh_context sample_context sample_refresh = Inr m' \<and> cm_knowledge_revision m' = None
      \<and> cm_investigation_state_ref m' = None \<and> ''e3'' \<in> set (manifest_refs RF_EVIDENCE m')"
    by (simp add: refresh_context_def sample_context_def sample_refresh_def sample_manifest_def raise_if_def
        union_refs_def set_refs_def)
  then obtain m' where m': "refresh_context sample_context sample_refresh = Inr m'" "cm_knowledge_revision m' = None"
    "cm_investigation_state_ref m' = None" "''e3'' \<in> set (manifest_refs RF_EVIDENCE m')" by blast
  have "refreshes\<^sup>*\<^sup>* sample_context m'" using refreshes.refresh [OF m'(1)] by simp
  from refresh_keeps_results [OF this, of sample_provenance]
  have "co_status (gate_evaluate sample_context m' sample_provenance) =
      (if cm_knowledge_revision m' \<noteq> cm_knowledge_revision sample_context
         \<or> cm_investigation_state_ref m' \<noteq> cm_investigation_state_ref sample_context then CC_STALE
       else if same_content sample_context m' then CC_VALID else CC_REBASE_REQUIRED)"
    by (simp add: sample_provenance_def sample_context_def sample_manifest_def)
  moreover have "cm_knowledge_revision sample_context = None" "cm_investigation_state_ref sample_context = None"
    by (simp_all add: sample_context_def sample_manifest_def)
  moreover have "''e3'' \<notin> set (manifest_refs RF_EVIDENCE sample_context)" by (simp add: sample_context_def)
  then have "\<not> same_content sample_context m'" using m'(4) by (metis same_content_def)
  ultimately show ?thesis using m' by simp
qed

text \<open>The steps to the deep store.\<close>

lemma sample_started_steps:
  assumes "\<not> isl (sample_create s par rid d)"
    "no_collision sample_hash s (sample_contract (''c'' @ rid)
       (if d = 0 then default_delegation_ceiling else sample_ceiling d) INTERNAL_STATE)"
    "\<not> isl (sample_move (state_of (sample_create s par rid d) empty_store) rid QUEUED None ''k1'')"
    "\<not> isl (claim_queued_task_run (state_of (sample_move (state_of (sample_create s par rid d) empty_store) rid QUEUED None ''k1'')
       empty_store) rid ''tasks'' ''svc'' 30 (''e3'' @ rid))"
  shows "(store_step sample_hash)\<^sup>*\<^sup>* s (sample_started s par rid d)"
proof -
  let ?s1 = "state_of (sample_create s par rid d) empty_store"
  let ?s2 = "state_of (sample_move ?s1 rid QUEUED None ''k1'') empty_store"
  have "store_step sample_hash s ?s1" by (rule sample_create_step [OF assms(1,2)])
  moreover have "store_step sample_hash ?s1 ?s2" by (rule sample_move_step [OF assms(3)])
  moreover have "store_step sample_hash ?s2 (sample_started s par rid d)"
    unfolding sample_started_def Let_def by (rule store_step.claim [OF state_of_Inr [OF assms(4)]])
  ultimately show ?thesis by (meson rtranclp.rtrancl_into_rtrancl rtranclp.rtrancl_refl)
qed

lemma sample_top_val: "sample_top = sample_running\<lparr>ts_contracts := [sample_contract_row ''p'' (sample_ceiling 3)]\<rparr>"
  by (simp add: sample_top_def sample_started_def sample_eval)

lemma sample_deep_val: "sample_deep = sample_top
  \<lparr>ts_contracts := [sample_contract_row ''p'' (sample_ceiling 3), sample_contract_row ''q'' (sample_ceiling 2)],
   ts_contexts := [sample_context_row ''p'', sample_context_row ''q''],
   ts_runs := [sample_run_row ''p'' None RUNNING 30, sample_run_row ''q'' (Some ''p'') RUNNING 30],
   ts_events := ts_events sample_top @ [sample_event_row ''e1q'' ''q'' (Some ''p'') 1 TASK_CREATED ''task-run:q'' ''task-created:q'' 10,
     sample_event_row ''k1q'' ''q'' (Some ''p'') 2 TASK_PATCHED ''payload'' ''k1'' 20,
     sample_event_row ''e3q'' ''q'' (Some ''p'') 3 TASK_STARTED ''role-claim:EnrichmentRole@1'' ''role-claim:q:1'' 30],
   ts_deliveries := ts_deliveries sample_top @ [new_delivery_row ''e1q'' ''tasks'' 10, new_delivery_row ''k1q'' ''tasks'' 20,
     new_delivery_row ''e3q'' ''tasks'' 30]\<rparr>"
  by (simp add: sample_deep_def sample_started_def sample_top_val sample_eval)

lemma sample_deep_reachable: "(store_step sample_hash)\<^sup>*\<^sup>* empty_store sample_deep"
proof -
  have nc: "no_collision sample_hash empty_store c" for c by (simp add: no_collision_def empty_store_def)
  have nq: "no_collision sample_hash sample_top (sample_contract (''c'' @ ''q'') cap eff)" for cap eff
    by (simp add: no_collision_def sample_top_val sample_contract_def sample_contract_row_def)
  have "(store_step sample_hash)\<^sup>*\<^sup>* empty_store sample_top"
    unfolding sample_top_def by (rule sample_started_steps [OF _ nc]) (simp_all add: sample_eval)
  moreover have "(store_step sample_hash)\<^sup>*\<^sup>* sample_top sample_deep"
    unfolding sample_deep_def by (rule sample_started_steps [OF _ nq]) (simp_all add: sample_top_val sample_eval)
  ultimately show ?thesis by (rule rtranclp_trans)
qed

text \<open>
  Claim C38: the depth check of a child run counts the same levels twice. In every reachable store the walk from any
  run to its root ends without an error and counts the hops, and the ceiling of the run's contract is lower than the root's by at
  least as many levels, since each level had to lower it; yet the check compares the hops with that ceiling. So when a
  child is created below a run that is d levels under the root, the root's contract allowed at least 2 d + 1 levels, not d + 1.
\<close>

theorem child_depth_counted_twice:
  assumes "(store_step E')\<^sup>*\<^sup>* empty_store s" "get_run s p = Some r"
  shows "\<exists>root path. lineage s (root # path) \<and> rr_parent_run_id root = None \<and> last (root # path) = r
    \<and> delegation_depth s p = Inr (length path)
    \<and> dc_max_depth (tc_delegation_ceiling (contract_of s r)) + length path
        \<le> dc_max_depth (tc_delegation_ceiling (contract_of s root))
    \<and> (\<forall>E c role spec env stream rid producer now fr fe v t.
        create_child_task_run E s p c role spec env stream rid producer now fr fe = Inr (v, t)
        \<longrightarrow> 2 * length path + 1 \<le> dc_max_depth (tc_delegation_ceiling (contract_of s root)))"
proof -
  obtain root path where
    up: "delegation_depth s p = Inr (length path)" "lineage s (root # path)" "last (root # path) = r"
      "rr_parent_run_id root = None" "dc_max_depth (tc_delegation_ceiling (contract_of s r)) + length path
       \<le> dc_max_depth (tc_delegation_ceiling (contract_of s root))"
    by (rule delegation_depth_reachable [OF assms])
  have "store_inv s" by (rule task_tables.inv_reachable [OF refl assms(1)])
  then obtain row where row: "run_contract s r = Some row" by (rule run_contract_inv [OF _ assms(2)])
  have "2 * length path + 1 \<le> dc_max_depth (tc_delegation_ceiling (contract_of s root))"
    if "create_child_task_run E s p c role spec env stream rid producer now fr fe = Inr (v, t)"
    for E c role spec env stream rid producer now fr fe v t
  proof -
    from that obtain parent pc d where
      p: "get_run s p = Some parent" "get_task_contract_for_run s p = Inr pc" "delegation_depth s p = Inr d"
        "d + 1 \<le> dc_max_depth (tc_delegation_ceiling pc)" by (rule create_child_ok)
    have "pc = contract_of s r"
      using assms(2) p(1,2) row by (simp add: get_task_contract_for_run_def contract_of_def run_contract_def)
    with p(3,4) up(1,5) show ?thesis by simp
  qed
  with up show ?thesis by blast
qed

theorem child_depth_counted_twice_witness:
  "\<exists>root path. lineage sample_deep (root # path) \<and> delegation_depth sample_deep ''q'' = Inr (length path) \<and> length path = 1
     \<and> 3 \<le> dc_max_depth (tc_delegation_ceiling (contract_of sample_deep root))"
proof -
  let ?x = "create_child_task_run sample_hash sample_deep ''q'' (sample_contract ''ck'' default_delegation_ceiling INTERNAL_STATE)
      sample_role (sample_spec\<lparr>cs_evidence_refs := []\<rparr>) ''env'' ''tasks'' (Some ''k'') ''svc'' 40 ''k'' ''e1k''"
  have d: "delegation_depth sample_deep ''q'' = Inr 1" "get_run sample_deep ''q'' \<noteq> None"
    by (simp_all add: delegation_depth_def delegation_depth_loop.simps sample_deep_val sample_top_val sample_eval)
  have "\<exists>r. ?x = Inr r"
    by (simp add: create_child_task_run_def get_task_contract_for_run_def get_task_context_def get_context_manifest_def
        sample_deep_val sample_top_val sample_eval validate_child_delegation_def delegation_depth_def delegation_depth_loop.simps
        derive_child_context_def sample_spec_def reference_fields_def require_subset_def ref_diff_def stable_refs_def sorted_set_def)
  then obtain v t where child: "?x = Inr (v, t)" by (metis surj_pair)
  from d(2) obtain r where r: "get_run sample_deep ''q'' = Some r" by auto
  from child_depth_counted_twice [OF sample_deep_reachable r] obtain root path where
    w: "lineage sample_deep (root # path)" "delegation_depth sample_deep ''q'' = Inr (length path)"
      "\<forall>E c role spec env stream rid producer now fr fe v t.
        create_child_task_run E sample_deep ''q'' c role spec env stream rid producer now fr fe = Inr (v, t)
        \<longrightarrow> 2 * length path + 1 \<le> dc_max_depth (tc_delegation_ceiling (contract_of sample_deep root))"
    by blast
  from w(2) d(1) have "length path = 1" by simp
  moreover have "2 * length path + 1 \<le> dc_max_depth (tc_delegation_ceiling (contract_of sample_deep root))"
    using w(3) child by blast
  ultimately show ?thesis using w(1,2) by (intro exI [of _ root] exI [of _ path]) simp
qed

end
