(* ===== verification/Sandbox_Broker.thy ===== *)
theory Sandbox_Broker
  imports Execution_Runtime Policy_Engine
begin

text \<open>
  \<^verbatim>\<open>packages/runtime/sandbox\<close>: \<^verbatim>\<open>contracts.py\<close> (isolation classes, profiles and their selection) and
  \<^verbatim>\<open>broker.py\<close> (creation of sandbox instances, execution in them, export and destruction). The
  backends are parameters, one record of operations each; every call of the broker is given the
  backends as they answer at that moment. JSON columns hold the models that are read back from them,
  and reading a lease back runs the profile's validators again.
\<close>

section \<open>Profiles\<close>

datatype isolation_class =
    ISO_NONE | PROCESS_RESTRICTED | CONTAINER_STANDARD | MICROVM_UNTRUSTED | FULLVM_BROWSER

fun isolation_value :: "isolation_class \<Rightarrow> string" where
  "isolation_value ISO_NONE = ''none''"
| "isolation_value PROCESS_RESTRICTED = ''process_restricted''"
| "isolation_value CONTAINER_STANDARD = ''container_standard''"
| "isolation_value MICROVM_UNTRUSTED = ''microvm_untrusted''"
| "isolation_value FULLVM_BROWSER = ''fullvm_browser''"

fun isolation_rank :: "isolation_class \<Rightarrow> nat" where
  "isolation_rank ISO_NONE = 0"
| "isolation_rank PROCESS_RESTRICTED = 1"
| "isolation_rank CONTAINER_STANDARD = 2"
| "isolation_rank MICROVM_UNTRUSTED = 3"
| "isolation_rank FULLVM_BROWSER = 4"

definition isolation_satisfies :: "isolation_class \<Rightarrow> isolation_class \<Rightarrow> bool" where
  "isolation_satisfies actual required = (isolation_rank required \<le> isolation_rank actual)"

record sandbox_profile =
  sp_profile_id :: string
  sp_revision :: string
  sp_isolation_class :: isolation_class
  sp_backend :: string
  sp_image_ref_or_digest :: "string option"
  sp_run_as_uid_gid :: "string option"
  sp_cpu_limit :: "rat option"
  sp_memory_limit :: "int option"
  sp_pids_limit :: "int option"
  sp_wall_timeout_seconds :: "int option"
  sp_rootfs :: string
  sp_writable_paths :: "string list"
  sp_readonly_mounts :: "string list"
  sp_seccomp_profile :: "string option"
  sp_landlock_profile :: "string option"
  sp_linux_capabilities :: "string list"
  sp_no_new_privs :: bool
  sp_network_mode :: string
  sp_allowed_destinations :: "string list"
  sp_credential_injection :: string
  sp_artifact_export_policy :: string
  sp_teardown_policy :: string
  sp_require_hardware_virtualization :: bool
  sp_fallback :: string

text \<open>\<^verbatim>\<open>s.split(c)\<close> for a separator of one character.\<close>

fun split_char :: "char \<Rightarrow> string \<Rightarrow> string list" where
  "split_char c [] = [[]]"
| "split_char c (x # xs) =
     (if x = c then [] # split_char c xs
      else case split_char c xs of [] \<Rightarrow> [[x]] | y # ys \<Rightarrow> (x # y) # ys)"

text \<open>\<^verbatim>\<open>Field(default=None, gt=0)\<close>\<close>

definition positive_opt :: "'a::linordered_idom option \<Rightarrow> bool" where
  "positive_opt o' = (case o' of None \<Rightarrow> True | Some x \<Rightarrow> 0 < x)"

definition enforce_v1_security_shape :: "sandbox_profile \<Rightarrow> sandbox_profile res" where
  "enforce_v1_security_shape p =
     raise_if (\<not> positive_opt (sp_cpu_limit p)) (ValueError ''cpu_limit'')
     (raise_if (\<not> positive_opt (sp_memory_limit p)) (ValueError ''memory_limit'')
     (raise_if (\<not> positive_opt (sp_pids_limit p)) (ValueError ''pids_limit'')
     (raise_if (\<not> positive_opt (sp_wall_timeout_seconds p)) (ValueError ''wall_timeout_seconds'')
     (raise_if (blank (sp_profile_id p) \<or> blank (sp_revision p) \<or> blank (sp_backend p))
       (ValueError ''SandboxProfile identity/backend cannot be empty'')
     (raise_if (sp_rootfs p \<notin> {''read_only'', ''overlay''})
       (ValueError ''SandboxProfile rootfs must be read_only or overlay'')
     (raise_if (sp_network_mode p \<notin> {''deny'', ''allowlist'', ''proxied''})
       (ValueError ''SandboxProfile network_mode is invalid'')
     (raise_if (sp_credential_injection p \<notin> {''none'', ''gateway''})
       (ValueError ''SandboxProfile credential_injection is invalid'')
     (raise_if (sp_linux_capabilities p \<noteq> [])
       (ValueError ''v1 Agent sandbox profiles must drop Linux capabilities'')
     (raise_if (\<not> sp_no_new_privs p) (ValueError ''v1 Agent sandbox profiles require no_new_privs'')
     (raise_if (case sp_image_ref_or_digest p of None \<Rightarrow> False
          | Some img \<Rightarrow> img \<noteq> [] \<and> \<not> str_contains img ''@sha256:'')
       (ValueError ''sandbox image must be pinned by digest'')
     (if sp_isolation_class p = MICROVM_UNTRUSTED
      then raise_if (sp_backend p \<noteq> ''firecracker'') (ValueError ''microvm_untrusted requires Firecracker'')
        (raise_if (\<not> sp_require_hardware_virtualization p)
          (ValueError ''microvm_untrusted requires hardware virtualization'')
        (raise_if (sp_fallback p \<noteq> ''deny'') (ValueError ''microvm_untrusted fallback must be deny'') (Inr p)))
      else Inr p)))))))))))"

record sandbox_selection =
  sl_profile :: "sandbox_profile option"
  sl_available :: bool
  sl_reason :: "string option"

definition base_profile :: "string \<Rightarrow> isolation_class \<Rightarrow> string \<Rightarrow> sandbox_profile" where
  "base_profile profile_id isolation backend =
     \<lparr>sp_profile_id = profile_id, sp_revision = ''1'', sp_isolation_class = isolation, sp_backend = backend,
      sp_image_ref_or_digest = None, sp_run_as_uid_gid = None, sp_cpu_limit = None, sp_memory_limit = None,
      sp_pids_limit = None, sp_wall_timeout_seconds = None, sp_rootfs = ''read_only'', sp_writable_paths = [],
      sp_readonly_mounts = [], sp_seccomp_profile = None, sp_landlock_profile = None, sp_linux_capabilities = [],
      sp_no_new_privs = True, sp_network_mode = ''deny'', sp_allowed_destinations = [],
      sp_credential_injection = ''none'', sp_artifact_export_policy = ''explicit'', sp_teardown_policy = ''destroy'',
      sp_require_hardware_virtualization = False, sp_fallback = ''deny''\<rparr>"

type_synonym profile_table = "(isolation_class \<times> sandbox_profile) list"

definition default_sandbox_profiles :: profile_table where
  "default_sandbox_profiles = map (\<lambda>p. (sp_isolation_class p, p))
     [base_profile ''process_restricted'' PROCESS_RESTRICTED ''openshell'',
      (base_profile ''container_standard'' CONTAINER_STANDARD ''openshell+docker'')
        \<lparr>sp_writable_paths := [''/workspace'', ''/tmp''], sp_network_mode := ''proxied'',
         sp_credential_injection := ''gateway''\<rparr>,
      (base_profile ''microvm_untrusted'' MICROVM_UNTRUSTED ''firecracker'')
        \<lparr>sp_require_hardware_virtualization := True\<rparr>]"

text \<open>\<^verbatim>\<open>profiles or default_sandbox_profiles()\<close>\<close>

definition configured_profiles :: "profile_table option \<Rightarrow> profile_table" where
  "configured_profiles profiles =
     (case profiles of None \<Rightarrow> default_sandbox_profiles
      | Some ps \<Rightarrow> if ps = [] then default_sandbox_profiles else ps)"

definition select_sandbox_profile ::
  "isolation_class \<Rightarrow> string list \<Rightarrow> profile_table option \<Rightarrow> sandbox_selection" where
  "select_sandbox_profile minimum_isolation available_backends profiles =
     (if minimum_isolation = ISO_NONE then \<lparr>sl_profile = None, sl_available = True, sl_reason = None\<rparr>
      else case map_of (configured_profiles profiles) minimum_isolation of
        None \<Rightarrow> \<lparr>sl_profile = None, sl_available = False, sl_reason = Some ''sandbox_profile_unavailable''\<rparr>
      | Some profile \<Rightarrow>
          if \<not> set (split_char (CHR ''+'') (sp_backend profile)) \<subseteq> set available_backends
          then \<lparr>sl_profile = None, sl_available = False, sl_reason = Some ''sandbox_unavailable''\<rparr>
          else \<lparr>sl_profile = Some profile, sl_available = True, sl_reason = None\<rparr>)"

section \<open>Paths\<close>

text \<open>
  \<^verbatim>\<open>PurePosixPath(path).parts\<close> without the root: the components between slashes, less the empty ones and \<^verbatim>\<open>.\<close>.
\<close>

definition path_parts :: "string \<Rightarrow> string list" where
  "path_parts path = filter (\<lambda>part. part \<noteq> [] \<and> part \<noteq> ''.'') (split_char (CHR ''/'') path)"

definition path_is_absolute :: "string \<Rightarrow> bool" where
  "path_is_absolute path = startswith path ''/''"

definition validate_absolute_sandbox_path :: "string \<Rightarrow> unit res" where
  "validate_absolute_sandbox_path path =
     raise_if (\<not> path_is_absolute path \<or> ''..'' \<in> set (path_parts path))
       (ValueError ''sandbox writable path must be normalized absolute sandbox path'') (Inr ())"

definition validate_relative_export_path :: "string \<Rightarrow> unit res" where
  "validate_relative_export_path path =
     raise_if (path_is_absolute path \<or> ''..'' \<in> set (path_parts path) \<or> blank path)
       (ValueError ''sandbox export path must be normalized relative path'') (Inr ())"

section \<open>Requests, leases and results\<close>

record sandbox_create_request =
  sq_request_id :: string
  sq_minimum_isolation :: isolation_class
  sq_workspace_artifact_refs :: "string list"
  sq_readonly_artifact_refs :: "string list"
  sq_requested_writable_paths :: "string list"
  sq_network_destinations :: "string list"
  sq_credential_scope :: "string list"

definition validate_refs :: "sandbox_create_request \<Rightarrow> sandbox_create_request res" where
  "validate_refs q =
     raise_if (list_ex (\<lambda>r. \<not> startswith r ''artifact:'') (sq_workspace_artifact_refs q @ sq_readonly_artifact_refs q))
       (ValueError ''sandbox mounts must use ArtifactRef, not host paths'')
     (res_bind (fold_res (\<lambda>path _. validate_absolute_sandbox_path path) (sq_requested_writable_paths q) ()) (\<lambda>_.
      Inr q))"

record sandbox_grants =
  sg_fulfilled_obligation_kinds :: "string list"
  sg_network_grant_ref :: "string option"
  sg_credential_grant_ref :: "string option"

record sandbox_lease =
  ls_execution_id :: string
  ls_task_run_id :: string
  ls_profile :: sandbox_profile
  ls_workspace_artifact_refs :: "string list"
  ls_readonly_artifact_refs :: "string list"
  ls_writable_paths :: "string list"
  ls_network_destinations :: "string list"
  ls_network_grant_ref :: "string option"
  ls_credential_scope :: "string list"
  ls_credential_grant_ref :: "string option"

definition validate_lease :: "sandbox_lease \<Rightarrow> sandbox_lease res" where
  "validate_lease l = res_bind (enforce_v1_security_shape (ls_profile l)) (\<lambda>_. Inr l)"

record sandbox_instance =
  si_instance_id :: string
  si_execution_id :: string
  si_task_run_id :: string
  si_profile_id :: string
  si_profile_revision :: string
  si_backend :: string
  si_backend_handle_ref :: string
  si_status :: string
  si_created_at :: int

record sandbox_exec_request =
  eq_operation_id :: string
  eq_program_ref :: string
  eq_arguments :: jdict
  eq_input_artifact_refs :: "string list"
  eq_requested_timeout_seconds :: rat

definition validate_exec_request :: "sandbox_exec_request \<Rightarrow> sandbox_exec_request res" where
  "validate_exec_request q =
     raise_if (eq_requested_timeout_seconds q \<le> 0) (ValueError ''requested_timeout_seconds'')
     (raise_if (\<not> (startswith (eq_program_ref q) ''program:'' \<or> startswith (eq_program_ref q) ''artifact:''))
       (ValueError ''sandbox execution requires program/artifact reference'')
     (raise_if (list_ex (\<lambda>r. \<not> startswith r ''artifact:'') (eq_input_artifact_refs q))
       (ValueError ''sandbox execution inputs must use ArtifactRef'')
     (Inr q)))"

record sandbox_backend_exec_result =
  bx_status :: string
  bx_exit_code :: "int option"
  bx_stdout_artifact_ref :: "string option"
  bx_stderr_artifact_ref :: "string option"
  bx_failure_code :: "string option"

record sandbox_exec_result =
  sr_sandbox_execution_id :: string
  sr_operation_id :: string
  sr_status :: string
  sr_exit_code :: "int option"
  sr_stdout_artifact_ref :: "string option"
  sr_stderr_artifact_ref :: "string option"
  sr_timeout_seconds :: rat
  sr_started_at :: int
  sr_finished_at :: int
  sr_failure_code :: "string option"
  sr_replay :: bool

record sandbox_backend =
  be_create :: "sandbox_lease \<Rightarrow> string res"
  be_exec :: "string \<Rightarrow> sandbox_exec_request \<Rightarrow> rat \<Rightarrow> sandbox_backend_exec_result res"
  be_export :: "string \<Rightarrow> string list \<Rightarrow> string list res"
  be_destroy :: "string \<Rightarrow> unit res"

record instance_row =
  in_instance_id :: string
  in_execution_id :: string
  in_task_run_id :: string
  in_request_id :: string
  in_profile_id :: string
  in_profile_revision :: string
  in_backend :: string
  in_backend_handle_ref :: "string option"
  in_request_json :: sandbox_create_request
  in_lease_json :: sandbox_lease
  in_policy_decision_ref :: string
  in_policy_decision_json :: policy_decision
  in_status :: string
  in_created_at :: int
  in_destroyed_at :: "int option"
  in_failure_code :: "string option"

record sandbox_exec_row =
  xe_sandbox_execution_id :: string
  xe_instance_id :: string
  xe_operation_id :: string
  xe_request_json :: sandbox_exec_request
  xe_result_json :: "sandbox_exec_result option"
  xe_status :: string
  xe_timeout_seconds :: rat
  xe_started_at :: int
  xe_finished_at :: "int option"
  xe_failure_code :: "string option"

text \<open>\<^verbatim>\<open>SandboxStatus.ACTIVE\<close> and \<^verbatim>\<open>SandboxStatus.DESTROYED\<close>\<close>

definition sandbox_active :: string where "sandbox_active = ''active''"

definition sandbox_destroyed :: string where "sandbox_destroyed = ''destroyed''"

record sandbox_state =
  sx_executions :: execution_table
  sx_instances :: "instance_row list"
  sx_execs :: "sandbox_exec_row list"

record sandbox_broker =
  sb_policy :: policy_engine
  sb_backends :: "(string \<times> sandbox_backend) list"
  sb_profiles :: profile_table
  sb_available :: "string list"

section \<open>Construction\<close>

definition detect_available_backend_components :: "(string \<Rightarrow> string option) \<Rightarrow> bool \<Rightarrow> string list" where
  "detect_available_backend_components which has_kvm =
     filter (\<lambda>name. which name \<noteq> None) [''openshell'', ''docker'', ''podman'']
     @ (if which ''firecracker'' \<noteq> None \<and> has_kvm then [''firecracker''] else [])"

definition new_sandbox_broker ::
  "policy_engine \<Rightarrow> (string \<times> sandbox_backend) list \<Rightarrow> profile_table option \<Rightarrow> string list option
     \<Rightarrow> (string \<Rightarrow> string option) \<Rightarrow> bool \<Rightarrow> sandbox_broker" where
  "new_sandbox_broker policy backends profiles available which has_kvm =
     \<lparr>sb_policy = policy, sb_backends = backends, sb_profiles = configured_profiles profiles,
      sb_available = (case available of Some a \<Rightarrow> a | None \<Rightarrow> detect_available_backend_components which has_kvm)\<rparr>"

section \<open>Checks\<close>

definition validate_request_against_profile ::
  "sandbox_create_request \<Rightarrow> sandbox_profile \<Rightarrow> sandbox_grants \<Rightarrow> unit res" where
  "validate_request_against_profile q p grants =
     raise_if (\<not> set (sq_requested_writable_paths q) \<subseteq> set (sp_writable_paths p))
       (ValueError ''sandbox writable path exceeds profile'')
     (raise_if (sp_network_mode p = ''deny'' \<and> sq_network_destinations q \<noteq> [])
       (ValueError ''sandbox profile denies network'')
     (raise_if (sp_network_mode p = ''allowlist''
         \<and> \<not> set (sq_network_destinations q) \<subseteq> set (sp_allowed_destinations p))
       (ValueError ''sandbox destination exceeds profile allowlist'')
     (raise_if (sp_network_mode p = ''proxied'' \<and> sq_network_destinations q \<noteq> [] \<and> sg_network_grant_ref grants = None)
       (ValueError ''proxied sandbox network requires NetworkGrant'')
     (if sq_credential_scope q = [] then Inr ()
      else raise_if (sp_credential_injection p \<noteq> ''gateway'')
        (ValueError ''sandbox profile does not allow credential injection'')
        (raise_if (sg_credential_grant_ref grants = None)
          (ValueError ''sandbox credential scope requires CredentialGrant'') (Inr ()))))))"

definition enforce_policy_decision :: "policy_decision \<Rightarrow> string list \<Rightarrow> unit res" where
  "enforce_policy_decision d fulfilled =
     raise_if (pd_authorization d \<noteq> PERMIT)
       (SandboxUnavailable (''sandbox_policy_'' @ authorization_value (pd_authorization d)))
     (let missing = sorted_set (filter (\<lambda>k. k \<notin> set fulfilled)
            (map po_kind (pd_constraints d @ pd_obligations d))) in
      raise_if (missing \<noteq> [])
        (SandboxUnavailable (''sandbox_policy_obligation_unsatisfied:'' @ join '','' missing)) (Inr ()))"

definition finish_exec_audit :: "sandbox_exec_row \<Rightarrow> sandbox_exec_result \<Rightarrow> sandbox_exec_row" where
  "finish_exec_audit m result =
     m\<lparr>xe_result_json := Some result, xe_status := sr_status result,
       xe_finished_at := Some (sr_finished_at result), xe_failure_code := sr_failure_code result\<rparr>"

text \<open>\<^verbatim>\<open>failure_code or default\<close>\<close>

definition failure_or :: "string option \<Rightarrow> string \<Rightarrow> string" where
  "failure_or code fallback = (case code of None \<Rightarrow> fallback | Some c \<Rightarrow> if c = [] then fallback else c)"

definition instance_view :: "instance_row \<Rightarrow> sandbox_instance res" where
  "instance_view m =
     (case in_backend_handle_ref m of
        None \<Rightarrow> Inl (SandboxUnavailable (failure_or (in_failure_code m) ''sandbox_instance_unavailable''))
      | Some handle \<Rightarrow> Inr
          \<lparr>si_instance_id = in_instance_id m, si_execution_id = in_execution_id m, si_task_run_id = in_task_run_id m,
           si_profile_id = in_profile_id m, si_profile_revision = in_profile_revision m, si_backend = in_backend m,
           si_backend_handle_ref = handle, si_status = in_status m, si_created_at = in_created_at m\<rparr>)"

definition validate_backend_artifact_refs :: "sandbox_exec_result \<Rightarrow> unit res" where
  "validate_backend_artifact_refs result =
     raise_if (list_ex (\<lambda>o'. case o' of None \<Rightarrow> False | Some r \<Rightarrow> \<not> startswith r ''artifact:'')
         [sr_stdout_artifact_ref result, sr_stderr_artifact_ref result])
       (RuntimeError ''sandbox backend output must be ArtifactRef'') (Inr ())"

section \<open>Creation\<close>

definition find_instance :: "sandbox_state \<Rightarrow> string \<Rightarrow> string \<Rightarrow> instance_row option" where
  "find_instance st execution_id request_id =
     find (\<lambda>m. in_execution_id m = execution_id \<and> in_request_id m = request_id) (sx_instances st)"

definition profile_ref :: "sandbox_profile \<Rightarrow> string" where
  "profile_ref p = sp_profile_id p @ ''@'' @ sp_revision p"

definition sandbox_policy_request :: "task_contract \<Rightarrow> execution_envelope \<Rightarrow> sandbox_profile \<Rightarrow> policy_request" where
  "sandbox_policy_request task env p =
     \<lparr>pq_decision_point = SANDBOX_SELECTION, pq_principal = tc_principal task, pq_action = ''sandbox.create'',
      pq_resource = ''sandbox-profile:'' @ sp_profile_id p,
      pq_context = [(''task_contract_id'', JStr (tc_task_contract_id task)), (''task_run_id'', JStr (ee_task_run_id env)),
        (''execution_id'', JStr (ee_execution_id env)), (''sandbox_profile'', JStr (profile_ref p))]\<rparr>"

definition lease_of ::
  "execution_envelope \<Rightarrow> sandbox_create_request \<Rightarrow> sandbox_grants \<Rightarrow> sandbox_profile \<Rightarrow> sandbox_lease" where
  "lease_of env q grants p =
     \<lparr>ls_execution_id = ee_execution_id env, ls_task_run_id = ee_task_run_id env, ls_profile = p,
      ls_workspace_artifact_refs = sq_workspace_artifact_refs q,
      ls_readonly_artifact_refs = sq_readonly_artifact_refs q, ls_writable_paths = sq_requested_writable_paths q,
      ls_network_destinations = sq_network_destinations q, ls_network_grant_ref = sg_network_grant_ref grants,
      ls_credential_scope = sq_credential_scope q, ls_credential_grant_ref = sg_credential_grant_ref grants\<rparr>"

definition instance_row_of ::
  "hash_env \<Rightarrow> execution_envelope \<Rightarrow> sandbox_create_request \<Rightarrow> sandbox_lease \<Rightarrow> string \<Rightarrow> string \<Rightarrow> policy_decision
     \<Rightarrow> int \<Rightarrow> instance_row" where
  "instance_row_of E env q lease handle policy_decision_ref decision now =
     \<lparr>in_instance_id = stable_id E (''sandbox-instance:'' @ ee_execution_id env @ '':'' @ sq_request_id q),
      in_execution_id = ee_execution_id env, in_task_run_id = ee_task_run_id env, in_request_id = sq_request_id q,
      in_profile_id = sp_profile_id (ls_profile lease), in_profile_revision = sp_revision (ls_profile lease),
      in_backend = sp_backend (ls_profile lease), in_backend_handle_ref = Some handle, in_request_json = q,
      in_lease_json = lease, in_policy_decision_ref = policy_decision_ref, in_policy_decision_json = decision,
      in_status = sandbox_active, in_created_at = now, in_destroyed_at = None, in_failure_code = None\<rparr>"

text \<open>The gates of \<^verbatim>\<open>create\<close>, before the backend is called.\<close>

definition admit_sandbox ::
  "sandbox_broker \<Rightarrow> sandbox_state \<Rightarrow> task_contract \<Rightarrow> execution_envelope \<Rightarrow> sandbox_create_request
     \<Rightarrow> sandbox_grants \<Rightarrow> (sandbox_profile \<times> sandbox_backend \<times> policy_request \<times> policy_decision) res" where
  "admit_sandbox B st task env q grants =
     res_bind (get_execution (sx_executions st) (ee_execution_id env)) (\<lambda>persisted.
     raise_if (persisted \<noteq> env) (SandboxUnavailable ''sandbox_execution_envelope_mismatch'')
     (let selection = select_sandbox_profile (sq_minimum_isolation q) (sb_available B) (Some (sb_profiles B)) in
      case (sl_available selection, sl_profile selection) of
        (True, Some p) \<Rightarrow>
          raise_if (ee_sandbox_profile_revision env \<noteq> profile_ref p)
            (SandboxUnavailable ''sandbox_profile_revision_mismatch'')
          (case map_of (sb_backends B) (sp_backend p) of
             None \<Rightarrow> Inl (SandboxUnavailable ''sandbox_backend_adapter_unavailable'')
           | Some backend \<Rightarrow>
               raise_if (\<not> set (sq_credential_scope q) \<subseteq> set (ee_identity_scope env))
                 (SandboxUnavailable ''sandbox_credential_scope_exceeds_execution_identity'')
               (res_bind (validate_request_against_profile q p grants) (\<lambda>_.
                res_bind (validate_request (sandbox_policy_request task env p)) (\<lambda>pq.
                res_bind (evaluate (sb_policy B) pq) (\<lambda>d.
                res_bind (enforce_policy_decision d (sg_fulfilled_obligation_kinds grants)) (\<lambda>_.
                Inr (p, backend, pq, d)))))))
      | _ \<Rightarrow> Inl (SandboxUnavailable (failure_or (sl_reason selection) ''sandbox_unavailable''))))"

definition create_sandbox ::
  "hash_env \<Rightarrow> (int \<Rightarrow> string) \<Rightarrow> sandbox_broker \<Rightarrow> sandbox_state \<Rightarrow> task_contract \<Rightarrow> execution_envelope
     \<Rightarrow> sandbox_create_request \<Rightarrow> sandbox_grants \<Rightarrow> int \<Rightarrow> (sandbox_instance \<times> sandbox_state) res" where
  "create_sandbox E show_time B st task env q grants now =
     (case find_instance st (ee_execution_id env) (sq_request_id q) of
        Some existing \<Rightarrow>
          raise_if (in_status existing \<noteq> sandbox_active \<or> in_backend_handle_ref existing = None)
            (SandboxUnavailable (failure_or (in_failure_code existing) ''sandbox_instance_unavailable''))
          (res_bind (instance_view existing) (\<lambda>v. Inr (v, st)))
      | None \<Rightarrow>
          res_bind (admit_sandbox B st task env q grants) (\<lambda>(p, backend, pq, d).
          (let lease = lease_of env q grants p in
           res_bind (be_create backend lease) (\<lambda>handle.
           (let m = instance_row_of E env q lease handle (decision_ref E show_time (sb_policy B) pq d) d now in
            res_bind (tab_add in_instance_id m (sx_instances st)) (\<lambda>rows.
            res_bind (instance_view m) (\<lambda>v. Inr (v, st\<lparr>sx_instances := rows\<rparr>))))))))"

section \<open>Execution\<close>

definition find_exec :: "sandbox_state \<Rightarrow> string \<Rightarrow> string \<Rightarrow> sandbox_exec_row option" where
  "find_exec st instance_id operation_id =
     find (\<lambda>m. xe_instance_id m = instance_id \<and> xe_operation_id m = operation_id) (sx_execs st)"

text \<open>The readings of the broker's clock in one call of \<^verbatim>\<open>exec\<close>.\<close>

record exec_clock =
  ek_now :: int
  ek_started :: int
  ek_finished :: int

definition running_exec_audit ::
  "hash_env \<Rightarrow> string \<Rightarrow> sandbox_exec_request \<Rightarrow> rat \<Rightarrow> int \<Rightarrow> sandbox_exec_row" where
  "running_exec_audit E instance_id q timeout started_at =
     \<lparr>xe_sandbox_execution_id = stable_id E (''sandbox-exec:'' @ instance_id @ '':'' @ eq_operation_id q),
      xe_instance_id = instance_id, xe_operation_id = eq_operation_id q, xe_request_json = q, xe_result_json = None,
      xe_status = ''running'', xe_timeout_seconds = timeout, xe_started_at = started_at, xe_finished_at = None,
      xe_failure_code = None\<rparr>"

definition deadline_result :: "sandbox_exec_row \<Rightarrow> int \<Rightarrow> sandbox_exec_result" where
  "deadline_result audit finished_at =
     \<lparr>sr_sandbox_execution_id = xe_sandbox_execution_id audit, sr_operation_id = xe_operation_id audit,
      sr_status = ''timed_out'', sr_exit_code = None, sr_stdout_artifact_ref = None, sr_stderr_artifact_ref = None,
      sr_timeout_seconds = 0, sr_started_at = xe_started_at audit, sr_finished_at = finished_at,
      sr_failure_code = Some ''execution_deadline_reached'', sr_replay = False\<rparr>"

definition native_exec_result :: "sandbox_exec_row \<Rightarrow> sandbox_backend_exec_result \<Rightarrow> int \<Rightarrow> sandbox_exec_result" where
  "native_exec_result audit native finished_at =
     \<lparr>sr_sandbox_execution_id = xe_sandbox_execution_id audit, sr_operation_id = xe_operation_id audit,
      sr_status = bx_status native, sr_exit_code = bx_exit_code native,
      sr_stdout_artifact_ref = bx_stdout_artifact_ref native, sr_stderr_artifact_ref = bx_stderr_artifact_ref native,
      sr_timeout_seconds = xe_timeout_seconds audit, sr_started_at = xe_started_at audit,
      sr_finished_at = finished_at, sr_failure_code = bx_failure_code native, sr_replay = False\<rparr>"

text \<open>The timeout of an operation: what was asked, what the envelope has left, what the profile allows.\<close>

definition exec_timeout :: "execution_envelope \<Rightarrow> sandbox_profile \<Rightarrow> sandbox_exec_request \<Rightarrow> int \<Rightarrow> rat res" where
  "exec_timeout env p q now =
     res_bind (bounded_timeout_seconds env (Aware now) (eq_requested_timeout_seconds q)) (\<lambda>timeout.
     Inr (case sp_wall_timeout_seconds p of None \<Rightarrow> timeout | Some wall \<Rightarrow> min timeout (of_int wall)))"

definition exec_sandbox ::
  "hash_env \<Rightarrow> sandbox_broker \<Rightarrow> sandbox_state \<Rightarrow> execution_envelope \<Rightarrow> string \<Rightarrow> sandbox_exec_request
     \<Rightarrow> exec_clock \<Rightarrow> (sandbox_exec_result \<times> sandbox_state) res" where
  "exec_sandbox E B st env instance_id q ck =
     (case tab_get in_instance_id instance_id (sx_instances st) of
        None \<Rightarrow> Inl (LookupError (''sandbox instance not found: '' @ instance_id))
      | Some inst \<Rightarrow>
          raise_if (in_execution_id inst \<noteq> ee_execution_id env)
            (ValueError ''sandbox instance escapes ExecutionEnvelope'')
          (case (if in_status inst \<noteq> sandbox_active then None else in_backend_handle_ref inst) of
             None \<Rightarrow> Inl (SandboxUnavailable ''sandbox_instance_not_active'')
           | Some handle \<Rightarrow>
          (case find_exec st instance_id (eq_operation_id q) of
             Some existing \<Rightarrow>
               (case (xe_result_json existing, xe_finished_at existing) of
                  (Some result, Some _) \<Rightarrow> Inr (result\<lparr>sr_replay := True\<rparr>, st)
                | _ \<Rightarrow> Inl (RuntimeError ''sandbox operation is already running''))
           | None \<Rightarrow>
               res_bind (validate_lease (in_lease_json inst)) (\<lambda>lease.
               res_bind (exec_timeout env (ls_profile lease) q (ek_now ck)) (\<lambda>timeout.
               (let audit = running_exec_audit E instance_id q timeout (ek_started ck) in
                res_bind (tab_add xe_sandbox_execution_id audit (sx_execs st)) (\<lambda>rows.
                if timeout \<le> 0
                then (let result = deadline_result audit (ek_finished ck) in
                      Inr (result, st\<lparr>sx_execs := tab_put xe_sandbox_execution_id (finish_exec_audit audit result) rows\<rparr>))
                else case map_of (sb_backends B) (in_backend inst) of
                  None \<Rightarrow> Inl (SandboxUnavailable ''sandbox_backend_adapter_unavailable'')
                | Some backend \<Rightarrow>
                    res_bind (be_exec backend handle q timeout) (\<lambda>native.
                    (let result = native_exec_result audit native (ek_finished ck) in
                     res_bind (validate_backend_artifact_refs result) (\<lambda>_.
                     Inr (result, st\<lparr>sx_execs := tab_put xe_sandbox_execution_id (finish_exec_audit audit result) rows\<rparr>)))))))))))"

section \<open>Export and destruction\<close>

definition export_sandbox ::
  "sandbox_broker \<Rightarrow> sandbox_state \<Rightarrow> string \<Rightarrow> string list \<Rightarrow> string list res" where
  "export_sandbox B st instance_id relative_paths =
     (case tab_get in_instance_id instance_id (sx_instances st) of
        None \<Rightarrow> Inl (LookupError (''sandbox instance not found: '' @ instance_id))
      | Some inst \<Rightarrow>
          (case (if in_status inst \<noteq> sandbox_active then None else in_backend_handle_ref inst) of
             None \<Rightarrow> Inl (SandboxUnavailable ''sandbox_instance_not_active'')
           | Some handle \<Rightarrow>
               res_bind (validate_lease (in_lease_json inst)) (\<lambda>lease.
               raise_if (sp_artifact_export_policy (ls_profile lease) \<noteq> ''explicit'')
                 (SandboxUnavailable ''sandbox_artifact_export_disabled'')
               (res_bind (fold_res (\<lambda>path _. validate_relative_export_path path) relative_paths ()) (\<lambda>_.
                case map_of (sb_backends B) (in_backend inst) of
                  None \<Rightarrow> Inl (SandboxUnavailable ''sandbox_backend_adapter_unavailable'')
                | Some backend \<Rightarrow>
                    res_bind (be_export backend handle relative_paths) (\<lambda>refs.
                    raise_if (list_ex (\<lambda>r. \<not> startswith r ''artifact:'') refs)
                      (RuntimeError ''sandbox backend returned non-ArtifactRef export'') (Inr refs)))))))"

definition destroy_sandbox :: "sandbox_broker \<Rightarrow> sandbox_state \<Rightarrow> string \<Rightarrow> int \<Rightarrow> sandbox_state res" where
  "destroy_sandbox B st instance_id now =
     (case tab_get in_instance_id instance_id (sx_instances st) of
        None \<Rightarrow> Inl (LookupError (''sandbox instance not found: '' @ instance_id))
      | Some inst \<Rightarrow>
          if in_status inst = sandbox_destroyed then Inr st
          else res_bind (case in_backend_handle_ref inst of
                 None \<Rightarrow> Inr ()
               | Some handle \<Rightarrow>
                   (case map_of (sb_backends B) (in_backend inst) of
                      None \<Rightarrow> Inl (SandboxUnavailable ''sandbox_backend_adapter_unavailable'')
                    | Some backend \<Rightarrow> be_destroy backend handle)) (\<lambda>_.
            Inr (st\<lparr>sx_instances := tab_put in_instance_id
              (inst\<lparr>in_status := sandbox_destroyed, in_destroyed_at := Some now\<rparr>) (sx_instances st)\<rparr>)))"

section \<open>Specifications\<close>

text \<open>
  The histories of the sandbox tables. A broker's profiles are validated models, and so are the
  requests; executions may be created, started and finished in between.
\<close>

definition profiles_ok :: "profile_table \<Rightarrow> bool" where
  "profiles_ok ps \<longleftrightarrow> (\<forall>(c, p) \<in> set ps. enforce_v1_security_shape p = Inr p)"

inductive sandbox_step :: "hash_env \<Rightarrow> (int \<Rightarrow> string) \<Rightarrow> sandbox_state \<Rightarrow> sandbox_state \<Rightarrow> bool" for E show_time where
  create: "profiles_ok (sb_profiles B) \<Longrightarrow> validate_refs q = Inr q \<Longrightarrow>
    create_sandbox E show_time B st task env q grants now = Inr (v, st') \<Longrightarrow> sandbox_step E show_time st st'"
| exec: "validate_exec_request q = Inr q \<Longrightarrow>
    exec_sandbox E B st env i q ck = Inr (result, st') \<Longrightarrow> sandbox_step E show_time st st'"
| destroy: "destroy_sandbox B st i now = Inr st' \<Longrightarrow> sandbox_step E show_time st st'"
| execution: "execution_step (sx_executions st) xs \<Longrightarrow> sandbox_step E show_time st (st\<lparr>sx_executions := xs\<rparr>)"

text \<open>What a lease asks for is within its profile, and what the profile leaves to a grant has one.\<close>

definition lease_confined :: "sandbox_lease \<Rightarrow> bool" where
  "lease_confined l \<longleftrightarrow> (let p = ls_profile l in
     set (ls_writable_paths l) \<subseteq> set (sp_writable_paths p)
     \<and> (sp_network_mode p = ''deny'' \<longrightarrow> ls_network_destinations l = [])
     \<and> (sp_network_mode p = ''allowlist'' \<longrightarrow> set (ls_network_destinations l) \<subseteq> set (sp_allowed_destinations p))
     \<and> (sp_network_mode p = ''proxied'' \<longrightarrow> ls_network_destinations l \<noteq> [] \<longrightarrow> ls_network_grant_ref l \<noteq> None)
     \<and> (ls_credential_scope l \<noteq> [] \<longrightarrow> sp_credential_injection p = ''gateway'' \<and> ls_credential_grant_ref l \<noteq> None))"

definition instance_ok :: "instance_row \<Rightarrow> bool" where
  "instance_ok m \<longleftrightarrow> validate_lease (in_lease_json m) = Inr (in_lease_json m) \<and> lease_confined (in_lease_json m)
     \<and> ls_execution_id (in_lease_json m) = in_execution_id m \<and> ls_task_run_id (in_lease_json m) = in_task_run_id m
     \<and> in_backend m = sp_backend (ls_profile (in_lease_json m))
     \<and> list_all (\<lambda>r. startswith r ''artifact:'')
         (ls_workspace_artifact_refs (in_lease_json m) @ ls_readonly_artifact_refs (in_lease_json m))
     \<and> pd_authorization (in_policy_decision_json m) = PERMIT \<and> in_backend_handle_ref m \<noteq> None
     \<and> (in_status m = sandbox_active \<and> in_destroyed_at m = None
        \<or> in_status m = sandbox_destroyed \<and> in_destroyed_at m \<noteq> None)"

text \<open>An audit row is finished, and no operation was given more time than it asked for or the profile allows.\<close>

definition exec_ok :: "sandbox_state \<Rightarrow> sandbox_exec_row \<Rightarrow> bool" where
  "exec_ok st m \<longleftrightarrow> (\<exists>result inst. xe_result_json m = Some result \<and> xe_finished_at m = Some (sr_finished_at result)
     \<and> xe_status m = sr_status result \<and> sr_operation_id result = xe_operation_id m \<and> \<not> sr_replay result
     \<and> sr_timeout_seconds result \<le> eq_requested_timeout_seconds (xe_request_json m) \<and> 0 \<le> sr_timeout_seconds result
     \<and> list_all (\<lambda>o'. case o' of None \<Rightarrow> True | Some r \<Rightarrow> startswith r ''artifact:'')
         [sr_stdout_artifact_ref result, sr_stderr_artifact_ref result]
     \<and> tab_get in_instance_id (xe_instance_id m) (sx_instances st) = Some inst
     \<and> (case sp_wall_timeout_seconds (ls_profile (in_lease_json inst)) of None \<Rightarrow> True
        | Some wall \<Rightarrow> sr_timeout_seconds result \<le> of_int wall))"

definition sandbox_inv :: "sandbox_state \<Rightarrow> bool" where
  "sandbox_inv st \<longleftrightarrow> distinct (map in_instance_id (sx_instances st))
     \<and> distinct (map (\<lambda>m. (in_execution_id m, in_request_id m)) (sx_instances st))
     \<and> (\<forall>m \<in> set (sx_instances st). instance_ok m)
     \<and> distinct (map (\<lambda>m. (xe_instance_id m, xe_operation_id m)) (sx_execs st))
     \<and> (\<forall>m \<in> set (sx_execs st). exec_ok st m)"

text \<open>The row of a fresh instance.\<close>

abbreviation fresh_instance ::
  "hash_env \<Rightarrow> (int \<Rightarrow> string) \<Rightarrow> sandbox_broker \<Rightarrow> execution_envelope \<Rightarrow> sandbox_create_request \<Rightarrow> sandbox_grants
     \<Rightarrow> sandbox_profile \<Rightarrow> string \<Rightarrow> policy_request \<Rightarrow> policy_decision \<Rightarrow> int \<Rightarrow> instance_row" where
  "fresh_instance E show_time B env q grants p handle pq d now \<equiv>
     instance_row_of E env q (lease_of env q grants p) handle (decision_ref E show_time (sb_policy B) pq d) d now"

text \<open>The part of an instance that nothing changes.\<close>

definition instance_identity :: "instance_row \<Rightarrow> instance_row" where
  "instance_identity m = m\<lparr>in_status := sandbox_active, in_destroyed_at := None\<rparr>"

definition destroyed_instance :: "sandbox_state \<Rightarrow> string \<Rightarrow> instance_row option" where
  "destroyed_instance st i =
     (case tab_get in_instance_id i (sx_instances st) of None \<Rightarrow> None
      | Some m \<Rightarrow> if in_status m = sandbox_destroyed then Some m else None)"

text \<open>
  Where a path leads from a directory: a component is entered, \<^verbatim>\<open>..\<close> leaves the innermost one and
  does nothing at the root, and empty components and \<^verbatim>\<open>.\<close> stay; an absolute path starts at the root.
\<close>

fun walk :: "string list \<Rightarrow> string list \<Rightarrow> string list" where
  "walk dir [] = dir"
| "walk dir (part # parts) =
     walk (if part = [] \<or> part = ''.'' then dir else if part = ''..'' then butlast dir else dir @ [part]) parts"

definition resolve_path :: "string list \<Rightarrow> string \<Rightarrow> string list" where
  "resolve_path dir path = walk (if path_is_absolute path then [] else dir) (split_char (CHR ''/'') path)"

text \<open>
  For the concrete instances: an execution that may use the restricted process profile, a policy
  that permits every sandbox and a backend that does what it is asked.
\<close>

definition sample_sandbox_envelope :: execution_envelope where
  "sample_sandbox_envelope =
     (sample_envelope ''x'' None [] 9000000)\<lparr>ee_sandbox_profile_revision := ''process_restricted@1''\<rparr>"

definition sample_backend :: sandbox_backend where
  "sample_backend = \<lparr>be_create = (\<lambda>_. Inr ''handle''),
     be_exec = (\<lambda>_ _ _. Inr \<lparr>bx_status = ''succeeded'', bx_exit_code = Some 0,
       bx_stdout_artifact_ref = Some ''artifact:out'', bx_stderr_artifact_ref = None, bx_failure_code = None\<rparr>),
     be_export = (\<lambda>_ paths. Inr (map (\<lambda>_. ''artifact:file'') paths)), be_destroy = (\<lambda>_. Inr ())\<rparr>"

definition sample_sandbox_broker :: sandbox_broker where
  "sample_sandbox_broker = new_sandbox_broker
     (sample_engine [(sample_rule ''a'' ''*'' (Some PERMIT) [])\<lparr>rl_decision_points := [SANDBOX_SELECTION]\<rparr>])
     [(''openshell'', sample_backend)] None (Some [''openshell'']) (\<lambda>_. None) False"

definition sample_sandbox_start :: sandbox_state where
  "sample_sandbox_start = \<lparr>sx_executions = [\<lparr>xr_execution_id = ''x'', xr_parent_execution_id = None,
      xr_task_run_id = ''r1'', xr_envelope_json = sample_sandbox_envelope, xr_status = ''running'',
      xr_stop_reason = None, xr_created_at = 0, xr_started_at = Some 0, xr_finished_at = None\<rparr>],
     sx_instances = [], sx_execs = []\<rparr>"

definition sample_create_request :: sandbox_create_request where
  "sample_create_request = \<lparr>sq_request_id = ''s1'', sq_minimum_isolation = PROCESS_RESTRICTED,
     sq_workspace_artifact_refs = [''artifact:in''], sq_readonly_artifact_refs = [], sq_requested_writable_paths = [],
     sq_network_destinations = [], sq_credential_scope = []\<rparr>"

definition sample_sandbox_grants :: sandbox_grants where
  "sample_sandbox_grants = \<lparr>sg_fulfilled_obligation_kinds = [], sg_network_grant_ref = None, sg_credential_grant_ref = None\<rparr>"

definition sample_sandbox_create :: "(sandbox_instance \<times> sandbox_state) res" where
  "sample_sandbox_create = create_sandbox sample_hash (\<lambda>_. []) sample_sandbox_broker sample_sandbox_start
     (sample_contract ''t1'' (sample_ceiling 1) INTERNAL_STATE) sample_sandbox_envelope sample_create_request
     sample_sandbox_grants 1"

definition sample_sandbox_active :: sandbox_state where
  "sample_sandbox_active = state_of sample_sandbox_create sample_sandbox_start"

definition sample_exec_request :: sandbox_exec_request where
  "sample_exec_request = \<lparr>eq_operation_id = ''op'', eq_program_ref = ''program:scan'', eq_arguments = [],
     eq_input_artifact_refs = [], eq_requested_timeout_seconds = 30\<rparr>"

abbreviation sample_profile :: sandbox_profile where
  "sample_profile \<equiv> base_profile ''process_restricted'' PROCESS_RESTRICTED ''openshell''"

abbreviation sample_lease :: sandbox_lease where
  "sample_lease \<equiv> lease_of sample_sandbox_envelope sample_create_request sample_sandbox_grants sample_profile"

definition sample_instance :: "string \<Rightarrow> policy_decision \<Rightarrow> instance_row" where
  "sample_instance policy_decision_ref d =
     instance_row_of sample_hash sample_sandbox_envelope sample_create_request sample_lease ''handle'' policy_decision_ref d 1"

section \<open>Lemmas on the operations\<close>

lemma enforce_shape_same: "enforce_v1_security_shape p = Inr p' \<Longrightarrow> p' = p"
  unfolding enforce_v1_security_shape_def raise_if_eq_Inr
  by (cases "sp_isolation_class p = MICROVM_UNTRUSTED") (simp_all only: if_True if_False raise_if_eq_Inr sum.inject simp_thms)

lemma validate_lease_iff: "validate_lease l = Inr l' \<longleftrightarrow> enforce_v1_security_shape (ls_profile l) = Inr (ls_profile l) \<and> l' = l"
  using enforce_shape_same [of "ls_profile l"] by (auto simp: validate_lease_def res_simps)

lemma selected_profile:
  assumes "sl_available (select_sandbox_profile c available profiles)"
    and "sl_profile (select_sandbox_profile c available profiles) = Some p"
  shows "map_of (configured_profiles profiles) c = Some p" "c \<noteq> ISO_NONE"
    "set (split_char (CHR ''+'') (sp_backend p)) \<subseteq> set available"
  using assms by (auto simp: select_sandbox_profile_def split: if_splits option.splits)

lemma enforce_policy_ok:
  "enforce_policy_decision d fulfilled = Inr u \<longleftrightarrow>
     pd_authorization d = PERMIT \<and> set (map po_kind (pd_constraints d @ pd_obligations d)) \<subseteq> set fulfilled"
proof -
  have "sorted_set xs = [] \<longleftrightarrow> xs = []" for xs
    by (metis remdups_eq_nil_right_iff set_empty set_sort sorted_set_def)
  then show ?thesis
    by (auto simp: enforce_policy_decision_def Let_def res_simps filter_empty_conv)
qed

lemma request_confined:
  assumes "validate_request_against_profile q p grants = Inr u"
  shows "lease_confined (lease_of env q grants p)"
  using assms
  by (auto simp: validate_request_against_profile_def lease_confined_def lease_of_def Let_def res_simps split: if_splits)

lemma admit_sandbox_ok:
  assumes "admit_sandbox B st task env q grants = Inr (p, backend, pq, d)"
  shows "get_execution (sx_executions st) (ee_execution_id env) = Inr env"
    "map_of (configured_profiles (Some (sb_profiles B))) (sq_minimum_isolation q) = Some p"
    "sq_minimum_isolation q \<noteq> ISO_NONE"
    "set (split_char (CHR ''+'') (sp_backend p)) \<subseteq> set (sb_available B)"
    "ee_sandbox_profile_revision env = profile_ref p" "map_of (sb_backends B) (sp_backend p) = Some backend"
    "set (sq_credential_scope q) \<subseteq> set (ee_identity_scope env)"
    "lease_confined (lease_of env q grants p)" "pq = sandbox_policy_request task env p"
    "evaluate (sb_policy B) pq = Inr d" "pd_authorization d = PERMIT"
    "set (map po_kind (pd_constraints d @ pd_obligations d)) \<subseteq> set (sg_fulfilled_obligation_kinds grants)"
proof -
  let ?sel = "select_sandbox_profile (sq_minimum_isolation q) (sb_available B) (Some (sb_profiles B))"
  from assms obtain p' where sel: "sl_available ?sel" "sl_profile ?sel = Some p'"
    by (auto simp: admit_sandbox_def Let_def res_simps split: bool.splits option.splits)
  with assms have e: "get_execution (sx_executions st) (ee_execution_id env) = Inr env"
    "ee_sandbox_profile_revision env = profile_ref p'" "set (sq_credential_scope q) \<subseteq> set (ee_identity_scope env)"
    and b: "map_of (sb_backends B) (sp_backend p') = Some backend" "p' = p"
    and v: "\<exists>u. validate_request_against_profile q p' grants = Inr u"
    and pq: "validate_request (sandbox_policy_request task env p') = Inr pq" "evaluate (sb_policy B) pq = Inr d"
      "\<exists>u. enforce_policy_decision d (sg_fulfilled_obligation_kinds grants) = Inr u"
    by (auto simp: admit_sandbox_def Let_def res_simps split: option.splits)
  note p = selected_profile [OF sel, unfolded b(2)]
  show "get_execution (sx_executions st) (ee_execution_id env) = Inr env"
    "ee_sandbox_profile_revision env = profile_ref p" "map_of (sb_backends B) (sp_backend p) = Some backend"
    "set (sq_credential_scope q) \<subseteq> set (ee_identity_scope env)" "evaluate (sb_policy B) pq = Inr d"
    using e b pq by simp_all
  show "map_of (configured_profiles (Some (sb_profiles B))) (sq_minimum_isolation q) = Some p"
    "sq_minimum_isolation q \<noteq> ISO_NONE" "set (split_char (CHR ''+'') (sp_backend p)) \<subseteq> set (sb_available B)"
    using p by simp_all
  show "lease_confined (lease_of env q grants p)" using v b(2) request_confined by blast
  show "pq = sandbox_policy_request task env p"
    using pq(1) b(2) by (auto simp: validate_request_def res_simps split: if_splits)
  show "pd_authorization d = PERMIT"
    "set (map po_kind (pd_constraints d @ pd_obligations d)) \<subseteq> set (sg_fulfilled_obligation_kinds grants)"
    using pq(3) by (simp_all add: enforce_policy_ok)
qed

lemma create_cases:
  assumes "create_sandbox E show_time B st task env q grants now = Inr (v, st')"
  obtains (replay) m where "find_instance st (ee_execution_id env) (sq_request_id q) = Some m"
      "in_status m = sandbox_active" "instance_view m = Inr v" "st' = st"
  | (fresh) p backend pq d handle where "find_instance st (ee_execution_id env) (sq_request_id q) = None"
      "admit_sandbox B st task env q grants = Inr (p, backend, pq, d)"
      "be_create backend (lease_of env q grants p) = Inr handle"
      "in_instance_id (fresh_instance E show_time B env q grants p handle pq d now) \<notin> set (map in_instance_id (sx_instances st))"
      "st' = st\<lparr>sx_instances := sx_instances st @ [fresh_instance E show_time B env q grants p handle pq d now]\<rparr>"
      "instance_view (fresh_instance E show_time B env q grants p handle pq d now) = Inr v"
proof (cases "find_instance st (ee_execution_id env) (sq_request_id q)")
  case (Some m)
  with assms show ?thesis by (intro replay [of m]) (auto simp: create_sandbox_def res_simps)
next
  case None
  from assms None obtain p backend pq d where a: "admit_sandbox B st task env q grants = Inr (p, backend, pq, d)"
    by (auto simp: create_sandbox_def res_simps)
  from assms None a obtain handle where "be_create backend (lease_of env q grants p) = Inr handle"
    by (auto simp: create_sandbox_def Let_def res_simps)
  with assms None a show ?thesis
    by (intro fresh [of p backend pq d handle]) (auto simp: create_sandbox_def Let_def res_simps)
qed

lemma exec_cases:
  assumes "exec_sandbox E B st env i q ck = Inr (result, st')"
  obtains (replay) m r t where "find_exec st i (eq_operation_id q) = Some m" "xe_result_json m = Some r"
      "xe_finished_at m = Some t" "result = r\<lparr>sr_replay := True\<rparr>" "st' = st"
  | (fresh) inst handle timeout where "tab_get in_instance_id i (sx_instances st) = Some inst"
      "in_execution_id inst = ee_execution_id env" "in_status inst = sandbox_active"
      "in_backend_handle_ref inst = Some handle"
      "find_exec st i (eq_operation_id q) = None"
      "exec_timeout env (ls_profile (in_lease_json inst)) q (ek_now ck) = Inr timeout"
      "timeout \<le> 0 \<and> result = deadline_result (running_exec_audit E i q timeout (ek_started ck)) (ek_finished ck)
       \<or> 0 < timeout \<and> (\<exists>backend native. map_of (sb_backends B) (in_backend inst) = Some backend
          \<and> be_exec backend handle q timeout = Inr native
          \<and> result = native_exec_result (running_exec_audit E i q timeout (ek_started ck)) native (ek_finished ck)
          \<and> validate_backend_artifact_refs result = Inr ())"
      "st' = st\<lparr>sx_execs := sx_execs st
         @ [finish_exec_audit (running_exec_audit E i q timeout (ek_started ck)) result]\<rparr>"
proof -
  from assms obtain inst handle where inst: "tab_get in_instance_id i (sx_instances st) = Some inst"
    "in_execution_id inst = ee_execution_id env" "in_status inst = sandbox_active" "in_backend_handle_ref inst = Some handle"
    by (auto simp: exec_sandbox_def res_simps split: option.splits if_splits)
  show ?thesis
  proof (cases "find_exec st i (eq_operation_id q)")
    case (Some m)
    with assms inst obtain r t where "xe_result_json m = Some r" "xe_finished_at m = Some t"
      by (auto simp: exec_sandbox_def split: option.splits)
    with Some assms inst show ?thesis by (intro replay [of m r t]) (auto simp: exec_sandbox_def)
  next
    case None
    let ?audit = "\<lambda>timeout. running_exec_audit E i q timeout (ek_started ck)"
    from assms inst None obtain timeout where t: "validate_lease (in_lease_json inst) = Inr (in_lease_json inst)"
      "exec_timeout env (ls_profile (in_lease_json inst)) q (ek_now ck) = Inr timeout"
      by (auto simp: exec_sandbox_def res_simps validate_lease_iff)
    from assms inst None t obtain rows where rows: "tab_add xe_sandbox_execution_id (?audit timeout) (sx_execs st) = Inr rows"
      by (cases "tab_add xe_sandbox_execution_id (?audit timeout) (sx_execs st)") (auto simp: exec_sandbox_def Let_def)
    have put: "tab_put xe_sandbox_execution_id (finish_exec_audit (?audit timeout) r) rows
        = sx_execs st @ [finish_exec_audit (?audit timeout) r]" for r
      using rows by (auto simp: res_simps finish_exec_audit_def intro!: tab_put_last)
    show ?thesis
    proof (cases "timeout \<le> 0")
      case True
      with assms inst None t rows put show ?thesis by (intro fresh) (auto simp: exec_sandbox_def Let_def)
    next
      case False
      with assms inst None t rows put show ?thesis
        by (intro fresh) (auto simp: exec_sandbox_def Let_def res_simps split: option.splits)
    qed
  qed
qed

lemma destroy_cases:
  assumes "destroy_sandbox B st i now = Inr st'"
  obtains (gone) m where "tab_get in_instance_id i (sx_instances st) = Some m" "in_status m = sandbox_destroyed" "st' = st"
  | (destroyed) m where "tab_get in_instance_id i (sx_instances st) = Some m" "in_status m \<noteq> sandbox_destroyed"
      "st' = st\<lparr>sx_instances := tab_put in_instance_id
        (m\<lparr>in_status := sandbox_destroyed, in_destroyed_at := Some now\<rparr>) (sx_instances st)\<rparr>"
proof (cases "tab_get in_instance_id i (sx_instances st)")
  case (Some m)
  with assms show ?thesis
    by (cases "in_status m = sandbox_destroyed") (auto simp: destroy_sandbox_def res_simps intro: gone destroyed)
qed (use assms in \<open>simp add: destroy_sandbox_def\<close>)

section \<open>Lemmas on histories\<close>

lemma exec_timeout_bounds:
  assumes "exec_timeout env p q now = Inr t" and "validate_exec_request q = Inr q"
    and "enforce_v1_security_shape p = Inr p"
  shows "0 \<le> t" "t \<le> eq_requested_timeout_seconds q"
    "case sp_wall_timeout_seconds p of None \<Rightarrow> True | Some wall \<Rightarrow> t \<le> of_int wall"
    "of_int now + t * 1000000 \<le> max (of_int now) (of_int (dt_us (ee_deadline_at env)))"
proof -
  have "0 \<le> eq_requested_timeout_seconds q" using assms(2) by (simp add: validate_exec_request_def res_simps)
  from bounded_timeout_bounds [OF this, of env now] obtain s where
    s: "bounded_timeout_seconds env (Aware now) (eq_requested_timeout_seconds q) = Inr s" "0 \<le> s"
      "s \<le> eq_requested_timeout_seconds q"
      "of_int now + s * 1000000 \<le> max (of_int now) (of_int (dt_us (ee_deadline_at env)))" by blast
  have wall: "0 < w" if "sp_wall_timeout_seconds p = Some w" for w
    using assms(3) that by (simp add: enforce_v1_security_shape_def raise_if_eq_Inr positive_opt_def)
  have t: "t = (case sp_wall_timeout_seconds p of None \<Rightarrow> s | Some w \<Rightarrow> min s (of_int w))"
    using assms(1) s(1) by (simp add: exec_timeout_def split: option.splits)
  have le: "t \<le> s" by (simp add: t split: option.splits)
  show "0 \<le> t" using s(2) wall by (auto simp: t less_imp_le split: option.splits)
  show "t \<le> eq_requested_timeout_seconds q" using le s(3) by simp
  show "case sp_wall_timeout_seconds p of None \<Rightarrow> True | Some w \<Rightarrow> t \<le> of_int w" by (simp add: t split: option.splits)
  have "of_int now + t * 1000000 \<le> of_int now + s * 1000000" using le by simp
  with s(4) show "of_int now + t * 1000000 \<le> max (of_int now) (of_int (dt_us (ee_deadline_at env)))"
    using order_trans by blast
qed

lemma find_exec_Some:
  "find_exec st i op = Some m \<Longrightarrow> m \<in> set (sx_execs st) \<and> xe_instance_id m = i \<and> xe_operation_id m = op"
  by (auto simp: find_exec_def find_Some_iff)

lemma instance_evolves:
  assumes "sandbox_step E show_time st st'" "tab_get in_instance_id i (sx_instances st) = Some m"
  obtains m' where "tab_get in_instance_id i (sx_instances st') = Some m'"
    "instance_identity m' = instance_identity m" "in_status m = sandbox_destroyed \<longrightarrow> m' = m"
  using assms(1)
proof cases
  case (create B q task env grants now v)
  from create(3) have "tab_get in_instance_id i (sx_instances st') = Some m"
    by (cases rule: create_cases) (use assms(2) in \<open>simp_all add: tab_simps\<close>)
  then show ?thesis using that by blast
next
  case (exec q B env j ck result)
  from exec(2) have "tab_get in_instance_id i (sx_instances st') = Some m"
    by (cases rule: exec_cases) (use assms(2) in simp_all)
  then show ?thesis using that by blast
next
  case (destroy B j now)
  from destroy show ?thesis
  proof (cases rule: destroy_cases)
    case (destroyed n)
    show ?thesis
    proof (cases "i = j")
      case True
      let ?m' = "m\<lparr>in_status := sandbox_destroyed, in_destroyed_at := Some now\<rparr>"
      from True assms(2) destroyed(1) have n: "n = m" by simp
      have "tab_get in_instance_id i (sx_instances st') = Some ?m'"
        using tab_get_key [OF assms(2)] tab_get_in_set [OF assms(2)] unfolding destroyed(3) n by (auto simp: tab_simps)
      with destroyed(2) n show ?thesis by (intro that [of ?m']) (simp_all add: instance_identity_def)
    next
      case False
      with destroyed(1) have "in_instance_id n \<noteq> i" by (auto dest: tab_get_key)
      with assms(2) have "tab_get in_instance_id i (sx_instances st') = Some m" unfolding destroyed(3) by (simp add: tab_simps)
      then show ?thesis using that by blast
    qed
  qed (use assms(2) that in blast)
next
  case (execution xs)
  with assms(2) show ?thesis by (intro that [of m]) simp_all
qed

lemma exec_row_kept:
  assumes "sandbox_step E show_time st st'" "find_exec st i op = Some m"
  shows "find_exec st' i op = Some m"
  using assms(1)
proof cases
  case (create B q task env grants now v)
  from create(3) show ?thesis
    by (cases rule: create_cases) (use assms(2) in \<open>simp_all add: find_exec_def\<close>)
next
  case (exec q B env j ck result)
  from exec(2) show ?thesis
    by (cases rule: exec_cases) (use assms(2) in \<open>simp_all add: find_exec_def find_append\<close>)
next
  case (destroy B j now)
  from destroy show ?thesis by (cases rule: destroy_cases) (use assms(2) in \<open>simp_all add: find_exec_def\<close>)
next
  case (execution xs)
  then show ?thesis using assms(2) by (simp add: find_exec_def)
qed

interpretation sandbox_exec_log: stable_lookup "sandbox_step E show_time" "\<lambda>st (i, op). find_exec st i op"
  for E show_time
  by unfold_locales (auto intro: exec_row_kept)

interpretation destroyed_log: stable_lookup "sandbox_step E show_time" destroyed_instance for E show_time
proof (unfold_locales, goal_cases)
  case (1 s t i m)
  from 1(2) have m: "tab_get in_instance_id i (sx_instances s) = Some m" "in_status m = sandbox_destroyed"
    by (auto simp: destroyed_instance_def split: option.splits if_splits)
  obtain m' where "tab_get in_instance_id i (sx_instances t) = Some m'" "instance_identity m' = instance_identity m"
    "in_status m = sandbox_destroyed \<longrightarrow> m' = m" by (rule instance_evolves [OF 1(1) m(1)])
  with m(2) show ?case by (simp add: destroyed_instance_def)
qed

lemma default_profiles_ok: "\<forall>(c, x) \<in> set default_sandbox_profiles. enforce_v1_security_shape x = Inr x"
  by (simp add: default_sandbox_profiles_def base_profile_def enforce_v1_security_shape_def positive_opt_def
      blank_def strip_def is_space_def raise_if_def)

lemma fresh_instance_ok:
  assumes "profiles_ok (sb_profiles B)" "validate_refs q = Inr q"
    and "admit_sandbox B st task env q grants = Inr (p, backend, pq, d)"
  shows "instance_ok (fresh_instance E show_time B env q grants p handle pq d now)"
proof -
  note ok = admit_sandbox_ok [OF assms(3)]
  from assms(1) default_profiles_ok have "\<forall>(c, x) \<in> set (configured_profiles (Some (sb_profiles B))). enforce_v1_security_shape x = Inr x"
    by (simp add: configured_profiles_def profiles_ok_def)
  with ok(2) have "enforce_v1_security_shape p = Inr p" by (auto dest!: map_of_SomeD)
  moreover have "list_all (\<lambda>r. startswith r ''artifact:'') (sq_workspace_artifact_refs q @ sq_readonly_artifact_refs q)"
    using assms(2) by (auto simp: validate_refs_def res_simps list_all_iff list_ex_iff)
  ultimately show ?thesis using ok(8,11)
    by (simp add: instance_ok_def instance_row_of_def validate_lease_iff lease_of_def)
qed

lemma fresh_exec_ok:
  assumes "instance_ok inst" "tab_get in_instance_id i (sx_instances st) = Some inst" "validate_exec_request q = Inr q"
    and "exec_timeout env (ls_profile (in_lease_json inst)) q now = Inr timeout"
    and "timeout \<le> 0 \<and> result = deadline_result (running_exec_audit E i q timeout started) finished
       \<or> 0 < timeout \<and> (\<exists>native. result = native_exec_result (running_exec_audit E i q timeout started) native finished
          \<and> validate_backend_artifact_refs result = Inr ())"
  shows "exec_ok st (finish_exec_audit (running_exec_audit E i q timeout started) result)"
proof -
  have shape: "enforce_v1_security_shape (ls_profile (in_lease_json inst)) = Inr (ls_profile (in_lease_json inst))"
    using assms(1) by (simp add: instance_ok_def validate_lease_iff)
  note t = exec_timeout_bounds [OF assms(4,3) shape]
  from assms(5) have "sr_timeout_seconds result = timeout \<and> \<not> sr_replay result \<and> sr_operation_id result = eq_operation_id q
      \<and> list_all (\<lambda>o'. case o' of None \<Rightarrow> True | Some r \<Rightarrow> startswith r ''artifact:'')
         [sr_stdout_artifact_ref result, sr_stderr_artifact_ref result]"
    using t(1) by (auto simp: deadline_result_def native_exec_result_def running_exec_audit_def
        validate_backend_artifact_refs_def res_simps split: option.splits)
  with assms(2) t show ?thesis
    by (auto simp: exec_ok_def finish_exec_audit_def running_exec_audit_def)
qed

lemma exec_ok_mono:
  assumes "sandbox_step E show_time st st'" "exec_ok st m"
  shows "exec_ok st' m"
proof -
  from assms(2) obtain result inst where r: "xe_result_json m = Some result"
    "tab_get in_instance_id (xe_instance_id m) (sx_instances st) = Some inst" by (auto simp: exec_ok_def)
  obtain inst' where i: "tab_get in_instance_id (xe_instance_id m) (sx_instances st') = Some inst'"
      "instance_identity inst' = instance_identity inst" "in_status inst = sandbox_destroyed \<longrightarrow> inst' = inst"
    by (rule instance_evolves [OF assms(1) r(2)])
  from arg_cong [OF i(2), of in_lease_json] have "in_lease_json inst' = in_lease_json inst"
    by (simp add: instance_identity_def)
  with assms(2) r i(1) show ?thesis by (auto simp: exec_ok_def)
qed

lemma find_instance_None:
  "find_instance st x r = None \<longleftrightarrow> (x, r) \<notin> set (map (\<lambda>m. (in_execution_id m, in_request_id m)) (sx_instances st))"
  by (auto simp: find_instance_def find_None_iff)

lemma find_exec_None:
  "find_exec st i op = None \<longleftrightarrow> (i, op) \<notin> set (map (\<lambda>m. (xe_instance_id m, xe_operation_id m)) (sx_execs st))"
  by (auto simp: find_exec_def find_None_iff)

lemma sandbox_inv_step:
  assumes "sandbox_inv st" "sandbox_step E show_time st st'"
  shows "sandbox_inv st'"
proof -
  have old: "\<forall>m \<in> set (sx_execs st). exec_ok st' m"
    using assms exec_ok_mono by (simp add: sandbox_inv_def)
  from assms(2) show ?thesis
  proof cases
    case (create B q task env grants now v)
    from create(3) show ?thesis
    proof (cases rule: create_cases)
      case (fresh p backend pq d handle)
      have "(ee_execution_id env, sq_request_id q)
          \<notin> set (map (\<lambda>m. (in_execution_id m, in_request_id m)) (sx_instances st))"
        by (rule find_instance_None [THEN iffD1, OF fresh(1)])
      moreover have "instance_ok (fresh_instance E show_time B env q grants p handle pq d now)"
        by (rule fresh_instance_ok [OF create(1,2) fresh(2)])
      ultimately show ?thesis using assms(1) old fresh(4) unfolding sandbox_inv_def fresh(5)
        by (auto simp: instance_row_of_def)
    qed (use assms(1) in simp)
  next
    case (exec q B env i ck result)
    from exec(2) show ?thesis
    proof (cases rule: exec_cases)
      case (fresh inst handle timeout)
      let ?row = "finish_exec_audit (running_exec_audit E i q timeout (ek_started ck)) result"
      have "(i, eq_operation_id q) \<notin> set (map (\<lambda>m. (xe_instance_id m, xe_operation_id m)) (sx_execs st))"
        by (rule find_exec_None [THEN iffD1, OF fresh(5)])
      moreover have "xe_instance_id ?row = i" "xe_operation_id ?row = eq_operation_id q"
        by (simp_all add: finish_exec_audit_def running_exec_audit_def)
      moreover have "instance_ok inst" using assms(1) tab_get_in_set [OF fresh(1)] by (simp add: sandbox_inv_def)
      then have "exec_ok st' ?row"
        using fresh(1) by (intro fresh_exec_ok [OF _ _ exec(1) fresh(6)]) (use fresh(7,8) in auto)
      ultimately show ?thesis using assms(1) old unfolding sandbox_inv_def fresh(8) by auto
    qed (use assms(1) in simp)
  next
    case (destroy B i now)
    from destroy show ?thesis
    proof (cases rule: destroy_cases)
      case (destroyed m)
      let ?m = "m\<lparr>in_status := sandbox_destroyed, in_destroyed_at := Some now\<rparr>"
      have m: "m \<in> set (sx_instances st)" by (rule tab_get_in_set [OF destroyed(1)])
      have "instance_ok ?m" using assms(1) m by (auto simp: sandbox_inv_def instance_ok_def)
      then have all: "\<forall>x \<in> set (sx_instances st'). instance_ok x"
        using assms(1) unfolding destroyed(3) by (auto simp: sandbox_inv_def dest!: in_set_tab_put)
      have "x = m" if "x \<in> set (sx_instances st)" "in_instance_id x = in_instance_id m" for x
        using assms(1) that m by (auto simp: sandbox_inv_def distinct_map inj_on_def)
      then have "map (\<lambda>x. (in_execution_id x, in_request_id x)) (tab_put in_instance_id ?m (sx_instances st))
          = map (\<lambda>x. (in_execution_id x, in_request_id x)) (sx_instances st)"
        by (auto simp: tab_put_def)
      then show ?thesis using assms(1) all old unfolding sandbox_inv_def destroyed(3) by simp
    qed (use assms(1) in simp)
  next
    case (execution xs)
    then show ?thesis using assms(1) old by (simp add: sandbox_inv_def)
  qed
qed

interpretation sandbox_tables: invariant_system "\<lambda>st. sx_instances st = [] \<and> sx_execs st = []"
  "sandbox_step E show_time" sandbox_inv for E show_time
proof (unfold_locales, goal_cases)
  case (1 st)
  then show ?case by (simp add: sandbox_inv_def)
next
  case (2 st st')
  then show ?case by (rule sandbox_inv_step)
qed

lemma walk_prefix: "''..'' \<notin> set parts \<Longrightarrow> prefix dir (walk dir parts)"
proof (induction parts arbitrary: dir)
  case (Cons part parts)
  then have IH: "prefix d (walk d parts)" for d by simp
  then have "prefix dir (walk (dir @ [part]) parts)" by (meson prefix_def prefix_order.order_trans prefixI)
  with IH Cons.prems show ?case by auto
qed simp

lemma sandbox_reads_gone:
  assumes "tab_get in_instance_id i (sx_instances st) = Some m" "in_status m \<noteq> sandbox_active"
  shows "exec_sandbox E B st env i q ck \<in> {Inl (ValueError ''sandbox instance escapes ExecutionEnvelope''),
      Inl (SandboxUnavailable ''sandbox_instance_not_active'')}"
    "export_sandbox B st i paths = Inl (SandboxUnavailable ''sandbox_instance_not_active'')"
  using assms by (auto simp: exec_sandbox_def export_sandbox_def raise_if_def)

lemma sandbox_reads_replay:
  assumes "tab_get in_instance_id i (sx_instances st) = Some m" "in_status m = sandbox_active"
    "in_backend_handle_ref m = Some h" "find_exec st i (eq_operation_id q) = Some x" "xe_result_json x = Some r"
    "xe_finished_at x = Some t"
  shows "exec_sandbox E B st env i q ck \<in> {Inl (ValueError ''sandbox instance escapes ExecutionEnvelope''),
      Inr (r\<lparr>sr_replay := True\<rparr>, st)}"
  using assms by (auto simp: exec_sandbox_def raise_if_def)

lemma sandbox_active_not_destroyed [simp]: "sandbox_destroyed \<noteq> sandbox_active" "sandbox_active \<noteq> sandbox_destroyed"
  by (simp_all add: sandbox_active_def sandbox_destroyed_def)

lemma find_instance_inv:
  assumes "sandbox_inv st" "m \<in> set (sx_instances st)"
  shows "find_instance st (in_execution_id m) (in_request_id m) = Some m"
proof (cases "find_instance st (in_execution_id m) (in_request_id m)")
  case None
  with assms(2) show ?thesis by (auto simp: find_instance_None)
next
  case (Some x)
  then have "x \<in> set (sx_instances st)" "(in_execution_id x, in_request_id x) = (in_execution_id m, in_request_id m)"
    by (auto simp: find_instance_def find_Some_iff)
  with assms have "x = m" by (auto simp: sandbox_inv_def distinct_map inj_on_def)
  with Some show ?thesis by simp
qed

text \<open>An executed operation is in the log with its result, whether it ran now or was replayed.\<close>

lemma exec_logged:
  assumes "exec_sandbox E B st env i q ck = Inr (result, st')"
  obtains x r t inst where "find_exec st' i (eq_operation_id q) = Some x" "xe_result_json x = Some r"
    "xe_finished_at x = Some t" "result\<lparr>sr_replay := True\<rparr> = r\<lparr>sr_replay := True\<rparr>"
    "tab_get in_instance_id i (sx_instances st') = Some inst"
  using assms
proof (cases rule: exec_cases)
  case (replay m r t)
  from assms obtain inst where "tab_get in_instance_id i (sx_instances st) = Some inst"
    by (auto simp: exec_sandbox_def split: option.splits)
  with replay show ?thesis by (intro that [of m r t inst]) simp_all
next
  case (fresh inst handle timeout)
  let ?x = "finish_exec_audit (running_exec_audit E i q timeout (ek_started ck)) result"
  have "find_exec st' i (eq_operation_id q) = Some ?x"
    using fresh(5) unfolding fresh(8) by (simp add: find_exec_def find_append finish_exec_audit_def running_exec_audit_def)
  with fresh(1,8) show ?thesis
    by (intro that [of ?x result "sr_finished_at result" inst]) (simp_all add: finish_exec_audit_def)
qed

lemma instance_still_there:
  "(sandbox_step E show_time)\<^sup>*\<^sup>* st st' \<Longrightarrow> tab_get in_instance_id i (sx_instances st) = Some m \<Longrightarrow>
     \<exists>m'. tab_get in_instance_id i (sx_instances st') = Some m' \<and> instance_identity m' = instance_identity m"
proof (induction rule: rtranclp_induct)
  case (step y z)
  then obtain m' where m': "tab_get in_instance_id i (sx_instances y) = Some m'" "instance_identity m' = instance_identity m"
    by blast
  obtain n where "tab_get in_instance_id i (sx_instances z) = Some n" "instance_identity n = instance_identity m'"
    "in_status m' = sandbox_destroyed \<longrightarrow> n = m'" by (rule instance_evolves [OF step(2) m'(1)])
  with m'(2) show ?case by simp
qed simp


section \<open>The concrete instance\<close>

lemma sample_start_empty: "sx_instances sample_sandbox_start = []" "sx_execs sample_sandbox_start = []"
  by (simp_all add: sample_sandbox_start_def)

lemmas sample_sandbox_defs = sample_sandbox_broker_def new_sandbox_broker_def configured_profiles_def
  default_sandbox_profiles_def base_profile_def sample_backend_def sample_sandbox_start_def sample_create_request_def
  sample_sandbox_grants_def sample_sandbox_envelope_def sample_envelope_def sample_contract_def sample_engine_def sample_rule_def

lemma sample_decision: "\<exists>d. evaluate (sb_policy sample_sandbox_broker) (sandbox_policy_request
    (sample_contract ''t1'' (sample_ceiling 1) INTERNAL_STATE) sample_sandbox_envelope
    (base_profile ''process_restricted'' PROCESS_RESTRICTED ''openshell'')) = Inr d
  \<and> pd_authorization d = PERMIT \<and> pd_constraints d = [] \<and> pd_obligations d = []"
  by (simp add: evaluate_def combine_deny_overrides_def rule_decisions_def with_authorization_def Let_def
      validate_revision_def raise_if_def blank_def strip_def is_space_def rule_matches_def matches_any_def fnmatchcase_def
      glob_items.simps sandbox_policy_request_def sample_sandbox_defs)

lemma sample_admitted: "\<exists>pq d. admit_sandbox sample_sandbox_broker sample_sandbox_start
    (sample_contract ''t1'' (sample_ceiling 1) INTERNAL_STATE) sample_sandbox_envelope sample_create_request
    sample_sandbox_grants = Inr (sample_profile, sample_backend, pq, d)"
proof -
  obtain d where d: "evaluate (sb_policy sample_sandbox_broker) (sandbox_policy_request
      (sample_contract ''t1'' (sample_ceiling 1) INTERNAL_STATE) sample_sandbox_envelope sample_profile) = Inr d"
    "enforce_policy_decision d [] = Inr ()" using sample_decision by (auto simp: enforce_policy_ok)
  have "get_execution (sx_executions sample_sandbox_start) (ee_execution_id sample_sandbox_envelope) = Inr sample_sandbox_envelope"
    by (simp add: get_execution_def sample_sandbox_start_def sample_sandbox_envelope_def sample_envelope_def
        validate_envelope_def dt_naive_def blank_def strip_def is_space_def)
  moreover have "select_sandbox_profile PROCESS_RESTRICTED (sb_available sample_sandbox_broker)
      (Some (sb_profiles sample_sandbox_broker)) = \<lparr>sl_profile = Some sample_profile, sl_available = True, sl_reason = None\<rparr>"
    by (simp add: select_sandbox_profile_def sample_sandbox_broker_def new_sandbox_broker_def configured_profiles_def
        default_sandbox_profiles_def base_profile_def)
  moreover have "ee_sandbox_profile_revision sample_sandbox_envelope = profile_ref sample_profile"
    by (simp add: sample_sandbox_envelope_def profile_ref_def base_profile_def)
  moreover have "map_of (sb_backends sample_sandbox_broker) (sp_backend sample_profile) = Some sample_backend"
    by (simp add: sample_sandbox_broker_def new_sandbox_broker_def base_profile_def)
  moreover have "validate_request_against_profile sample_create_request sample_profile sample_sandbox_grants = Inr ()"
    by (simp add: validate_request_against_profile_def sample_create_request_def)
  moreover have "validate_request (sandbox_policy_request (sample_contract ''t1'' (sample_ceiling 1) INTERNAL_STATE)
      sample_sandbox_envelope sample_profile) = Inr (sandbox_policy_request
      (sample_contract ''t1'' (sample_ceiling 1) INTERNAL_STATE) sample_sandbox_envelope sample_profile)"
    by (simp add: validate_request_def sandbox_policy_request_def has_key_def sample_contract_def blank_def strip_def is_space_def)
  ultimately show ?thesis using d
    by (simp add: admit_sandbox_def sample_create_request_def sample_sandbox_grants_def)
qed

lemma sample_instance_fields:
  "in_instance_id (sample_instance ref d) = ''secfusion:sandbox-instance:x:s1''"
  "in_status (sample_instance ref d) = sandbox_active" "in_execution_id (sample_instance ref d) = ''x''"
  "in_backend_handle_ref (sample_instance ref d) = Some ''handle''" "in_lease_json (sample_instance ref d) = sample_lease"
  "in_backend (sample_instance ref d) = ''openshell''"
  by (simp_all add: sample_instance_def instance_row_of_def sample_sandbox_envelope_def sample_envelope_def
      sample_create_request_def lease_of_def base_profile_def)

lemma sample_created_val: "\<exists>v ref d. sample_sandbox_create = Inr (v, sample_sandbox_start\<lparr>sx_instances := [sample_instance ref d]\<rparr>)"
proof -
  from sample_admitted obtain pq d where a: "admit_sandbox sample_sandbox_broker sample_sandbox_start
    (sample_contract ''t1'' (sample_ceiling 1) INTERNAL_STATE) sample_sandbox_envelope sample_create_request
    sample_sandbox_grants = Inr (sample_profile, sample_backend, pq, d)" by blast
  let ?ref = "decision_ref sample_hash (\<lambda>_. []) (sb_policy sample_sandbox_broker) pq d"
  have b: "be_create sample_backend sample_lease = Inr ''handle''" by (simp add: sample_backend_def)
  have "\<exists>v. instance_view (sample_instance ?ref d) = Inr v" by (simp add: instance_view_def sample_instance_fields)
  then obtain v where "instance_view (sample_instance ?ref d) = Inr v" by blast
  with a b have "sample_sandbox_create = Inr (v, sample_sandbox_start\<lparr>sx_instances := [sample_instance ?ref d]\<rparr>)"
    by (simp add: sample_sandbox_create_def create_sandbox_def find_instance_def sample_start_empty tab_add_def
        Let_def sample_instance_def)
  then show ?thesis by blast
qed

lemma sample_active_val: "\<exists>ref d. sample_sandbox_active = sample_sandbox_start\<lparr>sx_instances := [sample_instance ref d]\<rparr>"
proof -
  obtain v ref d where c: "sample_sandbox_create = Inr (v, sample_sandbox_start\<lparr>sx_instances := [sample_instance ref d]\<rparr>)"
    using sample_created_val by blast
  have "sample_sandbox_active = sample_sandbox_start\<lparr>sx_instances := [sample_instance ref d]\<rparr>"
    by (simp add: sample_sandbox_active_def state_of_def c)
  then show ?thesis by blast
qed

lemma sample_active_reachable: "(sandbox_step sample_hash (\<lambda>_. []))\<^sup>*\<^sup>* sample_sandbox_start sample_sandbox_active"
proof -
  obtain v st where c: "sample_sandbox_create = Inr (v, st)" using sample_created_val by blast
  have "profiles_ok (sb_profiles sample_sandbox_broker)"
    by (simp add: profiles_ok_def sample_sandbox_broker_def new_sandbox_broker_def configured_profiles_def default_profiles_ok)
  moreover have "validate_refs sample_create_request = Inr sample_create_request"
    by (simp add: validate_refs_def sample_create_request_def startswith_def)
  ultimately have "sandbox_step sample_hash (\<lambda>_. []) sample_sandbox_start st"
    using c unfolding sample_sandbox_create_def by (rule sandbox_step.create)
  moreover have "sample_sandbox_active = st" by (simp add: sample_sandbox_active_def state_of_def c)
  ultimately show ?thesis by blast
qed

lemma sample_active_get:
  "\<exists>ref d. tab_get in_instance_id ''secfusion:sandbox-instance:x:s1'' (sx_instances sample_sandbox_active) = Some (sample_instance ref d)"
proof -
  obtain ref d where a: "sample_sandbox_active = sample_sandbox_start\<lparr>sx_instances := [sample_instance ref d]\<rparr>"
    using sample_active_val by blast
  have "tab_get in_instance_id ''secfusion:sandbox-instance:x:s1'' (sx_instances sample_sandbox_active) = Some (sample_instance ref d)"
    unfolding a by (simp add: sample_instance_fields)
  then show ?thesis by blast
qed

lemma sample_lease_valid: "validate_lease sample_lease = Inr sample_lease"
  using default_profiles_ok by (simp add: validate_lease_iff lease_of_def default_sandbox_profiles_def)

lemma sample_backends: "map_of (sb_backends sample_sandbox_broker) ''openshell'' = Some sample_backend"
  by (simp add: sample_sandbox_broker_def new_sandbox_broker_def)

lemma sample_active_destroy:
  "\<exists>st. destroy_sandbox sample_sandbox_broker sample_sandbox_active ''secfusion:sandbox-instance:x:s1'' 5 = Inr st"
  using sample_active_get by (auto simp: destroy_sandbox_def sample_backends sample_backend_def sample_instance_fields)

lemma sample_active_export:
  "export_sandbox sample_sandbox_broker sample_sandbox_active ''secfusion:sandbox-instance:x:s1'' [''out/./r.json'']
     = Inr [''artifact:file'']"
proof -
  have "sp_artifact_export_policy (ls_profile sample_lease) = ''explicit''" by (simp add: lease_of_def base_profile_def)
  moreover have "validate_relative_export_path ''out/./r.json'' = Inr ()"
    by (simp add: validate_relative_export_path_def path_is_absolute_def path_parts_def startswith_def blank_def strip_def is_space_def)
  ultimately show ?thesis using sample_active_get
    by (auto simp: export_sandbox_def sample_instance_fields sample_lease_valid sample_backends sample_backend_def startswith_def)
qed

lemma sample_active_exec:
  "\<exists>result st. exec_sandbox sample_hash sample_sandbox_broker sample_sandbox_active sample_sandbox_envelope
     ''secfusion:sandbox-instance:x:s1'' sample_exec_request \<lparr>ek_now = 2, ek_started = 3, ek_finished = 4\<rparr> = Inr (result, st)"
proof -
  have "ee_execution_id sample_sandbox_envelope = ''x''" by (simp add: sample_sandbox_envelope_def sample_envelope_def)
  moreover have execs: "sx_execs sample_sandbox_active = []"
    using sample_active_val sample_start_empty by (metis sandbox_state.select_convs(3) sandbox_state.surjective sandbox_state.update_convs(2))
  moreover from execs have "find_exec sample_sandbox_active i op = None" for i op by (simp add: find_exec_def)
  moreover have "exec_timeout sample_sandbox_envelope (ls_profile sample_lease) sample_exec_request 2 = Inr (min 30 (8999998 / 1000000))"
    by (simp add: exec_timeout_def bounded_timeout_seconds_def dt_naive_def sample_exec_request_def sample_sandbox_envelope_def
        sample_envelope_def lease_of_def base_profile_def)
  moreover have "validate_backend_artifact_refs (native_exec_result x \<lparr>bx_status = ''succeeded'', bx_exit_code = Some 0,
       bx_stdout_artifact_ref = Some ''artifact:out'', bx_stderr_artifact_ref = None, bx_failure_code = None\<rparr> t) = Inr ()" for x t
    by (simp add: validate_backend_artifact_refs_def native_exec_result_def startswith_def)
  ultimately show ?thesis using sample_active_get
    by (auto simp: exec_sandbox_def sample_instance_fields sample_lease_valid sample_backends sample_backend_def tab_add_def Let_def)
qed

section \<open>Properties\<close>

text \<open>
  Claim C24: no sandbox comes up without passing every gate. When a new instance is created, the execution
  envelope is the stored one and pins the profile; the profile is the one configured for exactly the
  isolation asked for and all of its backend's components are available; the credentials asked for are within the
  execution's identity; the lease is confined by the profile; the policy permits it and its constraints and
  obligations are fulfilled; and the one row added, active, records the lease the backend was given
  and the handle it returned.
\<close>

theorem sandbox_create_gated:
  assumes "create_sandbox E show_time B st task env q grants now = Inr (v, st')"
    and "find_instance st (ee_execution_id env) (sq_request_id q) = None"
  shows "\<exists>p backend d handle m. get_execution (sx_executions st) (ee_execution_id env) = Inr env
    \<and> map_of (configured_profiles (Some (sb_profiles B))) (sq_minimum_isolation q) = Some p
    \<and> ee_sandbox_profile_revision env = profile_ref p
    \<and> set (split_char (CHR ''+'') (sp_backend p)) \<subseteq> set (sb_available B)
    \<and> set (sq_credential_scope q) \<subseteq> set (ee_identity_scope env) \<and> lease_confined (lease_of env q grants p)
    \<and> evaluate (sb_policy B) (sandbox_policy_request task env p) = Inr d \<and> pd_authorization d = PERMIT
    \<and> set (map po_kind (pd_constraints d @ pd_obligations d)) \<subseteq> set (sg_fulfilled_obligation_kinds grants)
    \<and> map_of (sb_backends B) (sp_backend p) = Some backend \<and> be_create backend (lease_of env q grants p) = Inr handle
    \<and> st' = st\<lparr>sx_instances := sx_instances st @ [m]\<rparr> \<and> in_lease_json m = lease_of env q grants p
    \<and> in_backend_handle_ref m = Some handle \<and> in_status m = sandbox_active"
  using assms(1)
proof (cases rule: create_cases)
  case (fresh p backend pq d handle)
  note ok = admit_sandbox_ok [OF fresh(2)]
  let ?m = "fresh_instance E show_time B env q grants p handle pq d now"
  have "in_lease_json ?m = lease_of env q grants p" "in_backend_handle_ref ?m = Some handle" "in_status ?m = sandbox_active"
    by (simp_all add: instance_row_of_def)
  with ok fresh(3,5) show ?thesis
    by (intro exI [of _ p] exI [of _ backend] exI [of _ d] exI [of _ handle] exI [of _ ?m]) simp
qed (use assms(2) in simp)

theorem sandbox_create_gated_witness:
  "\<exists>v st'. sample_sandbox_create = Inr (v, st') \<and> (\<exists>m. sx_instances st' = [m] \<and> lease_confined (in_lease_json m))"
proof -
  obtain v st' where c: "sample_sandbox_create = Inr (v, st')" using sample_created_val by blast
  have "find_instance sample_sandbox_start (ee_execution_id sample_sandbox_envelope) (sq_request_id sample_create_request) = None"
    by (simp add: find_instance_def sample_sandbox_start_def)
  from sandbox_create_gated [OF c [unfolded sample_sandbox_create_def] this] obtain p m where
    "lease_confined (lease_of sample_sandbox_envelope sample_create_request sample_sandbox_grants p)"
    "st' = sample_sandbox_start\<lparr>sx_instances := sx_instances sample_sandbox_start @ [m]\<rparr>"
    "in_lease_json m = lease_of sample_sandbox_envelope sample_create_request sample_sandbox_grants p" by blast
  then have "sx_instances st' = [m]" "lease_confined (in_lease_json m)" by (simp_all add: sample_start_empty)
  with c show ?thesis by blast
qed

text \<open>
  Claim C25: every sandbox of a reachable state is confined. Its profile drops all Linux capabilities, forbids new
  privileges and has a digest-pinned image if any; its lease writes only where the profile lets it, reaches the
  network only as the profile allows and holds credentials only through the gateway with a grant; its mounts, of the
  workspace and read-only ones alike, are artifact references; the policy permitted it; and it is active or destroyed.
\<close>

theorem sandbox_leases_confined:
  assumes "(sandbox_step E show_time)\<^sup>*\<^sup>* st st'" and "sx_instances st = []" and "sx_execs st = []"
    and "m \<in> set (sx_instances st')"
  shows "enforce_v1_security_shape (ls_profile (in_lease_json m)) = Inr (ls_profile (in_lease_json m))
    \<and> sp_linux_capabilities (ls_profile (in_lease_json m)) = [] \<and> sp_no_new_privs (ls_profile (in_lease_json m))
    \<and> lease_confined (in_lease_json m) \<and> pd_authorization (in_policy_decision_json m) = PERMIT
    \<and> (\<forall>img. sp_image_ref_or_digest (ls_profile (in_lease_json m)) = Some img \<longrightarrow> img = [] \<or> str_contains img ''@sha256:'')
    \<and> (\<forall>r \<in> set (ls_workspace_artifact_refs (in_lease_json m)) \<union> set (ls_readonly_artifact_refs (in_lease_json m)).
         startswith r ''artifact:'')
    \<and> in_status m \<in> {sandbox_active, sandbox_destroyed}"
proof -
  have "sandbox_inv st'" by (rule sandbox_tables.inv_reachable [OF _ assms(1)]) (simp add: assms)
  with assms(4) have ok: "instance_ok m" by (simp add: sandbox_inv_def)
  then have shape: "enforce_v1_security_shape (ls_profile (in_lease_json m)) = Inr (ls_profile (in_lease_json m))"
    by (simp add: instance_ok_def validate_lease_iff)
  then have "sp_linux_capabilities (ls_profile (in_lease_json m)) = [] \<and> sp_no_new_privs (ls_profile (in_lease_json m))
    \<and> (\<forall>img. sp_image_ref_or_digest (ls_profile (in_lease_json m)) = Some img \<longrightarrow> img = [] \<or> str_contains img ''@sha256:'')"
    unfolding enforce_v1_security_shape_def raise_if_eq_Inr by auto
  with ok shape show ?thesis by (auto simp: instance_ok_def list_all_iff)
qed

theorem sandbox_leases_confined_witness:
  "\<exists>m. m \<in> set (sx_instances sample_sandbox_active) \<and> lease_confined (in_lease_json m)"
proof -
  obtain m where m: "m \<in> set (sx_instances sample_sandbox_active)" using sample_active_get tab_get_in_set by metis
  from sandbox_leases_confined [OF sample_active_reachable sample_start_empty this] m show ?thesis by blast
qed

text \<open>
  Claim C26: a destroyed sandbox stays unusable. After \<open>destroy_sandbox\<close> has succeeded, whatever happens later and
  whatever the backends do, executing in it and exporting from it raise, and so does asking again for
  the request that created it.
\<close>

theorem destroyed_sandbox_unusable:
  assumes "(sandbox_step E show_time)\<^sup>*\<^sup>* st0 st" and "sx_instances st0 = []" and "sx_execs st0 = []"
    and "destroy_sandbox B st i now = Inr st1" and "(sandbox_step E show_time)\<^sup>*\<^sup>* st1 st2"
  shows "\<exists>m. tab_get in_instance_id i (sx_instances st2) = Some m \<and> in_status m = sandbox_destroyed
    \<and> (\<forall>B' env q ck. \<exists>e. exec_sandbox E B' st2 env i q ck = Inl e)
    \<and> (\<forall>B' paths. export_sandbox B' st2 i paths = Inl (SandboxUnavailable ''sandbox_instance_not_active''))
    \<and> (\<forall>B' task env q grants t. ee_execution_id env = in_execution_id m \<and> sq_request_id q = in_request_id m \<longrightarrow>
         (\<exists>e. create_sandbox E show_time B' st2 task env q grants t = Inl (SandboxUnavailable e)))"
proof -
  have inv: "sandbox_inv st" by (rule sandbox_tables.inv_reachable [OF _ assms(1)]) (simp add: assms)
  have step: "sandbox_step E show_time st st1" by (rule sandbox_step.destroy [OF assms(4)])
  then have inv2: "sandbox_inv st2"
    using inv assms(5) sandbox_tables.inv_step sandbox_tables.inv_steps by blast
  from assms(4) obtain m where "destroyed_instance st1 i = Some m"
  proof (cases rule: destroy_cases)
    case (destroyed n)
    have "tab_get in_instance_id i (sx_instances st1) = Some (n\<lparr>in_status := sandbox_destroyed, in_destroyed_at := Some now\<rparr>)"
      using tab_get_Some_D [OF destroyed(1)] unfolding destroyed(3) by (auto simp: tab_simps)
    with that show ?thesis by (simp add: destroyed_instance_def)
  qed (simp add: destroyed_instance_def)
  from destroyed_log.lookup_steps [OF assms(5) this]
  have m: "tab_get in_instance_id i (sx_instances st2) = Some m" "in_status m = sandbox_destroyed"
    by (auto simp: destroyed_instance_def split: option.splits if_splits)
  note find = find_instance_inv [OF inv2 tab_get_in_set [OF m(1)]]
  have "\<exists>e. create_sandbox E show_time B' st2 task env q grants t = Inl (SandboxUnavailable e)"
    if "ee_execution_id env = in_execution_id m" "sq_request_id q = in_request_id m" for B' task env q grants t
    using find m(2) that by (simp add: create_sandbox_def)
  moreover have "\<exists>e. exec_sandbox E B' st2 env i q ck = Inl e" for B' env q ck
    using sandbox_reads_gone(1) [OF m(1), of E B' env q ck] m(2) by auto
  moreover have "export_sandbox B' st2 i paths = Inl (SandboxUnavailable ''sandbox_instance_not_active'')" for B' paths
    using sandbox_reads_gone(2) [OF m(1)] m(2) by simp
  ultimately show ?thesis using m by blast
qed

theorem destroyed_sandbox_unusable_witness:
  "\<exists>st. destroy_sandbox sample_sandbox_broker sample_sandbox_active ''secfusion:sandbox-instance:x:s1'' 5 = Inr st
    \<and> (\<forall>B' paths. export_sandbox B' st ''secfusion:sandbox-instance:x:s1'' paths
         = Inl (SandboxUnavailable ''sandbox_instance_not_active''))"
proof -
  obtain st where d: "destroy_sandbox sample_sandbox_broker sample_sandbox_active ''secfusion:sandbox-instance:x:s1'' 5 = Inr st"
    using sample_active_destroy by blast
  from destroyed_sandbox_unusable [OF sample_active_reachable sample_start_empty d rtranclp.rtrancl_refl] d
  show ?thesis by blast
qed

text \<open>
  An operation in a sandbox happens once. After \<open>exec_sandbox\<close> has returned for an operation id, any
  later call with that id, whatever its program, envelope and backends, either returns the recorded result marked as a replay
  and changes nothing, or raises because the instance is gone or belongs to another execution; it never reaches a backend.
\<close>

theorem sandbox_exec_exactly_once:
  assumes "(sandbox_step E show_time)\<^sup>*\<^sup>* st0 st" and "sx_instances st0 = []" and "sx_execs st0 = []"
    and "validate_exec_request q = Inr q" and "exec_sandbox E B st env i q ck = Inr (result, st1)"
    and "(sandbox_step E show_time)\<^sup>*\<^sup>* st1 st2" and "eq_operation_id q' = eq_operation_id q"
  shows "exec_sandbox E B' st2 env' i q' ck' \<in> {Inr (result\<lparr>sr_replay := True\<rparr>, st2),
      Inl (ValueError ''sandbox instance escapes ExecutionEnvelope''),
      Inl (SandboxUnavailable ''sandbox_instance_not_active'')}"
proof -
  have inv: "sandbox_inv st" by (rule sandbox_tables.inv_reachable [OF _ assms(1)]) (simp add: assms)
  have "sandbox_step E show_time st st1" by (rule sandbox_step.exec [OF assms(4,5)])
  then have inv2: "sandbox_inv st2"
    using inv assms(6) sandbox_tables.inv_step sandbox_tables.inv_steps by blast
  obtain x r t inst where x: "find_exec st1 i (eq_operation_id q) = Some x" "xe_result_json x = Some r"
    "xe_finished_at x = Some t" "result\<lparr>sr_replay := True\<rparr> = r\<lparr>sr_replay := True\<rparr>"
    "tab_get in_instance_id i (sx_instances st1) = Some inst" by (rule exec_logged [OF assms(5)])
  have x2: "find_exec st2 i (eq_operation_id q') = Some x"
    using sandbox_exec_log.lookup_steps [OF assms(6), of "(i, eq_operation_id q)"] x(1) assms(7) by simp
  from instance_still_there [OF assms(6) x(5)] obtain m where m: "tab_get in_instance_id i (sx_instances st2) = Some m"
    by blast
  then have "in_backend_handle_ref m \<noteq> None" using inv2 tab_get_in_set [OF m] by (auto simp: sandbox_inv_def instance_ok_def)
  then obtain h where h: "in_backend_handle_ref m = Some h" by blast
  show ?thesis
  proof (cases "in_status m = sandbox_active")
    case True
    from sandbox_reads_replay [OF m True h x2 x(2,3), of E B' env' ck'] x(4) show ?thesis by auto
  next
    case False
    from sandbox_reads_gone(1) [OF m False, of E B' env' q' ck'] show ?thesis by auto
  qed
qed

theorem sandbox_exec_exactly_once_witness:
  "\<exists>result st. exec_sandbox sample_hash sample_sandbox_broker sample_sandbox_active sample_sandbox_envelope
       ''secfusion:sandbox-instance:x:s1'' sample_exec_request \<lparr>ek_now = 2, ek_started = 3, ek_finished = 4\<rparr> = Inr (result, st)
    \<and> exec_sandbox sample_hash (sample_sandbox_broker\<lparr>sb_backends := []\<rparr>) st sample_sandbox_envelope
       ''secfusion:sandbox-instance:x:s1'' sample_exec_request \<lparr>ek_now = 5, ek_started = 6, ek_finished = 7\<rparr>
       \<in> {Inr (result\<lparr>sr_replay := True\<rparr>, st), Inl (ValueError ''sandbox instance escapes ExecutionEnvelope''),
         Inl (SandboxUnavailable ''sandbox_instance_not_active'')}"
proof -
  obtain result st where x: "exec_sandbox sample_hash sample_sandbox_broker sample_sandbox_active sample_sandbox_envelope
       ''secfusion:sandbox-instance:x:s1'' sample_exec_request \<lparr>ek_now = 2, ek_started = 3, ek_finished = 4\<rparr> = Inr (result, st)"
    using sample_active_exec by blast
  have v: "validate_exec_request sample_exec_request = Inr sample_exec_request"
    by (simp add: validate_exec_request_def sample_exec_request_def startswith_def)
  from sandbox_exec_exactly_once [OF sample_active_reachable sample_start_empty v x rtranclp.rtrancl_refl refl] x
  show ?thesis by blast
qed

text \<open>
  Claim C27: exports stay inside. If \<open>export_sandbox\<close> succeeds, each exported path, resolved component by component
  from any directory of the sandbox, leads to a place below that directory, and every reference the backend
  returned is an artifact reference.
\<close>

theorem export_paths_confined:
  assumes "export_sandbox B st i paths = Inr refs"
  shows "(\<forall>path \<in> set paths. prefix dir (resolve_path dir path)) \<and> (\<forall>r \<in> set refs. startswith r ''artifact:'')"
proof -
  from assms have "\<forall>path \<in> set paths. validate_relative_export_path path = Inr ()"
    and refs: "\<forall>r \<in> set refs. startswith r ''artifact:''"
    by (auto simp: export_sandbox_def res_simps fold_res_unit list_ex_iff split: option.splits)
  then have "\<forall>path \<in> set paths. \<not> path_is_absolute path \<and> ''..'' \<notin> set (split_char (CHR ''/'') path)"
    by (auto simp: validate_relative_export_path_def res_simps path_parts_def)
  with refs show ?thesis by (auto simp: resolve_path_def intro: walk_prefix)
qed

theorem export_paths_confined_witness:
  "export_sandbox sample_sandbox_broker sample_sandbox_active ''secfusion:sandbox-instance:x:s1'' [''out/./r.json'']
      = Inr [''artifact:file'']
    \<and> prefix [''workspace''] (resolve_path [''workspace''] ''out/./r.json'')"
  using sample_active_export export_paths_confined [OF sample_active_export, of "[''workspace'']"] by simp

end
