(* ===== verification/Artifact_Store.thy ===== *)
theory Artifact_Store
  imports Execution_Runtime
begin

text \<open>
  \<^verbatim>\<open>packages/runtime/artifacts/service.py\<close>: content-addressed artifacts of executions. The blob store
  behind the service is an interface (\<^verbatim>\<open>RuntimeBlobStore\<close>), here the locale \<open>blob_port\<close>, and
  \<^verbatim>\<open>MemoryRuntimeBlobStore\<close> is its instance in the sources. Bytes are characters; \<open>H\<close> is
  \<^verbatim>\<open>sha256(body).hexdigest()\<close>. Blobs are not part of the database transaction: when a write raises
  after the blob was put, the tables are those from before and the blob stays.
\<close>

type_synonym bytes = "char list"

record blob_write =
  bw_storage_uri :: string
  bw_size_bytes :: nat

text \<open>\<^verbatim>\<open>put\<close> is given the content hash, the body and the media type.\<close>

record 'b blob_ops =
  bo_put :: "'b \<Rightarrow> string \<Rightarrow> bytes \<Rightarrow> string \<Rightarrow> (blob_write \<times> 'b) res"
  bo_get :: "'b \<Rightarrow> string \<Rightarrow> bytes res"

section \<open>The store in memory\<close>

type_synonym memory_blobs = "(string \<times> bytes) list"

definition memory_uri :: "string \<Rightarrow> string" where
  "memory_uri content_hash = ''memory://runtime/'' @ content_hash"

text \<open>\<^verbatim>\<open>self.objects.setdefault(uri, body)\<close>\<close>

definition memory_put :: "memory_blobs \<Rightarrow> string \<Rightarrow> bytes \<Rightarrow> string \<Rightarrow> (blob_write \<times> memory_blobs) res" where
  "memory_put objects content_hash body media_type =
     (let uri = memory_uri content_hash in
      Inr (\<lparr>bw_storage_uri = uri, bw_size_bytes = length body\<rparr>,
        if map_of objects uri = None then objects @ [(uri, body)] else objects))"

definition memory_get :: "memory_blobs \<Rightarrow> string \<Rightarrow> bytes res" where
  "memory_get objects uri = res_of_option (LookupError uri) (map_of objects uri)"

definition memory_ops :: "memory_blobs blob_ops" where
  "memory_ops = \<lparr>bo_put = memory_put, bo_get = memory_get\<rparr>"

section \<open>Artifacts\<close>

record runtime_artifact =
  ra_artifact_ref :: string
  ra_artifact_id :: string
  ra_execution_id :: string
  ra_producer_kind :: string
  ra_producer_ref :: "string option"
  ra_logical_name :: string
  ra_media_type :: string
  ra_content_hash :: string
  ra_storage_uri :: string
  ra_size_bytes :: nat
  ra_trust_class :: string
  ra_created_at :: int

record artifact_row =
  ar_artifact_id :: string
  ar_execution_id :: string
  ar_producer_kind :: string
  ar_producer_ref :: "string option"
  ar_logical_name :: string
  ar_media_type :: string
  ar_content_hash :: string
  ar_storage_uri :: string
  ar_size_bytes :: nat
  ar_trust_class :: string
  ar_created_at :: datetime

record 'b artifact_state =
  at_executions :: execution_table
  at_artifacts :: "artifact_row list"
  at_blobs :: 'b

definition artifact_view :: "artifact_row \<Rightarrow> runtime_artifact" where
  "artifact_view m =
     \<lparr>ra_artifact_ref = ''artifact:'' @ ar_artifact_id m, ra_artifact_id = ar_artifact_id m,
      ra_execution_id = ar_execution_id m, ra_producer_kind = ar_producer_kind m, ra_producer_ref = ar_producer_ref m,
      ra_logical_name = ar_logical_name m, ra_media_type = ar_media_type m, ra_content_hash = ar_content_hash m,
      ra_storage_uri = ar_storage_uri m, ra_size_bytes = ar_size_bytes m, ra_trust_class = ar_trust_class m,
      ra_created_at = as_utc (ar_created_at m)\<rparr>"

definition artifact_id_of_ref :: "string \<Rightarrow> string res" where
  "artifact_id_of_ref artifact_ref =
     raise_if (\<not> startswith artifact_ref ''artifact:'')
       (ValueError ''runtime artifact reference must use artifact: prefix'')
     (let artifact_id = drop (length ''artifact:'') artifact_ref in
      raise_if (artifact_id = []) (ValueError ''runtime artifact reference cannot be empty'') (Inr artifact_id))"

definition find_artifact :: "artifact_row list \<Rightarrow> string \<Rightarrow> string \<Rightarrow> string \<Rightarrow> artifact_row option" where
  "find_artifact rows execution_id logical_name content_hash =
     find (\<lambda>m. ar_execution_id m = execution_id \<and> ar_logical_name m = logical_name \<and> ar_content_hash m = content_hash) rows"

definition artifact_row_of ::
  "hash_env \<Rightarrow> string \<Rightarrow> string \<Rightarrow> string option \<Rightarrow> string \<Rightarrow> string \<Rightarrow> string \<Rightarrow> string \<Rightarrow> blob_write \<Rightarrow> datetime \<Rightarrow> artifact_row" where
  "artifact_row_of E execution_id producer_kind producer_ref logical_name media_type content_hash trust_class write now =
     \<lparr>ar_artifact_id = stable_id E (''runtime-artifact:'' @ execution_id @ '':'' @ logical_name @ '':'' @ content_hash),
      ar_execution_id = execution_id, ar_producer_kind = producer_kind, ar_producer_ref = producer_ref,
      ar_logical_name = logical_name, ar_media_type = media_type, ar_content_hash = content_hash,
      ar_storage_uri = bw_storage_uri write, ar_size_bytes = bw_size_bytes write, ar_trust_class = trust_class,
      ar_created_at = now\<rparr>"

definition write_artifact ::
  "hash_env \<Rightarrow> (bytes \<Rightarrow> string) \<Rightarrow> 'b blob_ops \<Rightarrow> 'b artifact_state \<Rightarrow> string \<Rightarrow> string \<Rightarrow> string option \<Rightarrow> string
     \<Rightarrow> string \<Rightarrow> bytes \<Rightarrow> string \<Rightarrow> datetime \<Rightarrow> runtime_artifact res \<times> 'b artifact_state" where
  "write_artifact E H ops st execution_id producer_kind producer_ref logical_name media_type body trust_class now =
     (if blank producer_kind \<or> blank logical_name \<or> blank media_type
      then (Inl (ValueError ''runtime artifact producer/name/media_type cannot be empty''), st)
      else if get_exec (at_executions st) execution_id = None
      then (Inl (LookupError (''execution run not found: '' @ execution_id)), st)
      else
        (let content_hash = H body in
         case find_artifact (at_artifacts st) execution_id logical_name content_hash of
           Some existing \<Rightarrow>
             if ar_media_type existing \<noteq> media_type \<or> ar_producer_kind existing \<noteq> producer_kind
                \<or> ar_producer_ref existing \<noteq> producer_ref \<or> ar_trust_class existing \<noteq> trust_class
             then (Inl (ValueError ''runtime artifact replay identity changed metadata''), st)
             else (Inr (artifact_view existing), st)
         | None \<Rightarrow>
             (case bo_put ops (at_blobs st) content_hash body media_type of
                Inl e \<Rightarrow> (Inl e, st)
              | Inr (write, blobs) \<Rightarrow>
                  (let m = artifact_row_of E execution_id producer_kind producer_ref logical_name media_type
                         content_hash trust_class write now in
                   case tab_add ar_artifact_id m (at_artifacts st) of
                     Inl e \<Rightarrow> (Inl e, st\<lparr>at_blobs := blobs\<rparr>)
                   | Inr rows \<Rightarrow> (Inr (artifact_view m), st\<lparr>at_artifacts := rows, at_blobs := blobs\<rparr>)))))"

definition get_artifact :: "'b artifact_state \<Rightarrow> string \<Rightarrow> runtime_artifact res" where
  "get_artifact st artifact_ref =
     res_bind (artifact_id_of_ref artifact_ref) (\<lambda>i.
     res_bind (res_of_option (LookupError (''runtime artifact not found: '' @ artifact_ref))
       (tab_get ar_artifact_id i (at_artifacts st))) (\<lambda>m. Inr (artifact_view m)))"

definition read_artifact :: "(bytes \<Rightarrow> string) \<Rightarrow> 'b blob_ops \<Rightarrow> 'b artifact_state \<Rightarrow> string \<Rightarrow> bytes res" where
  "read_artifact H ops st artifact_ref =
     res_bind (get_artifact st artifact_ref) (\<lambda>artifact.
     res_bind (bo_get ops (at_blobs st) (ra_storage_uri artifact)) (\<lambda>body.
     raise_if (H body \<noteq> ra_content_hash artifact) (RuntimeError ''runtime artifact content hash mismatch'') (Inr body)))"

section \<open>Specifications\<close>

text \<open>Writes, successful or not, and executions coming and going.\<close>

inductive artifact_step :: "hash_env \<Rightarrow> (bytes \<Rightarrow> string) \<Rightarrow> 'b blob_ops \<Rightarrow> 'b artifact_state \<Rightarrow> 'b artifact_state \<Rightarrow> bool"
  for E H ops where
  written: "write_artifact E H ops st x pk pr name media body trust now = (r, st') \<Longrightarrow> artifact_step E H ops st st'"
| execution: "execution_step (at_executions st) xs \<Longrightarrow> artifact_step E H ops st (st\<lparr>at_executions := xs\<rparr>)"

text \<open>Every object is stored under the address of its content.\<close>

definition memory_ok :: "(bytes \<Rightarrow> string) \<Rightarrow> memory_blobs \<Rightarrow> bool" where
  "memory_ok H objects \<longleftrightarrow> (\<forall>uri body. map_of objects uri = Some body \<longrightarrow> uri = memory_uri (H body))"

definition artifact_inv :: "(bytes \<Rightarrow> string) \<Rightarrow> ('b \<Rightarrow> bool) \<Rightarrow> 'b blob_ops \<Rightarrow> 'b artifact_state \<Rightarrow> bool" where
  "artifact_inv H good ops st \<longleftrightarrow> good (at_blobs st) \<and> distinct (map ar_artifact_id (at_artifacts st))
     \<and> (\<forall>m \<in> set (at_artifacts st). \<exists>body. bo_get ops (at_blobs st) (ar_storage_uri m) = Inr body
          \<and> H body = ar_content_hash m)"

text \<open>For the concrete instances: an execution with no artifacts yet, and a hash that is the identity.\<close>

definition sample_artifacts :: "memory_blobs artifact_state" where
  "sample_artifacts = \<lparr>at_executions = [sample_execution ''running'' 9], at_artifacts = [], at_blobs = []\<rparr>"

abbreviation sample_write :: "memory_blobs artifact_state \<Rightarrow> runtime_artifact res \<times> memory_blobs artifact_state" where
  "sample_write st \<equiv> write_artifact sample_hash (\<lambda>b. b) memory_ops st ''env'' ''tool'' None ''out'' ''text/plain'' ''hi'' ''untrusted'' (Aware 1)"

section \<open>Lemmas\<close>

lemma write_cases:
  assumes "write_artifact E H ops st x pk pr name media body trust now = (r, st')"
  obtains (same) "st' = st" "\<And>a. r = Inr a \<Longrightarrow> \<exists>m. find_artifact (at_artifacts st) x name (H body) = Some m
      \<and> a = artifact_view m \<and> ar_media_type m = media"
  | (orphan) w b e where "bo_put ops (at_blobs st) (H body) body media = Inr (w, b)" "st' = st\<lparr>at_blobs := b\<rparr>" "r = Inl e"
  | (added) w b where "bo_put ops (at_blobs st) (H body) body media = Inr (w, b)"
      "ar_artifact_id (artifact_row_of E x pk pr name media (H body) trust w now) \<notin> set (map ar_artifact_id (at_artifacts st))"
      "st' = st\<lparr>at_artifacts := at_artifacts st @ [artifact_row_of E x pk pr name media (H body) trust w now], at_blobs := b\<rparr>"
      "r = Inr (artifact_view (artifact_row_of E x pk pr name media (H body) trust w now))"
proof (cases "(blank pk \<or> blank name \<or> blank media) \<or> get_exec (at_executions st) x = None")
  case True
  with assms show ?thesis by (intro same) (auto simp: write_artifact_def split: if_splits)
next
  case ok: False
  show ?thesis
  proof (cases "find_artifact (at_artifacts st) x name (H body)")
    case (Some m)
    with assms ok show ?thesis by (intro same) (auto simp: write_artifact_def split: if_splits)
  next
    case None
    show ?thesis
    proof (cases "bo_put ops (at_blobs st) (H body) body media")
      case (Inl e)
      with assms ok None show ?thesis by (intro same) (auto simp: write_artifact_def)
    next
      case (Inr wb)
      obtain w b where wb: "wb = (w, b)" by (cases wb)
      let ?m = "artifact_row_of E x pk pr name media (H body) trust w now"
      show ?thesis
      proof (cases "ar_artifact_id ?m \<in> set (map ar_artifact_id (at_artifacts st))")
        case True
        with assms ok None Inr wb show ?thesis
          by (intro orphan [of w b "IntegrityError ''primary key''"]) (auto simp: write_artifact_def Let_def tab_add_def)
      next
        case False
        with assms ok None Inr wb show ?thesis
          by (intro added [of w b]) (auto simp: write_artifact_def Let_def tab_add_def)
      qed
    qed
  qed
qed

text \<open>
  What the service relies on: a blob that was put can be read back with the content hash it was
  put under, and putting another one leaves it as it was.
\<close>

locale blob_port =
  fixes H :: "bytes \<Rightarrow> string"
    and good :: "'b \<Rightarrow> bool"
    and ops :: "'b blob_ops"
  assumes put_good: "good b \<Longrightarrow> bo_put ops b (H body) body media = Inr (w, b') \<Longrightarrow> good b'"
    and put_get: "good b \<Longrightarrow> bo_put ops b (H body) body media = Inr (w, b') \<Longrightarrow>
      \<exists>x. bo_get ops b' (bw_storage_uri w) = Inr x \<and> H x = H body"
    and put_keeps: "good b \<Longrightarrow> bo_put ops b (H body) body media = Inr (w, b') \<Longrightarrow>
      bo_get ops b uri = Inr x \<Longrightarrow> bo_get ops b' uri = Inr x"
begin

lemma inv_step:
  assumes "artifact_inv H good ops st" "artifact_step E H ops st st'"
  shows "artifact_inv H good ops st'"
  using assms(2)
proof cases
  case (written x pk pr name media body trust now r)
  have good: "good (at_blobs st)" using assms(1) by (simp add: artifact_inv_def)
  have kept: "\<exists>y. bo_get ops b (ar_storage_uri m) = Inr y \<and> H y = ar_content_hash m"
    if "m \<in> set (at_artifacts st)" "bo_put ops (at_blobs st) (H body) body media = Inr (w, b)" for m w b
    using assms(1) that put_keeps [OF good that(2)] unfolding artifact_inv_def by blast
  from written show ?thesis
  proof (cases rule: write_cases)
    case (orphan w b e)
    then show ?thesis using assms(1) kept put_good [OF good orphan(1)] by (simp add: artifact_inv_def)
  next
    case (added w b)
    let ?m = "artifact_row_of E x pk pr name media (H body) trust w now"
    have "ar_storage_uri ?m = bw_storage_uri w" "ar_content_hash ?m = H body" by (simp_all add: artifact_row_of_def)
    then show ?thesis
      using assms(1) kept put_good [OF good added(1)] put_get [OF good added(1)] added by (auto simp: artifact_inv_def)
  qed (use assms(1) in simp)
next
  case (execution xs)
  with assms(1) show ?thesis by (simp add: artifact_inv_def)
qed

lemma row_kept:
  assumes "artifact_step E H ops st st'" "tab_get ar_artifact_id i (at_artifacts st) = Some m"
  shows "tab_get ar_artifact_id i (at_artifacts st') = Some m"
  using assms(1)
proof cases
  case (written x pk pr name media body trust now r)
  from written show ?thesis by (cases rule: write_cases) (use assms(2) in \<open>simp_all add: tab_simps\<close>)
next
  case (execution xs)
  with assms(2) show ?thesis by simp
qed

lemma rows_kept:
  "(artifact_step E H ops)\<^sup>*\<^sup>* st st' \<Longrightarrow> tab_get ar_artifact_id i (at_artifacts st) = Some m \<Longrightarrow>
     tab_get ar_artifact_id i (at_artifacts st') = Some m"
  by (induction rule: rtranclp_induct) (auto intro: row_kept)

lemma inv_steps: "(artifact_step E H ops)\<^sup>*\<^sup>* st st' \<Longrightarrow> artifact_inv H good ops st \<Longrightarrow> artifact_inv H good ops st'"
  by (induction rule: rtranclp_induct) (auto intro: inv_step)

text \<open>A row of a good state can be read, and the body has the hash of the row.\<close>

lemma read_row:
  assumes "artifact_inv H good ops st" "tab_get ar_artifact_id i (at_artifacts st) = Some m" "i \<noteq> []"
  shows "\<exists>x. read_artifact H ops st (''artifact:'' @ i) = Inr x \<and> H x = ar_content_hash m"
proof -
  obtain x where "bo_get ops (at_blobs st) (ar_storage_uri m) = Inr x" "H x = ar_content_hash m"
    using assms(1) tab_get_in_set [OF assms(2)] by (auto simp: artifact_inv_def)
  with assms(2,3) show ?thesis
    by (simp add: read_artifact_def get_artifact_def artifact_id_of_ref_def startswith_def artifact_view_def)
qed

lemma written_row:
  assumes "write_artifact E H ops st x pk pr name media body trust now = (Inr a, st')" "artifact_inv H good ops st"
  obtains m where "tab_get ar_artifact_id (ra_artifact_id a) (at_artifacts st') = Some m" "a = artifact_view m"
    "ar_content_hash m = H body" "ar_execution_id m = x" "ar_logical_name m = name" "ar_media_type m = media"
  using assms(1)
proof (cases rule: write_cases)
  case same
  then obtain m where f: "find_artifact (at_artifacts st) x name (H body) = Some m" "a = artifact_view m" "ar_media_type m = media"
    by blast
  then have m: "m \<in> set (at_artifacts st)" "ar_execution_id m = x" "ar_logical_name m = name" "ar_content_hash m = H body"
    by (auto simp: find_artifact_def find_Some_iff)
  have "tab_get ar_artifact_id (ar_artifact_id m) (at_artifacts st) = Some m"
    using assms(2) m(1) by (simp add: artifact_inv_def tab_get_distinct)
  with f m same(1) show ?thesis by (intro that [of m]) (simp_all add: artifact_view_def)
next
  case (added w b)
  let ?m = "artifact_row_of E x pk pr name media (H body) trust w now"
  have "tab_get ar_artifact_id (ar_artifact_id ?m) (at_artifacts st') = Some ?m"
    using added(2) tab_get_None_iff [of ar_artifact_id "ar_artifact_id ?m" "at_artifacts st"] unfolding added(3)
    by (simp add: tab_simps)
  with added(4) show ?thesis by (intro that [of ?m]) (simp_all add: artifact_view_def artifact_row_of_def)
qed simp

theorem write_read:
  assumes "artifact_inv H good ops st"
    and "write_artifact E H ops st x pk pr name media body trust now = (Inr a, st1)"
    and "(artifact_step E H ops)\<^sup>*\<^sup>* st1 st2" and "ra_artifact_id a \<noteq> []"
  shows "get_artifact st2 (ra_artifact_ref a) = Inr a"
    "\<exists>y. read_artifact H ops st2 (ra_artifact_ref a) = Inr y \<and> H y = H body"
proof -
  obtain m where m: "tab_get ar_artifact_id (ra_artifact_id a) (at_artifacts st1) = Some m" "a = artifact_view m"
    "ar_content_hash m = H body" by (rule written_row [OF assms(2,1)])
  have ref: "ra_artifact_ref a = ''artifact:'' @ ra_artifact_id a" by (simp add: m(2) artifact_view_def)
  have row: "tab_get ar_artifact_id (ra_artifact_id a) (at_artifacts st2) = Some m" by (rule rows_kept [OF assms(3) m(1)])
  have "artifact_inv H good ops st1" by (rule inv_step [OF assms(1) artifact_step.written [OF assms(2)]])
  then have "artifact_inv H good ops st2" by (rule inv_steps [OF assms(3)])
  from read_row [OF this row assms(4)] m(3)
  show "\<exists>y. read_artifact H ops st2 (ra_artifact_ref a) = Inr y \<and> H y = H body" by (simp add: ref)
  show "get_artifact st2 (ra_artifact_ref a) = Inr a"
    unfolding ref get_artifact_def using row assms(4) m(2) by (simp add: artifact_id_of_ref_def startswith_def)
qed

end

interpretation memory_blobs: blob_port H "memory_ok H" memory_ops for H
proof (unfold_locales, goal_cases)
  case (1 b body media w b')
  then show ?case
    by (auto simp: memory_ops_def memory_put_def memory_ok_def Let_def map_add_def split: if_splits option.splits)
next
  case (2 b body media w b')
  from 2(2) have b': "b' = (if map_of b (memory_uri (H body)) = None then b @ [(memory_uri (H body), body)] else b)"
    and w: "bw_storage_uri w = memory_uri (H body)" by (auto simp: memory_ops_def memory_put_def Let_def)
  show ?case
  proof (cases "map_of b (memory_uri (H body))")
    case None
    then show ?thesis by (simp add: b' w memory_ops_def memory_get_def map_add_def)
  next
    case (Some x)
    with 2(1) have "memory_uri (H body) = memory_uri (H x)" by (simp add: memory_ok_def)
    then show ?thesis using Some by (simp add: b' w memory_ops_def memory_get_def memory_uri_def)
  qed
next
  case (3 b body media w b' uri x)
  then show ?case
    by (auto simp: memory_ops_def memory_put_def memory_get_def Let_def res_simps map_add_def split: if_splits option.splits)
qed

lemma memory_start: "at_artifacts st = [] \<Longrightarrow> at_blobs st = [] \<Longrightarrow> artifact_inv H (memory_ok H) memory_ops st"
  by (simp add: artifact_inv_def memory_ok_def)

lemma get_exec_kept: "execution_step xs ys \<Longrightarrow> get_exec xs i \<noteq> None \<Longrightarrow> get_exec ys i \<noteq> None"
  using execution_step_evolves [of xs ys] unfolding execution_evolves_def by blast

lemma artifact_execution_kept:
  "(artifact_step E H ops)\<^sup>*\<^sup>* st st' \<Longrightarrow> get_exec (at_executions st) x \<noteq> None \<Longrightarrow> get_exec (at_executions st') x \<noteq> None"
proof (induction rule: rtranclp_induct)
  case (step y z)
  from step(2) show ?case
  proof cases
    case (written x pk pr name media body trust now r)
    then have "at_executions z = at_executions y" by (cases rule: write_cases) simp_all
    with step show ?thesis by simp
  next
    case (execution xs)
    then show ?thesis using step get_exec_kept by force
  qed
qed

lemma find_artifact_kept:
  assumes "artifact_step E H ops st st'" "find_artifact (at_artifacts st) x name h = Some m"
  shows "find_artifact (at_artifacts st') x name h = Some m"
  using assms(1)
proof cases
  case (written y pk pr name' media body trust now r)
  then show ?thesis
    by (cases rule: write_cases) (use assms(2) in \<open>simp_all add: find_artifact_def find_append\<close>)
next
  case (execution xs)
  with assms(2) show ?thesis by simp
qed

interpretation artifact_log: stable_lookup "artifact_step E H ops"
  "\<lambda>st (x, name, h). find_artifact (at_artifacts st) x name h" for E H ops
  by unfold_locales (auto intro: find_artifact_kept)

lemma written_on_record:
  assumes "write_artifact E H ops st x pk pr name media body trust now = (Inr a, st')"
  obtains m where "find_artifact (at_artifacts st') x name (H body) = Some m" "a = artifact_view m"
    "get_exec (at_executions st') x \<noteq> None" "\<not> blank pk" "\<not> blank name" "\<not> blank media"
    "ar_producer_kind m = pk" "ar_producer_ref m = pr" "ar_media_type m = media" "ar_trust_class m = trust"
proof -
  from assms have ok: "\<not> blank pk" "\<not> blank name" "\<not> blank media" "get_exec (at_executions st) x \<noteq> None"
    by (auto simp: write_artifact_def split: if_splits)
  from assms show ?thesis
  proof (cases rule: write_cases)
    case same
    then obtain m where m: "find_artifact (at_artifacts st) x name (H body) = Some m" "a = artifact_view m" by blast
    with assms ok have "ar_producer_kind m = pk \<and> ar_producer_ref m = pr \<and> ar_media_type m = media \<and> ar_trust_class m = trust"
      by (simp add: write_artifact_def split: if_splits)
    with ok m same(1) show ?thesis by (intro that [of m]) simp_all
  next
    case (added w b)
    let ?m = "artifact_row_of E x pk pr name media (H body) trust w now"
    have new: "find_artifact (at_artifacts st) x name (H body) = None"
    proof (cases "find_artifact (at_artifacts st) x name (H body)")
      case (Some m)
      with assms ok have "st' = st" by (simp add: write_artifact_def split: if_splits)
      with added(3) show ?thesis by (metis artifact_state.select_convs(2) artifact_state.surjective
          artifact_state.update_convs(2,3) append_self_conv list.distinct(1))
    qed
    have "find_artifact (at_artifacts st') x name (H body) = Some ?m"
      using new unfolding added(3) by (simp add: find_artifact_def find_append artifact_row_of_def)
    with ok added(3,4) show ?thesis by (intro that [of ?m]) (simp_all add: artifact_row_of_def)
  qed simp
qed

lemma sample_written: "\<exists>a st. sample_write sample_artifacts = (Inr a, st) \<and> ra_artifact_id a \<noteq> []"
  by (simp add: write_artifact_def sample_artifacts_def sample_execution_def find_artifact_def memory_ops_def memory_put_def
      Let_def tab_add_def artifact_view_def artifact_row_of_def blank_def strip_def is_space_def)

section \<open>Properties\<close>

text \<open>
  Claim C36: artifacts read back as they were written. With the store in memory and from an empty state, after a write
  has returned an artifact, whatever is written later, its reference resolves to that same artifact and reading it
  returns the body, provided no other body has the same SHA-256 digest. The hash check of a read never fails.
\<close>

theorem artifact_roundtrip:
  assumes "(artifact_step E H memory_ops)\<^sup>*\<^sup>* st0 st" and "at_artifacts st0 = []" and "at_blobs st0 = []"
    and "write_artifact E H memory_ops st x pk pr name media body trust now = (Inr a, st1)"
    and "(artifact_step E H memory_ops)\<^sup>*\<^sup>* st1 st2" and "ra_artifact_id a \<noteq> []"
    and "\<forall>y. H y = H body \<longrightarrow> y = body"
  shows "get_artifact st2 (ra_artifact_ref a) = Inr a \<and> read_artifact H memory_ops st2 (ra_artifact_ref a) = Inr body"
proof -
  have "artifact_inv H (memory_ok H) memory_ops st"
    by (rule memory_blobs.inv_steps [OF assms(1) memory_start [OF assms(2,3)]])
  from memory_blobs.write_read [OF this assms(4,5,6)] assms(7) show ?thesis by auto
qed

theorem artifact_roundtrip_witness:
  "\<exists>a st. sample_write sample_artifacts = (Inr a, st) \<and> read_artifact (\<lambda>b. b) memory_ops st (ra_artifact_ref a) = Inr ''hi''"
proof -
  obtain a st where w: "sample_write sample_artifacts = (Inr a, st)" "ra_artifact_id a \<noteq> []" using sample_written by blast
  from artifact_roundtrip [OF rtranclp.rtrancl_refl _ _ w(1) rtranclp.rtrancl_refl w(2)] w(1)
  show ?thesis by (auto simp: sample_artifacts_def)
qed

text \<open>
  Writing an artifact again is idempotent for ever. Once a write has succeeded, at any later time the same
  execution, name and body give the same artifact and change nothing when the metadata are the same, and are refused, again changing
  nothing, when producer, media type or trust class differ.
\<close>

theorem artifact_write_idempotent:
  assumes "write_artifact E H ops st x pk pr name media body trust now = (Inr a, st1)"
    and "(artifact_step E H ops)\<^sup>*\<^sup>* st1 st2" and "\<not> blank pk'" and "\<not> blank media'"
  shows "write_artifact E H ops st2 x pk' pr' name media' body trust' now' =
    (if (pk', pr', media', trust') = (pk, pr, media, trust) then (Inr a, st2)
     else (Inl (ValueError ''runtime artifact replay identity changed metadata''), st2))"
proof -
  obtain m where m: "find_artifact (at_artifacts st1) x name (H body) = Some m" "a = artifact_view m"
    "get_exec (at_executions st1) x \<noteq> None" "\<not> blank pk" "\<not> blank name" "\<not> blank media"
    "ar_producer_kind m = pk" "ar_producer_ref m = pr" "ar_media_type m = media" "ar_trust_class m = trust"
    by (rule written_on_record [OF assms(1)])
  have "find_artifact (at_artifacts st2) x name (H body) = Some m"
    using artifact_log.lookup_steps [OF assms(2), of "(x, name, H body)"] m(1) by simp
  moreover have "get_exec (at_executions st2) x \<noteq> None" by (rule artifact_execution_kept [OF assms(2) m(3)])
  ultimately show ?thesis using assms(3,4) m(2,5,7-10) by (auto simp: write_artifact_def Let_def)
qed

theorem artifact_write_idempotent_witness:
  "\<exists>a st. sample_write sample_artifacts = (Inr a, st) \<and> sample_write st = (Inr a, st)"
proof -
  obtain a st where w: "sample_write sample_artifacts = (Inr a, st)" using sample_written by blast
  have "\<not> blank ''tool''" "\<not> blank ''text/plain''" by (simp_all add: blank_def strip_def is_space_def)
  from artifact_write_idempotent [OF w rtranclp.rtrancl_refl this, of None "''untrusted''" "Aware 1"] w show ?thesis by simp
qed

end
