(* ===== verification/Task_Admission.thy ===== *)
theory Task_Admission
  imports Task_Store Policy_Engine
begin

text \<open>
  How an intent becomes a contract: \<^verbatim>\<open>packages/task_runtime/admission\<close> (the service and the compiler for
  questions), the compilers of \<^verbatim>\<open>packages/investigation/runtime\<close> and \<^verbatim>\<open>packages/enrichment/runtime\<close> with the
  contracts they build, and \<^verbatim>\<open>apps/task_admission.py\<close>, which puts the service together with the
  policy engine. The binding context of a request is a JSON object that each compiler validates.
\<close>

section \<open>Requests, authorisations and results\<close>

record task_admission_authorization =
  aa_allowed :: bool
  aa_authorization :: string
  aa_policy_decision_ref :: "string option"
  aa_denial_reason :: "string option"
  aa_fulfilled_obligations :: "string list"

definition validate_authorization :: "task_admission_authorization \<Rightarrow> task_admission_authorization res" where
  "validate_authorization a =
     raise_if (aa_allowed a \<and> aa_denial_reason a \<noteq> None)
       (ValueError ''permitted task admission cannot carry denial_reason'')
     (raise_if (\<not> aa_allowed a \<and> falsy_str (aa_denial_reason a))
       (ValueError ''denied task admission requires denial_reason'') (Inr a))"

record task_contract_compiler =
  tk_task_kind :: task_kind
  tk_compiler_revision :: string
  tk_compile :: "task_intent \<Rightarrow> string \<Rightarrow> nat \<Rightarrow> string \<Rightarrow> string option \<Rightarrow> string \<Rightarrow> jdict \<Rightarrow> task_contract res"

text \<open>\<^verbatim>\<open>authorize(intent_ref, intent, candidate_contract)\<close>\<close>

type_synonym admission_authorizer = "string \<Rightarrow> task_intent \<Rightarrow> task_contract \<Rightarrow> task_admission_authorization res"

record task_admission_request =
  tq_intent :: task_intent
  tq_principal :: string
  tq_policy_revision :: string
  tq_on_behalf_of :: "string option"
  tq_task_contract_id :: "string option"
  tq_contract_revision :: nat
  tq_binding_context :: jdict

definition validate_admission_request :: "task_admission_request \<Rightarrow> task_admission_request res" where
  "validate_admission_request q =
     raise_if (tq_contract_revision q < 1) (ValueError ''contract_revision'')
     (raise_if (blank (tq_principal q) \<or> blank (tq_policy_revision q))
       (ValueError ''task admission principal/policy_revision cannot be empty'') (Inr q))"

record task_admission_result =
  tz_intent_ref :: string
  tz_contract :: task_contract
  tz_compiler_revision :: string
  tz_policy_decision_ref :: "string option"
  tz_policy_authorization :: string
  tz_replay_key :: string

record task_contract_service =
  tv_compilers :: "(task_kind \<times> task_contract_compiler) list"
  tv_authorizer :: admission_authorizer

fun register_compilers ::
  "task_contract_compiler list \<Rightarrow> (task_kind \<times> task_contract_compiler) list \<Rightarrow> (task_kind \<times> task_contract_compiler) list res" where
  "register_compilers [] acc = Inr acc"
| "register_compilers (c # cs) acc =
     raise_if (map_of acc (tk_task_kind c) \<noteq> None)
       (ValueError (''duplicate TaskContract compiler for '' @ task_kind_value (tk_task_kind c)))
     (register_compilers cs (acc @ [(tk_task_kind c, c)]))"

definition new_task_contract_service ::
  "task_contract_compiler list \<Rightarrow> admission_authorizer \<Rightarrow> task_contract_service res" where
  "new_task_contract_service compilers authorizer =
     res_bind (register_compilers compilers []) (\<lambda>table. Inr \<lparr>tv_compilers = table, tv_authorizer = authorizer\<rparr>)"

section \<open>Admission\<close>

definition dump_task_intent :: "task_intent \<Rightarrow> json" where
  "dump_task_intent i = JObj
     [(''raw_request'', j_opt_str (ti_raw_request i)), (''trigger_ref'', j_opt_str (ti_trigger_ref i)),
      (''parsed_identifiers'', j_strs (ti_parsed_identifiers i)),
      (''candidate_task_kind'', j_opt_str (map_option task_kind_value (ti_candidate_task_kind i))),
      (''candidate_targets'', j_strs (ti_candidate_targets i)),
      (''temporal_expression'', j_opt_str (ti_temporal_expression i)),
      (''requested_output'', JObj (ti_requested_output i)), (''requested_actions'', j_strs (ti_requested_actions i)),
      (''context_refs'', j_strs (ti_context_refs i))]"

definition intent_ref :: "hash_env \<Rightarrow> task_intent \<Rightarrow> string" where
  "intent_ref E i = ''task-intent:'' @ take 32 (digest E (dump_task_intent i))"

definition derived_contract_id :: "hash_env \<Rightarrow> task_admission_request \<Rightarrow> string \<Rightarrow> string \<Rightarrow> string" where
  "derived_contract_id E q iref compiler_revision =
     ''task-contract:'' @ take 32 (digest E (JObj
       [(''intent_ref'', JStr iref), (''principal'', JStr (tq_principal q)),
        (''on_behalf_of'', j_opt_str (tq_on_behalf_of q)), (''policy_revision'', JStr (tq_policy_revision q)),
        (''contract_revision'', JInt (int (tq_contract_revision q))), (''compiler_revision'', JStr compiler_revision)]))"

definition validate_compiled_contract ::
  "task_admission_request \<Rightarrow> task_kind \<Rightarrow> task_contract \<Rightarrow> string \<Rightarrow> unit res" where
  "validate_compiled_contract q kind c cid =
     raise_if (tc_task_contract_id c \<noteq> cid) (ValueError ''TaskContract compiler changed admission contract identity'')
     (raise_if (tc_contract_revision c \<noteq> tq_contract_revision q)
       (ValueError ''TaskContract compiler changed requested contract revision'')
     (raise_if (tc_principal c \<noteq> tq_principal q \<or> tc_on_behalf_of c \<noteq> tq_on_behalf_of q)
       (ValueError ''TaskContract compiler changed admission principal'')
     (raise_if (tc_policy_revision c \<noteq> tq_policy_revision q)
       (ValueError ''TaskContract compiler changed admission policy revision'')
     (raise_if (tc_task_kind c \<noteq> kind) (ValueError ''TaskContract compiler changed admitted task kind'') (Inr ())))))"

text \<open>\<^verbatim>\<open>request.task_contract_id or _contract_id(...)\<close>\<close>

definition admission_contract_id :: "hash_env \<Rightarrow> task_admission_request \<Rightarrow> task_contract_compiler \<Rightarrow> string" where
  "admission_contract_id E q compiler =
     (case tq_task_contract_id q of
        Some (c # cs) \<Rightarrow> c # cs
      | _ \<Rightarrow> derived_contract_id E q (intent_ref E (tq_intent q)) (tk_compiler_revision compiler))"

definition replay_key ::
  "hash_env \<Rightarrow> string \<Rightarrow> task_contract \<Rightarrow> string \<Rightarrow> string option \<Rightarrow> string" where
  "replay_key E iref c compiler_revision policy_decision_ref =
     ''task-admission:'' @ take 32 (digest E (JObj
       [(''intent_ref'', JStr iref), (''contract'', dump_task_contract c),
        (''compiler_revision'', JStr compiler_revision), (''policy_decision_ref'', j_opt_str policy_decision_ref)]))"

definition admit :: "hash_env \<Rightarrow> task_contract_service \<Rightarrow> task_admission_request \<Rightarrow> task_admission_result res" where
  "admit E svc q =
     (case ti_candidate_task_kind (tq_intent q) of
        None \<Rightarrow> Inl (ValueError ''TaskIntent is ambiguous: candidate_task_kind is required for admission'')
      | Some kind \<Rightarrow>
          (case map_of (tv_compilers svc) kind of
             None \<Rightarrow> Inl (ValueError (''no TaskContract compiler registered for '' @ task_kind_value kind))
           | Some compiler \<Rightarrow>
               (let iref = intent_ref E (tq_intent q); cid = admission_contract_id E q compiler in
                res_bind (tk_compile compiler (tq_intent q) cid (tq_contract_revision q) (tq_principal q)
                  (tq_on_behalf_of q) (tq_policy_revision q) (tq_binding_context q)) (\<lambda>c.
                res_bind (validate_compiled_contract q kind c cid) (\<lambda>_.
                res_bind (tv_authorizer svc iref (tq_intent q) c) (\<lambda>a.
                if \<not> aa_allowed a
                then Inl (TaskAdmissionDenied (case aa_denial_reason a of
                       Some r \<Rightarrow> if r = [] then ''task_admission_denied'' else r | None \<Rightarrow> ''task_admission_denied''))
                else Inr \<lparr>tz_intent_ref = iref, tz_contract = c, tz_compiler_revision = tk_compiler_revision compiler,
                  tz_policy_decision_ref = aa_policy_decision_ref a, tz_policy_authorization = aa_authorization a,
                  tz_replay_key = replay_key E iref c (tk_compiler_revision compiler) (aa_policy_decision_ref a)\<rparr>))))))"

section \<open>Bindings\<close>

text \<open>
  \<^verbatim>\<open>Model.model_validate(binding_context)\<close> field by field: a string field takes a JSON string, a list of strings
  an array of them, and a boolean what pydantic reads as one. Unknown keys are ignored.
\<close>

definition field_str :: "jdict \<Rightarrow> string \<Rightarrow> string res" where
  "field_str d k = (case map_of d k of Some (JStr s) \<Rightarrow> Inr s | _ \<Rightarrow> Inl (ValueError k))"

fun json_strs :: "json list \<Rightarrow> string list option" where
  "json_strs [] = Some []"
| "json_strs (JStr s # js) = map_option (\<lambda>ss. s # ss) (json_strs js)"
| "json_strs (j # js) = None"

definition field_strs :: "jdict \<Rightarrow> string \<Rightarrow> string list option \<Rightarrow> string list res" where
  "field_strs d k missing =
     (case map_of d k of
        None \<Rightarrow> res_of_option (ValueError k) missing
      | Some (JArr js) \<Rightarrow> res_of_option (ValueError k) (json_strs js)
      | _ \<Rightarrow> Inl (ValueError k))"

definition field_opt_str :: "jdict \<Rightarrow> string \<Rightarrow> string option res" where
  "field_opt_str d k =
     (case map_of d k of None \<Rightarrow> Inr None | Some JNull \<Rightarrow> Inr None | Some (JStr s) \<Rightarrow> Inr (Some s) | _ \<Rightarrow> Inl (ValueError k))"

definition lower_char :: "char \<Rightarrow> char" where
  "lower_char c = (let n = (of_char c :: nat) in if 65 \<le> n \<and> n \<le> 90 then char_of (n + 32) else c)"

definition json_bool :: "json \<Rightarrow> bool option" where
  "json_bool j =
     (case j of
        JBool b \<Rightarrow> Some b
      | JInt i \<Rightarrow> if i = 1 then Some True else if i = 0 then Some False else None
      | JFloat r \<Rightarrow> if r = ''1.0'' then Some True else if r = ''0.0'' \<or> r = ''-0.0'' then Some False else None
      | JStr s \<Rightarrow>
          (let l = map lower_char s in
           if l \<in> {''1'', ''on'', ''t'', ''true'', ''y'', ''yes''} then Some True
           else if l \<in> {''0'', ''off'', ''f'', ''false'', ''n'', ''no''} then Some False else None)
      | _ \<Rightarrow> None)"

definition field_bool :: "jdict \<Rightarrow> string \<Rightarrow> bool \<Rightarrow> bool res" where
  "field_bool d k missing =
     (case map_of d k of None \<Rightarrow> Inr missing | Some j \<Rightarrow> res_of_option (ValueError k) (json_bool j))"

text \<open>\<^verbatim>\<open>TaskContract(...)\<close> validates the ceiling and then the contract.\<close>

definition new_contract :: "task_contract \<Rightarrow> task_contract res" where
  "new_contract c = res_bind (validate_disabled_shape (tc_delegation_ceiling c)) (\<lambda>_. validate_execution_contract c)"

definition check_targets :: "string \<Rightarrow> task_intent \<Rightarrow> string list \<Rightarrow> unit res" where
  "check_targets label i allowed =
     (case filter (\<lambda>t. t \<notin> set allowed) (ti_candidate_targets i) of
        [] \<Rightarrow> Inr () | t # _ \<Rightarrow> Inl (ValueError (label @ '' admission target is not bound: '' @ t)))"

section \<open>Questions\<close>

record question_admission_binding =
  qb_question :: string
  qb_target_object_ids :: "string list"

definition parse_question_binding :: "jdict \<Rightarrow> question_admission_binding res" where
  "parse_question_binding d =
     res_bind (field_str d ''question'') (\<lambda>question.
     raise_if (question = []) (ValueError ''question'')
     (res_bind (field_strs d ''target_object_ids'' (Some [])) (\<lambda>targets.
      Inr \<lparr>qb_question = question, qb_target_object_ids = targets\<rparr>)))"

definition build_question_contract ::
  "string \<Rightarrow> string \<Rightarrow> task_kind \<Rightarrow> string \<Rightarrow> string list \<Rightarrow> string \<Rightarrow> nat \<Rightarrow> string option \<Rightarrow> task_contract res" where
  "build_question_contract cid who kind question targets policy_revision revision on_behalf_of = new_contract
     \<lparr>tc_task_contract_id = cid, tc_contract_revision = revision, tc_principal = who,
      tc_on_behalf_of = on_behalf_of, tc_task_kind = kind, tc_target_resources = map (\<lambda>x. ''object:'' @ x) targets,
      tc_desired_state = [(''question'', JStr question), (''target_object_ids'', j_strs targets)],
      tc_evidence_contract = [(''authority'', JStr ''m1_m3_evidence_world''), (''access'', JStr ''read_only'')],
      tc_output_contract = [(''result_type'', JStr ''DecisionResult|InvestigationView'')],
      tc_temporal_contract = [(''scope'', JStr ''current'')], tc_effect_ceiling = READ_ONLY,
      tc_delegation_ceiling = default_delegation_ceiling,
      tc_completion_predicate = [(''type'', JStr ''decision_or_investigation_escalation'')],
      tc_cancellation_semantics = CANCELLABLE, tc_policy_revision = policy_revision\<rparr>"

definition compile_question ::
  "task_kind \<Rightarrow> task_intent \<Rightarrow> string \<Rightarrow> nat \<Rightarrow> string \<Rightarrow> string option \<Rightarrow> string \<Rightarrow> jdict \<Rightarrow> task_contract res" where
  "compile_question kind i cid revision who on_behalf_of policy_revision d =
     res_bind (parse_question_binding d) (\<lambda>b.
     res_bind (check_targets ''question'' i
       (qb_target_object_ids b @ map (\<lambda>x. ''object:'' @ x) (qb_target_object_ids b))) (\<lambda>_.
     build_question_contract cid who kind (qb_question b) (qb_target_object_ids b) policy_revision revision on_behalf_of))"

definition question_compiler :: "task_kind \<Rightarrow> task_contract_compiler res" where
  "question_compiler kind =
     raise_if (kind \<notin> {LOOKUP, RETRIEVE}) (ValueError (''unsupported question admission kind: '' @ task_kind_value kind))
     (Inr \<lparr>tk_task_kind = kind, tk_compiler_revision = ''question-admission-v1'', tk_compile = compile_question kind\<rparr>)"

section \<open>Investigations\<close>

definition investigation_kinds :: "task_kind list" where
  "investigation_kinds = [VERIFY_VERSION_FIX, RESOLVE_CONFLICT, INVESTIGATE_RELATION, INVESTIGATE_INCIDENT,
     WATCH_INCIDENT, ASSESS_NORMATIVE_APPLICABILITY, OBSERVE_LIVE_ASSET]"

record investigation_admission_binding =
  ib_case_id :: string
  ib_target_object_ids :: "string list"
  ib_required_need_ids :: "string list"
  ib_allow_wait :: bool

definition parse_investigation_binding :: "jdict \<Rightarrow> investigation_admission_binding res" where
  "parse_investigation_binding d =
     res_bind (field_str d ''case_id'') (\<lambda>case_id.
     res_bind (field_strs d ''target_object_ids'' (Some [])) (\<lambda>targets.
     res_bind (field_strs d ''required_need_ids'' None) (\<lambda>needs.
     raise_if (needs = []) (ValueError ''required_need_ids'')
     (res_bind (field_bool d ''allow_wait'' True) (\<lambda>allow_wait.
      raise_if (blank case_id) (ValueError ''Investigation admission binding requires case_id'')
      (raise_if (\<not> distinct targets) (ValueError ''Investigation admission target_object_ids must be unique'')
      (raise_if (\<not> distinct needs) (ValueError ''Investigation admission required_need_ids must be unique'')
      (Inr \<lparr>ib_case_id = case_id, ib_target_object_ids = targets, ib_required_need_ids = needs,
         ib_allow_wait = allow_wait\<rparr>))))))))"

record investigation_task_desired_state =
  id_case_id :: string
  id_required_need_ids :: "string list"
  id_allow_wait :: bool

definition validate_investigation_desired ::
  "investigation_task_desired_state \<Rightarrow> investigation_task_desired_state res" where
  "validate_investigation_desired s =
     raise_if (id_required_need_ids s = []) (ValueError ''required_need_ids'')
     (raise_if (blank (id_case_id s)) (ValueError ''Investigation task requires case_id'')
     (raise_if (\<not> distinct (id_required_need_ids s)) (ValueError ''required_need_ids must be unique'') (Inr s)))"

definition build_investigation_contract ::
  "string \<Rightarrow> string \<Rightarrow> task_kind \<Rightarrow> string \<Rightarrow> string list \<Rightarrow> string list \<Rightarrow> string \<Rightarrow> nat \<Rightarrow> string option \<Rightarrow> bool
     \<Rightarrow> task_contract res" where
  "build_investigation_contract cid who kind case_id targets needs policy_revision revision on_behalf_of allow_wait =
     raise_if (kind \<notin> set investigation_kinds)
       (ValueError (''InvestigationRole does not accept task kind '' @ task_kind_value kind))
     (res_bind (validate_investigation_desired
        \<lparr>id_case_id = case_id, id_required_need_ids = needs, id_allow_wait = allow_wait\<rparr>) (\<lambda>desired. new_contract
      \<lparr>tc_task_contract_id = cid, tc_contract_revision = revision, tc_principal = who,
       tc_on_behalf_of = on_behalf_of, tc_task_kind = kind,
       tc_target_resources = (''case:'' @ case_id) # map (\<lambda>x. ''object:'' @ x) targets,
       tc_desired_state = [(''case_id'', JStr (id_case_id desired)),
         (''required_need_ids'', j_strs (id_required_need_ids desired)), (''allow_wait'', JBool (id_allow_wait desired))],
       tc_evidence_contract = [(''authority'', JStr ''m1_m3_evidence_world'')],
       tc_output_contract = [(''result_type'', JStr ''InvestigationTaskResult'')],
       tc_temporal_contract = [(''scope'', JStr ''current'')], tc_effect_ceiling = INTERNAL_STATE,
       tc_delegation_ceiling = \<lparr>dc_allowed = True, dc_max_depth = 1, dc_allowed_task_kinds = [ENRICHMENT],
         dc_child_effect_ceiling = INTERNAL_STATE\<rparr>,
       tc_completion_predicate = [(''type'', JStr ''evidence_needs_resolved''), (''required_need_ids'', j_strs needs)],
       tc_cancellation_semantics = CANCELLABLE, tc_policy_revision = policy_revision\<rparr>))"

definition compile_investigation ::
  "task_kind \<Rightarrow> task_intent \<Rightarrow> string \<Rightarrow> nat \<Rightarrow> string \<Rightarrow> string option \<Rightarrow> string \<Rightarrow> jdict \<Rightarrow> task_contract res" where
  "compile_investigation kind i cid revision who on_behalf_of policy_revision d =
     res_bind (parse_investigation_binding d) (\<lambda>b.
     res_bind (check_targets ''Investigation'' i ([ib_case_id b, ''case:'' @ ib_case_id b] @ ib_target_object_ids b
       @ map (\<lambda>x. ''object:'' @ x) (ib_target_object_ids b))) (\<lambda>_.
     build_investigation_contract cid who kind (ib_case_id b) (ib_target_object_ids b) (ib_required_need_ids b)
       policy_revision revision on_behalf_of (ib_allow_wait b)))"

definition investigation_compiler :: "task_kind \<Rightarrow> task_contract_compiler res" where
  "investigation_compiler kind =
     raise_if (kind \<notin> set investigation_kinds)
       (ValueError (''unsupported Investigation admission kind: '' @ task_kind_value kind))
     (Inr \<lparr>tk_task_kind = kind, tk_compiler_revision = ''investigation-admission-v1'',
        tk_compile = compile_investigation kind\<rparr>)"

section \<open>Enrichment\<close>

datatype enrichment_dimension =
    ED_IDENTITY | ED_SEVERITY | ED_WEAKNESS | ED_PRODUCT_PACKAGE | ED_VERSION_APPLICABILITY | ED_FIX_REMEDIATION
  | ED_EXPLOIT_STATE | ED_EXPLOIT_LIKELIHOOD | ED_ADVISORY_REFERENCE | ED_ASSET_EXPOSURE | ED_RESEARCH_PAPER
  | ED_INCIDENT_CONTEXT

fun dimension_value :: "enrichment_dimension \<Rightarrow> string" where
  "dimension_value ED_IDENTITY = ''identity''"
| "dimension_value ED_SEVERITY = ''severity''"
| "dimension_value ED_WEAKNESS = ''weakness''"
| "dimension_value ED_PRODUCT_PACKAGE = ''product_package''"
| "dimension_value ED_VERSION_APPLICABILITY = ''version_applicability''"
| "dimension_value ED_FIX_REMEDIATION = ''fix_remediation''"
| "dimension_value ED_EXPLOIT_STATE = ''exploit_state''"
| "dimension_value ED_EXPLOIT_LIKELIHOOD = ''exploit_likelihood''"
| "dimension_value ED_ADVISORY_REFERENCE = ''advisory_reference''"
| "dimension_value ED_ASSET_EXPOSURE = ''asset_exposure''"
| "dimension_value ED_RESEARCH_PAPER = ''research_paper''"
| "dimension_value ED_INCIDENT_CONTEXT = ''incident_context''"

definition all_dimensions :: "enrichment_dimension list" where
  "all_dimensions = [ED_IDENTITY, ED_SEVERITY, ED_WEAKNESS, ED_PRODUCT_PACKAGE, ED_VERSION_APPLICABILITY,
     ED_FIX_REMEDIATION, ED_EXPLOIT_STATE, ED_EXPLOIT_LIKELIHOOD, ED_ADVISORY_REFERENCE, ED_ASSET_EXPOSURE,
     ED_RESEARCH_PAPER, ED_INCIDENT_CONTEXT]"

text \<open>\<^verbatim>\<open>EnrichmentDimension(value)\<close>\<close>

definition parse_dimension :: "string \<Rightarrow> enrichment_dimension res" where
  "parse_dimension v = res_of_option (ValueError v) (find (\<lambda>d. dimension_value d = v) all_dimensions)"

fun parse_dimensions :: "string list \<Rightarrow> enrichment_dimension list res" where
  "parse_dimensions [] = Inr []"
| "parse_dimensions (v # vs) =
     res_bind (parse_dimension v) (\<lambda>d. res_bind (parse_dimensions vs) (\<lambda>ds. Inr (d # ds)))"

text \<open>
  \<^verbatim>\<open>str.upper()\<close> on the characters of the model. The micro sign and y with diaeresis, whose
  upper-case letters are outside the range, are left as they are.
\<close>

definition upper_char :: "char \<Rightarrow> string" where
  "upper_char c = (let n = (of_char c :: nat) in
     if 97 \<le> n \<and> n \<le> 122 \<or> 224 \<le> n \<and> n \<le> 254 \<and> n \<noteq> 247 then [char_of (n - 32)]
     else if n = 223 then ''SS'' else [c])"

definition py_upper :: "string \<Rightarrow> string" where
  "py_upper s = concat (map upper_char s)"

record enrichment_admission_binding =
  eb_target_object_id :: string
  eb_cve_id :: string
  eb_required_dimensions :: "enrichment_dimension list"
  eb_refresh_dimensions :: "enrichment_dimension list"
  eb_trigger_ref :: "string option"

definition parse_enrichment_binding :: "jdict \<Rightarrow> enrichment_admission_binding res" where
  "parse_enrichment_binding d =
     res_bind (field_str d ''target_object_id'') (\<lambda>target.
     res_bind (field_str d ''cve_id'') (\<lambda>cve.
     res_bind (field_strs d ''required_dimensions'' None) (\<lambda>req.
     res_bind (parse_dimensions req) (\<lambda>required.
     raise_if (required = []) (ValueError ''required_dimensions'')
     (res_bind (field_strs d ''refresh_dimensions'' (Some [])) (\<lambda>ref'.
      res_bind (parse_dimensions ref') (\<lambda>refresh.
      res_bind (field_opt_str d ''trigger_ref'') (\<lambda>trigger.
      raise_if (blank target \<or> blank cve) (ValueError ''Enrichment admission object/CVE identity cannot be empty'')
      (Inr \<lparr>eb_target_object_id = target, eb_cve_id = cve, eb_required_dimensions = required,
         eb_refresh_dimensions = refresh, eb_trigger_ref = trigger\<rparr>)))))))))"

definition terminal_enrichment_statuses :: "string list" where
  "terminal_enrichment_statuses = [''resolved'', ''conflict'', ''unknown'']"

record enrichment_task_desired_state =
  ed_target_object_id :: string
  ed_cve_id :: string
  ed_required_dimensions :: "enrichment_dimension list"
  ed_refresh_dimensions :: "enrichment_dimension list"
  ed_terminal_statuses :: "string list"

definition validate_contract_shape :: "enrichment_task_desired_state \<Rightarrow> enrichment_task_desired_state res" where
  "validate_contract_shape s =
     raise_if (blank (ed_target_object_id s)) (ValueError ''enrichment target_object_id cannot be empty'')
     (raise_if (\<not> startswith (py_upper (ed_cve_id s)) ''CVE-'') (ValueError ''v1 EnrichmentRole requires a CVE identifier'')
     (raise_if (ed_required_dimensions s = []) (ValueError ''enrichment task requires at least one dimension'')
     (raise_if (\<not> set (ed_refresh_dimensions s) \<subseteq> set (ed_required_dimensions s))
       (ValueError ''refresh dimensions must be required by the enrichment task'')
     (raise_if (''missing'' \<in> set (ed_terminal_statuses s))
       (ValueError ''missing cannot be a successful enrichment terminal status'') (Inr s)))))"

definition sorted_dimensions :: "enrichment_dimension list \<Rightarrow> enrichment_dimension list" where
  "sorted_dimensions ds = sort_key dimension_value (remdups ds)"

definition build_vulnerability_enrichment_contract ::
  "string \<Rightarrow> string \<Rightarrow> string \<Rightarrow> string \<Rightarrow> enrichment_dimension list \<Rightarrow> enrichment_dimension list \<Rightarrow> string \<Rightarrow> nat
     \<Rightarrow> string option \<Rightarrow> task_contract res" where
  "build_vulnerability_enrichment_contract cid who target cve required refresh policy_revision revision on_behalf_of =
     (let dimensions = sorted_dimensions required; values = j_strs (map dimension_value dimensions) in
      res_bind (validate_contract_shape \<lparr>ed_target_object_id = target, ed_cve_id = py_upper cve,
        ed_required_dimensions = dimensions, ed_refresh_dimensions = sorted_dimensions refresh,
        ed_terminal_statuses = terminal_enrichment_statuses\<rparr>) (\<lambda>desired. new_contract
      \<lparr>tc_task_contract_id = cid, tc_contract_revision = revision, tc_principal = who,
       tc_on_behalf_of = on_behalf_of, tc_task_kind = ENRICHMENT,
       tc_target_resources = [''object:'' @ target, ''cve:'' @ py_upper cve],
       tc_desired_state = [(''target_object_id'', JStr (ed_target_object_id desired)), (''cve_id'', JStr (ed_cve_id desired)),
         (''required_dimensions'', j_strs (map dimension_value (ed_required_dimensions desired))),
         (''refresh_dimensions'', j_strs (map dimension_value (ed_refresh_dimensions desired))),
         (''terminal_statuses'', j_strs (ed_terminal_statuses desired))],
       tc_evidence_contract = [(''vocabulary_revision'', JStr ''enrichment-v1''), (''fact_authority'', JStr ''m1_m3_evidence_world'')],
       tc_output_contract = [(''result_type'', JStr ''EnrichmentTaskResult''), (''dimensions'', values)],
       tc_temporal_contract = [(''scope'', JStr ''current'')], tc_effect_ceiling = INTERNAL_STATE,
       tc_delegation_ceiling = default_delegation_ceiling,
       tc_completion_predicate = [(''type'', JStr ''enrichment_dimensions_terminal''), (''required_dimensions'', values),
         (''terminal_statuses'', j_strs terminal_enrichment_statuses)],
       tc_cancellation_semantics = CANCELLABLE, tc_policy_revision = policy_revision\<rparr>))"

definition compile_enrichment ::
  "task_intent \<Rightarrow> string \<Rightarrow> nat \<Rightarrow> string \<Rightarrow> string option \<Rightarrow> string \<Rightarrow> jdict \<Rightarrow> task_contract res" where
  "compile_enrichment i cid revision who on_behalf_of policy_revision d =
     res_bind (parse_enrichment_binding d) (\<lambda>b.
     res_bind (check_targets ''Enrichment'' i [eb_target_object_id b, ''object:'' @ eb_target_object_id b,
       py_upper (eb_cve_id b), ''cve:'' @ py_upper (eb_cve_id b)]) (\<lambda>_.
     res_bind (build_vulnerability_enrichment_contract cid who (eb_target_object_id b) (eb_cve_id b)
       (eb_required_dimensions b) (eb_refresh_dimensions b) policy_revision revision on_behalf_of) (\<lambda>c.
     Inr (case eb_trigger_ref b of None \<Rightarrow> c
       | Some t \<Rightarrow> c\<lparr>tc_target_resources := tc_target_resources c @ [''processing-run:'' @ t]\<rparr>))))"

definition enrichment_compiler :: task_contract_compiler where
  "enrichment_compiler = \<lparr>tk_task_kind = ENRICHMENT, tk_compiler_revision = ''enrichment-admission-v1'',
     tk_compile = compile_enrichment\<rparr>"

section \<open>The service of the application\<close>

definition admission_policy_request :: "string \<Rightarrow> task_intent \<Rightarrow> task_contract \<Rightarrow> policy_request" where
  "admission_policy_request iref i c =
     \<lparr>pq_decision_point = TASK_ADMISSION, pq_principal = tc_principal c,
      pq_action = ''admit_'' @ task_kind_value (tc_task_kind c),
      pq_resource = ''task-kind:'' @ task_kind_value (tc_task_kind c),
      pq_context = [(''intent_ref'', JStr iref), (''task_contract_id'', JStr (tc_task_contract_id c)),
        (''contract_revision'', JInt (int (tc_contract_revision c))),
        (''effect_ceiling'', JStr (effect_value (tc_effect_ceiling c))),
        (''target_resources'', j_strs (tc_target_resources c)), (''trigger_ref'', j_opt_str (ti_trigger_ref i))]\<rparr>"

definition runtime_authorize ::
  "hash_env \<Rightarrow> (int \<Rightarrow> string) \<Rightarrow> policy_engine \<Rightarrow> string list \<Rightarrow> admission_authorizer" where
  "runtime_authorize E show_time policy fulfilled iref i c =
     (if pe_policy_revision policy \<noteq> tc_policy_revision c
      then validate_authorization \<lparr>aa_allowed = False, aa_authorization = authorization_value INDETERMINATE,
        aa_policy_decision_ref = None, aa_denial_reason = Some ''policy_revision_mismatch'', aa_fulfilled_obligations = []\<rparr>
      else
        res_bind (validate_request (admission_policy_request iref i c)) (\<lambda>q.
        res_bind (evaluate policy q) (\<lambda>d.
        (let dref = decision_ref E show_time policy q d; shown = authorization_value (pd_authorization d) in
         validate_authorization
           (if pd_authorization d \<noteq> PERMIT
            then \<lparr>aa_allowed = False, aa_authorization = shown, aa_policy_decision_ref = Some dref,
              aa_denial_reason = Some (''policy_'' @ shown), aa_fulfilled_obligations = []\<rparr>
            else if \<not> obligations_satisfied d (set fulfilled)
            then \<lparr>aa_allowed = False, aa_authorization = shown, aa_policy_decision_ref = Some dref,
              aa_denial_reason = Some ''policy_obligation_unsatisfied'', aa_fulfilled_obligations = []\<rparr>
            else \<lparr>aa_allowed = True, aa_authorization = shown, aa_policy_decision_ref = Some dref,
              aa_denial_reason = None, aa_fulfilled_obligations = sorted_set fulfilled\<rparr>)))))"

fun all_ok :: "'a res list \<Rightarrow> 'a list res" where
  "all_ok [] = Inr []"
| "all_ok (r # rs) = res_bind r (\<lambda>x. res_bind (all_ok rs) (\<lambda>xs. Inr (x # xs)))"

definition create_task_contract_service ::
  "hash_env \<Rightarrow> (int \<Rightarrow> string) \<Rightarrow> policy_engine \<Rightarrow> task_contract_service res" where
  "create_task_contract_service E show_time policy =
     res_bind (all_ok ([Inr enrichment_compiler, question_compiler LOOKUP, question_compiler RETRIEVE]
       @ map investigation_compiler investigation_kinds)) (\<lambda>compilers.
     new_task_contract_service compilers (runtime_authorize E show_time policy []))"

section \<open>Specifications\<close>

text \<open>
  What every contract of the service is limited to: at most internal effects, and at most one level of
  delegation, to enrichment only.
\<close>

definition modest_contract :: "task_contract \<Rightarrow> bool" where
  "modest_contract c \<longleftrightarrow> tc_effect_ceiling c \<le> INTERNAL_STATE
     \<and> (dc_allowed (tc_delegation_ceiling c) \<longrightarrow> dc_max_depth (tc_delegation_ceiling c) = 1
          \<and> dc_allowed_task_kinds (tc_delegation_ceiling c) = [ENRICHMENT]
          \<and> dc_child_effect_ceiling (tc_delegation_ceiling c) \<le> INTERNAL_STATE)"

text \<open>Each target the intent names is among the contract's resources, by itself or under its kind.\<close>

definition targets_bound :: "task_intent \<Rightarrow> task_contract \<Rightarrow> bool" where
  "targets_bound i c \<longleftrightarrow> (\<forall>t \<in> set (ti_candidate_targets i).
     \<exists>p \<in> {[], ''object:'', ''case:'', ''cve:''}. p @ t \<in> set (tc_target_resources c))"

definition without_constraints :: "policy_engine \<Rightarrow> policy_engine" where
  "without_constraints eng = eng\<lparr>pe_rules := map (\<lambda>r. r\<lparr>rl_constraints := []\<rparr>) (pe_rules eng)\<rparr>"

text \<open>For the concrete instances: a question about one object, under a policy that permits admissions.\<close>

definition sample_admission_engine :: policy_engine where
  "sample_admission_engine = sample_engine [(sample_rule ''a'' ''*'' (Some PERMIT) [])
     \<lparr>rl_decision_points := [TASK_ADMISSION], rl_constraints := [\<lparr>po_kind = ''two_person_rule'', po_parameters = []\<rparr>]\<rparr>]"

definition sample_intent :: task_intent where
  "sample_intent = \<lparr>ti_raw_request = Some ''is it fixed?'', ti_trigger_ref = None, ti_parsed_identifiers = [],
     ti_candidate_task_kind = Some LOOKUP, ti_candidate_targets = [''o1''], ti_temporal_expression = None,
     ti_requested_output = [], ti_requested_actions = [], ti_context_refs = []\<rparr>"

definition sample_admission :: task_admission_request where
  "sample_admission = \<lparr>tq_intent = sample_intent, tq_principal = ''svc'', tq_policy_revision = ''p1'',
     tq_on_behalf_of = None, tq_task_contract_id = Some ''c1'', tq_contract_revision = 1,
     tq_binding_context = [(''question'', JStr ''is it fixed?''), (''target_object_ids'', JArr [JStr ''o1''])]\<rparr>"

section \<open>Lemmas on compilers\<close>

lemma new_contract_ok: "new_contract c = Inr c' \<longleftrightarrow> c' = c \<and> valid_contract c"
  by (auto simp: new_contract_def valid_contract_def validate_execution_contract_def validate_disabled_shape_def res_simps)

lemma valid_contract_targets [simp]: "valid_contract (c\<lparr>tc_target_resources := ts\<rparr>) = valid_contract c"
  by (simp add: valid_contract_def validate_execution_contract_def res_simps)

lemma check_targets_ok: "check_targets l i allowed = Inr u \<longleftrightarrow> set (ti_candidate_targets i) \<subseteq> set allowed"
proof (cases "filter (\<lambda>t. t \<notin> set allowed) (ti_candidate_targets i)")
  case Nil
  then show ?thesis by (auto simp: check_targets_def filter_empty_conv)
next
  case (Cons t ts)
  have "t \<in> set (filter (\<lambda>t. t \<notin> set allowed) (ti_candidate_targets i))" unfolding Cons by simp
  then have "\<not> set (ti_candidate_targets i) \<subseteq> set allowed" by auto
  with Cons show ?thesis by (simp add: check_targets_def)
qed

lemma bound_under:
  "t \<in> set (xs @ map (\<lambda>x. p @ x) xs) \<Longrightarrow> t \<in> set (map (\<lambda>x. p @ x) xs) \<or> p @ t \<in> set (map (\<lambda>x. p @ x) xs)"
  by auto

lemma targets_boundI:
  assumes "\<And>t. t \<in> set (ti_candidate_targets i) \<Longrightarrow> t \<in> set (tc_target_resources c) \<or> ''object:'' @ t \<in> set (tc_target_resources c)
    \<or> ''case:'' @ t \<in> set (tc_target_resources c) \<or> ''cve:'' @ t \<in> set (tc_target_resources c)"
  shows "targets_bound i c"
  unfolding targets_bound_def
proof
  fix t
  assume "t \<in> set (ti_candidate_targets i)"
  from assms [OF this] show "\<exists>p \<in> {[], ''object:'', ''case:'', ''cve:''}. p @ t \<in> set (tc_target_resources c)"
    unfolding bex_simps append_Nil by blast
qed

lemma build_question_ok:
  assumes "build_question_contract cid who kind question targets pol rev' obo = Inr c"
  shows "valid_contract c" "tc_effect_ceiling c = READ_ONLY" "tc_delegation_ceiling c = default_delegation_ceiling"
    "tc_target_resources c = map (\<lambda>x. ''object:'' @ x) targets"
  using assms unfolding build_question_contract_def new_contract_ok by (elim conjE; simp)+

lemma compile_question_ok:
  assumes "compile_question kind i cid rev' who obo pol d = Inr c"
  shows "valid_contract c" "modest_contract c" "targets_bound i c"
proof -
  from assms obtain b :: question_admission_binding where b: "set (ti_candidate_targets i)
      \<subseteq> set (qb_target_object_ids b @ map (\<lambda>x. ''object:'' @ x) (qb_target_object_ids b))"
    and c: "build_question_contract cid who kind (qb_question b) (qb_target_object_ids b) pol rev' obo = Inr c"
    unfolding compile_question_def res_bind_eq_Inr check_targets_ok by blast
  note ok = build_question_ok [OF c]
  show "valid_contract c" by (rule ok)
  show "modest_contract c" by (simp add: modest_contract_def ok default_delegation_ceiling_def)
  show "targets_bound i c"
  proof (rule targets_boundI)
    fix t
    assume "t \<in> set (ti_candidate_targets i)"
    from bound_under [OF subsetD [OF b this]] show "t \<in> set (tc_target_resources c) \<or> ''object:'' @ t \<in> set (tc_target_resources c)
      \<or> ''case:'' @ t \<in> set (tc_target_resources c) \<or> ''cve:'' @ t \<in> set (tc_target_resources c)"
      unfolding ok(4) by (elim disjE) (simp_all only: simp_thms)
  qed
qed

lemma build_investigation_ok:
  assumes "build_investigation_contract cid who kind case_id targets needs pol rev' obo aw = Inr c"
  shows "valid_contract c" "tc_effect_ceiling c = INTERNAL_STATE"
    "tc_delegation_ceiling c = \<lparr>dc_allowed = True, dc_max_depth = 1, dc_allowed_task_kinds = [ENRICHMENT],
         dc_child_effect_ceiling = INTERNAL_STATE\<rparr>"
    "tc_target_resources c = (''case:'' @ case_id) # map (\<lambda>x. ''object:'' @ x) targets"
  using assms unfolding build_investigation_contract_def raise_if_eq_Inr res_bind_eq_Inr new_contract_ok
  by (elim conjE exE; simp)+

lemma compile_investigation_ok:
  assumes "compile_investigation kind i cid rev' who obo pol d = Inr c"
  shows "valid_contract c" "modest_contract c" "targets_bound i c"
proof -
  from assms obtain b :: investigation_admission_binding where b: "set (ti_candidate_targets i) \<subseteq> set ([ib_case_id b, ''case:'' @ ib_case_id b]
      @ ib_target_object_ids b @ map (\<lambda>x. ''object:'' @ x) (ib_target_object_ids b))"
    and c: "build_investigation_contract cid who kind (ib_case_id b) (ib_target_object_ids b) (ib_required_need_ids b)
       pol rev' obo (ib_allow_wait b) = Inr c"
    unfolding compile_investigation_def res_bind_eq_Inr check_targets_ok by blast
  note ok = build_investigation_ok [OF c]
  show "valid_contract c" by (rule ok)
  show "modest_contract c" by (simp add: modest_contract_def ok)
  show "targets_bound i c"
  proof (rule targets_boundI)
    fix t
    assume "t \<in> set (ti_candidate_targets i)"
    from subsetD [OF b this] consider "t = ib_case_id b" | "t = ''case:'' @ ib_case_id b"
      | "t \<in> set (ib_target_object_ids b @ map (\<lambda>x. ''object:'' @ x) (ib_target_object_ids b))"
      unfolding append_Cons append_Nil set_ConsD by (simp only: list.set insert_iff) (elim disjE)
    then show "t \<in> set (tc_target_resources c) \<or> ''object:'' @ t \<in> set (tc_target_resources c)
      \<or> ''case:'' @ t \<in> set (tc_target_resources c) \<or> ''cve:'' @ t \<in> set (tc_target_resources c)"
      unfolding ok(4) list.set(2) insert_iff
    proof cases
      case 3
      from bound_under [OF this] show "(t = ''case:'' @ ib_case_id b \<or> t \<in> set (map (\<lambda>x. ''object:'' @ x) (ib_target_object_ids b)))
        \<or> (''object:'' @ t = ''case:'' @ ib_case_id b \<or> ''object:'' @ t \<in> set (map (\<lambda>x. ''object:'' @ x) (ib_target_object_ids b)))
        \<or> (''case:'' @ t = ''case:'' @ ib_case_id b \<or> ''case:'' @ t \<in> set (map (\<lambda>x. ''object:'' @ x) (ib_target_object_ids b)))
        \<or> (''cve:'' @ t = ''case:'' @ ib_case_id b \<or> ''cve:'' @ t \<in> set (map (\<lambda>x. ''object:'' @ x) (ib_target_object_ids b)))"
        by (elim disjE) (simp_all only: simp_thms)
    qed (simp_all only: simp_thms)
  qed
qed

lemma build_enrichment_ok:
  assumes "build_vulnerability_enrichment_contract cid who target cve required refresh pol rev' obo = Inr c"
  shows "valid_contract c" "tc_effect_ceiling c = INTERNAL_STATE" "tc_delegation_ceiling c = default_delegation_ceiling"
    "tc_target_resources c = [''object:'' @ target, ''cve:'' @ py_upper cve]"
  using assms unfolding build_vulnerability_enrichment_contract_def Let_def res_bind_eq_Inr new_contract_ok
  by (elim conjE exE; simp)+

lemma compile_enrichment_ok:
  assumes "compile_enrichment i cid rev' who obo pol d = Inr c"
  shows "valid_contract c" "modest_contract c" "targets_bound i c"
proof -
  from assms obtain b :: enrichment_admission_binding and c0 where b: "set (ti_candidate_targets i) \<subseteq> set [eb_target_object_id b, ''object:'' @ eb_target_object_id b,
       py_upper (eb_cve_id b), ''cve:'' @ py_upper (eb_cve_id b)]"
    and c0: "build_vulnerability_enrichment_contract cid who (eb_target_object_id b) (eb_cve_id b)
       (eb_required_dimensions b) (eb_refresh_dimensions b) pol rev' obo = Inr c0"
    and c: "Inr (case eb_trigger_ref b of None \<Rightarrow> c0
       | Some t \<Rightarrow> c0\<lparr>tc_target_resources := tc_target_resources c0 @ [''processing-run:'' @ t]\<rparr>) = (Inr c :: task_contract res)"
    unfolding compile_enrichment_def res_bind_eq_Inr check_targets_ok by blast
  note ok = build_enrichment_ok [OF c0]
  obtain extra where c': "c = c0\<lparr>tc_target_resources := tc_target_resources c0 @ extra\<rparr>"
    using c by (cases "eb_trigger_ref b") (force intro: that [of "[]"] that)+
  show "valid_contract c" unfolding c' using ok(1) by simp
  show "modest_contract c"
    unfolding c' by (simp add: modest_contract_def ok(2,3) default_delegation_ceiling_def)
  show "targets_bound i c"
  proof (rule targets_boundI)
    fix t
    assume "t \<in> set (ti_candidate_targets i)"
    from subsetD [OF b this] show "t \<in> set (tc_target_resources c) \<or> ''object:'' @ t \<in> set (tc_target_resources c)
      \<or> ''case:'' @ t \<in> set (tc_target_resources c) \<or> ''cve:'' @ t \<in> set (tc_target_resources c)"
      by (auto simp: c' ok(4))
  qed
qed

lemma service_val:
  "create_task_contract_service E show_time policy = Inr \<lparr>tv_compilers =
     (ENRICHMENT, enrichment_compiler) # map (\<lambda>k. (k, \<lparr>tk_task_kind = k, tk_compiler_revision = ''question-admission-v1'',
        tk_compile = compile_question k\<rparr>)) [LOOKUP, RETRIEVE]
     @ map (\<lambda>k. (k, \<lparr>tk_task_kind = k, tk_compiler_revision = ''investigation-admission-v1'',
        tk_compile = compile_investigation k\<rparr>)) investigation_kinds,
     tv_authorizer = runtime_authorize E show_time policy []\<rparr>"
  by (simp add: create_task_contract_service_def new_task_contract_service_def question_compiler_def
      investigation_compiler_def investigation_kinds_def enrichment_compiler_def raise_if_def)

lemma service_compiles:
  assumes "create_task_contract_service E show_time policy = Inr svc" "map_of (tv_compilers svc) kind = Some compiler"
    and "tk_compile compiler i cid rev' who obo pol d = Inr c"
  shows "valid_contract c \<and> modest_contract c \<and> targets_bound i c \<and> kind \<noteq> RESEARCH_INSIGHT"
proof -
  from assms(1,2) have k: "kind = ENRICHMENT \<and> compiler = enrichment_compiler
      \<or> kind \<in> {LOOKUP, RETRIEVE} \<and> tk_compile compiler = compile_question kind
      \<or> kind \<in> set investigation_kinds \<and> tk_compile compiler = compile_investigation kind"
    by (auto simp: service_val investigation_kinds_def split: if_splits)
  then have "kind \<noteq> RESEARCH_INSIGHT" by (auto simp: investigation_kinds_def)
  with k assms(3) show ?thesis
    using compile_question_ok [of kind i cid rev' who obo pol d c] compile_investigation_ok [of kind i cid rev' who obo pol d c]
      compile_enrichment_ok [of i cid rev' who obo pol d c] by (auto simp: enrichment_compiler_def)
qed

lemma admit_ok:
  assumes "admit E svc q = Inr r"
  obtains kind compiler a where "ti_candidate_task_kind (tq_intent q) = Some kind" "map_of (tv_compilers svc) kind = Some compiler"
    "tk_compile compiler (tq_intent q) (admission_contract_id E q compiler) (tq_contract_revision q) (tq_principal q)
       (tq_on_behalf_of q) (tq_policy_revision q) (tq_binding_context q) = Inr (tz_contract r)"
    "validate_compiled_contract q kind (tz_contract r) (admission_contract_id E q compiler) = Inr ()"
    "tv_authorizer svc (tz_intent_ref r) (tq_intent q) (tz_contract r) = Inr a" "aa_allowed a"
    "tz_intent_ref r = intent_ref E (tq_intent q)"
proof -
  from assms obtain kind compiler where k: "ti_candidate_task_kind (tq_intent q) = Some kind"
    "map_of (tv_compilers svc) kind = Some compiler" by (auto simp: admit_def split: option.splits)
  from assms k show ?thesis
    by (auto simp: admit_def Let_def res_simps split: if_splits intro: that)
qed

lemma compiled_identity:
  assumes "validate_compiled_contract q kind c cid = Inr ()"
  shows "tc_task_contract_id c = cid" "tc_contract_revision c = tq_contract_revision q" "tc_principal c = tq_principal q"
    "tc_on_behalf_of c = tq_on_behalf_of q" "tc_policy_revision c = tq_policy_revision q" "tc_task_kind c = kind"
  using assms by (simp_all add: validate_compiled_contract_def res_simps)

lemma authorize_ok:
  assumes "runtime_authorize E show_time policy fulfilled iref i c = Inr a" "aa_allowed a"
  obtains d where "pe_policy_revision policy = tc_policy_revision c"
    "evaluate policy (admission_policy_request iref i c) = Inr d" "obligations_satisfied d (set fulfilled)"
proof (cases "pe_policy_revision policy = tc_policy_revision c")
  case False
  with assms show ?thesis by (auto simp: runtime_authorize_def validate_authorization_def res_simps)
next
  case True
  with assms(1) obtain q d where q: "validate_request (admission_policy_request iref i c) = Inr q" "evaluate policy q = Inr d"
    by (auto simp: runtime_authorize_def res_simps)
  then have "q = admission_policy_request iref i c" by (auto simp: validate_request_def res_simps split: if_splits)
  moreover have "obligations_satisfied d (set fulfilled)"
    using assms True q by (auto simp: runtime_authorize_def validate_authorization_def Let_def res_simps split: if_splits)
  ultimately show ?thesis using True q(2) by (intro that) simp_all
qed

text \<open>Evaluation with and without the constraints of the rules.\<close>

lemma rule_matches_constraints [simp]: "rule_matches (r\<lparr>rl_constraints := xs\<rparr>) q = rule_matches r q"
  by (simp add: rule_matches_def)

lemma rule_decisions_constraints: "rule_decisions rev' (map (\<lambda>r. r\<lparr>rl_constraints := []\<rparr>) rs) = rule_decisions rev' rs"
  by (induction rs) (simp_all add: rule_decisions_def split: option.splits)

lemma evaluate_without_constraints:
  "evaluate (without_constraints eng) q =
     res_bind (evaluate eng q) (\<lambda>d. Inr (if pd_authorization d = PERMIT then d\<lparr>pd_constraints := []\<rparr> else d))"
proof -
  have m: "filter (\<lambda>r. rule_matches r q) (map (\<lambda>r. r\<lparr>rl_constraints := []\<rparr>) rs)
      = map (\<lambda>r. r\<lparr>rl_constraints := []\<rparr>) (filter (\<lambda>r. rule_matches r q) rs)" for rs
    by (simp add: filter_map comp_def)
  show ?thesis
    by (cases "combine_deny_overrides (rule_decisions (pe_policy_revision eng) (filter (\<lambda>r. rule_matches r q) (pe_rules eng)))
          (pe_policy_revision eng)")
      (simp_all add: evaluate_def without_constraints_def m rule_decisions_constraints Let_def comp_def)
qed

lemma sample_question_admitted: "\<exists>svc r. create_task_contract_service sample_hash (\<lambda>_. []) sample_admission_engine = Inr svc
   \<and> admit sample_hash svc sample_admission = Inr r"
proof -
  let ?c = "\<lparr>tc_task_contract_id = ''c1'', tc_contract_revision = 1, tc_principal = ''svc'',
      tc_on_behalf_of = None, tc_task_kind = LOOKUP, tc_target_resources = [''object:o1''],
      tc_desired_state = [(''question'', JStr ''is it fixed?''), (''target_object_ids'', j_strs [''o1''])],
      tc_evidence_contract = [(''authority'', JStr ''m1_m3_evidence_world''), (''access'', JStr ''read_only'')],
      tc_output_contract = [(''result_type'', JStr ''DecisionResult|InvestigationView'')],
      tc_temporal_contract = [(''scope'', JStr ''current'')], tc_effect_ceiling = READ_ONLY,
      tc_delegation_ceiling = default_delegation_ceiling,
      tc_completion_predicate = [(''type'', JStr ''decision_or_investigation_escalation'')],
      tc_cancellation_semantics = CANCELLABLE, tc_policy_revision = ''p1''\<rparr>"
  have c: "compile_question LOOKUP sample_intent ''c1'' 1 ''svc'' None ''p1'' (tq_binding_context sample_admission) = Inr ?c"
    by (simp add: compile_question_def parse_question_binding_def field_str_def field_strs_def sample_admission_def
        sample_intent_def check_targets_def build_question_contract_def new_contract_def validate_disabled_shape_def
        validate_execution_contract_def default_delegation_ceiling_def raise_if_def blank_def strip_def is_space_def)
  have "\<exists>a. runtime_authorize sample_hash (\<lambda>_. []) sample_admission_engine [] iref sample_intent ?c = Inr a \<and> aa_allowed a" for iref
    by (simp add: runtime_authorize_def sample_admission_engine_def sample_engine_def sample_rule_def validate_request_def
        admission_policy_request_def has_key_def raise_if_def blank_def strip_def is_space_def evaluate_def
        combine_deny_overrides_def rule_decisions_def with_authorization_def validate_revision_def rule_matches_def matches_any_def
        fnmatchcase_def glob_items.simps Let_def obligations_satisfied_def validate_authorization_def)
  then obtain a where a: "runtime_authorize sample_hash (\<lambda>_. []) sample_admission_engine [] (intent_ref sample_hash sample_intent)
      sample_intent ?c = Inr a" "aa_allowed a" by blast
  show ?thesis
    unfolding service_val
    using c a by (simp add: admit_def Let_def sample_admission_def sample_intent_def [THEN arg_cong, of ti_candidate_task_kind]
        admission_contract_id_def validate_compiled_contract_def enrichment_compiler_def)
qed

section \<open>Properties\<close>

text \<open>
  Claim C35: a contract is admitted only as asked and only by permission. When the application's service admits a
  request, the contract is valid, is for the principal, the policy revision, the contract revision and the task kind that
  were asked for, has at most internal effects and at most one level of delegation to enrichment; the engine has the same
  policy revision and permits the admission, and no obligation is left open. Kinds without a compiler are never admitted.
\<close>

theorem admission_gated:
  assumes "create_task_contract_service E show_time policy = Inr svc" and "admit E svc q = Inr r"
  shows "valid_contract (tz_contract r) \<and> modest_contract (tz_contract r)
    \<and> tc_principal (tz_contract r) = tq_principal q \<and> tc_on_behalf_of (tz_contract r) = tq_on_behalf_of q
    \<and> tc_contract_revision (tz_contract r) = tq_contract_revision q
    \<and> tc_policy_revision (tz_contract r) = tq_policy_revision q \<and> pe_policy_revision policy = tq_policy_revision q
    \<and> ti_candidate_task_kind (tq_intent q) = Some (tc_task_kind (tz_contract r))
    \<and> tc_task_kind (tz_contract r) \<noteq> RESEARCH_INSIGHT
    \<and> (\<exists>d. evaluate policy (admission_policy_request (tz_intent_ref r) (tq_intent q) (tz_contract r)) = Inr d
         \<and> pd_authorization d = PERMIT \<and> pd_obligations d = [])"
proof -
  obtain kind compiler a where k: "ti_candidate_task_kind (tq_intent q) = Some kind" "map_of (tv_compilers svc) kind = Some compiler"
    "tk_compile compiler (tq_intent q) (admission_contract_id E q compiler) (tq_contract_revision q) (tq_principal q)
       (tq_on_behalf_of q) (tq_policy_revision q) (tq_binding_context q) = Inr (tz_contract r)"
    "validate_compiled_contract q kind (tz_contract r) (admission_contract_id E q compiler) = Inr ()"
    "tv_authorizer svc (tz_intent_ref r) (tq_intent q) (tz_contract r) = Inr a" "aa_allowed a" by (rule admit_ok [OF assms(2)])
  from assms(1) have "tv_authorizer svc = runtime_authorize E show_time policy []" by (auto simp: service_val)
  with k(5) have "runtime_authorize E show_time policy [] (tz_intent_ref r) (tq_intent q) (tz_contract r) = Inr a" by simp
  then obtain d where "pe_policy_revision policy = tc_policy_revision (tz_contract r)"
    "evaluate policy (admission_policy_request (tz_intent_ref r) (tq_intent q) (tz_contract r)) = Inr d"
    "obligations_satisfied d (set [])" by (rule authorize_ok [OF _ k(6)])
  then show ?thesis
    using service_compiles [OF assms(1) k(2,3)] compiled_identity [OF k(4)] k(1) by (simp add: obligations_satisfied_def)
qed

theorem admission_gated_witness:
  "\<exists>svc r. create_task_contract_service sample_hash (\<lambda>_. []) sample_admission_engine = Inr svc
     \<and> admit sample_hash svc sample_admission = Inr r \<and> modest_contract (tz_contract r)"
proof -
  from sample_question_admitted obtain svc r where s: "create_task_contract_service sample_hash (\<lambda>_. []) sample_admission_engine = Inr svc"
    "admit sample_hash svc sample_admission = Inr r" by blast
  from admission_gated [OF s] s show ?thesis by blast
qed

text \<open>
  What an intent points at is in the contract. Every candidate target of an admitted intent is one of the
  contract's target resources, by itself or with the prefix of an object, a case or a CVE; an intent that names anything
  the binding does not is refused.
\<close>

theorem admitted_targets_bound:
  assumes "create_task_contract_service E show_time policy = Inr svc" and "admit E svc q = Inr r"
    and "t \<in> set (ti_candidate_targets (tq_intent q))"
  shows "\<exists>p \<in> {[], ''object:'', ''case:'', ''cve:''}. p @ t \<in> set (tc_target_resources (tz_contract r))"
proof -
  obtain kind compiler where "map_of (tv_compilers svc) kind = Some compiler"
    "tk_compile compiler (tq_intent q) (admission_contract_id E q compiler) (tq_contract_revision q) (tq_principal q)
       (tq_on_behalf_of q) (tq_policy_revision q) (tq_binding_context q) = Inr (tz_contract r)" by (rule admit_ok [OF assms(2)])
  from service_compiles [OF assms(1) this] have "targets_bound (tq_intent q) (tz_contract r)" by blast
  then show ?thesis using assms(3) unfolding targets_bound_def by (rule bspec)
qed

theorem admitted_targets_bound_witness:
  "\<exists>svc r. admit sample_hash svc sample_admission = Inr r
     \<and> (\<exists>p \<in> {[], ''object:'', ''case:'', ''cve:''}. p @ ''o1'' \<in> set (tc_target_resources (tz_contract r)))"
proof -
  from sample_question_admitted obtain svc r where s: "create_task_contract_service sample_hash (\<lambda>_. []) sample_admission_engine = Inr svc"
    "admit sample_hash svc sample_admission = Inr r" by blast
  have "''o1'' \<in> set (ti_candidate_targets (tq_intent sample_admission))" by (simp add: sample_admission_def sample_intent_def)
  from admitted_targets_bound [OF s this] s(2) show ?thesis by blast
qed

text \<open>
  Task admission does not look at policy constraints. Whether the authorizer allows a contract, and why not when it
  does not, is the same after all constraints have been removed from the rules; the capability broker and the sandbox
  broker require constraints to be fulfilled like obligations.
\<close>

theorem admission_ignores_constraints:
  "map_sum id (\<lambda>a. (aa_allowed a, aa_authorization a, aa_denial_reason a))
     (runtime_authorize E show_time (without_constraints policy) fulfilled iref i c)
   = map_sum id (\<lambda>a. (aa_allowed a, aa_authorization a, aa_denial_reason a))
     (runtime_authorize E show_time policy fulfilled iref i c)"
proof (cases "validate_request (admission_policy_request iref i c)")
  case (Inr q)
  have rev: "pe_policy_revision (without_constraints policy) = pe_policy_revision policy"
    by (simp add: without_constraints_def)
  show ?thesis
  proof (cases "evaluate policy q")
    case d: (Inr d)
    then show ?thesis
      by (simp add: runtime_authorize_def rev Inr evaluate_without_constraints Let_def validate_authorization_def
          obligations_satisfied_def falsy_str_def raise_if_def)
  qed (simp add: runtime_authorize_def rev Inr evaluate_without_constraints)
qed (simp add: runtime_authorize_def without_constraints_def)

end
