(* ===== verification/Event_Stream.thy ===== *)
theory Event_Stream
  imports Task_Scheduler Execution_Runtime
begin

text \<open>
  \<^verbatim>\<open>packages/task_runtime/events/redis_stream.py\<close> and the two workers that run it,
  \<^verbatim>\<open>apps/worker/task_event_dispatcher.py\<close> and \<^verbatim>\<open>apps/worker/task_event_scheduler.py\<close>: events leave
  the task tables through the delivery rows (the outbox), travel over a Redis stream, and are read
  back by the scheduler, which wakes parents and dispatches Roles. Redis and Celery are services
  outside the repository: their calls are functions of a record, over a state of their own. An
  exception rolls the tables back to the start of the transaction, but not Redis.
\<close>

section \<open>The services\<close>

datatype redis_text = TStr string | TBytes string

text \<open>A response as the Python client returns it: \<open>RSeq\<close> is a list or a tuple.\<close>

datatype redis_value =
    RText redis_text | RSeq "redis_value list" | RDict "(redis_value \<times> redis_value) list" | ROther

text \<open>
  An exception of the client: its class name, whether it is a \<^verbatim>\<open>ResponseError\<close>, and its text.
\<close>

record redis_exc =
  ex_class :: string
  ex_response_error :: bool
  ex_text :: string

record 'q redis =
  rx_xadd :: "'q \<Rightarrow> string \<Rightarrow> (string \<times> string) list \<Rightarrow> (redis_exc + redis_text) \<times> 'q"
  rx_xgroup_create :: "'q \<Rightarrow> string \<Rightarrow> string \<Rightarrow> redis_exc option \<times> 'q"
  rx_xautoclaim :: "'q \<Rightarrow> string \<Rightarrow> string \<Rightarrow> string \<Rightarrow> int \<Rightarrow> int \<Rightarrow> (redis_exc + redis_value) \<times> 'q"
  rx_xreadgroup :: "'q \<Rightarrow> string \<Rightarrow> string \<Rightarrow> string \<Rightarrow> int \<Rightarrow> int option \<Rightarrow> (redis_exc + redis_value) \<times> 'q"
  rx_xack :: "'q \<Rightarrow> string \<Rightarrow> string \<Rightarrow> string \<Rightarrow> (redis_exc + int) \<times> 'q"



text \<open>
  \<^verbatim>\<open>bytes.decode()\<close> on the UTF-8 encodings of the code points a \<open>string\<close> holds, one or two bytes
  long. Every other byte sequence is a \<^verbatim>\<open>UnicodeDecodeError\<close> or a text beyond that range.
\<close>

fun utf8_decode :: "string \<Rightarrow> string res" where
  "utf8_decode [] = Inr []"
| "utf8_decode (c # cs) =
     (let n = (of_char c :: nat) in
      if n < 128 then res_bind (utf8_decode cs) (\<lambda>t. Inr (c # t))
      else if n = 194 \<or> n = 195 then
        (case cs of
           [] \<Rightarrow> Inl (ValueError ''unexpected end of data'')
         | d # ds \<Rightarrow>
             let m = (of_char d :: nat) in
             if 128 \<le> m \<and> m < 192
             then res_bind (utf8_decode ds) (\<lambda>t. Inr (char_of ((n - 192) * 64 + (m - 128)) # t))
             else Inl (ValueError ''invalid continuation byte''))
      else Inl (ValueError ''invalid start byte''))"

definition message_id_text :: "redis_text \<Rightarrow> string res" where
  "message_id_text v = (case v of TBytes b \<Rightarrow> utf8_decode b | TStr s \<Rightarrow> Inr s)"

section \<open>Publishing\<close>

text \<open>
  The rows of \<^verbatim>\<open>select ... for update skip locked\<close>: pending, due, joined with their event, in the
  order of run, sequence number and event id; \<open>locked\<close> holds of the events another transaction works on.
\<close>

definition due_rows ::
  "task_store \<Rightarrow> int \<Rightarrow> nat \<Rightarrow> (string \<Rightarrow> bool) \<Rightarrow> (delivery_row \<times> event_row) list" where
  "due_rows s instant limit locked =
     take limit (sort_key (\<lambda>(d, e). (te_task_run_id e, te_seq e, dl_event_id d))
       [(d, e). d \<leftarrow> ts_deliveries s, e \<leftarrow> ts_events s, te_event_id e = dl_event_id d
          \<and> dl_status d = ''pending'' \<and> dl_available_at d \<le> instant \<and> \<not> locked (dl_event_id d)])"

definition due_deliveries :: "task_store \<Rightarrow> int \<Rightarrow> nat \<Rightarrow> (string \<Rightarrow> bool) \<Rightarrow> delivery_row list" where
  "due_deliveries s instant limit locked = map fst (due_rows s instant limit locked)"

text \<open>\<open>show_time\<close> is \<^verbatim>\<open>datetime.isoformat\<close>.\<close>

definition event_fields :: "(int \<Rightarrow> string) \<Rightarrow> event_row \<Rightarrow> (string \<times> string) list" where
  "event_fields show_time e =
     [(''event_id'', te_event_id e), (''task_run_id'', te_task_run_id e),
      (''parent_run_id'', case te_parent_run_id e of None \<Rightarrow> [] | Some p \<Rightarrow> p),
      (''seq'', show_nat (te_seq e)), (''event_type'', task_event_type_value (te_event_type e)),
      (''producer'', te_producer e), (''base_context_revision'', show_nat (te_base_context_revision e)),
      (''payload_ref'', te_payload_ref e), (''idempotency_key'', te_idempotency_key e),
      (''emitted_at'', show_time (te_emitted_at e))]"

definition failed_delivery :: "delivery_row \<Rightarrow> redis_exc \<Rightarrow> delivery_row" where
  "failed_delivery d x = d\<lparr>dl_attempts := dl_attempts d + 1,
     dl_last_error := Some (take 4000 (ex_class x @ '': '' @ ex_text x))\<rparr>"

definition completed_delivery :: "delivery_row \<Rightarrow> int \<Rightarrow> string \<Rightarrow> delivery_row" where
  "completed_delivery d instant message_id = d\<lparr>dl_status := ''delivered'',
     dl_attempts := dl_attempts d + 1, dl_redis_message_id := Some message_id,
     dl_delivered_at := Some (Aware instant), dl_last_error := None\<rparr>"

abbreviation put_delivery :: "task_store \<Rightarrow> delivery_row \<Rightarrow> task_store" where
  "put_delivery s d \<equiv> s\<lparr>ts_deliveries := tab_put dl_event_id d (ts_deliveries s)\<rparr>"

fun publish_deliveries ::
  "'q redis \<Rightarrow> (int \<Rightarrow> string) \<Rightarrow> int \<Rightarrow> delivery_row list \<Rightarrow> nat \<Rightarrow> task_store \<Rightarrow> 'q
     \<Rightarrow> (nat \<times> task_store) res \<times> 'q" where
  "publish_deliveries R show_time instant [] delivered s q = (Inr (delivered, s), q)"
| "publish_deliveries R show_time instant (d # ds) delivered s q =
     (case tab_get te_event_id (dl_event_id d) (ts_events s) of
        None \<Rightarrow> (Inl (RuntimeError ''task event delivery exists without task event''), q)
      | Some event \<Rightarrow>
          (case rx_xadd R q (dl_stream_name d) (event_fields show_time event) of
             (Inl exc, q') \<Rightarrow>
               publish_deliveries R show_time instant ds delivered
                 (put_delivery s (failed_delivery d exc)) q'
           | (Inr message_id, q') \<Rightarrow>
               (case message_id_text message_id of
                  Inl err \<Rightarrow> (Inl err, q')
                | Inr text' \<Rightarrow>
                    publish_deliveries R show_time instant ds (delivered + 1)
                      (put_delivery s (completed_delivery d instant text')) q')))"

definition dispatch_pending_task_events ::
  "'q redis \<Rightarrow> (int \<Rightarrow> string) \<Rightarrow> task_store \<Rightarrow> 'q \<Rightarrow> int \<Rightarrow> nat \<Rightarrow> (string \<Rightarrow> bool)
     \<Rightarrow> (nat \<times> task_store) res \<times> 'q" where
  "dispatch_pending_task_events R show_time s q instant limit locked =
     publish_deliveries R show_time instant (due_deliveries s instant limit locked) 0 s q"

text \<open>
  One \<^verbatim>\<open>tick\<close> of the dispatcher, whose exceptions \<^verbatim>\<open>run_forever\<close> logs: the transaction commits at the
  end of the \<^verbatim>\<open>with\<close> block, unless it raised or the commit itself fails (\<open>commits\<close> is false).
\<close>

definition dispatcher_tick ::
  "'q redis \<Rightarrow> (int \<Rightarrow> string) \<Rightarrow> task_store \<Rightarrow> 'q \<Rightarrow> int \<Rightarrow> (string \<Rightarrow> bool) \<Rightarrow> bool
     \<Rightarrow> nat option \<times> task_store \<times> 'q" where
  "dispatcher_tick R show_time s q instant locked commits =
     (case dispatch_pending_task_events R show_time s q instant 100 locked of
        (Inl _, q') \<Rightarrow> (None, s, q')
      | (Inr (delivered, t), q') \<Rightarrow> if commits then (Some delivered, t, q') else (None, s, q'))"

section \<open>Reading\<close>












section \<open>The scheduler worker\<close>













section \<open>What the stream promises\<close>

text \<open>
  What the documentation of \<^verbatim>\<open>XADD\<close> says of the entries of all streams: a call that returns has
  appended its entry, one that raised may have. \<open>entries\<close> reads them from the state of the server.
\<close>

type_synonym stream_entry = "string \<times> (string \<times> string) list"

definition appends_entries :: "'q redis \<Rightarrow> ('q \<Rightarrow> stream_entry list) \<Rightarrow> bool" where
  "appends_entries R entries \<longleftrightarrow>
     (\<forall>q stream flds.
        (case rx_xadd R q stream flds of
           (Inr _, q') \<Rightarrow> entries q' = entries q @ [(stream, flds)]
         | (Inl _, q') \<Rightarrow> entries q' = entries q \<or> entries q' = entries q @ [(stream, flds)]))"

text \<open>A server that is up: every \<^verbatim>\<open>XADD\<close> returns a message id.\<close>

definition redis_up :: "'q redis \<Rightarrow> bool" where
  "redis_up R \<longleftrightarrow> (\<forall>q stream flds. \<exists>v m q'. rx_xadd R q stream flds = (Inr v, q') \<and> message_id_text v = Inr m)"

definition entry_of :: "(int \<Rightarrow> string) \<Rightarrow> delivery_row \<times> event_row \<Rightarrow> stream_entry" where
  "entry_of show_time r = (dl_stream_name (fst r), event_fields show_time (snd r))"

text \<open>
  The tables and the server together: an operation of the task runtime, a tick of the dispatcher, or
  any use of Redis that adds no entry, such as reading and acknowledging.
\<close>

inductive bus_step ::
  "hash_env \<Rightarrow> 'q redis \<Rightarrow> (int \<Rightarrow> string) \<Rightarrow> ('q \<Rightarrow> stream_entry list) \<Rightarrow> task_store \<times> 'q \<Rightarrow> task_store \<times> 'q \<Rightarrow> bool"
  for E R show_time entries where
  tables: "store_step E s t \<Longrightarrow> bus_step E R show_time entries (s, q) (t, q)"
| dispatch: "dispatcher_tick R show_time s q instant locked commits = (n, t, q') \<Longrightarrow>
    bus_step E R show_time entries (s, q) (t, q')"
| other_use: "entries q' = entries q \<Longrightarrow> bus_step E R show_time entries (s, q) (s, q')"

definition entry_known :: "(int \<Rightarrow> string) \<Rightarrow> task_store \<Rightarrow> stream_entry \<Rightarrow> bool" where
  "entry_known show_time s x \<longleftrightarrow>
     (\<exists>d \<in> set (ts_deliveries s). \<exists>e \<in> set (ts_events s). dl_event_id d = te_event_id e
        \<and> x = entry_of show_time (d, e))"

definition delivery_kept :: "(int \<Rightarrow> string) \<Rightarrow> stream_entry list \<Rightarrow> task_store \<Rightarrow> delivery_row \<Rightarrow> bool" where
  "delivery_kept show_time xs s d \<longleftrightarrow> dl_status d = ''pending''
     \<or> (\<exists>e. tab_get te_event_id (dl_event_id d) (ts_events s) = Some e \<and> entry_of show_time (d, e) \<in> set xs)"

definition outbox_inv :: "(int \<Rightarrow> string) \<Rightarrow> stream_entry list \<Rightarrow> task_store \<Rightarrow> bool" where
  "outbox_inv show_time xs s \<longleftrightarrow> store_inv s
     \<and> (\<forall>d \<in> set (ts_deliveries s). delivery_kept show_time xs s d)
     \<and> (\<forall>x \<in> set xs. entry_known show_time s x)"

fun dispatcher_ticks ::
  "'q redis \<Rightarrow> (int \<Rightarrow> string) \<Rightarrow> int list \<Rightarrow> task_store \<times> 'q \<Rightarrow> task_store \<times> 'q" where
  "dispatcher_ticks R show_time [] sq = sq"
| "dispatcher_ticks R show_time (i # is) (s, q) =
     dispatcher_ticks R show_time is (snd (dispatcher_tick R show_time s q i (\<lambda>_. False) True))"

definition pending_deliveries :: "task_store \<Rightarrow> delivery_row list" where
  "pending_deliveries s = filter (\<lambda>d. dl_status d = ''pending'') (ts_deliveries s)"

text \<open>The task runtime only adds pending rows.\<close>

definition outbox_grows :: "task_store \<Rightarrow> task_store \<Rightarrow> bool" where
  "outbox_grows s t \<longleftrightarrow>
     (\<exists>new. ts_deliveries t = ts_deliveries s @ new \<and> (\<forall>d \<in> set new. dl_status d = ''pending''))"

text \<open>The rows of a batch are rows of the table; those that are due, with their events; their order.\<close>

definition rows_current :: "task_store \<Rightarrow> delivery_row list \<Rightarrow> bool" where
  "rows_current s ds \<longleftrightarrow> distinct (map dl_event_id ds) \<and> set ds \<subseteq> set (ts_deliveries s)"

definition due :: "int \<Rightarrow> (string \<Rightarrow> bool) \<Rightarrow> delivery_row \<Rightarrow> bool" where
  "due instant locked d \<longleftrightarrow> dl_status d = ''pending'' \<and> dl_available_at d \<le> instant \<and> \<not> locked (dl_event_id d)"

definition joined :: "task_store \<Rightarrow> int \<Rightarrow> (string \<Rightarrow> bool) \<Rightarrow> (delivery_row \<times> event_row) list" where
  "joined s instant locked =
     map (\<lambda>d. (d, the (tab_get te_event_id (dl_event_id d) (ts_events s)))) (filter (due instant locked) (ts_deliveries s))"

definition row_before :: "delivery_row \<times> event_row \<Rightarrow> delivery_row \<times> event_row \<Rightarrow> bool" where
  "row_before a b \<longleftrightarrow> (te_task_run_id (snd a) = te_task_run_id (snd b) \<longrightarrow> te_seq (snd a) < te_seq (snd b))"






text \<open>
  A server whose state is the entries of its streams, for the concrete instances: it accepts every
  entry, and every reader gets the whole stream.
\<close>

definition sample_redis :: "stream_entry list redis" where
  "sample_redis =
     \<lparr>rx_xadd = (\<lambda>q stream flds. (Inr (TBytes (show_nat (length q) @ ''-0'')), q @ [(stream, flds)])),
      rx_xgroup_create = (\<lambda>q stream grp. (None, q)),
      rx_xautoclaim = (\<lambda>q stream grp consumer idle count. (Inr (RSeq [RText (TStr ''0-0''), RSeq []]), q)),
      rx_xreadgroup = (\<lambda>q stream grp consumer count block.
        (Inr (RSeq [RSeq [RText (TStr stream), RSeq (map (\<lambda>(i, flds). RSeq [RText (TStr (show_nat i @ ''-0'')),
           RDict (map (\<lambda>(k, v). (RText (TStr k), RText (TStr v))) flds)])
           (enumerate 0 (map snd (filter (\<lambda>x. fst x = stream) q))))]]), q)),
      rx_xack = (\<lambda>q stream grp message_id. (Inr 1, q))\<rparr>"

definition sample_show_time :: "int \<Rightarrow> string" where
  "sample_show_time us = show_int us"





section \<open>Lemmas on the outbox\<close>

lemma outbox_grows_same: "ts_deliveries t = ts_deliveries s \<Longrightarrow> outbox_grows s t"
  by (simp add: outbox_grows_def)

lemma outbox_grows_trans: "outbox_grows s t \<Longrightarrow> outbox_grows t u \<Longrightarrow> outbox_grows s u"
  by (auto simp: outbox_grows_def)

lemma outbox_grows_append:
  "append_task_event s rid ty producer rev' pl key stream now fe = Inr (a, t) \<Longrightarrow> outbox_grows s t"
  by (drule append_task_event_ok) (auto simp: outbox_grows_def new_delivery_row_def)

lemma outbox_grows_put_append:
  "append_task_event (put_run s r) rid ty producer rev' pl key stream now fe = Inr (a, t) \<Longrightarrow> outbox_grows s t"
  using outbox_grows_append outbox_grows_trans outbox_grows_same [of "put_run s r" s] by fastforce

lemma outbox_grows_contract:
  "persist_task_contract E s c now = Inr (r, t) \<Longrightarrow> outbox_grows s t"
  by (rule outbox_grows_same) (auto simp: persist_task_contract_def Let_def res_simps split: option.splits)

lemma outbox_grows_context:
  "persist_context_manifest E s m now = Inr (r, t) \<Longrightarrow> outbox_grows s t"
  by (rule outbox_grows_same) (auto simp: persist_context_manifest_def Let_def res_simps split: option.splits)

lemma outbox_grows_transition:
  "transition_task_run s rid target pl key stream producer rref sr now fe = Inr (v, t) \<Longrightarrow> outbox_grows s t"
  by (erule transition_task_run_ok) (auto intro: outbox_grows_put_append)

lemma outbox_grows_claim:
  assumes "claim_queued_task_run s rid stream producer now fe = Inr (v', t)"
  shows "outbox_grows s t"
  using assms by (cases rule: claim_ok) (auto intro: outbox_grows_put_append outbox_grows_same)

lemma outbox_grows_update:
  assumes "update_task_context E s rid m stream producer now fe = Inr (v, t)"
  shows "outbox_grows s t"
  using assms
  by (cases rule: update_task_context_ok)
    (blast intro: outbox_grows_put_append outbox_grows_context outbox_grows_trans)

lemma outbox_grows_create:
  assumes "create_task_run E s c m role env stream cid par rid producer now fr fe = Inr (v, t)"
  shows "outbox_grows s t"
  using assms
proof (cases rule: create_task_run_ok)
  case (1 p s1 p' s2 crow xrow a)
  have "outbox_grows s s2"
    using 1(4,5) outbox_grows_contract outbox_grows_context outbox_grows_trans by blast
  moreover have "outbox_grows s2 t"
    using outbox_grows_append [OF 1(9)] by (simp add: outbox_grows_def)
  ultimately show ?thesis by (rule outbox_grows_trans)
qed

lemma store_step_outbox: "store_step E s t \<Longrightarrow> outbox_grows s t"
  by (induction rule: store_step.induct)
    (blast intro: outbox_grows_contract outbox_grows_context outbox_grows_create outbox_grows_claim
       outbox_grows_update outbox_grows_transition outbox_grows_append)+

lemma tab_get_prefix_Some:
  "prefix xs ys \<Longrightarrow> tab_get key k xs = Some r \<Longrightarrow> tab_get key k ys = Some r"
  by (auto simp: prefix_def tab_simps)

lemma outbox_inv_store_step:
  assumes "outbox_inv show_time xs s" and st: "store_step E s t"
  shows "outbox_inv show_time xs t"
proof -
  have ev: "prefix (ts_events s) (ts_events t)"
    using store_step_evolves [OF st] by (simp add: store_evolves_def)
  obtain new where new: "ts_deliveries t = ts_deliveries s @ new" "\<forall>d \<in> set new. dl_status d = ''pending''"
    using store_step_outbox [OF st] by (auto simp: outbox_grows_def)
  have kept: "delivery_kept show_time xs t d" if "delivery_kept show_time xs s d" for d
    using that by (auto simp: delivery_kept_def dest: tab_get_prefix_Some [OF ev])
  have known: "entry_known show_time t x" if "entry_known show_time s x" for x
  proof -
    from that obtain d e where "d \<in> set (ts_deliveries t)" "e \<in> set (ts_events t)"
      "dl_event_id d = te_event_id e" "x = entry_of show_time (d, e)"
      using new(1) set_mono_prefix [OF ev] by (auto simp: entry_known_def)
    then show ?thesis unfolding entry_known_def by blast
  qed
  have inv: "store_inv s" "\<forall>d \<in> set (ts_deliveries s). delivery_kept show_time xs s d"
    "\<forall>x \<in> set xs. entry_known show_time s x" using assms(1) by (auto simp: outbox_inv_def)
  have "delivery_kept show_time xs t d" if "d \<in> set (ts_deliveries t)" for d
  proof (cases "d \<in> set new")
    case True
    then show ?thesis using new(2) by (simp add: delivery_kept_def)
  next
    case False
    then show ?thesis using that new(1) inv(2) kept by auto
  qed
  then show ?thesis using store_inv_step [OF st inv(1)] inv(3) known by (simp add: outbox_inv_def)
qed

text \<open>Rewriting a delivery row in place.\<close>

lemma store_inv_put_delivery: "store_inv (put_delivery s d) \<longleftrightarrow> store_inv s"
  unfolding store_inv_def contracts_ok_def contexts_ok_def runs_ok_def events_ok_def run_ok_def
    parent_conforms_def run_contract_def run_context_def run_events_def
  by (simp cong: option.case_cong)

lemma outbox_inv_put_delivery:
  assumes inv: "outbox_inv show_time xs s" and d: "d \<in> set (ts_deliveries s)"
    and d': "dl_event_id d' = dl_event_id d" "dl_stream_name d' = dl_stream_name d"
    and kept: "delivery_kept show_time ys s d'"
    and ys: "set xs \<subseteq> set ys" "\<forall>y \<in> set ys. entry_known show_time s y"
  shows "outbox_inv show_time ys (put_delivery s d')"
proof -
  let ?t = "put_delivery s d'"
  have "delivery_kept show_time ys ?t x" if "x \<in> set (ts_deliveries ?t)" for x
  proof -
    have "x = d' \<or> x \<in> set (ts_deliveries s)" using in_set_tab_put [of x] that by auto
    then have "delivery_kept show_time ys s x"
      using inv kept ys(1) unfolding outbox_inv_def delivery_kept_def by blast
    then show ?thesis by (simp add: delivery_kept_def)
  qed
  moreover have "entry_known show_time ?t y" if y: "y \<in> set ys" for y
  proof -
    from ys(2) y obtain x e where x: "x \<in> set (ts_deliveries s)" "e \<in> set (ts_events s)"
      "dl_event_id x = te_event_id e" "y = entry_of show_time (x, e)" by (auto simp: entry_known_def)
    let ?x = "if dl_event_id x = dl_event_id d' then d' else x"
    have ids: "distinct (map dl_event_id (ts_deliveries s))"
      using inv by (auto simp: outbox_inv_def store_inv_def events_ok_def)
    have "?x \<in> set (ts_deliveries ?t)" using x(1) by (auto simp: tab_put_def)
    moreover have "dl_event_id ?x = dl_event_id x" by simp
    moreover have "dl_stream_name ?x = dl_stream_name x"
      using ids d x(1) d' by (auto dest: eq_key_imp_eq_value simp: distinct_map inj_on_def)
    ultimately show ?thesis
      using x by (auto simp: entry_known_def entry_of_def intro!: bexI [of _ ?x] bexI [of _ e])
  qed
  moreover have "store_inv ?t" using inv by (simp add: store_inv_put_delivery outbox_inv_def)
  ultimately show ?thesis by (simp add: outbox_inv_def)
qed

lemma rows_current_put:
  assumes "rows_current s (d # ds)" "dl_event_id d' = dl_event_id d"
  shows "rows_current (put_delivery s d') ds"
proof -
  have "x \<in> set (tab_put dl_event_id d' (ts_deliveries s))" if "x \<in> set ds" for x
  proof -
    have "dl_event_id x \<noteq> dl_event_id d'" "x \<in> set (ts_deliveries s)"
      using assms that by (auto simp: rows_current_def rev_image_eqI)
    then show ?thesis by (force simp: tab_put_def)
  qed
  then show ?thesis using assms by (auto simp: rows_current_def)
qed

lemma event_of_delivery:
  assumes "store_inv s" "d \<in> set (ts_deliveries s)"
  obtains e where "tab_get te_event_id (dl_event_id d) (ts_events s) = Some e"
proof -
  have "map dl_event_id (ts_deliveries s) = map te_event_id (ts_events s)"
    using assms(1) by (simp add: store_inv_def events_ok_def)
  moreover have "dl_event_id d \<in> set (map dl_event_id (ts_deliveries s))" using assms(2) by simp
  ultimately have "tab_get te_event_id (dl_event_id d) (ts_events s) \<noteq> None"
    by (simp only: tab_get_None_iff not_not)
  then show ?thesis using that by blast
qed

lemma subseq_set: "subseq xs ys \<Longrightarrow> set xs \<subseteq> set ys"
  by (auto elim: list_emb_set)

lemma sorted_wrt_subseq: "subseq xs ys \<Longrightarrow> sorted_wrt P ys \<Longrightarrow> sorted_wrt P xs"
  by (induction rule: list_emb.induct) (auto dest: subseq_set)

lemma subseq_distinct_map: "subseq xs ys \<Longrightarrow> distinct (map f ys) \<Longrightarrow> distinct (map f xs)"
  by (induction rule: list_emb.induct) (auto dest: subseq_set)

lemma entry_knownI:
  assumes "d \<in> set (ts_deliveries s)" "tab_get te_event_id (dl_event_id d) (ts_events s) = Some e"
  shows "entry_known show_time s (entry_of show_time (d, e))"
  unfolding entry_known_def using assms(1) tab_get_Some_D [OF assms(2)]
  by (intro bexI [of _ d] bexI [of _ e]) auto

lemma xadd_appends:
  assumes "appends_entries R entries" "rx_xadd R q stream flds = (a, q1)"
  shows "entries q1 = entries q \<or> entries q1 = entries q @ [(stream, flds)]"
    and "a = Inr v \<Longrightarrow> entries q1 = entries q @ [(stream, flds)]"
proof -
  have "case rx_xadd R q stream flds of
      (Inr _, q') \<Rightarrow> entries q' = entries q @ [(stream, flds)]
    | (Inl _, q') \<Rightarrow> entries q' = entries q \<or> entries q' = entries q @ [(stream, flds)]"
    using assms(1) [unfolded appends_entries_def, THEN spec, THEN spec, THEN spec] .
  then show "entries q1 = entries q \<or> entries q1 = entries q @ [(stream, flds)]"
    "a = Inr v \<Longrightarrow> entries q1 = entries q @ [(stream, flds)]"
    unfolding assms(2) by (cases a; simp)+
qed

lemma publish_appends:
  assumes "appends_entries R entries"
    and "\<forall>(d, e) \<in> set rs. tab_get te_event_id (dl_event_id d) (ts_events s) = Some e"
    and "publish_deliveries R show_time instant (map fst rs) n s q = (res, q')"
  shows "\<exists>ps. subseq ps rs \<and> entries q' = entries q @ map (entry_of show_time) ps"
  using assms(2,3)
proof (induction rs arbitrary: n s q)
  case (Cons r rs)
  obtain d e where r: "r = (d, e)" by (cases r)
  let ?x = "entry_of show_time (d, e)"
  have e: "tab_get te_event_id (dl_event_id d) (ts_events s) = Some e" using Cons.prems(1) r by simp
  obtain a q1 where x: "rx_xadd R q (dl_stream_name d) (event_fields show_time e) = (a, q1)" by fastforce
  have log: "entries q1 = entries q \<or> entries q1 = entries q @ [?x]"
    using xadd_appends(1) [OF assms(1) x] by (simp add: entry_of_def)
  have rest: "\<exists>ps. subseq ps (r # rs) \<and> entries q' = entries q @ map (entry_of show_time) ps"
    if "subseq ps rs" "entries q' = entries q1 @ map (entry_of show_time) ps" for ps
    using log that r by (auto intro: exI [of _ ps] exI [of _ "r # ps"])
  show ?case
  proof (cases a)
    case (Inl exc)
    then show ?thesis using Cons.IH [of "put_delivery s (failed_delivery d exc)"] Cons.prems e x r rest
      by fastforce
  next
    case (Inr v)
    show ?thesis
    proof (cases "message_id_text v")
      case (Inl err)
      then show ?thesis using Cons.prems(2) e x r Inr rest [of "[]"] by simp
    next
      case t: (Inr m)
      then show ?thesis
        using Cons.IH [of "put_delivery s (completed_delivery d instant m)"] Cons.prems e x r Inr rest
        by fastforce
    qed
  qed
qed simp

lemma publish_outbox:
  assumes "appends_entries R entries" "outbox_inv show_time (entries q) s" "rows_current s ds"
    and "publish_deliveries R show_time instant ds n s q = (Inr (n', t), q')"
  shows "outbox_inv show_time (entries q') t"
  using assms(2-4)
proof (induction ds arbitrary: n s q)
  case (Cons d ds)
  note inv = Cons.prems(1) and cur = Cons.prems(2)
  have d: "d \<in> set (ts_deliveries s)" using cur by (simp add: rows_current_def)
  obtain e where e: "tab_get te_event_id (dl_event_id d) (ts_events s) = Some e"
    using event_of_delivery d inv by (auto simp: outbox_inv_def)
  let ?x = "entry_of show_time (d, e)"
  have "entry_known show_time s ?x"
    by (rule entry_knownI [OF d e])
  then have known: "\<forall>y \<in> set (entries q @ [?x]). entry_known show_time s y"
    using inv by (simp add: outbox_inv_def)
  obtain a q1 where x: "rx_xadd R q (dl_stream_name d) (event_fields show_time e) = (a, q1)" by fastforce
  have log: "entries q1 = entries q \<or> entries q1 = entries q @ [?x]"
    "\<And>v. a = Inr v \<Longrightarrow> entries q1 = entries q @ [?x]"
    using xadd_appends [OF assms(1) x] by (simp_all add: entry_of_def)
  have step: "outbox_inv show_time (entries q1) (put_delivery s d')"
    if "dl_event_id d' = dl_event_id d" "dl_stream_name d' = dl_stream_name d"
      "delivery_kept show_time (entries q1) s d'" for d'
    by (rule outbox_inv_put_delivery [OF inv d that]) (use known log(1) in auto)
  show ?case
  proof (cases a)
    case (Inl exc)
    have "delivery_kept show_time (entries q1) s d"
      using inv d log(1) by (auto simp: outbox_inv_def delivery_kept_def)
    then have "outbox_inv show_time (entries q1) (put_delivery s (failed_delivery d exc))"
      by (intro step) (simp_all add: failed_delivery_def delivery_kept_def entry_of_def)
    moreover have "rows_current (put_delivery s (failed_delivery d exc)) ds"
      using rows_current_put [OF cur] by (simp add: failed_delivery_def)
    ultimately show ?thesis using Cons.IH Cons.prems(3) e x Inl by simp
  next
    case (Inr v)
    then obtain m where m: "message_id_text v = Inr m" using Cons.prems(3) e x
      by (cases "message_id_text v") auto
    have "outbox_inv show_time (entries q1) (put_delivery s (completed_delivery d instant m))"
      using e log(2) [OF Inr]
      by (intro step) (simp_all add: completed_delivery_def delivery_kept_def entry_of_def)
    moreover have "rows_current (put_delivery s (completed_delivery d instant m)) ds"
      using rows_current_put [OF cur] by (simp add: completed_delivery_def)
    ultimately show ?thesis using Cons.IH Cons.prems(3) e x Inr m by simp
  qed
qed simp

text \<open>What is due.\<close>

lemma filter_key_tab_get:
  "distinct (map key rows) \<Longrightarrow> filter (\<lambda>r. key r = k) rows = (case tab_get key k rows of None \<Rightarrow> [] | Some r \<Rightarrow> [r])"
proof (induction rows)
  case (Cons r rows)
  then show ?case
    using tab_get_None_iff [of key k rows] by (auto split: option.splits)
qed simp

lemma due_rows_joined:
  assumes "store_inv s"
  shows "due_rows s instant limit locked =
    take limit (sort_key (\<lambda>(d, e). (te_task_run_id e, te_seq e, dl_event_id d)) (joined s instant locked))"
proof -
  have ids: "distinct (map te_event_id (ts_events s))" using assms by (simp add: store_inv_def events_ok_def)
  have "concat (map (\<lambda>d. concat (map (\<lambda>e. if te_event_id e = dl_event_id d \<and> dl_status d = ''pending''
      \<and> dl_available_at d \<le> instant \<and> \<not> locked (dl_event_id d) then [(d, e)] else []) (ts_events s))) ds)
    = map (\<lambda>d. (d, the (tab_get te_event_id (dl_event_id d) (ts_events s)))) (filter (due instant locked) ds)"
    if "set ds \<subseteq> set (ts_deliveries s)" for ds
    using that
  proof (induction ds)
    case (Cons d ds)
    obtain e where e: "tab_get te_event_id (dl_event_id d) (ts_events s) = Some e"
      using event_of_delivery [OF assms, of d] Cons.prems by auto
    have "concat (map (\<lambda>e. if te_event_id e = dl_event_id d \<and> P then [(d, e)] else []) es)
        = (if P then map (Pair d) (filter (\<lambda>e. te_event_id e = dl_event_id d) es) else [])" for P es
      by (induction es) auto
    note this [of "due instant locked d" "ts_events s", unfolded filter_key_tab_get [OF ids] e due_def]
    then show ?case using Cons by (simp add: due_def e)
  qed simp
  from this [of "ts_deliveries s"] show ?thesis by (simp add: due_rows_def joined_def)
qed

lemma joined_rows:
  assumes "store_inv s"
  shows "\<forall>(d, e) \<in> set (joined s instant locked). d \<in> set (ts_deliveries s) \<and> due instant locked d
    \<and> tab_get te_event_id (dl_event_id d) (ts_events s) = Some e"
    and "distinct (map dl_event_id (map fst (joined s instant locked)))"
proof -
  show "\<forall>(d, e) \<in> set (joined s instant locked). d \<in> set (ts_deliveries s) \<and> due instant locked d
      \<and> tab_get te_event_id (dl_event_id d) (ts_events s) = Some e"
  proof (intro ballI, clarify)
    fix d e assume "(d, e) \<in> set (joined s instant locked)"
    then have d: "d \<in> set (ts_deliveries s)" "due instant locked d"
      "e = the (tab_get te_event_id (dl_event_id d) (ts_events s))" by (auto simp: joined_def)
    obtain e' where "tab_get te_event_id (dl_event_id d) (ts_events s) = Some e'"
      using event_of_delivery [OF assms d(1)] .
    with d show "d \<in> set (ts_deliveries s) \<and> due instant locked d
      \<and> tab_get te_event_id (dl_event_id d) (ts_events s) = Some e" by simp
  qed
  have "distinct (map dl_event_id (ts_deliveries s))" using assms by (simp add: store_inv_def events_ok_def)
  then show "distinct (map dl_event_id (map fst (joined s instant locked)))"
    by (simp add: joined_def comp_def distinct_map_filter)
qed

lemma sorted_wrt_distinct:
  "sorted_wrt P xs \<Longrightarrow> distinct (map f xs) \<Longrightarrow> sorted_wrt (\<lambda>x y. P x y \<and> f x \<noteq> f y) xs"
  by (induction xs) (auto simp: rev_image_eqI)

lemma run_seq_inj:
  assumes "store_inv s" "e \<in> set (ts_events s)" "e' \<in> set (ts_events s)"
    "te_task_run_id e = te_task_run_id e'" "te_seq e = te_seq e'"
  shows "e = e'"
proof -
  let ?es = "run_events s (te_task_run_id e)"
  have "distinct (map te_seq ?es)" using assms(1) by (simp add: store_inv_def events_ok_def seqs_ok_def)
  moreover have "e \<in> set ?es" "e' \<in> set ?es" using assms(2-4) by (simp_all add: run_events_def)
  ultimately show ?thesis using assms(5) by (auto simp: distinct_map inj_on_def)
qed

lemma due_rows_ok:
  assumes inv: "store_inv s"
  shows "\<forall>(d, e) \<in> set (due_rows s instant limit locked). d \<in> set (ts_deliveries s) \<and> due instant locked d
      \<and> tab_get te_event_id (dl_event_id d) (ts_events s) = Some e" (is "?rows")
    and "rows_current s (map fst (due_rows s instant limit locked))"
    and "sorted_wrt row_before (due_rows s instant limit locked)"
proof -
  let ?k = "\<lambda>(d, e). (te_task_run_id e, te_seq e, dl_event_id d)"
  let ?js = "sort_key ?k (joined s instant locked)"
  have eq: "due_rows s instant limit locked = take limit ?js" by (rule due_rows_joined [OF inv])
  have sub: "set (due_rows s instant limit locked) \<subseteq> set (joined s instant locked)"
    unfolding eq using set_take_subset [of limit ?js] by simp
  then show rows: ?rows using joined_rows(1) [OF inv, of instant locked] by blast
  have "distinct (map (dl_event_id \<circ> fst) ?js)"
    using joined_rows(2) [OF inv, of instant locked]
    by (simp add: distinct_map inj_on_def distinct_sort comp_def)
  then have ids: "distinct (map (dl_event_id \<circ> fst) (due_rows s instant limit locked))"
    unfolding eq by (simp add: distinct_take flip: take_map)
  then show "rows_current s (map fst (due_rows s instant limit locked))"
    using rows by (auto simp: rows_current_def comp_def)
  have "sorted_wrt (\<lambda>a b. ?k a \<le> ?k b) (due_rows s instant limit locked)"
    unfolding eq by (rule sorted_wrt_take) (use sorted_sort_key [of ?k] in \<open>simp only: sorted_map\<close>)
  from sorted_wrt_distinct [OF this ids] show "sorted_wrt row_before (due_rows s instant limit locked)"
  proof (rule sorted_wrt_mono_rel [rotated])
    fix a b assume ab: "a \<in> set (due_rows s instant limit locked)" "b \<in> set (due_rows s instant limit locked)"
      and lt: "?k a \<le> ?k b \<and> (dl_event_id \<circ> fst) a \<noteq> (dl_event_id \<circ> fst) b"
    obtain d e d' e' where x: "a = (d, e)" "b = (d', e')" by (cases a, cases b)
    have "tab_get te_event_id (dl_event_id d) (ts_events s) = Some e"
      "tab_get te_event_id (dl_event_id d') (ts_events s) = Some e'" using rows ab x by auto
    from this [THEN tab_get_Some_D] have "e \<in> set (ts_events s)" "e' \<in> set (ts_events s)" "e \<noteq> e'"
      using lt x by auto
    then have "te_task_run_id e = te_task_run_id e' \<Longrightarrow> te_seq e \<noteq> te_seq e'"
      using run_seq_inj [OF inv] by blast
    then show "row_before a b" using lt x by (auto simp: row_before_def less_eq_prod_def)
  qed
qed

lemma outbox_inv_known:
  assumes "outbox_inv show_time xs s" "\<forall>y \<in> set ys. entry_known show_time s y"
  shows "outbox_inv show_time (xs @ ys) s"
  using assms by (auto simp: outbox_inv_def delivery_kept_def)

lemma dispatch_outbox:
  assumes R: "appends_entries R entries" and inv: "outbox_inv show_time (entries q) s"
    and d: "dispatch_pending_task_events R show_time s q instant limit locked = (res, q')"
  shows "outbox_inv show_time (entries q') s"
    and "res = Inr (n, t) \<Longrightarrow> outbox_inv show_time (entries q') t"
proof -
  let ?rs = "due_rows s instant limit locked"
  have st: "store_inv s" using inv by (simp add: outbox_inv_def)
  note rows = due_rows_ok [OF st, of instant limit locked]
  note pub = d [unfolded dispatch_pending_task_events_def due_deliveries_def]
  have "\<forall>(d, e) \<in> set ?rs. tab_get te_event_id (dl_event_id d) (ts_events s) = Some e" using rows(1) by blast
  from publish_appends [OF R this pub]
  obtain ps where ps: "subseq ps ?rs" "entries q' = entries q @ map (entry_of show_time) ps" by blast
  have "entry_known show_time s (entry_of show_time p)" if "p \<in> set ps" for p
  proof -
    obtain d e where p: "p = (d, e)" by (cases p)
    have "p \<in> set ?rs" using subseq_set [OF ps(1)] that by blast
    then have "d \<in> set (ts_deliveries s)" "tab_get te_event_id (dl_event_id d) (ts_events s) = Some e"
      using rows(1) p by auto
    then show ?thesis using p entry_knownI by simp
  qed
  then show "outbox_inv show_time (entries q') s"
    unfolding ps(2) by (intro outbox_inv_known [OF inv]) auto
  show "res = Inr (n, t) \<Longrightarrow> outbox_inv show_time (entries q') t"
    using publish_outbox [OF R inv rows(2)] pub by simp
qed

lemma dispatcher_outbox:
  assumes R: "appends_entries R entries" and inv: "outbox_inv show_time (entries q) s"
    and d: "dispatcher_tick R show_time s q instant locked commits = (n, t, q')"
  shows "outbox_inv show_time (entries q') t"
proof -
  obtain res q1 where r: "dispatch_pending_task_events R show_time s q instant 100 locked = (res, q1)"
    by fastforce
  show ?thesis
    using dispatch_outbox [OF R inv r] d r
    by (cases res) (auto simp: dispatcher_tick_def split: if_splits)
qed

lemma outbox_inv_empty: "outbox_inv show_time [] empty_store"
  using store_inv_empty by (simp add: outbox_inv_def empty_store_def)

interpretation outbox: invariant_system
  "\<lambda>(s, q). s = empty_store \<and> entries q = []" "bus_step E R show_time entries"
  "\<lambda>(s, q). appends_entries R entries \<longrightarrow> outbox_inv show_time (entries q) s"
  for E R show_time entries
proof
  fix x y assume inv: "case x of (s, q) \<Rightarrow> appends_entries R entries \<longrightarrow> outbox_inv show_time (entries q) s"
    and st: "bus_step E R show_time entries x y"
  from st inv show "case y of (s, q) \<Rightarrow> appends_entries R entries \<longrightarrow> outbox_inv show_time (entries q) s"
    by (cases rule: bus_step.cases) (auto intro: outbox_inv_store_step dispatcher_outbox)
qed (auto simp: outbox_inv_empty)

section \<open>Draining the outbox\<close>

lemma pending_put:
  "dl_status d \<noteq> ''pending'' \<Longrightarrow>
    pending_deliveries (put_delivery s d) = filter (\<lambda>x. dl_event_id x \<noteq> dl_event_id d) (pending_deliveries s)"
proof -
  assume "dl_status d \<noteq> ''pending''"
  then have "filter (\<lambda>x. dl_status x = ''pending'') (map (\<lambda>x. if dl_event_id x = dl_event_id d then d else x) xs)
    = filter (\<lambda>x. dl_event_id x \<noteq> dl_event_id d) (filter (\<lambda>x. dl_status x = ''pending'') xs)" for xs
    by (induction xs) auto
  then show ?thesis by (simp add: pending_deliveries_def tab_put_def)
qed

lemma publish_up:
  assumes "redis_up R" "appends_entries R entries"
    and "\<forall>(d, e) \<in> set rs. tab_get te_event_id (dl_event_id d) (ts_events s) = Some e"
    and "\<forall>(d, e) \<in> set rs. dl_available_at d \<le> B" "\<forall>d \<in> set (ts_deliveries s). dl_available_at d \<le> B"
  shows "\<exists>t q'. publish_deliveries R show_time instant (map fst rs) n s q = (Inr (n + length rs, t), q')
    \<and> entries q' = entries q @ map (entry_of show_time) rs
    \<and> pending_deliveries t = filter (\<lambda>x. dl_event_id x \<notin> dl_event_id ` fst ` set rs) (pending_deliveries s)
    \<and> (\<forall>d \<in> set (ts_deliveries t). dl_available_at d \<le> B) \<and> ts_events t = ts_events s"
  using assms(3-5)
proof (induction rs arbitrary: n s q)
  case (Cons r rs)
  obtain d e where r: "r = (d, e)" by (cases r)
  have e: "tab_get te_event_id (dl_event_id d) (ts_events s) = Some e" using Cons.prems(1) r by simp
  obtain v m q1 where x: "rx_xadd R q (dl_stream_name d) (event_fields show_time e) = (Inr v, q1)"
    "message_id_text v = Inr m" using assms(1) unfolding redis_up_def by blast
  let ?s = "put_delivery s (completed_delivery d instant m)"
  have log: "entries q1 = entries q @ [entry_of show_time r]"
    using xadd_appends(2) [OF assms(2) x(1)] r by (simp add: entry_of_def)
  have "\<forall>d \<in> set (ts_deliveries ?s). dl_available_at d \<le> B"
    using Cons.prems(2,3) r in_set_tab_put [of _ dl_event_id "completed_delivery d instant m" "ts_deliveries s"]
    by (fastforce simp: completed_delivery_def)
  then obtain t q' where t: "publish_deliveries R show_time instant (map fst rs) (n + 1) ?s q1 = (Inr (n + 1 + length rs, t), q')"
    "entries q' = entries q1 @ map (entry_of show_time) rs"
    "pending_deliveries t = filter (\<lambda>x. dl_event_id x \<notin> dl_event_id ` fst ` set rs) (pending_deliveries ?s)"
    "\<forall>d \<in> set (ts_deliveries t). dl_available_at d \<le> B" "ts_events t = ts_events s"
    using Cons.IH [of ?s "n + 1" q1] Cons.prems(1,2) by auto
  have "pending_deliveries t = filter (\<lambda>x. dl_event_id x \<notin> dl_event_id ` fst ` set (r # rs)) (pending_deliveries s)"
    using t(3) r by (simp add: pending_put completed_delivery_def)
  then show ?case using t(1,2,4,5) log x e r by simp
qed simp

lemma length_filter_keys:
  assumes "distinct (map f xs)" "A \<subseteq> f ` set xs"
  shows "length (filter (\<lambda>x. f x \<notin> A) xs) = length xs - card A"
proof -
  let ?ys = "filter (\<lambda>x. f x \<in> A) xs"
  have "distinct (map f ?ys)" using assms(1) by (simp add: distinct_map_filter)
  then have "length ?ys = card (f ` set ?ys)" by (metis distinct_card length_map set_map)
  also have "f ` set ?ys = A" using assms(2) by auto
  finally show ?thesis using sum_length_filter_compl [of "\<lambda>x. f x \<in> A" xs] by simp
qed

lemma tick_drains:
  assumes R: "redis_up R" "appends_entries R entries" and inv: "outbox_inv show_time (entries q) s"
    and B: "\<forall>d \<in> set (ts_deliveries s). dl_available_at d \<le> B" "B \<le> i"
    and d: "dispatcher_tick R show_time s q i (\<lambda>_. False) True = (n, t, q')"
  shows "length (pending_deliveries t) = length (pending_deliveries s) - 100"
    and "\<forall>d \<in> set (ts_deliveries t). dl_available_at d \<le> B"
    and "n = Some (min 100 (length (pending_deliveries s)))" and "ts_events t = ts_events s"
proof -
  let ?rs = "due_rows s i 100 (\<lambda>_. False)" and ?P = "pending_deliveries s"
  have st: "store_inv s" using inv by (simp add: outbox_inv_def)
  note rows = due_rows_ok [OF st, of i 100 "\<lambda>_. False"]
  have get: "\<forall>(d, e) \<in> set ?rs. tab_get te_event_id (dl_event_id d) (ts_events s) = Some e"
    "\<forall>(d, e) \<in> set ?rs. dl_available_at d \<le> B" using rows(1) B(1) by blast+
  from publish_up [OF R this B(1), of show_time i 0 q]
  have pub: "n = Some (length ?rs)" "\<forall>d \<in> set (ts_deliveries t). dl_available_at d \<le> B"
    "pending_deliveries t = filter (\<lambda>x. dl_event_id x \<notin> dl_event_id ` fst ` set ?rs) ?P" "ts_events t = ts_events s"
    using d by (auto simp: dispatcher_tick_def dispatch_pending_task_events_def due_deliveries_def)
  have "filter (due i (\<lambda>_. False)) (ts_deliveries s) = ?P"
    using B by (auto simp: pending_deliveries_def due_def intro!: filter_cong)
  then have len: "length ?rs = min 100 (length ?P)"
    using due_rows_joined [OF st, of i 100 "\<lambda>_. False"] by (simp add: joined_def)
  have ids: "distinct (map dl_event_id ?P)"
    using st by (simp add: store_inv_def events_ok_def pending_deliveries_def distinct_map_filter)
  have "fst ` set ?rs \<subseteq> set ?P" using rows(1) by (auto simp: pending_deliveries_def due_def)
  then have "length (pending_deliveries t) = length ?P - card (dl_event_id ` fst ` set ?rs)"
    unfolding pub(3) by (intro length_filter_keys [OF ids]) blast
  moreover have "card (dl_event_id ` fst ` set ?rs) = length ?rs"
    using rows(2) distinct_card [of "map dl_event_id (map fst ?rs)"]
    by (simp add: rows_current_def image_image)
  ultimately show "length (pending_deliveries t) = length ?P - 100" using len by simp
  show "\<forall>d \<in> set (ts_deliveries t). dl_available_at d \<le> B" "n = Some (min 100 (length ?P))" "ts_events t = ts_events s"
    using pub len by simp_all
qed

lemma ticks_drain:
  assumes R: "redis_up R" "appends_entries R entries" and inv: "outbox_inv show_time (entries q) s"
    and B: "\<forall>d \<in> set (ts_deliveries s). dl_available_at d \<le> B" "\<forall>i \<in> set is. B \<le> i"
    and t: "dispatcher_ticks R show_time is (s, q) = (t, q')"
  shows "outbox_inv show_time (entries q') t \<and> length (pending_deliveries t) = length (pending_deliveries s) - 100 * length is
    \<and> ts_events t = ts_events s"
  using inv B t
proof (induction "is" arbitrary: s q)
  case (Cons i "is")
  obtain n s1 q1 where s1: "dispatcher_tick R show_time s q i (\<lambda>_. False) True = (n, s1, q1)"
    by (cases "dispatcher_tick R show_time s q i (\<lambda>_. False) True") auto
  have i: "B \<le> i" using Cons.prems(3) by simp
  note d = tick_drains [OF R Cons.prems(1,2) i s1]
  show ?case
    using Cons.IH [OF dispatcher_outbox [OF R(2) Cons.prems(1) s1] d(2)] Cons.prems(3,4) s1 d(1,4) by simp
qed simp

section \<open>Lemmas on the scheduler worker\<close>






















section \<open>Lemmas on reading\<close>



section \<open>Sample runs\<close>

lemma utf8_decode_ascii: "\<forall>c \<in> set s. (of_char c :: nat) < 128 \<Longrightarrow> utf8_decode s = Inr s"
  by (induction s) auto

lemma sample_redis_ok: "appends_entries sample_redis (\<lambda>q. q)" "redis_up sample_redis"
proof -
  show "appends_entries sample_redis (\<lambda>q. q)" by (simp add: appends_entries_def sample_redis_def)
  have "utf8_decode (show_nat n @ ''-0'') = Inr (show_nat n @ ''-0'')" for n
    using show_nat_digits [of n] by (intro utf8_decode_ascii) (auto simp: list_all_iff is_digit_def)
  then show "redis_up sample_redis" by (simp add: redis_up_def sample_redis_def message_id_text_def)
qed

lemma bus_tables: "(store_step E)\<^sup>*\<^sup>* s t \<Longrightarrow> (bus_step E R show_time entries)\<^sup>*\<^sup>* (s, q) (t, q)"
  by (induction rule: rtranclp_induct) (auto intro: bus_step.tables rtranclp.rtrancl_into_rtrancl)

lemma sample_bus_reachable:
  "(bus_step sample_hash sample_redis sample_show_time (\<lambda>q. q))\<^sup>*\<^sup>* (empty_store, []) (sample_running, [])"
  by (rule bus_tables [OF sample_running_reachable])




section \<open>Properties\<close>

lemma outbox_reachable:
  assumes "appends_entries R entries" "(bus_step E R show_time entries)\<^sup>*\<^sup>* (empty_store, q0) (s, q)" "entries q0 = []"
  shows "outbox_inv show_time (entries q) s"
  using outbox.inv_reachable [where E = E and R = R and show_time = show_time and entries = entries, OF _ assms(2)]
    assms(1,3) by simp

lemma delivery_of_event:
  assumes "store_inv s" "e \<in> set (ts_events s)"
  obtains d where "tab_get dl_event_id (te_event_id e) (ts_deliveries s) = Some d"
    "tab_get te_event_id (dl_event_id d) (ts_events s) = Some e"
proof -
  have ids: "map dl_event_id (ts_deliveries s) = map te_event_id (ts_events s)"
    "distinct (map te_event_id (ts_events s))" using assms(1) by (auto simp: store_inv_def events_ok_def)
  have "te_event_id e \<in> set (map dl_event_id (ts_deliveries s))" using ids(1) assms(2) by simp
  then obtain d where d: "tab_get dl_event_id (te_event_id e) (ts_deliveries s) = Some d"
    by (metis not_None_eq tab_get_None_iff)
  then show ?thesis using that tab_get_key [OF d] tab_get_distinct [OF ids(2) assms(2)] by simp
qed

text \<open>
  Claim C32: No event is lost between the tables and the stream, and none is made up. However the
  operations of the task runtime, ticks of the dispatcher (with any calls of Redis failing, any rows
  locked, and any commit failing) and readers interleave, from empty tables and streams: every event
  has a delivery row, which is still pending unless the event's entry is on its stream; and every
  entry on a stream is that of an event of the tables, on the stream its delivery names.
\<close>

theorem outbox_no_loss:
  assumes "appends_entries R entries"
    and "(bus_step E R show_time entries)\<^sup>*\<^sup>* (empty_store, q0) (s, q)" and "entries q0 = []"
  shows "(\<forall>e \<in> set (ts_events s). \<exists>d. tab_get dl_event_id (te_event_id e) (ts_deliveries s) = Some d
        \<and> (dl_status d = ''pending'' \<or> entry_of show_time (d, e) \<in> set (entries q)))
    \<and> (\<forall>x \<in> set (entries q). \<exists>e \<in> set (ts_events s). \<exists>d \<in> set (ts_deliveries s).
        dl_event_id d = te_event_id e \<and> x = entry_of show_time (d, e))"
proof -
  note inv = outbox_reachable [OF assms]
  have st: "store_inv s" using inv by (simp add: outbox_inv_def)
  have "\<exists>d. tab_get dl_event_id (te_event_id e) (ts_deliveries s) = Some d
      \<and> (dl_status d = ''pending'' \<or> entry_of show_time (d, e) \<in> set (entries q))" if e: "e \<in> set (ts_events s)" for e
  proof -
    obtain d where d: "tab_get dl_event_id (te_event_id e) (ts_deliveries s) = Some d"
      "tab_get te_event_id (dl_event_id d) (ts_events s) = Some e" by (rule delivery_of_event [OF st e])
    then have "delivery_kept show_time (entries q) s d"
      using inv tab_get_in_set [OF d(1)] by (simp add: outbox_inv_def)
    with d show ?thesis by (auto simp: delivery_kept_def)
  qed
  moreover have "\<forall>x \<in> set (entries q). entry_known show_time s x" using inv by (simp add: outbox_inv_def)
  ultimately show ?thesis unfolding entry_known_def by blast
qed

theorem outbox_no_loss_witness:
  "case dispatcher_tick sample_redis sample_show_time sample_running [] 40 (\<lambda>_. False) True of (n, t, q) \<Rightarrow>
     (\<forall>e \<in> set (ts_events t). \<exists>d. tab_get dl_event_id (te_event_id e) (ts_deliveries t) = Some d
        \<and> (dl_status d = ''pending'' \<or> entry_of sample_show_time (d, e) \<in> set q))
    \<and> (\<forall>x \<in> set q. \<exists>e \<in> set (ts_events t). \<exists>d \<in> set (ts_deliveries t).
        dl_event_id d = te_event_id e \<and> x = entry_of sample_show_time (d, e))"
proof (cases "dispatcher_tick sample_redis sample_show_time sample_running [] 40 (\<lambda>_. False) True")
  case (fields n t q)
  have "(bus_step sample_hash sample_redis sample_show_time (\<lambda>q. q))\<^sup>*\<^sup>* (empty_store, []) (t, q)"
    using sample_bus_reachable bus_step.dispatch [OF fields] by (rule rtranclp.rtrancl_into_rtrancl)
  from outbox_no_loss [OF sample_redis_ok(1) this refl] show ?thesis by (simp add: fields)
qed

text \<open>
  Claim C34: The outbox drains. From any reachable state, once Redis accepts entries, rows are
  not locked and commits succeed, every pending delivery that is due is published: after one tick for
  each hundred pending rows nothing is pending, and every event is on its stream.
\<close>

theorem dispatcher_drains:
  assumes R: "appends_entries R entries" "redis_up R"
    and reach: "(bus_step E R show_time entries)\<^sup>*\<^sup>* (empty_store, q0) (s, q)" "entries q0 = []"
    and enough: "length (pending_deliveries s) \<le> 100 * length is"
    and due: "\<forall>d \<in> set (ts_deliveries s). \<forall>i \<in> set is. dl_available_at d \<le> i"
    and run: "dispatcher_ticks R show_time is (s, q) = (t, q')"
  shows "pending_deliveries t = [] \<and> (\<forall>e \<in> set (ts_events s). \<exists>d.
      tab_get dl_event_id (te_event_id e) (ts_deliveries t) = Some d \<and> entry_of show_time (d, e) \<in> set (entries q'))"
proof -
  note inv = outbox_reachable [OF R(1) reach]
  obtain B where B: "\<forall>d \<in> set (ts_deliveries s). dl_available_at d \<le> B" "\<forall>i \<in> set is. B \<le> i"
  proof (cases "is")
    case Nil
    have "\<forall>d \<in> set (ts_deliveries s). dl_available_at d \<le> Max (dl_available_at ` set (ts_deliveries s))" by simp
    then show ?thesis using that [of "Max (dl_available_at ` set (ts_deliveries s))"] Nil by simp
  next
    case (Cons i js)
    then have "\<forall>d \<in> set (ts_deliveries s). dl_available_at d \<le> Min (set is)" using due by simp
    moreover have "\<forall>i \<in> set is. Min (set is) \<le> i" by simp
    ultimately show ?thesis by (rule that)
  qed
  note t = ticks_drain [OF R(2,1) inv B run]
  then have none: "pending_deliveries t = []" using enough by simp
  have "\<exists>d. tab_get dl_event_id (te_event_id e) (ts_deliveries t) = Some d
      \<and> entry_of show_time (d, e) \<in> set (entries q')" if "e \<in> set (ts_events s)" for e
  proof -
    have st: "store_inv t" and e: "e \<in> set (ts_events t)" using t that by (auto simp: outbox_inv_def)
    obtain d where d: "tab_get dl_event_id (te_event_id e) (ts_deliveries t) = Some d"
      "tab_get te_event_id (dl_event_id d) (ts_events t) = Some e" by (rule delivery_of_event [OF st e])
    moreover have "d \<notin> set (pending_deliveries t)" using none by simp
    ultimately show ?thesis
      using t tab_get_in_set [OF d(1)] by (auto simp: outbox_inv_def delivery_kept_def pending_deliveries_def)
  qed
  with none show ?thesis by blast
qed

theorem dispatcher_drains_witness:
  "case dispatcher_ticks sample_redis sample_show_time [40] (sample_running, []) of (t, q) \<Rightarrow>
     pending_deliveries t = [] \<and> (\<forall>e \<in> set (ts_events sample_running). \<exists>d.
       tab_get dl_event_id (te_event_id e) (ts_deliveries t) = Some d \<and> entry_of sample_show_time (d, e) \<in> set q)"
proof (cases "dispatcher_ticks sample_redis sample_show_time [40] (sample_running, [])")
  case (Pair t q)
  have "length (pending_deliveries sample_running) \<le> 100 * length [40 :: int]"
    "\<forall>d \<in> set (ts_deliveries sample_running). \<forall>i \<in> set [40]. dl_available_at d \<le> i"
    by (simp_all add: pending_deliveries_def sample_running_val sample_queued_val new_delivery_row_def)
  from dispatcher_drains [OF sample_redis_ok sample_bus_reachable refl this Pair] show ?thesis
    unfolding Pair by simp
qed

text \<open>
  A batch is published in order. In any reachable state, whatever Redis answers, the entries
  one dispatch adds are those of at most \<^verbatim>\<open>limit\<close> pending, due and unlocked deliveries, no event twice, and
  the events of a run come in the order of their sequence numbers.
\<close>

theorem dispatch_ordered:
  assumes R: "appends_entries R entries"
    and reach: "(bus_step E R show_time entries)\<^sup>*\<^sup>* (empty_store, q0) (s, q)" "entries q0 = []"
    and run: "dispatch_pending_task_events R show_time s q instant limit locked = (res, q')"
  shows "\<exists>rows. entries q' = entries q @ map (entry_of show_time) rows \<and> length rows \<le> limit
    \<and> distinct (map (te_event_id \<circ> snd) rows) \<and> sorted_wrt row_before rows
    \<and> (\<forall>(d, e) \<in> set rows. d \<in> set (ts_deliveries s) \<and> e \<in> set (ts_events s) \<and> te_event_id e = dl_event_id d
        \<and> due instant locked d)"
proof -
  let ?rs = "due_rows s instant limit locked"
  have st: "store_inv s" using outbox_reachable [OF R reach] by (simp add: outbox_inv_def)
  note rows = due_rows_ok [OF st, of instant limit locked]
  have get: "\<forall>(d, e) \<in> set ?rs. tab_get te_event_id (dl_event_id d) (ts_events s) = Some e" using rows(1) by blast
  from publish_appends [OF R this run [unfolded dispatch_pending_task_events_def due_deliveries_def]]
  obtain ps where ps: "subseq ps ?rs" "entries q' = entries q @ map (entry_of show_time) ps" by blast
  have "length ps \<le> limit"
    using list_emb_length [OF ps(1)] due_rows_joined [OF st, of instant limit locked] by simp
  moreover have "sorted_wrt row_before ps" using sorted_wrt_subseq [OF ps(1) rows(3)] .
  moreover have eq: "map (te_event_id \<circ> snd) ?rs = map (dl_event_id \<circ> fst) ?rs"
    using get tab_get_key by (fastforce intro!: map_cong)
  have "distinct (map (te_event_id \<circ> snd) ?rs)" unfolding eq using rows(2) by (simp add: rows_current_def)
  then have "distinct (map (te_event_id \<circ> snd) ps)" using subseq_distinct_map [OF ps(1)] by blast
  moreover have "d \<in> set (ts_deliveries s) \<and> e \<in> set (ts_events s) \<and> te_event_id e = dl_event_id d
      \<and> due instant locked d" if "(d, e) \<in> set ps" for d e
    using rows(1) subseq_set [OF ps(1)] that by (auto dest!: tab_get_Some_D)
  ultimately show ?thesis using ps(2) by blast
qed

theorem dispatch_ordered_witness:
  "case dispatch_pending_task_events sample_redis sample_show_time sample_running [] 40 2 (\<lambda>_. False) of (res, q) \<Rightarrow>
     \<exists>rows. q = map (entry_of sample_show_time) rows \<and> length rows \<le> 2
       \<and> distinct (map (te_event_id \<circ> snd) rows) \<and> sorted_wrt row_before rows
       \<and> (\<forall>(d, e) \<in> set rows. d \<in> set (ts_deliveries sample_running) \<and> e \<in> set (ts_events sample_running)
           \<and> te_event_id e = dl_event_id d \<and> due 40 (\<lambda>_. False) d)"
proof (cases "dispatch_pending_task_events sample_redis sample_show_time sample_running [] 40 2 (\<lambda>_. False)")
  case (Pair res q)
  from dispatch_ordered [OF sample_redis_ok(1) sample_bus_reachable refl Pair] show ?thesis
    unfolding Pair by simp
qed



end
