(* ===== verification/Open_Shell.thy ===== *)
theory Open_Shell
  imports Sandbox_Broker
begin

text \<open>
  \<^verbatim>\<open>packages/runtime/sandbox/programs.py\<close> and \<^verbatim>\<open>openshell.py\<close>: the programs a sandbox may run and how
  their arguments become an argument vector, and the backend that drives the \<^verbatim>\<open>openshell\<close> command.
  The host (processes, files, clock), the artifact bridge and the policy materializer are injected
  or belong to the system: they are fields of a record, over a state \<open>'w\<close> that every call
  changes, also one that raises.
\<close>

section \<open>Programs\<close>

datatype sandbox_argument_encoding = ENC_SCALAR | ENC_JSON

record sandbox_argument_binding =
  ab_argument :: string
  ab_flag :: "string option"
  ab_required :: bool
  ab_encoding :: sandbox_argument_encoding

definition validate_binding :: "sandbox_argument_binding \<Rightarrow> sandbox_argument_binding res" where
  "validate_binding b =
     raise_if (blank (ab_argument b)) (ValueError ''sandbox argument binding requires argument name'')
     (case ab_flag b of
        None \<Rightarrow> Inr b
      | Some flag \<Rightarrow>
          raise_if (\<not> startswith flag ''-'' \<or> list_ex is_space flag)
            (ValueError ''sandbox argument flag must be a single CLI flag token'') (Inr b))"

record resolved_sandbox_program =
  rp_argv :: "string list"
  rp_workdir :: string
  rp_environment :: "(string \<times> string) list"

definition nul :: char where
  "nul = CHR 0x00"

definition validate_program :: "resolved_sandbox_program \<Rightarrow> resolved_sandbox_program res" where
  "validate_program p =
     raise_if (rp_argv p = []) (ValueError ''argv'')
     (raise_if (\<not> path_is_absolute (rp_workdir p) \<or> ''..'' \<in> set (path_parts (rp_workdir p)))
       (ValueError ''sandbox program workdir must be a normalized absolute path'')
     (raise_if (list_ex (\<lambda>item. nul \<in> set item) (rp_argv p))
       (ValueError ''sandbox argv cannot contain NUL'')
     (raise_if (list_ex (\<lambda>(key, value). key = [] \<or> CHR ''='' \<in> set key \<or> nul \<in> set key \<or> nul \<in> set value)
         (rp_environment p))
       (ValueError ''sandbox program environment is invalid'')
     (Inr p))))"

record sandbox_program_definition =
  pd_program_ref :: string
  pd_argv_prefix :: "string list"
  pd_argument_bindings :: "sandbox_argument_binding list"
  pd_workdir :: string
  pd_environment :: "(string \<times> string) list"

definition validate_definition :: "sandbox_program_definition \<Rightarrow> sandbox_program_definition res" where
  "validate_definition d =
     res_bind (fold_res (\<lambda>b _. res_bind (validate_binding b) (\<lambda>_. Inr ())) (pd_argument_bindings d) ()) (\<lambda>_.
     raise_if (pd_argv_prefix d = []) (ValueError ''argv_prefix'')
     (raise_if (\<not> startswith (pd_program_ref d) ''program:'')
       (ValueError ''SandboxProgramDefinition requires program: reference'')
     (raise_if (\<not> distinct (map ab_argument (pd_argument_bindings d)))
       (ValueError ''sandbox argument bindings must be unique'')
     (res_bind (validate_program \<lparr>rp_argv = pd_argv_prefix d, rp_workdir = pd_workdir d,
         rp_environment = pd_environment d\<rparr>) (\<lambda>_. Inr d)))))"

type_synonym program_table = "(string \<times> sandbox_program_definition) list"

fun add_definitions :: "sandbox_program_definition list \<Rightarrow> program_table \<Rightarrow> program_table res" where
  "add_definitions [] T = Inr T"
| "add_definitions (d # ds) T =
     raise_if (pd_program_ref d \<in> set (map fst T))
       (ValueError (''duplicate sandbox program_ref: '' @ pd_program_ref d))
     (add_definitions ds (T @ [(pd_program_ref d, d)]))"

definition new_program_resolver :: "sandbox_program_definition list \<Rightarrow> program_table res" where
  "new_program_resolver ds = add_definitions ds []"

definition encode_argument :: "json \<Rightarrow> sandbox_argument_encoding \<Rightarrow> string res" where
  "encode_argument value encoding =
     (case encoding of
        ENC_JSON \<Rightarrow> Inr (json_dumps value)
      | ENC_SCALAR \<Rightarrow>
          (case value of
             JNull \<Rightarrow> Inr ''null''
           | JBool b \<Rightarrow> Inr (if b then ''true'' else ''false'')
           | JStr s \<Rightarrow> Inr s
           | JInt i \<Rightarrow> Inr (show_int i)
           | JFloat r \<Rightarrow> Inr r
           | _ \<Rightarrow> Inl (ValueError ''scalar sandbox argument must be string/number/bool/null'')))"

fun bind_arguments :: "sandbox_argument_binding list \<Rightarrow> jdict \<Rightarrow> string list \<Rightarrow> string list res" where
  "bind_arguments [] arguments argv = Inr argv"
| "bind_arguments (b # bs) arguments argv =
     (case map_of arguments (ab_argument b) of
        None \<Rightarrow> bind_arguments bs arguments argv
      | Some value \<Rightarrow>
          (let argv1 = (case ab_flag b of None \<Rightarrow> argv | Some flag \<Rightarrow> argv @ [flag]) in
           res_bind (encode_argument value (ab_encoding b)) (\<lambda>text.
           bind_arguments bs arguments (argv1 @ [text]))))"

definition resolve_program :: "program_table \<Rightarrow> string \<Rightarrow> jdict \<Rightarrow> resolved_sandbox_program res" where
  "resolve_program T program_ref arguments =
     res_bind (res_of_option (LookupError (''sandbox program not registered: '' @ program_ref)) (map_of T program_ref))
       (\<lambda>d.
      let unknown = sort (filter (\<lambda>a. a \<notin> set (map ab_argument (pd_argument_bindings d))) (map fst arguments));
          missing = sort (map ab_argument (filter (\<lambda>b. ab_required b \<and> ab_argument b \<notin> set (map fst arguments))
                      (pd_argument_bindings d)))
      in raise_if (unknown \<noteq> []) (ValueError (''sandbox program argument not allowed: '' @ hd unknown))
         (raise_if (missing \<noteq> []) (ValueError (''sandbox program argument required: '' @ hd missing))
         (res_bind (bind_arguments (pd_argument_bindings d) arguments (pd_argv_prefix d)) (\<lambda>argv.
          validate_program \<lparr>rp_argv = argv, rp_workdir = pd_workdir d, rp_environment = pd_environment d\<rparr>))))"

section \<open>Running commands\<close>

record command_result =
  co_argv :: "string list"
  co_returncode :: int
  co_stdout :: string
  co_stderr :: string
  co_timed_out :: bool

text \<open>What \<^verbatim>\<open>create_subprocess_exec\<close> and \<^verbatim>\<open>communicate\<close> amount to: the process ended, or was killed at the timeout.\<close>

datatype process_end = Ended "int option" string string | Killed "int option" string string

definition asyncio_run ::
  "(string list \<Rightarrow> rat \<Rightarrow> ('w, process_end) io) \<Rightarrow> string list \<Rightarrow> rat \<Rightarrow> ('w, command_result) io" where
  "asyncio_run subprocess argv timeout_seconds =
     io_bind (io_res (raise_if (argv = [] \<or> \<not> path_is_absolute (hd argv))
       (ValueError ''OpenShell runner requires an absolute executable path'') (Inr ()))) (\<lambda>_.
     io_bind (io_res (raise_if (timeout_seconds \<le> 0)
       (ValueError ''OpenShell command timeout must be positive'') (Inr ()))) (\<lambda>_.
     io_bind (subprocess argv timeout_seconds) (\<lambda>p.
     io_res (Inr (case p of
        Killed rc out err \<Rightarrow> \<lparr>co_argv = argv, co_returncode = (case rc of None \<Rightarrow> -1 | Some n \<Rightarrow> n),
          co_stdout = out, co_stderr = err, co_timed_out = True\<rparr>
      | Ended rc out err \<Rightarrow> \<lparr>co_argv = argv, co_returncode = (case rc of None \<Rightarrow> 0 | Some n \<Rightarrow> n),
          co_stdout = out, co_stderr = err, co_timed_out = False\<rparr>)))))"

section \<open>The dialect\<close>

definition dialect_create :: "string \<Rightarrow> string \<Rightarrow> string \<Rightarrow> string \<Rightarrow> string option \<Rightarrow> string list" where
  "dialect_create approval_mode executable name policy_path image_ref =
     [executable, ''sandbox'', ''create'', ''--name'', name, ''--policy'', policy_path,
      ''--approval-mode'', approval_mode, ''--detach'']
     @ (case image_ref of None \<Rightarrow> [] | Some ref' \<Rightarrow> [''--from'', ref'])"

text \<open>The environment is a dict: its items in the order of their keys.\<close>

definition dialect_exec :: "string \<Rightarrow> string \<Rightarrow> resolved_sandbox_program \<Rightarrow> string list" where
  "dialect_exec executable name program =
     [executable, ''sandbox'', ''exec'', ''--name'', name, ''--workdir'', rp_workdir program]
     @ concat (map (\<lambda>(key, value). [''--env'', key @ ''='' @ value]) (sort_key fst (rp_environment program)))
     @ [''--''] @ rp_argv program"

definition dialect_upload :: "string \<Rightarrow> string \<Rightarrow> string \<Rightarrow> string \<Rightarrow> string list" where
  "dialect_upload executable name local_path remote_path =
     [executable, ''sandbox'', ''upload'', ''--name'', name, local_path, remote_path]"

definition dialect_download :: "string \<Rightarrow> string \<Rightarrow> string \<Rightarrow> string \<Rightarrow> string list" where
  "dialect_download executable name remote_path local_path =
     [executable, ''sandbox'', ''download'', ''--name'', name, remote_path, local_path]"

definition dialect_delete :: "string \<Rightarrow> string \<Rightarrow> string list" where
  "dialect_delete executable name = [executable, ''sandbox'', ''delete'', name]"

definition dialect_get :: "string \<Rightarrow> string \<Rightarrow> string list" where
  "dialect_get executable name = [executable, ''sandbox'', ''get'', ''--name'', name, ''--json'']"

section \<open>Names and paths\<close>

definition sandbox_name :: "hash_env \<Rightarrow> string \<Rightarrow> string" where
  "sandbox_name E execution_id = ''secfusion-'' @ take 20 (sha256_hex E execution_id)"

text \<open>
  \<^verbatim>\<open>str.isalnum()\<close> of one character: letters, digits, and the superscripts and fractions, which are numeric.
\<close>

definition is_alnum :: "char \<Rightarrow> bool" where
  "is_alnum c = (let n = (of_char c :: nat) in
     (48 \<le> n \<and> n \<le> 57) \<or> (65 \<le> n \<and> n \<le> 90) \<or> (97 \<le> n \<and> n \<le> 122)
     \<or> n \<in> {170, 178, 179, 181, 185, 186, 188, 189, 190} \<or> (192 \<le> n \<and> n \<noteq> 215 \<and> n \<noteq> 247))"

definition strip_chars :: "string \<Rightarrow> string \<Rightarrow> string" where
  "strip_chars cs s = rev (dropWhile (\<lambda>c. c \<in> set cs) (rev (dropWhile (\<lambda>c. c \<in> set cs) s)))"

definition safe_component :: "string \<Rightarrow> string res" where
  "safe_component value =
     (let normalized = strip_chars ''.-_'' (map (\<lambda>c. if is_alnum c \<or> c \<in> set ''-_.'' then c else CHR ''-'') value) in
      raise_if (normalized = []) (ValueError ''sandbox path component becomes empty after normalization'')
      (Inr (take 96 normalized)))"

text \<open>\<^verbatim>\<open>PurePosixPath(path).name\<close>: the last component, empty for a path without one.\<close>

definition path_name :: "string \<Rightarrow> string" where
  "path_name path = (case path_parts path of [] \<Rightarrow> [] | p # ps \<Rightarrow> last (p # ps))"

text \<open>The result is the list of components; \<^verbatim>\<open>as_posix()\<close> joins them.\<close>

definition safe_relative_path :: "string \<Rightarrow> string list res" where
  "safe_relative_path value =
     raise_if (path_is_absolute value \<or> ''..'' \<in> set (path_parts value) \<or> path_parts value = [])
       (ValueError ''sandbox export path must be normalized relative path'') (Inr (path_parts value))"

definition require_handle :: "string \<Rightarrow> string res" where
  "require_handle value =
     raise_if (\<not> startswith value ''secfusion-'') (ValueError ''invalid OpenShell backend handle'') (Inr value)"

definition pad4 :: "nat \<Rightarrow> string" where
  "pad4 n = replicate (4 - length (show_nat n)) (CHR ''0'') @ show_nat n"

section \<open>The backend\<close>

text \<open>
  The collaborators of \<^verbatim>\<open>OpenShellBackend\<close> and the system calls it makes. \<open>ob_local_file\<close> tells whether
  a path resolves to a regular file under a directory, \<open>ob_decode\<close> is
  \<^verbatim>\<open>bytes.decode("utf-8", errors="replace")\<close>, \<open>ob_temp_dir\<close> draws the name of a \<^verbatim>\<open>TemporaryDirectory\<close>.
\<close>

record 'w openshell_backend =
  ob_executable :: string
  ob_approval_mode :: string
  ob_command_timeout :: rat
  ob_delete_wait :: rat
  ob_delete_poll :: rat
  ob_resolve :: "string \<Rightarrow> jdict \<Rightarrow> ('w, resolved_sandbox_program) io"
  ob_policy :: "sandbox_lease \<Rightarrow> string \<Rightarrow> ('w, string) io"
  ob_run :: "string list \<Rightarrow> rat \<Rightarrow> ('w, command_result) io"
  ob_materialize :: "string \<Rightarrow> string \<Rightarrow> ('w, string) io"
  ob_ingest_bytes :: "string \<Rightarrow> string \<Rightarrow> string \<Rightarrow> ('w, string) io"
  ob_ingest_file :: "string \<Rightarrow> string \<Rightarrow> ('w, string) io"
  ob_temp_dir :: "string \<Rightarrow> ('w, string) io"
  ob_mkdir :: "string \<Rightarrow> ('w, unit) io"
  ob_is_file :: "'w \<Rightarrow> string \<Rightarrow> bool"
  ob_local_file :: "'w \<Rightarrow> string \<Rightarrow> string \<Rightarrow> bool"
  ob_time :: "'w \<Rightarrow> rat"
  ob_sleep :: "rat \<Rightarrow> 'w \<Rightarrow> 'w"
  ob_decode :: "string \<Rightarrow> string"

text \<open>
  The checks of the constructor on a backend with its fields set: \<open>executable\<close> is the argument, \<open>which\<close>
  what \<^verbatim>\<open>shutil.which\<close> finds, and \<open>absolute\<close> is \<^verbatim>\<open>Path.resolve\<close>.
\<close>

definition new_openshell_backend ::
  "'w openshell_backend \<Rightarrow> string option \<Rightarrow> string option \<Rightarrow> (string \<Rightarrow> string) \<Rightarrow> 'w openshell_backend res" where
  "new_openshell_backend B executable which absolute =
     (let resolved = (if executable = None \<or> executable = Some [] then which else executable) in
      res_bind (res_of_option (SandboxUnavailable ''openshell_cli_unavailable'') resolved) (\<lambda>path.
      let executable_path = (if path_is_absolute path then path else absolute path) in
      raise_if (min (ob_command_timeout B) (min (ob_delete_wait B) (ob_delete_poll B)) \<le> 0)
        (ValueError ''OpenShell backend timeouts must be positive'')
      (Inr (B\<lparr>ob_executable := executable_path\<rparr>))))"

definition require_local_file :: "'w openshell_backend \<Rightarrow> string \<Rightarrow> string \<Rightarrow> string \<Rightarrow> ('w, unit) io" where
  "require_local_file B path dir label w =
     (raise_if (\<not> ob_local_file B w path dir)
        (SandboxUnavailable (label @ '' must be a regular file inside the controlled staging root'')) (Inr ()), w)"

definition require_success :: "'w openshell_backend \<Rightarrow> command_result \<Rightarrow> string \<Rightarrow> unit res" where
  "require_success B r failure_code =
     raise_if (co_timed_out r) (SandboxUnavailable (failure_code @ '':timeout''))
     (raise_if (co_returncode r \<noteq> 0)
       (SandboxUnavailable (failure_code @ '':'' @ take 512 (ob_decode B (co_stderr r)))) (Inr ()))"

fun upload_loop :: "'w openshell_backend \<Rightarrow> string \<Rightarrow> string \<Rightarrow> string \<Rightarrow> nat \<Rightarrow> string list \<Rightarrow> ('w, unit) io" where
  "upload_loop B name remote_root dir i [] = io_res (Inr ())"
| "upload_loop B name remote_root dir i (artifact_ref # refs) =
     io_bind (io_res (raise_if (\<not> startswith artifact_ref ''artifact:'')
       (ValueError ''OpenShell backend only accepts ArtifactRef inputs'') (Inr ()))) (\<lambda>_.
     io_bind (ob_materialize B artifact_ref dir) (\<lambda>local_path.
     io_bind (require_local_file B local_path dir ''sandbox artifact'') (\<lambda>_.
     io_bind (io_res (safe_component (path_name local_path))) (\<lambda>component.
     io_bind (ob_run B (dialect_upload (ob_executable B) name local_path
         (remote_root @ ''/'' @ pad4 i @ ''-'' @ component)) (ob_command_timeout B)) (\<lambda>result.
     io_bind (io_res (require_success B result ''openshell_upload_failed'')) (\<lambda>_.
     upload_loop B name remote_root dir (i + 1) refs))))))"

definition upload_artifacts ::
  "'w openshell_backend \<Rightarrow> string \<Rightarrow> string list \<Rightarrow> string \<Rightarrow> string \<Rightarrow> ('w, unit) io" where
  "upload_artifacts B name refs remote_root dir =
     (if refs = [] then io_res (Inr ())
      else io_bind (ob_mkdir B dir) (\<lambda>_. upload_loop B name remote_root dir 0 refs))"

definition delete_best_effort :: "'w openshell_backend \<Rightarrow> string \<Rightarrow> 'w \<Rightarrow> 'w" where
  "delete_best_effort B name w = snd (ob_run B (dialect_delete (ob_executable B) name) (ob_command_timeout B) w)"

definition openshell_create :: "hash_env \<Rightarrow> 'w openshell_backend \<Rightarrow> sandbox_lease \<Rightarrow> ('w, string) io" where
  "openshell_create E B lease =
     (let name = sandbox_name E (ls_execution_id lease) in
      io_bind (ob_temp_dir B ''secfusion-openshell-create-'') (\<lambda>dir.
      io_bind (ob_policy B lease dir) (\<lambda>policy_path.
      io_bind (require_local_file B policy_path dir ''OpenShell policy'') (\<lambda>_.
      io_bind (ob_run B (dialect_create (ob_approval_mode B) (ob_executable B) name policy_path
          (sp_image_ref_or_digest (ls_profile lease))) (ob_command_timeout B)) (\<lambda>result.
      io_bind (io_res (require_success B result ''openshell_create_failed'')) (\<lambda>_.
      io_bind (io_on_error
        (io_bind (upload_artifacts B name (ls_workspace_artifact_refs lease) ''/workspace/inputs'' (dir @ ''/workspace'')) (\<lambda>_.
         upload_artifacts B name (ls_readonly_artifact_refs lease) ''/workspace/readonly'' (dir @ ''/readonly'')))
        (delete_best_effort B name)) (\<lambda>_.
      io_res (Inr name))))))))"

definition openshell_exec ::
  "'w openshell_backend \<Rightarrow> string \<Rightarrow> sandbox_exec_request \<Rightarrow> rat \<Rightarrow> ('w, sandbox_backend_exec_result) io" where
  "openshell_exec B backend_handle_ref q timeout_seconds =
     io_bind (io_res (require_handle backend_handle_ref)) (\<lambda>name.
     io_bind (ob_resolve B (eq_program_ref q) (eq_arguments q)) (\<lambda>program.
     io_bind (ob_temp_dir B ''secfusion-openshell-exec-'') (\<lambda>dir.
     io_bind (io_res (safe_component (eq_operation_id q))) (\<lambda>component.
     io_bind (upload_artifacts B name (eq_input_artifact_refs q) (''/workspace/operation-inputs/'' @ component)
       (dir @ ''/inputs'')) (\<lambda>_.
     io_bind (ob_run B (dialect_exec (ob_executable B) name program) timeout_seconds) (\<lambda>result.
     io_bind (ob_ingest_bytes B (co_stdout result) ''text/plain; charset=utf-8'' (eq_operation_id q @ ''.stdout'')) (\<lambda>stdout_ref.
     io_bind (ob_ingest_bytes B (co_stderr result) ''text/plain; charset=utf-8'' (eq_operation_id q @ ''.stderr'')) (\<lambda>stderr_ref.
     io_res (Inr (if co_timed_out result
       then \<lparr>bx_status = ''timed_out'', bx_exit_code = None, bx_stdout_artifact_ref = Some stdout_ref,
             bx_stderr_artifact_ref = Some stderr_ref, bx_failure_code = Some ''openshell_exec_timeout''\<rparr>
       else \<lparr>bx_status = (if co_returncode result = 0 then ''succeeded'' else ''failed''),
             bx_exit_code = Some (co_returncode result), bx_stdout_artifact_ref = Some stdout_ref,
             bx_stderr_artifact_ref = Some stderr_ref,
             bx_failure_code = (if co_returncode result = 0 then None else Some ''openshell_exec_failed'')\<rparr>))))))))))"

fun export_loop :: "'w openshell_backend \<Rightarrow> string \<Rightarrow> string \<Rightarrow> nat \<Rightarrow> string list \<Rightarrow> string list \<Rightarrow> ('w, string list) io" where
  "export_loop B name dir i [] refs = io_res (Inr refs)"
| "export_loop B name dir i (relative # rest) refs =
     io_bind (io_res (safe_relative_path relative)) (\<lambda>parts.
     let local_path = dir @ ''/export-'' @ show_nat i @ ''-'' @ last parts in
     io_bind (ob_run B (dialect_download (ob_executable B) name (''/workspace/'' @ join ''/'' parts) local_path)
       (ob_command_timeout B)) (\<lambda>result.
     io_bind (io_res (require_success B result ''openshell_download_failed'')) (\<lambda>_.
     io_bind (\<lambda>w. (raise_if (\<not> ob_is_file B w local_path)
       (SandboxUnavailable ''openshell_download_missing_output'') (Inr ()), w)) (\<lambda>_.
     io_bind (ob_ingest_file B local_path (last parts)) (\<lambda>artifact_ref.
     export_loop B name dir (i + 1) rest (refs @ [artifact_ref]))))))"

definition openshell_export :: "'w openshell_backend \<Rightarrow> string \<Rightarrow> string list \<Rightarrow> ('w, string list) io" where
  "openshell_export B backend_handle_ref relative_paths =
     io_bind (io_res (require_handle backend_handle_ref)) (\<lambda>name.
     io_bind (ob_temp_dir B ''secfusion-openshell-export-'') (\<lambda>dir.
     export_loop B name dir 0 relative_paths []))"

text \<open>
  The polling loop of \<^verbatim>\<open>destroy\<close> ends when the clock says so, which is the host's: \<open>None\<close> is a loop
  that never ends.
\<close>

partial_function (option) await_deleted :: "'w openshell_backend \<Rightarrow> string \<Rightarrow> rat \<Rightarrow> 'w \<Rightarrow> (unit res \<times> 'w) option" where
  "await_deleted B name deadline w =
     (if ob_time B w < deadline
      then (case ob_run B (dialect_get (ob_executable B) name) (min (ob_command_timeout B) (ob_delete_poll B * 4)) w of
              (Inl e, w1) \<Rightarrow> Some (Inl e, w1)
            | (Inr probe, w1) \<Rightarrow>
                if co_returncode probe \<noteq> 0 then Some (Inr (), w1)
                else await_deleted B name deadline (ob_sleep B (ob_delete_poll B) w1))
      else Some (Inl (SandboxUnavailable ''openshell_delete_not_confirmed''), w))"

definition openshell_destroy :: "'w openshell_backend \<Rightarrow> string \<Rightarrow> 'w \<Rightarrow> (unit res \<times> 'w) option" where
  "openshell_destroy B backend_handle_ref w =
     (case require_handle backend_handle_ref of
        Inl e \<Rightarrow> Some (Inl e, w)
      | Inr name \<Rightarrow>
          (case io_bind (ob_run B (dialect_delete (ob_executable B) name) (ob_command_timeout B))
                  (\<lambda>result. io_res (require_success B result ''openshell_delete_failed'')) w of
             (Inl e, w1) \<Rightarrow> Some (Inl e, w1)
           | (Inr _, w1) \<Rightarrow> await_deleted B name (ob_time B w1 + ob_delete_wait B) w1))"

text \<open>
  \<^verbatim>\<open>StaticOpenShellPolicyMaterializer\<close>: \<open>is_file\<close> and \<open>copyfile\<close> are the host's.
\<close>

definition static_policy_materialize ::
  "(string \<times> string) list \<Rightarrow> ('w \<Rightarrow> string \<Rightarrow> bool) \<Rightarrow> (string \<Rightarrow> string \<Rightarrow> ('w, unit) io)
     \<Rightarrow> sandbox_lease \<Rightarrow> string \<Rightarrow> ('w, string) io" where
  "static_policy_materialize policy_paths is_file copyfile lease destination_dir =
     io_bind (io_res (res_of_option (SandboxUnavailable (''openshell_policy_unavailable:'' @ sp_profile_id (ls_profile lease)))
       (map_of policy_paths (sp_profile_id (ls_profile lease))))) (\<lambda>source.
     io_bind (\<lambda>w. (raise_if (\<not> is_file w source)
       (SandboxUnavailable (''openshell_policy_missing:'' @ sp_profile_id (ls_profile lease))) (Inr ()), w)) (\<lambda>_.
     io_bind (copyfile source (destination_dir @ ''/policy.yaml'')) (\<lambda>_.
     io_res (Inr (destination_dir @ ''/policy.yaml'')))))"

definition build_openshell_backend_aliases :: "'b \<Rightarrow> string option \<Rightarrow> (string \<times> 'b) list" where
  "build_openshell_backend_aliases backend docker =
     (''openshell'', backend) # (if docker \<noteq> None then [(''openshell+docker'', backend)] else [])"

section \<open>What the backend promises\<close>

text \<open>
  \<open>trail\<close> reads the commands run so far from the state of the host: running one adds it, and nothing else does.
\<close>

definition logs_commands :: "'w openshell_backend \<Rightarrow> ('w \<Rightarrow> string list list) \<Rightarrow> bool" where
  "logs_commands B trail \<longleftrightarrow>
     (\<forall>argv t w. trail (snd (ob_run B argv t w)) = trail w @ [argv])
     \<and> (\<forall>x y w. trail (snd (ob_resolve B x y w)) = trail w) \<and> (\<forall>x y w. trail (snd (ob_policy B x y w)) = trail w)
     \<and> (\<forall>x y w. trail (snd (ob_materialize B x y w)) = trail w)
     \<and> (\<forall>x y z w. trail (snd (ob_ingest_bytes B x y z w)) = trail w)
     \<and> (\<forall>x y w. trail (snd (ob_ingest_file B x y w)) = trail w) \<and> (\<forall>x w. trail (snd (ob_temp_dir B x w)) = trail w)
     \<and> (\<forall>x w. trail (snd (ob_mkdir B x w)) = trail w) \<and> (\<forall>d w. trail (ob_sleep B d w) = trail w)"

definition issues :: "('w \<Rightarrow> string list list) \<Rightarrow> (string list \<Rightarrow> bool) \<Rightarrow> ('w, 'a) io \<Rightarrow> bool" where
  "issues trail P m \<longleftrightarrow> (\<forall>w. \<exists>cs. trail (snd (m w)) = trail w @ cs \<and> list_all P cs)"

text \<open>An absolute path that leads to a place under \<^verbatim>\<open>/workspace\<close>.\<close>

definition under_workspace :: "string \<Rightarrow> bool" where
  "under_workspace path \<longleftrightarrow> path_is_absolute path \<and> prefix [''workspace''] (resolve_path [] path)"

definition confined_command :: "string \<Rightarrow> string \<Rightarrow> string list \<Rightarrow> bool" where
  "confined_command executable name c \<longleftrightarrow>
     (\<exists>mode policy img. c = dialect_create mode executable name policy img)
     \<or> (\<exists>program. c = dialect_exec executable name program)
     \<or> (\<exists>path remote. c = dialect_upload executable name path remote \<and> under_workspace remote)
     \<or> (\<exists>remote path. c = dialect_download executable name remote path \<and> under_workspace remote)
     \<or> c = dialect_delete executable name \<or> c = dialect_get executable name"

text \<open>The clock of the event loop never goes back, and sleeping takes at least as long as asked.\<close>

definition clock_ok :: "'w openshell_backend \<Rightarrow> bool" where
  "clock_ok B \<longleftrightarrow> (\<forall>argv t w. ob_time B w \<le> ob_time B (snd (ob_run B argv t w)))
     \<and> (\<forall>d w. ob_time B w + d \<le> ob_time B (ob_sleep B d w))"

text \<open>The last part of \<^verbatim>\<open>create\<close>, after the sandbox came up.\<close>

definition fill_sandbox :: "'w openshell_backend \<Rightarrow> string \<Rightarrow> sandbox_lease \<Rightarrow> string \<Rightarrow> ('w, string) io" where
  "fill_sandbox B name lease dir =
     io_bind (io_on_error
        (io_bind (upload_artifacts B name (ls_workspace_artifact_refs lease) ''/workspace/inputs'' (dir @ ''/workspace'')) (\<lambda>_.
         upload_artifacts B name (ls_readonly_artifact_refs lease) ''/workspace/readonly'' (dir @ ''/readonly'')))
        (delete_best_effort B name)) (\<lambda>_.
      io_res (Inr name))"

text \<open>What a binding adds to the argument vector.\<close>

definition binding_tokens :: "jdict \<Rightarrow> sandbox_argument_binding \<Rightarrow> string list" where
  "binding_tokens arguments b =
     (case map_of arguments (ab_argument b) of
        None \<Rightarrow> []
      | Some value \<Rightarrow> (case ab_flag b of None \<Rightarrow> [] | Some flag \<Rightarrow> [flag])
          @ (case encode_argument value (ab_encoding b) of Inl _ \<Rightarrow> [] | Inr text' \<Rightarrow> [text']))"

text \<open>
  A host for the concrete instances: its state is the time and the commands run. The first probe finds
  the sandbox gone, every other command succeeds.
\<close>

definition sample_program :: sandbox_program_definition where
  "sample_program = \<lparr>pd_program_ref = ''program:scan'', pd_argv_prefix = [''/bin/scan''],
     pd_argument_bindings = [\<lparr>ab_argument = ''target'', ab_flag = Some ''--target'', ab_required = True, ab_encoding = ENC_SCALAR\<rparr>],
     pd_workdir = ''/workspace'', pd_environment = [(''LANG'', ''C'')]\<rparr>"

definition sample_openshell :: "(rat \<times> string list list) openshell_backend" where
  "sample_openshell =
     \<lparr>ob_executable = ''/usr/bin/openshell'', ob_approval_mode = ''manual'', ob_command_timeout = 30, ob_delete_wait = 15,
      ob_delete_poll = 1, ob_resolve = (\<lambda>ref' args. io_res (resolve_program [(''program:scan'', sample_program)] ref' args)),
      ob_policy = (\<lambda>lease dir. io_res (Inr (dir @ ''/policy.yaml''))),
      ob_run = (\<lambda>argv t (now, cs). (Inr \<lparr>co_argv = argv, co_returncode = (if argv ! 2 = ''get'' then 1 else 0),
        co_stdout = [], co_stderr = [], co_timed_out = False\<rparr>, (now + 1, cs @ [argv]))),
      ob_materialize = (\<lambda>ref' dir. io_res (Inr (dir @ ''/input''))), ob_ingest_bytes = (\<lambda>body media name. io_res (Inr ''artifact:x'')),
      ob_ingest_file = (\<lambda>path name. io_res (Inr ''artifact:y'')), ob_temp_dir = (\<lambda>pre. io_res (Inr ''/tmp/d'')),
      ob_mkdir = (\<lambda>dir. io_res (Inr ())), ob_is_file = (\<lambda>w path. True), ob_local_file = (\<lambda>w path dir. True),
      ob_time = fst, ob_sleep = (\<lambda>d (now, cs). (now + d, cs)), ob_decode = (\<lambda>b. b)\<rparr>"

section \<open>Lemmas on argument vectors\<close>

lemma bind_arguments_ok:
  "bind_arguments bs arguments argv = Inr r \<Longrightarrow> r = argv @ concat (map (binding_tokens arguments) bs)"
proof (induction bs arbitrary: argv)
  case (Cons b bs)
  show ?case
  proof (cases "map_of arguments (ab_argument b)")
    case None
    then show ?thesis using Cons by (simp add: binding_tokens_def)
  next
    case (Some v)
    then obtain text' where enc: "encode_argument v (ab_encoding b) = Inr text'"
      using Cons.prems by (auto simp: res_simps)
    have "bind_arguments bs arguments ((case ab_flag b of None \<Rightarrow> argv | Some flag \<Rightarrow> argv @ [flag]) @ [text']) = Inr r"
      using Cons.prems Some enc by simp
    from Cons.IH [OF this] show ?thesis using Some enc
      by (cases "ab_flag b") (simp_all add: binding_tokens_def)
  qed
qed simp

lemma add_definitions_ok:
  assumes "add_definitions ds T = Inr T'"
  shows "T' = T @ map (\<lambda>d. (pd_program_ref d, d)) ds"
  using assms
proof (induction ds arbitrary: T)
  case (Cons d ds)
  then show ?case using Cons.IH [of "T @ [(pd_program_ref d, d)]"] by (simp add: res_simps)
qed simp

lemma sort_Nil_iff: "sort xs = [] \<longleftrightarrow> xs = []"
  by (metis length_0_conv length_sort)

lemma validate_program_ok:
  "validate_program p = Inr p' \<longleftrightarrow> p' = p \<and> rp_argv p \<noteq> [] \<and> path_is_absolute (rp_workdir p)
     \<and> ''..'' \<notin> set (path_parts (rp_workdir p)) \<and> (\<forall>item \<in> set (rp_argv p). nul \<notin> set item)
     \<and> (\<forall>(k, v) \<in> set (rp_environment p). k \<noteq> [] \<and> CHR ''='' \<notin> set k \<and> nul \<notin> set k \<and> nul \<notin> set v)"
  by (auto simp: validate_program_def res_simps list_ex_iff)

lemma resolve_program_ok:
  assumes "resolve_program T ref' arguments = Inr p"
  obtains d where "map_of T ref' = Some d" "rp_workdir p = pd_workdir d" "rp_environment p = pd_environment d"
    "rp_argv p = pd_argv_prefix d @ concat (map (binding_tokens arguments) (pd_argument_bindings d))"
    "set (map fst arguments) \<subseteq> set (map ab_argument (pd_argument_bindings d))"
    "\<forall>b \<in> set (pd_argument_bindings d). ab_required b \<longrightarrow> ab_argument b \<in> set (map fst arguments)"
    "validate_program p = Inr p"
proof -
  from assms obtain d argv where d: "map_of T ref' = Some d"
    "filter (\<lambda>a. a \<notin> set (map ab_argument (pd_argument_bindings d))) (map fst arguments) = []"
    "filter (\<lambda>b. ab_required b \<and> ab_argument b \<notin> set (map fst arguments)) (pd_argument_bindings d) = []"
    "bind_arguments (pd_argument_bindings d) arguments (pd_argv_prefix d) = Inr argv"
    "validate_program \<lparr>rp_argv = argv, rp_workdir = pd_workdir d, rp_environment = pd_environment d\<rparr> = Inr p"
    unfolding resolve_program_def Let_def res_simps sort_Nil_iff map_is_Nil_conv not_not by blast
  have p: "p = \<lparr>rp_argv = argv, rp_workdir = pd_workdir d, rp_environment = pd_environment d\<rparr>"
    using d(5) by (simp add: validate_program_ok)
  show ?thesis
    using that [OF d(1)] bind_arguments_ok [OF d(4)] d(2,3,5) p by (auto simp: filter_empty_conv)
qed

lemma startswith_hd: "startswith s (c # p) \<Longrightarrow> s \<noteq> [] \<and> hd s = c"
  by (cases s) (auto simp: startswith_def)

lemma absolute_not_dashes: "path_is_absolute s \<Longrightarrow> s \<noteq> ''--''"
  by (auto simp: path_is_absolute_def startswith_def)

lemma dropWhile_options:
  "\<forall>x \<in> set xs. x \<noteq> m \<Longrightarrow> dropWhile (\<lambda>a. a \<noteq> m) (xs @ m # ys) = m # ys"
  by (induction xs) auto

lemma dialect_exec_split:
  assumes "path_is_absolute executable" "startswith name ''secfusion-''" "path_is_absolute (rp_workdir p)"
  shows "dropWhile (\<lambda>a. a \<noteq> ''--'') (dialect_exec executable name p) = ''--'' # rp_argv p"
proof -
  let ?opts = "[executable, ''sandbox'', ''exec'', ''--name'', name, ''--workdir'', rp_workdir p]
     @ concat (map (\<lambda>(key, value). [''--env'', key @ ''='' @ value]) (sort_key fst (rp_environment p)))"
  have env: "x \<noteq> ''--''" if "x \<in> {''--env'', k @ ''='' @ v}" for x k v :: string
  proof -
    have "CHR ''='' \<in> set (k @ ''='' @ v)" "CHR ''='' \<notin> set ''--''" by simp_all
    then have "k @ ''='' @ v \<noteq> ''--''" by metis
    with that show ?thesis by auto
  qed
  have "name \<noteq> ''--''" using assms(2) by (auto simp: startswith_def)
  moreover have "x \<noteq> ''--''" if "x \<in> set (concat (map (\<lambda>(key, value). [''--env'', key @ ''='' @ value])
      (sort_key fst (rp_environment p))))" for x
  proof -
    from that obtain k v where "x \<in> {''--env'', k @ ''='' @ v}" by auto
    then show ?thesis by (rule env)
  qed
  ultimately have "\<forall>x \<in> set ?opts. x \<noteq> ''--''"
    using absolute_not_dashes [OF assms(1)] absolute_not_dashes [OF assms(3)]
    by (simp only: set_append ball_Un) simp
  from dropWhile_options [OF this, of "rp_argv p"] show ?thesis by (simp add: dialect_exec_def)
qed

section \<open>Lemmas on paths\<close>

lemma split_char_ne: "split_char c s \<noteq> []"
  by (induction s) (auto split: list.splits)

lemma split_char_append: "split_char c (a @ c # b) = split_char c a @ split_char c b"
proof (induction a)
  case (Cons x a)
  then show ?case using split_char_ne [of c a] by (auto split: list.splits)
qed simp

lemma split_char_none: "c \<notin> set s \<Longrightarrow> split_char c s = [s]"
  by (induction s) auto

lemma split_char_free: "p \<in> set (split_char c s) \<Longrightarrow> c \<notin> set p"
proof (induction s arbitrary: p)
  case (Cons x s)
  then show ?case using split_char_ne [of c s] by (auto split: if_splits list.splits)
qed simp

lemma split_char_join:
  "parts \<noteq> [] \<Longrightarrow> \<forall>p \<in> set parts. c \<notin> set p \<Longrightarrow> split_char c (join [c] parts) = parts"
  by (induction "[c]" parts rule: join.induct) (auto simp: split_char_none split_char_append)

lemma under_workspaceI:
  assumes "''..'' \<notin> set (split_char (CHR ''/'') rest)"
  shows "under_workspace (''/workspace/'' @ rest)"
proof -
  have "split_char (CHR ''/'') (''/workspace/'' @ rest) = [] # ''workspace'' # split_char (CHR ''/'') rest"
    by (simp add: split_char_append [of _ "''workspace''", simplified] split_char_ne)
  moreover have "walk [] ([] # ''workspace'' # parts) = walk [''workspace''] parts" for parts by simp
  ultimately show ?thesis
    using walk_prefix [OF assms, of "[''workspace'']"]
    by (simp add: under_workspace_def resolve_path_def path_is_absolute_def startswith_def)
qed

lemma strip_prefix: "prefix (rev (dropWhile P (rev s))) s"
  by (metis dropWhile_eq_drop prefix_def rev_rev_ident append_take_drop_id rev_append)

lemma strip_chars_ok:
  shows "strip_chars cs s \<noteq> [] \<Longrightarrow> hd (strip_chars cs s) \<notin> set cs" and "set (strip_chars cs s) \<subseteq> set s"
proof -
  let ?d = "dropWhile (\<lambda>c. c \<in> set cs) s"
  have pre: "prefix (strip_chars cs s) ?d" unfolding strip_chars_def by (rule strip_prefix)
  show "hd (strip_chars cs s) \<notin> set cs" if "strip_chars cs s \<noteq> []"
  proof -
    obtain zs where d: "?d = strip_chars cs s @ zs" using pre by (auto simp: prefix_def)
    have "?d \<noteq> []" unfolding d using that by simp
    from hd_dropWhile [OF this] show ?thesis unfolding d using that by simp
  qed
  show "set (strip_chars cs s) \<subseteq> set s" using set_mono_prefix [OF pre] set_dropWhileD by fastforce
qed

lemma safe_component_ok:
  assumes "safe_component v = Inr c"
  shows "c \<noteq> []" "length c \<le> 96" "hd c \<notin> set ''.-_''" "\<forall>x \<in> set c. is_alnum x \<or> x \<in> set ''.-_''"
proof -
  define m where "m = map (\<lambda>c. if is_alnum c \<or> c \<in> set ''-_.'' then c else CHR ''-'') v"
  define n where "n = strip_chars ''.-_'' m"
  have c: "c = take 96 n" "n \<noteq> []"
    using assms by (auto simp: safe_component_def Let_def res_simps n_def m_def)
  show "c \<noteq> []" "length c \<le> 96" using c by auto
  have "hd c = hd n" using c by simp
  then show "hd c \<notin> set ''.-_''" using strip_chars_ok(1) [OF c(2) [unfolded n_def]] by (simp only: n_def not_False_eq_True)
  have "set c \<subseteq> set m" using c(1) set_take_subset [of 96 n] strip_chars_ok(2) n_def by blast
  moreover have "\<forall>x \<in> set m. is_alnum x \<or> x \<in> set ''.-_''" by (auto simp: m_def)
  ultimately show "\<forall>x \<in> set c. is_alnum x \<or> x \<in> set ''.-_''" by blast
qed

lemma safe_component_part:
  assumes "safe_component v = Inr c"
  shows "CHR ''/'' \<notin> set c" "c \<noteq> ''..''"
proof -
  have "\<not> is_alnum (CHR ''/'')" by (simp add: is_alnum_def Let_def)
  then show "CHR ''/'' \<notin> set c" using safe_component_ok(4) [OF assms] by fastforce
  show "c \<noteq> ''..''" using safe_component_ok(3) [OF assms] by auto
qed

section \<open>Lemmas on the commands issued\<close>

lemma issues_res: "issues trail P (io_res r)"
  by (simp add: issues_def io_res_def)

lemma issues_same: "(\<And>w. trail (snd (m w)) = trail w) \<Longrightarrow> issues trail P m"
  by (simp add: issues_def)

lemma issues_bind:
  assumes "issues trail P m" "\<And>x w w1. m w = (Inr x, w1) \<Longrightarrow> issues trail P (f x)"
  shows "issues trail P (io_bind m f)"
  unfolding issues_def
proof
  fix w
  obtain r w1 where m: "m w = (r, w1)" by fastforce
  obtain cs where cs: "trail w1 = trail w @ cs" "list_all P cs" using assms(1) m unfolding issues_def by (metis snd_conv)
  show "\<exists>cs. trail (snd (io_bind m f w)) = trail w @ cs \<and> list_all P cs"
  proof (cases r)
    case (Inl e)
    then show ?thesis using m cs by (auto simp: io_bind_def)
  next
    case (Inr x)
    obtain ds where "trail (snd (f x w1)) = trail w1 @ ds" "list_all P ds"
      using assms(2) m Inr unfolding issues_def by blast
    then have "trail (snd (io_bind m f w)) = trail w @ (cs @ ds)" "list_all P (cs @ ds)"
      using m Inr cs by (simp_all add: io_bind_def)
    then show ?thesis by blast
  qed
qed

lemma issues_run:
  assumes "logs_commands B trail" "P argv"
  shows "issues trail P (ob_run B argv t)"
  using assms by (auto simp: issues_def logs_commands_def intro!: exI [of _ "[argv]"])

lemma issues_host:
  assumes "logs_commands B trail"
  shows "issues trail P (ob_resolve B x args)" "issues trail P (ob_policy B l y)" "issues trail P (ob_materialize B x y)"
    "issues trail P (ob_ingest_bytes B x y z)" "issues trail P (ob_ingest_file B x y)" "issues trail P (ob_temp_dir B x)"
    "issues trail P (ob_mkdir B x)" "issues trail P (require_local_file B x y z)"
    "issues trail P (\<lambda>w. (r w, w))"
  using assms by (simp_all add: issues_def logs_commands_def require_local_file_def)

lemma issues_on_error:
  assumes "issues trail P m" "\<And>w. \<exists>cs. trail (h w) = trail w @ cs \<and> list_all P cs"
  shows "issues trail P (io_on_error m h)"
  unfolding issues_def
proof
  fix w
  obtain r w1 where m: "m w = (r, w1)" by fastforce
  obtain cs where cs: "trail w1 = trail w @ cs" "list_all P cs" using assms(1) m unfolding issues_def by (metis snd_conv)
  obtain ds where "trail (h w1) = trail w1 @ ds" "list_all P ds" using assms(2) by blast
  then show "\<exists>cs. trail (snd (io_on_error m h w)) = trail w @ cs \<and> list_all P cs"
    using m cs by (cases r) (auto simp: io_on_error_def intro!: exI [of _ "cs @ ds"])
qed

lemma upload_loop_issues:
  assumes L: "logs_commands B trail"
    and root': "\<And>component i. CHR ''/'' \<notin> set component \<Longrightarrow> under_workspace (remote_root @ ''/'' @ pad4 i @ ''-'' @ component)"
  shows "issues trail (confined_command (ob_executable B) name) (upload_loop B name remote_root dir i refs)"
proof (induction refs arbitrary: i)
  case (Cons r refs)
  have up: "confined_command (ob_executable B) name (dialect_upload (ob_executable B) name path
      (remote_root @ ''/'' @ pad4 i @ ''-'' @ component))" if "safe_component v = Inr component" for path component v
    using root' [OF safe_component_part(1) [OF that]] unfolding confined_command_def by blast
  show ?case
    by (auto intro!: issues_bind issues_res issues_host [OF L] issues_run [OF L] Cons.IH up [simplified] simp: io_res_def)
qed (simp add: issues_res)

lemma upload_artifacts_issues:
  assumes L: "logs_commands B trail"
    and "\<And>component i. CHR ''/'' \<notin> set component \<Longrightarrow> under_workspace (remote_root @ ''/'' @ pad4 i @ ''-'' @ component)"
  shows "issues trail (confined_command (ob_executable B) name) (upload_artifacts B name refs remote_root dir)"
proof (cases "refs = []")
  case False
  then show ?thesis unfolding upload_artifacts_def
    using upload_loop_issues [OF assms] by (auto intro!: issues_bind issues_host [OF L])
qed (simp add: upload_artifacts_def issues_res)

lemma upload_part:
  assumes "CHR ''/'' \<notin> set component"
  shows "split_char (CHR ''/'') (pad4 i @ ''-'' @ component) = [pad4 i @ ''-'' @ component]"
    "pad4 i @ ''-'' @ component \<noteq> ''..''"
proof -
  have "CHR ''/'' \<notin> set (show_nat i)" using show_nat_digits [of i] by (auto simp: list_all_iff is_digit_def)
  then have "CHR ''/'' \<notin> set (pad4 i @ ''-'' @ component)" using assms by (auto simp: pad4_def)
  then show "split_char (CHR ''/'') (pad4 i @ ''-'' @ component) = [pad4 i @ ''-'' @ component]"
    by (rule split_char_none)
  have "CHR ''-'' \<in> set (pad4 i @ ''-'' @ component)" "CHR ''-'' \<notin> set ''..''" by simp_all
  then show "pad4 i @ ''-'' @ component \<noteq> ''..''" by metis
qed

lemma upload_under_workspace:
  assumes "CHR ''/'' \<notin> set component" "''..'' \<notin> set (split_char (CHR ''/'') dir)"
  shows "under_workspace ((''/workspace/'' @ dir) @ ''/'' @ pad4 i @ ''-'' @ component)"
proof -
  have "under_workspace (''/workspace/'' @ (dir @ ''/'' @ pad4 i @ ''-'' @ component))"
  proof (rule under_workspaceI)
    have "split_char (CHR ''/'') (dir @ ''/'' @ pad4 i @ ''-'' @ component)
        = split_char (CHR ''/'') dir @ [pad4 i @ ''-'' @ component]"
      using split_char_append [of "CHR ''/''" dir] upload_part(1) [OF assms(1)] by simp
    then show "''..'' \<notin> set (split_char (CHR ''/'') (dir @ ''/'' @ pad4 i @ ''-'' @ component))"
      using assms(2) upload_part(2) [OF assms(1), THEN not_sym] by (simp del: append.simps)
  qed
  then show ?thesis by simp
qed

lemma safe_relative_ok:
  assumes "safe_relative_path v = Inr parts"
  shows "under_workspace (''/workspace/'' @ join ''/'' parts)"
proof (rule under_workspaceI)
  have parts: "parts = path_parts v" "''..'' \<notin> set parts" "parts \<noteq> []"
    using assms by (auto simp: safe_relative_path_def res_simps)
  have "\<forall>p \<in> set parts. CHR ''/'' \<notin> set p" using split_char_free by (auto simp: parts(1) path_parts_def)
  from split_char_join [OF parts(3) this] show "''..'' \<notin> set (split_char (CHR ''/'') (join ''/'' parts))"
    using parts(2) by simp
qed

lemma export_loop_issues:
  assumes L: "logs_commands B trail"
  shows "issues trail (confined_command (ob_executable B) name) (export_loop B name dir i paths refs)"
proof (induction paths arbitrary: i refs)
  case (Cons p paths)
  have down: "confined_command (ob_executable B) name (dialect_download (ob_executable B) name (''/workspace/'' @ join ''/'' parts) path)"
    if "safe_relative_path v = Inr parts" for v parts path
    using safe_relative_ok [OF that] unfolding confined_command_def by blast
  show ?case
    by (auto simp: Let_def io_res_def intro!: issues_bind issues_res issues_host [OF L] issues_run [OF L] Cons.IH down [simplified])
qed (simp add: issues_res)

lemma export_issues:
  assumes L: "logs_commands B trail"
  shows "issues trail (confined_command (ob_executable B) h) (openshell_export B h paths)"
  unfolding openshell_export_def
  by (auto simp: io_res_def require_handle_def res_simps
      intro!: issues_bind issues_res issues_host [OF L] export_loop_issues [OF L])

lemma exec_issues:
  assumes L: "logs_commands B trail"
  shows "issues trail (confined_command (ob_executable B) h) (openshell_exec B h q timeout)"
proof -
  have up: "issues trail (confined_command (ob_executable B) h) (upload_artifacts B h refs (''/workspace/operation-inputs/'' @ c) dir)"
    if c: "safe_component v = Inr c" for refs c dir v
  proof (rule upload_artifacts_issues [OF L])
    fix component i assume comp: "CHR ''/'' \<notin> set component"
    have "split_char (CHR ''/'') (''operation-inputs/'' @ c) = [''operation-inputs'', c]"
      using split_char_append [of "CHR ''/''" "''operation-inputs''" c] split_char_none [OF safe_component_part(1) [OF c]]
      by (simp add: split_char_none)
    then have "''..'' \<notin> set (split_char (CHR ''/'') (''operation-inputs/'' @ c))"
      using safe_component_part(2) [OF c] by simp
    from upload_under_workspace [OF comp this, of i]
    show "under_workspace ((''/workspace/operation-inputs/'' @ c) @ ''/'' @ pad4 i @ ''-'' @ component)" by simp
  qed
  have ex: "confined_command (ob_executable B) h (dialect_exec (ob_executable B) h p)" for p
    unfolding confined_command_def by blast
  show ?thesis unfolding openshell_exec_def
    by (auto simp: io_res_def require_handle_def res_simps
        intro!: issues_bind issues_res issues_host [OF L] issues_run [OF L] ex up [simplified])
qed

lemma create_upload_issues:
  assumes L: "logs_commands B trail"
  shows "issues trail (confined_command (ob_executable B) n)
    (io_bind (upload_artifacts B n refs ''/workspace/inputs'' dir) (\<lambda>_. upload_artifacts B n refs' ''/workspace/readonly'' dir'))"
proof -
  have up: "issues trail (confined_command (ob_executable B) n) (upload_artifacts B n refs (''/workspace/'' @ d) dir)"
    if "''..'' \<notin> set (split_char (CHR ''/'') d)" for refs d dir
    by (rule upload_artifacts_issues [OF L], rule upload_under_workspace) (use that in auto)
  show ?thesis using up [of "''inputs''"] up [of "''readonly''"] by (intro issues_bind) simp_all
qed

lemma create_issues:
  assumes L: "logs_commands B trail"
  shows "issues trail (confined_command (ob_executable B) (sandbox_name E (ls_execution_id lease))) (openshell_create E B lease)"
proof -
  let ?n = "sandbox_name E (ls_execution_id lease)"
  have cr: "confined_command (ob_executable B) ?n (dialect_create mode (ob_executable B) ?n p i)" for mode p i
    unfolding confined_command_def by blast
  have del: "\<exists>cs. trail (delete_best_effort B ?n w) = trail w @ cs \<and> list_all (confined_command (ob_executable B) ?n) cs" for w
    using L by (auto simp: delete_best_effort_def logs_commands_def confined_command_def intro!: exI [of _ "[dialect_delete (ob_executable B) ?n]"])
  show ?thesis unfolding openshell_create_def Let_def
    by (rule issues_bind issues_host [OF L] issues_run [OF L] cr issues_res | rule issues_on_error [OF create_upload_issues [OF L] del])+
qed

section \<open>Lemmas on waiting for a deletion\<close>

lemma await_deleted_returns:
  assumes L: "logs_commands B trail" and clock: "clock_ok B" and poll: "0 < ob_delete_poll B"
    and "deadline \<le> ob_time B w + of_nat n * ob_delete_poll B"
  shows "\<exists>r w' cs. await_deleted B name deadline w = Some (r, w') \<and> trail w' = trail w @ cs \<and> length cs \<le> n
    \<and> list_all (\<lambda>c. c = dialect_get (ob_executable B) name) cs
    \<and> (r = Inr () \<longrightarrow> (\<exists>v t probe. ob_run B (dialect_get (ob_executable B) name) t v = (Inr probe, w') \<and> co_returncode probe \<noteq> 0))"
  using assms(4)
proof (induction n arbitrary: w)
  case 0
  then show ?case by (subst await_deleted.simps) simp
next
  case (Suc n)
  let ?get = "dialect_get (ob_executable B) name" and ?t = "min (ob_command_timeout B) (ob_delete_poll B * 4)"
  obtain r w1 where run: "ob_run B ?get ?t w = (r, w1)" by fastforce
  have w1: "trail w1 = trail w @ [?get]" using L run unfolding logs_commands_def by (metis snd_conv)
  show ?case
  proof (cases "ob_time B w < deadline")
    case False
    then show ?thesis by (subst await_deleted.simps) simp
  next
    case True
    show ?thesis
    proof (cases r)
      case (Inl e)
      then show ?thesis using True run w1 by (subst await_deleted.simps) simp
    next
      case (Inr probe)
      let ?w = "ob_sleep B (ob_delete_poll B) w1"
      show ?thesis
      proof (cases "co_returncode probe = 0")
        case False
        then show ?thesis using True run w1 Inr by (subst await_deleted.simps) auto
      next
        case zero: True
        have "ob_time B w \<le> ob_time B w1" "ob_time B w1 + ob_delete_poll B \<le> ob_time B ?w"
          using clock run unfolding clock_ok_def by (metis snd_conv, blast)
        then have "deadline \<le> ob_time B ?w + of_nat n * ob_delete_poll B"
          using Suc.prems by (simp add: algebra_simps)
        from Suc.IH [OF this] obtain r' w' cs where IH: "await_deleted B name deadline ?w = Some (r', w')"
          "trail w' = trail ?w @ cs" "length cs \<le> n" "list_all (\<lambda>c. c = ?get) cs"
          "r' = Inr () \<longrightarrow> (\<exists>v t probe. ob_run B ?get t v = (Inr probe, w') \<and> co_returncode probe \<noteq> 0)" by blast
        moreover have "await_deleted B name deadline w = Some (r', w')"
          using True run Inr zero IH(1) by (subst await_deleted.simps) simp
        moreover have "trail w' = trail w @ (?get # cs)" using IH(2) w1 L by (simp add: logs_commands_def)
        ultimately show ?thesis by (intro exI [of _ r'] exI [of _ w'] exI [of _ "?get # cs"]) auto
      qed
    qed
  qed
qed

lemma io_bind_InlE:
  assumes "io_bind m f w = (Inl e, w')"
  obtains "m w = (Inl e, w')" | x w1 where "m w = (Inr x, w1)" "f x w1 = (Inl e, w')"
  using assms by (auto simp: io_bind_def split: prod.splits sum.splits)

lemma io_bind_quietE:
  assumes "io_bind m f w = (Inl e, w')" "\<And>w. trail (snd (m w)) = trail w"
  obtains "trail w' = trail w" | x w1 where "trail w1 = trail w" "f x w1 = (Inl e, w')"
  using assms(1)
proof (cases rule: io_bind_InlE)
  case 1
  then show ?thesis using assms(2) [of w] that(1) by simp
next
  case (2 x w1)
  then show ?thesis using assms(2) [of w] that(2) by simp
qed

lemma fill_sandbox_fails:
  assumes L: "logs_commands B trail" and "fill_sandbox B n lease dir w = (Inl e, w')"
  shows "\<exists>cs. trail w' = trail w @ cs @ [dialect_delete (ob_executable B) n]"
proof -
  let ?up = "io_bind (upload_artifacts B n (ls_workspace_artifact_refs lease) ''/workspace/inputs'' (dir @ ''/workspace''))
    (\<lambda>_. upload_artifacts B n (ls_readonly_artifact_refs lease) ''/workspace/readonly'' (dir @ ''/readonly''))"
  obtain w1 where w1: "?up w = (Inl e, w1)" "w' = delete_best_effort B n w1"
    using assms(2) by (auto simp: fill_sandbox_def io_bind_def [of "io_on_error _ _"] io_on_error_def io_res_def
        split: prod.splits sum.splits)
  obtain cs where "trail w1 = trail w @ cs"
    using create_upload_issues [OF L] w1(1) unfolding issues_def by (metis snd_conv)
  then show ?thesis using L w1(2) by (simp add: delete_best_effort_def logs_commands_def)
qed

lemma create_runs:
  assumes L: "logs_commands B trail" and "openshell_create E B lease w = (Inl e, w')"
  obtains "trail w' = trail w"
  | dir policy v where "trail v = trail w"
    "io_bind (ob_run B (dialect_create (ob_approval_mode B) (ob_executable B) (sandbox_name E (ls_execution_id lease))
        policy (sp_image_ref_or_digest (ls_profile lease))) (ob_command_timeout B)) (\<lambda>result.
      io_bind (io_res (require_success B result ''openshell_create_failed'')) (\<lambda>_.
      fill_sandbox B (sandbox_name E (ls_execution_id lease)) lease dir)) v = (Inl e, w')"
proof -
  have quiet: "trail (snd (ob_temp_dir B x v)) = trail v" "trail (snd (ob_policy B lease y v)) = trail v"
    "trail (snd (require_local_file B p q l v)) = trail v" for x y p q l v
    using L by (simp_all add: logs_commands_def require_local_file_def)
  note quit = that(1) and hit = that(2)
  note run = assms(2) [unfolded openshell_create_def Let_def fill_sandbox_def [symmetric]]
  show ?thesis
  proof (cases rule: io_bind_quietE [where trail = trail, OF run quiet(1)])
    case (2 dir w1)
    note t1 = 2(1)
    show ?thesis
    proof (cases rule: io_bind_quietE [where trail = trail, OF 2(2) quiet(2)])
      case (2 policy w2)
      note t2 = 2(1)
      show ?thesis
      proof (cases rule: io_bind_quietE [where trail = trail, OF 2(2) quiet(3)])
        case (2 u w3)
        then show ?thesis using hit [OF _ 2(2)] t1 t2 by simp
      qed (use quit t1 t2 in simp)
    qed (use quit t1 in simp)
  qed (rule quit)
qed

lemma sample_openshell_ok: "logs_commands sample_openshell snd" "clock_ok sample_openshell"
  "new_openshell_backend sample_openshell (Some ''/usr/bin/openshell'') None (\<lambda>p. p) = Inr sample_openshell"
  by (simp_all add: logs_commands_def clock_ok_def sample_openshell_def io_res_def new_openshell_backend_def Let_def
      path_is_absolute_def startswith_def split_def)

section \<open>Properties\<close>

lemma new_backend_positive:
  assumes "new_openshell_backend B0 executable which absolute = Inr B"
  shows "0 < ob_command_timeout B" "0 < ob_delete_wait B" "0 < ob_delete_poll B"
  using assms by (auto simp: new_openshell_backend_def Let_def res_simps)

text \<open>
  Claim C28: Arguments never become options of the \<^verbatim>\<open>openshell\<close> command. For a program resolved from a
  constructed resolver, everything before the first \<^verbatim>\<open>--\<close> of the command line is made by the dialect, and
  what follows is exactly the registered prefix and then, binding by binding, at most one flag and
  one argument; every given argument has a binding, every required one is given, and the vector
  has no NUL.
\<close>

theorem exec_argv_exact:
  assumes "new_program_resolver ds = Inr T" and "resolve_program T ref' arguments = Inr p"
    and "path_is_absolute executable" and "require_handle h = Inr name"
  shows "\<exists>d \<in> set ds. pd_program_ref d = ref'
    \<and> dropWhile (\<lambda>a. a \<noteq> ''--'') (dialect_exec executable name p)
        = ''--'' # pd_argv_prefix d @ concat (map (binding_tokens arguments) (pd_argument_bindings d))
    \<and> set (map fst arguments) \<subseteq> set (map ab_argument (pd_argument_bindings d))
    \<and> (\<forall>b \<in> set (pd_argument_bindings d). ab_required b \<longrightarrow> ab_argument b \<in> set (map fst arguments))
    \<and> (\<forall>item \<in> set (rp_argv p). nul \<notin> set item)"
proof -
  obtain d where d: "map_of T ref' = Some d"
    "rp_argv p = pd_argv_prefix d @ concat (map (binding_tokens arguments) (pd_argument_bindings d))"
    "set (map fst arguments) \<subseteq> set (map ab_argument (pd_argument_bindings d))"
    "\<forall>b \<in> set (pd_argument_bindings d). ab_required b \<longrightarrow> ab_argument b \<in> set (map fst arguments)"
    "validate_program p = Inr p" using resolve_program_ok [OF assms(2)] by metis
  have "T = map (\<lambda>d. (pd_program_ref d, d)) ds"
    using add_definitions_ok assms(1) unfolding new_program_resolver_def by fastforce
  then have "d \<in> set ds" "pd_program_ref d = ref'" using map_of_SomeD [OF d(1)] by auto
  moreover have "startswith name ''secfusion-''" using assms(4) by (auto simp: require_handle_def res_simps)
  then have "dropWhile (\<lambda>a. a \<noteq> ''--'') (dialect_exec executable name p) = ''--'' # rp_argv p"
    using dialect_exec_split [OF assms(3)] d(5) by (simp add: validate_program_ok)
  ultimately show ?thesis using d by (intro bexI [of _ d]) (simp_all add: validate_program_ok)
qed

theorem exec_argv_exact_witness:
  "\<exists>p. resolve_program [(''program:scan'', sample_program)] ''program:scan'' [(''target'', JStr ''--name'')] = Inr p
    \<and> dropWhile (\<lambda>a. a \<noteq> ''--'') (dialect_exec ''/usr/bin/openshell'' ''secfusion-1'' p)
      = [''--'', ''/bin/scan'', ''--target'', ''--name'']"
proof -
  let ?args = "[(''target'', JStr ''--name'')]"
  have T: "new_program_resolver [sample_program] = Inr [(''program:scan'', sample_program)]"
    by (simp add: new_program_resolver_def sample_program_def)
  have "\<exists>p. resolve_program [(''program:scan'', sample_program)] ''program:scan'' ?args = Inr p"
    by (simp add: resolve_program_def sample_program_def encode_argument_def validate_program_def path_is_absolute_def
        startswith_def path_parts_def nul_def)
  then obtain p where p: "resolve_program [(''program:scan'', sample_program)] ''program:scan'' ?args = Inr p" by blast
  have "path_is_absolute ''/usr/bin/openshell''" "require_handle ''secfusion-1'' = Inr ''secfusion-1''"
    by (simp_all add: path_is_absolute_def startswith_def require_handle_def)
  from exec_argv_exact [OF T p this] p show ?thesis
    by (auto simp: sample_program_def binding_tokens_def encode_argument_def)
qed

text \<open>
  Claim C29: The backend keeps to its sandbox. Whatever the host, the artifact bridge, the policy
  materializer and the program resolver do, every command that executing, exporting and
  creating run is one of the dialect's for the executable and the sandbox they were called for, and
  every path of that sandbox that they write to or read from lies under \<^verbatim>\<open>/workspace\<close>.
\<close>

theorem openshell_commands_confined:
  assumes "logs_commands B trail"
  shows "issues trail (confined_command (ob_executable B) h) (openshell_exec B h q timeout)
    \<and> issues trail (confined_command (ob_executable B) h) (openshell_export B h paths)
    \<and> issues trail (confined_command (ob_executable B) (sandbox_name E (ls_execution_id lease))) (openshell_create E B lease)"
  using exec_issues [OF assms] export_issues [OF assms] create_issues [OF assms] by blast

theorem openshell_commands_confined_witness:
  "issues snd (confined_command ''/usr/bin/openshell'' ''secfusion-1'') (openshell_exec sample_openshell ''secfusion-1'' sample_exec_request 5)
    \<and> issues snd (confined_command ''/usr/bin/openshell'' ''secfusion-1'') (openshell_export sample_openshell ''secfusion-1'' [''out/report.txt''])
    \<and> issues snd (confined_command ''/usr/bin/openshell'' (sandbox_name sample_hash (ls_execution_id sample_lease)))
        (openshell_create sample_hash sample_openshell sample_lease)"
  using openshell_commands_confined [OF sample_openshell_ok(1)] by (simp add: sample_openshell_def)

text \<open>What \<^verbatim>\<open>destroy\<close> does after the delete command.\<close>

lemma destroy_after_delete:
  assumes "require_handle h = Inr h"
    "ob_run B (dialect_delete (ob_executable B) h) (ob_command_timeout B) w = (r, w1)"
  obtains (failed) e where "openshell_destroy B h w = Some (Inl e, w1)"
      "\<nexists>result. r = Inr result \<and> \<not> co_timed_out result \<and> co_returncode result = 0"
    | (deleted) result where "openshell_destroy B h w = await_deleted B h (ob_time B w1 + ob_delete_wait B) w1"
      "r = Inr result" "\<not> co_timed_out result" "co_returncode result = 0"
proof (cases "\<exists>result. r = Inr result \<and> \<not> co_timed_out result \<and> co_returncode result = 0")
  case True
  with assms show ?thesis
    by (auto simp: openshell_destroy_def io_bind_def io_res_def require_success_def raise_if_def intro: deleted)
next
  case False
  have "\<exists>e. openshell_destroy B h w = Some (Inl e, w1)"
    using assms False
    by (cases r) (auto simp: openshell_destroy_def io_bind_def io_res_def require_success_def raise_if_def)
  with False show ?thesis by (blast intro: failed)
qed

text \<open>The first probe that does not exit with zero ends the wait, whether it ran to its end or was killed at its timeout.\<close>

lemma failed_probe_confirms:
  assumes "require_handle h = Inr h" "0 < ob_delete_wait B"
    "ob_run B (dialect_delete (ob_executable B) h) (ob_command_timeout B) w = (Inr result, w1)"
    "require_success B result ''openshell_delete_failed'' = Inr ()"
    "ob_run B (dialect_get (ob_executable B) h) (min (ob_command_timeout B) (ob_delete_poll B * 4)) w1 = (Inr probe, w2)"
    "co_returncode probe \<noteq> 0"
  shows "openshell_destroy B h w = Some (Inr (), w2)"
  using assms by (simp add: openshell_destroy_def io_bind_def io_res_def await_deleted.simps [of B h])

text \<open>A probe that the runner killed is such a probe: the deletion of a sandbox whose state is unknown is reported as done.\<close>

lemma killed_probe_confirms:
  assumes "\<And>argv t v. ob_run B argv t v = asyncio_run subprocess argv t v" "path_is_absolute (ob_executable B)"
    "require_handle h = Inr h" "0 < ob_command_timeout B" "0 < ob_delete_wait B" "0 < ob_delete_poll B"
    "subprocess (dialect_delete (ob_executable B) h) (ob_command_timeout B) w = (Inr (Ended (Some 0) out err), w1)"
    "subprocess (dialect_get (ob_executable B) h) (min (ob_command_timeout B) (ob_delete_poll B * 4)) w1
      = (Inr (Killed (Some (- 9)) out' err'), w2)"
  shows "openshell_destroy B h w = Some (Inr (), w2)"
  using assms(2-)
  by (intro failed_probe_confirms) (auto simp: assms(1) asyncio_run_def io_bind_def io_res_def raise_if_def dialect_delete_def
      dialect_get_def require_success_def)

text \<open>
  Claim C30: Destroying a sandbox ends. If the clock does not go back and sleeping takes its time, \<^verbatim>\<open>destroy\<close> of a
  constructed backend returns after the delete and at most \<^verbatim>\<open>delete_wait / delete_poll\<close> probes, rounded up. It
  returns without an exception only when the delete command exited with zero in time and the last command was a probe whose exit code
  is not zero. It does not tell why the probe failed: one that was killed at its timeout, or could not reach the gateway, also ends
  the wait at once, so success does not establish that the sandbox is gone.
\<close>

theorem destroy_returns:
  assumes "new_openshell_backend B0 executable which absolute = Inr B"
    and "logs_commands B trail" "clock_ok B" "ob_delete_wait B \<le> of_nat n * ob_delete_poll B"
  shows "\<exists>r w' cs. openshell_destroy B h w = Some (r, w') \<and> trail w' = trail w @ cs \<and> length cs \<le> Suc n
    \<and> list_all (confined_command (ob_executable B) h) cs
    \<and> (r = Inr () \<longrightarrow> (\<exists>result w1 v t probe.
         ob_run B (dialect_delete (ob_executable B) h) (ob_command_timeout B) w = (Inr result, w1)
         \<and> \<not> co_timed_out result \<and> co_returncode result = 0
         \<and> ob_run B (dialect_get (ob_executable B) h) t v = (Inr probe, w') \<and> co_returncode probe \<noteq> 0))
    \<and> (\<forall>result w1 probe w2. require_handle h = Inr h
         \<longrightarrow> ob_run B (dialect_delete (ob_executable B) h) (ob_command_timeout B) w = (Inr result, w1)
         \<longrightarrow> \<not> co_timed_out result \<and> co_returncode result = 0
         \<longrightarrow> ob_run B (dialect_get (ob_executable B) h) (min (ob_command_timeout B) (ob_delete_poll B * 4)) w1 = (Inr probe, w2)
         \<longrightarrow> co_returncode probe \<noteq> 0 \<longrightarrow> r = Inr () \<and> w' = w2)"
proof (cases "require_handle h")
  case (Inl e)
  then show ?thesis by (auto simp: openshell_destroy_def)
next
  case (Inr name)
  then have name: "name = h" by (auto simp: require_handle_def res_simps)
  let ?del = "dialect_delete (ob_executable B) h"
  obtain r w1 where run: "ob_run B ?del (ob_command_timeout B) w = (r, w1)" by fastforce
  have w1: "trail w1 = trail w @ [?del]" using assms(2) run unfolding logs_commands_def by (metis snd_conv)
  have early: "openshell_destroy B h w = Some (Inr (), w2)"
    if "ob_run B ?del (ob_command_timeout B) w = (Inr result, w1)" "\<not> co_timed_out result \<and> co_returncode result = 0"
      "ob_run B (dialect_get (ob_executable B) h) (min (ob_command_timeout B) (ob_delete_poll B * 4)) w1 = (Inr probe, w2)"
      "co_returncode probe \<noteq> 0" for result w1 probe w2
    using failed_probe_confirms [OF _ new_backend_positive(2) [OF assms(1)] that(1) _ that(3,4)] that(2) Inr name
    by (simp add: require_success_def)
  have del: "confined_command (ob_executable B) h ?del" "confined_command (ob_executable B) h (dialect_get (ob_executable B) h)"
    by (auto simp: confined_command_def)
  from Inr [unfolded name] run show ?thesis
  proof (cases rule: destroy_after_delete)
    case (failed e)
    show ?thesis using w1 del early
      by (intro exI [of _ "Inl e"] exI [of _ w1] exI [of _ "[?del]"] conjI) (auto simp: failed(1))
  next
    case (deleted result)
    obtain r' w' cs where a: "await_deleted B h (ob_time B w1 + ob_delete_wait B) w1 = Some (r', w')"
      "trail w' = trail w1 @ cs" "length cs \<le> n" "list_all (\<lambda>c. c = dialect_get (ob_executable B) h) cs"
      "r' = Inr () \<longrightarrow> (\<exists>v t probe. ob_run B (dialect_get (ob_executable B) h) t v = (Inr probe, w') \<and> co_returncode probe \<noteq> 0)"
      using await_deleted_returns [where w = w1 and name = h, OF assms(2,3) new_backend_positive(3) [OF assms(1)] add_left_mono [OF assms(4)]]
      by blast
    note full = deleted(1) [unfolded a(1)]
    have "trail w' = trail w @ ?del # cs" "length (?del # cs) \<le> Suc n" "list_all (confined_command (ob_executable B) h) (?del # cs)"
      using a(2-4) w1 del by (auto simp: list_all_iff)
    with full a(5) deleted(2-4) run early show ?thesis
      by (intro exI [of _ r'] exI [of _ w'] exI [of _ "?del # cs"] conjI) auto
  qed
qed

theorem destroy_returns_witness:
  "\<exists>w'. openshell_destroy sample_openshell ''secfusion-1'' (0, []) = Some (Inr (), w') \<and> length (snd w') \<le> 16
    \<and> list_all (confined_command ''/usr/bin/openshell'' ''secfusion-1'') (snd w')"
proof -
  let ?B = sample_openshell and ?n = "''secfusion-1''"
  have n: "ob_delete_wait ?B \<le> of_nat 15 * ob_delete_poll ?B" "ob_executable ?B = ''/usr/bin/openshell''" "require_handle ?n = Inr ?n"
    by (simp_all add: sample_openshell_def require_handle_def startswith_def raise_if_def)
  obtain result w1 probe w2 where runs: "ob_run ?B (dialect_delete (ob_executable ?B) ?n) (ob_command_timeout ?B) (0, []) = (Inr result, w1)"
      "\<not> co_timed_out result \<and> co_returncode result = 0"
      "ob_run ?B (dialect_get (ob_executable ?B) ?n) (min (ob_command_timeout ?B) (ob_delete_poll ?B * 4)) w1 = (Inr probe, w2)"
      "co_returncode probe \<noteq> 0"
    by (simp add: sample_openshell_def dialect_delete_def dialect_get_def)
  from destroy_returns [OF sample_openshell_ok(3,1,2) n(1), of ?n "(0, [])"] obtain r w' cs where
    d: "openshell_destroy ?B ?n (0, []) = Some (r, w')" "snd w' = snd (0 :: rat, []) @ cs" "length cs \<le> Suc 15"
      "list_all (confined_command (ob_executable ?B) ?n) cs"
      "\<forall>result w1 probe w2. require_handle ?n = Inr ?n
         \<longrightarrow> ob_run ?B (dialect_delete (ob_executable ?B) ?n) (ob_command_timeout ?B) (0, []) = (Inr result, w1)
         \<longrightarrow> \<not> co_timed_out result \<and> co_returncode result = 0
         \<longrightarrow> ob_run ?B (dialect_get (ob_executable ?B) ?n) (min (ob_command_timeout ?B) (ob_delete_poll ?B * 4)) w1 = (Inr probe, w2)
         \<longrightarrow> co_returncode probe \<noteq> 0 \<longrightarrow> r = Inr () \<and> w' = w2"
    by blast
  from d(5) n(3) runs have "r = Inr ()" by blast
  with d(1-4) n(2) show ?thesis by simp
qed

text \<open>
  Claim C31: A sandbox that could not be filled is deleted. When \<^verbatim>\<open>create\<close> raises, then either no command was
  run; or only the one that creates the sandbox, and it raised, timed out or failed; or the last
  command run is the one that deletes the sandbox by its name.
\<close>

theorem failed_create_cleans_up:
  assumes L: "logs_commands B trail" and run: "openshell_create E B lease w = (Inl e, w')"
  shows "\<exists>cs. trail w' = trail w @ cs \<and> (cs = []
      \<or> (\<exists>policy v x. let c = dialect_create (ob_approval_mode B) (ob_executable B) (sandbox_name E (ls_execution_id lease))
             policy (sp_image_ref_or_digest (ls_profile lease))
           in cs = [c] \<and> ob_run B c (ob_command_timeout B) v = (x, w')
              \<and> (case x of Inl _ \<Rightarrow> True | Inr result \<Rightarrow> require_success B result ''openshell_create_failed'' = Inl e))
      \<or> last cs = dialect_delete (ob_executable B) (sandbox_name E (ls_execution_id lease)))"
proof -
  let ?n = "sandbox_name E (ls_execution_id lease)"
  let ?c = "\<lambda>p. dialect_create (ob_approval_mode B) (ob_executable B) ?n p (sp_image_ref_or_digest (ls_profile lease))"
  have keep: "trail (snd (ob_run B argv t v)) = trail v @ [argv]" for argv t v using L by (simp add: logs_commands_def)
  show ?thesis
  proof (cases rule: create_runs [OF L run])
    case (2 dir policy v)
    obtain x v1 where v1: "ob_run B (?c policy) (ob_command_timeout B) v = (x, v1)" by fastforce
    have t1: "trail v1 = trail w @ [?c policy]" using keep v1 2(1) by (metis snd_conv)
    show ?thesis
    proof (cases "\<exists>result. x = Inr result \<and> require_success B result ''openshell_create_failed'' = Inr ()")
      case True
      then have "fill_sandbox B ?n lease dir v1 = (Inl e, w')"
        using 2(2) v1 by (auto simp: io_bind_def io_res_def)
      from fill_sandbox_fails [OF L this] t1 show ?thesis
        by (auto intro: exI [of _ "?c policy # cs @ [dialect_delete (ob_executable B) ?n]" for cs])
    next
      case False
      then have "w' = v1" "case x of Inl _ \<Rightarrow> True | Inr result \<Rightarrow> require_success B result ''openshell_create_failed'' = Inl e"
        using 2(2) v1 by (auto simp: io_bind_def io_res_def split: sum.splits)
      then show ?thesis using t1 v1 unfolding Let_def by blast
    qed
  qed (intro exI [of _ "[]"], simp)
qed

theorem failed_create_cleans_up_witness:
  "\<exists>e w'. openshell_create sample_hash sample_openshell (sample_lease\<lparr>ls_workspace_artifact_refs := [''x'']\<rparr>) (0, []) = (Inl e, w')
    \<and> last (snd w') = dialect_delete ''/usr/bin/openshell'' (sandbox_name sample_hash (ls_execution_id sample_lease))"
proof -
  let ?lease = "sample_lease\<lparr>ls_workspace_artifact_refs := [''x'']\<rparr>"
  let ?x = "openshell_create sample_hash sample_openshell ?lease (0, [])"
  have "isl (fst ?x) \<and> 2 \<le> length (snd (snd ?x))"
    by (simp add: Let_def openshell_create_def sample_openshell_def io_bind_def io_res_def io_on_error_def require_local_file_def
        require_success_def upload_artifacts_def delete_best_effort_def startswith_def dialect_create_def)
  then obtain e w' where run: "?x = (Inl e, w')" and two: "2 \<le> length (snd w')"
    by (cases ?x) (auto simp: isl_def)
  from failed_create_cleans_up [OF sample_openshell_ok(1) run] two run show ?thesis
    by (auto simp: Let_def sample_openshell_def)
qed

end
