(* ===== verification/Case_Contracts.thy ===== *)
theory Case_Contracts
  imports Runtime_Prelude
begin

text \<open>
  \<^verbatim>\<open>investigation/state/contracts.py\<close> with its validators, and the rows of \<^verbatim>\<open>investigation/storage/models.py\<close> that the
  state of an investigation case lives in: the case, its append-only events, its evidence needs, the
  current projection, and the perceptions, trajectories and snapshots beside them.
\<close>

section \<open>Values read from JSON\<close>

text \<open>\<^verbatim>\<open>d.get(k)\<close>: a missing key and a \<^verbatim>\<open>null\<close> are both \<^verbatim>\<open>None\<close>.\<close>

definition jget :: "jdict \<Rightarrow> string \<Rightarrow> json" where
  "jget d k = (case map_of d k of None \<Rightarrow> JNull | Some v \<Rightarrow> v)"

text \<open>
  \<^verbatim>\<open>v == n\<close> for an int: Python compares booleans and floats by their number. The \<^verbatim>\<open>repr\<close> of a float that is the
  integer \<open>n\<close> is its numeral with \<^verbatim>\<open>.0\<close> below \<open>10^16\<close>, beyond any revision.
\<close>

definition json_is_int :: "json \<Rightarrow> int \<Rightarrow> bool" where
  "json_is_int v n = (case v of
      JInt i \<Rightarrow> i = n
    | JBool b \<Rightarrow> n = (if b then 1 else 0)
    | JFloat r \<Rightarrow> r = show_int n @ ''.0'' \<or> (n = 0 \<and> r = ''-0.0'')
    | _ \<Rightarrow> False)"

text \<open>\<^verbatim>\<open>isinstance(v, int)\<close>, which holds of booleans, with the number.\<close>

definition json_int :: "json \<Rightarrow> int option" where
  "json_int v = (case v of JInt i \<Rightarrow> Some i | JBool b \<Rightarrow> Some (if b then 1 else 0) | _ \<Rightarrow> None)"

fun map_res :: "('a \<Rightarrow> 'b res) \<Rightarrow> 'a list \<Rightarrow> 'b list res" where
  "map_res f [] = Inr []"
| "map_res f (x # xs) = res_bind (f x) (\<lambda>y. res_bind (map_res f xs) (\<lambda>ys. Inr (y # ys)))"

section \<open>Contracts\<close>

datatype case_lifecycle = CASE_CREATED | CASE_ACTIVE | CASE_WAITING | CASE_RESOLVED | CASE_CLOSED | CASE_CANCELLED

fun lifecycle_value :: "case_lifecycle \<Rightarrow> string" where
  "lifecycle_value CASE_CREATED = ''created''"
| "lifecycle_value CASE_ACTIVE = ''active''"
| "lifecycle_value CASE_WAITING = ''waiting''"
| "lifecycle_value CASE_RESOLVED = ''resolved''"
| "lifecycle_value CASE_CLOSED = ''closed''"
| "lifecycle_value CASE_CANCELLED = ''cancelled''"

datatype proposed_state = CONFIRMED | TENTATIVE | CONFLICT | UNKNOWN | HYPOTHESIS

fun proposed_state_value :: "proposed_state \<Rightarrow> string" where
  "proposed_state_value CONFIRMED = ''confirmed''"
| "proposed_state_value TENTATIVE = ''tentative''"
| "proposed_state_value CONFLICT = ''conflict''"
| "proposed_state_value UNKNOWN = ''unknown''"
| "proposed_state_value HYPOTHESIS = ''hypothesis''"

datatype patch_disposition = SET | CLEAR

fun disposition_value :: "patch_disposition \<Rightarrow> string" where
  "disposition_value SET = ''set''"
| "disposition_value CLEAR = ''clear''"

datatype reasoning_semantics = DETERMINISTIC | INFERRED

fun semantics_value :: "reasoning_semantics \<Rightarrow> string" where
  "semantics_value DETERMINISTIC = ''deterministic''"
| "semantics_value INFERRED = ''inferred''"

record reasoning_relation =
  rr_relation_type :: string
  rr_semantics :: reasoning_semantics
  rr_source_refs :: "string list"

definition validate_relation :: "reasoning_relation \<Rightarrow> reasoning_relation res" where
  "validate_relation r =
     raise_if (blank (rr_relation_type r)) (ValueError ''reasoning relation_type cannot be empty'') (Inr r)"

text \<open>\<^verbatim>\<open>model_dump(mode="json")\<close> and \<^verbatim>\<open>model_validate\<close> of a relation.\<close>

definition dump_relation :: "reasoning_relation \<Rightarrow> json" where
  "dump_relation r = JObj [(''relation_type'', JStr (rr_relation_type r)),
     (''semantics'', JStr (semantics_value (rr_semantics r))), (''source_refs'', j_strs (rr_source_refs r))]"

definition parse_str :: "json \<Rightarrow> string res" where
  "parse_str v = (case v of JStr s \<Rightarrow> Inr s | _ \<Rightarrow> Inl (ValueError ''Input should be a valid string''))"

definition parse_strs :: "json option \<Rightarrow> string list res" where
  "parse_strs v = (case v of
      None \<Rightarrow> Inr []
    | Some (JArr vs) \<Rightarrow> map_res parse_str vs
    | Some _ \<Rightarrow> Inl (ValueError ''Input should be a valid list''))"

definition parse_semantics :: "json \<Rightarrow> reasoning_semantics res" where
  "parse_semantics v =
     (if v = JStr ''deterministic'' then Inr DETERMINISTIC
      else if v = JStr ''inferred'' then Inr INFERRED
      else Inl (ValueError ''Input should be deterministic or inferred''))"

definition parse_relation :: "json \<Rightarrow> reasoning_relation option res" where
  "parse_relation v = (case v of
      JNull \<Rightarrow> Inr None
    | JObj d \<Rightarrow>
        res_bind (parse_str (jget d ''relation_type'')) (\<lambda>t.
        res_bind (parse_semantics (jget d ''semantics'')) (\<lambda>m.
        res_bind (parse_strs (map_of d ''source_refs'')) (\<lambda>refs.
        res_bind (validate_relation \<lparr>rr_relation_type = t, rr_semantics = m, rr_source_refs = refs\<rparr>) (\<lambda>r.
        Inr (Some r)))))
    | _ \<Rightarrow> Inl (ValueError ''Input should be a valid dictionary''))"

record state_patch_operation =
  op_proposition :: string
  op_target_ref :: "string option"
  op_proposed_state :: proposed_state
  op_disposition :: patch_disposition
  op_evidence_refs :: "string list"
  op_reasoning_relation :: "reasoning_relation option"
  op_resolves_need_id :: "string option"

definition validate_operation :: "state_patch_operation \<Rightarrow> state_patch_operation res" where
  "validate_operation op =
     raise_if (blank (op_proposition op)) (ValueError ''state patch proposition cannot be empty'')
     (raise_if (op_proposed_state op \<in> {CONFIRMED, CONFLICT} \<and> op_disposition op = SET \<and> op_evidence_refs op = [])
        (ValueError (proposed_state_value (op_proposed_state op) @ '' state requires evidence_refs''))
     (Inr op))"

record state_patch =
  sp_patch_id :: string
  sp_case_id :: string
  sp_base_case_revision :: int
  sp_operations :: "state_patch_operation list"
  sp_producer :: string
  sp_model_prompt_revision :: "string option"

definition validate_optional_relation :: "reasoning_relation option \<Rightarrow> unit res" where
  "validate_optional_relation o' =
     (case o' of None \<Rightarrow> Inr () | Some r \<Rightarrow> res_bind (validate_relation r) (\<lambda>_. Inr ()))"

text \<open>Constructing a patch validates its operations and their relations first.\<close>

definition validate_patch_identity :: "state_patch \<Rightarrow> state_patch res" where
  "validate_patch_identity p =
     res_bind (fold_res (\<lambda>op _. res_bind (validate_optional_relation (op_reasoning_relation op))
         (\<lambda>_. res_bind (validate_operation op) (\<lambda>_. Inr ()))) (sp_operations p) ()) (\<lambda>_.
     raise_if (sp_base_case_revision p < 0) (ValueError ''base_case_revision should be greater than or equal to 0'')
     (raise_if (sp_operations p = []) (ValueError ''operations should have at least 1 item'')
     (raise_if (blank (sp_patch_id p) \<or> blank (sp_case_id p) \<or> blank (sp_producer p))
        (ValueError ''StatePatch identity/producer cannot be empty'') (Inr p))))"

datatype evidence_need_status = NEED_OPEN | NEED_RESOLVED | NEED_BLOCKED | NEED_ABANDONED

record evidence_need_contract =
  ec_require_evidence :: bool
  ec_required_source_roles :: "string list"
  ec_min_independent_sources :: nat
  ec_accepted_states :: "proposed_state list"

definition default_need_contract :: evidence_need_contract where
  "default_need_contract = \<lparr>ec_require_evidence = True, ec_required_source_roles = [],
     ec_min_independent_sources = 1, ec_accepted_states = [CONFIRMED, CONFLICT, UNKNOWN]\<rparr>"

definition default_completion_predicate :: jdict where
  "default_completion_predicate = [(''type'', JStr ''state_accepted'')]"

text \<open>The row of \<^verbatim>\<open>evidence_needs\<close>; its view has the same fields.\<close>

record evidence_need =
  nd_need_id :: string
  nd_case_id :: string
  nd_derived_from_enrichment_requirement :: "string option"
  nd_proposition_or_question :: string
  nd_purpose :: string
  nd_target_objects :: "string list"
  nd_evidence_contract :: evidence_need_contract
  nd_preferred_source_roles :: "string list"
  nd_rejected_evidence_patterns :: "string list"
  nd_freshness_requirement :: jdict
  nd_completion_predicate :: jdict
  nd_priority :: int
  nd_status :: evidence_need_status
  nd_resolution_evidence_refs :: "string list"
  nd_opened_revision :: nat
  nd_updated_revision :: nat
  nd_opened_at :: int
  nd_updated_at :: int

text \<open>\<^verbatim>\<open>_need_view\<close>: the bounds that \<^verbatim>\<open>EvidenceNeed\<close> checks.\<close>

definition need_view :: "evidence_need \<Rightarrow> evidence_need res" where
  "need_view n =
     raise_if (nd_purpose n = []) (ValueError ''purpose should have at least 1 character'')
     (raise_if (256 < length (nd_purpose n)) (ValueError ''purpose should have at most 256 characters'')
     (raise_if (ec_min_independent_sources (nd_evidence_contract n) < 1)
        (ValueError ''min_independent_sources should be greater than or equal to 1'')
     (raise_if (nd_priority n < 0) (ValueError ''priority should be greater than or equal to 0'')
     (raise_if (100 < nd_priority n) (ValueError ''priority should be less than or equal to 100'') (Inr n)))))"

record decision_commit =
  dc_decision_id :: string
  dc_case_id :: string
  dc_base_case_revision :: int
  dc_decision :: jdict
  dc_producer :: string

definition validate_commit :: "decision_commit \<Rightarrow> decision_commit res" where
  "validate_commit c =
     raise_if (dc_base_case_revision c < 0) (ValueError ''base_case_revision should be greater than or equal to 0'')
     (raise_if (blank (dc_decision_id c) \<or> blank (dc_case_id c) \<or> blank (dc_producer c))
        (ValueError ''DecisionCommit identity/producer cannot be empty'')
     (raise_if (jget (dc_decision c) ''decision_id'' \<noteq> JStr (dc_decision_id c)
          \<or> jget (dc_decision c) ''case_id'' \<noteq> JStr (dc_case_id c))
        (ValueError ''DecisionCommit payload identity mismatch'')
     (raise_if (\<not> json_is_int (jget (dc_decision c) ''case_revision'') (dc_base_case_revision c))
        (ValueError ''DecisionCommit payload revision mismatch'') (Inr c))))"

datatype case_state_event_type =
    FACT_CONFIRMED | FACT_RETRACTED | TENTATIVE_ADDED | TENTATIVE_REMOVED | CONFLICT_OPENED
  | CONFLICT_RESOLVED | UNKNOWN_OPENED | UNKNOWN_RESOLVED | HYPOTHESIS_ADDED | HYPOTHESIS_REJECTED
  | EVIDENCE_NEED_OPENED | EVIDENCE_NEED_RESOLVED | EVIDENCE_ATTACHED | DECISION_CHANGED
  | PERCEPTION_RECORDED

section \<open>Rows\<close>

record investigation_case =
  ic_case_id :: string
  ic_task_signature :: string
  ic_target_object_ids :: "string list"
  ic_goal :: string
  ic_initial_knowledge_revision :: "int option"
  ic_constraints :: jdict
  ic_rubric :: jdict
  ic_status :: string
  ic_current_revision :: nat
  ic_created_at :: int
  ic_closed_at :: "int option"

text \<open>The row of \<^verbatim>\<open>case_state_events\<close>; the view drops the patch coordinates.\<close>

record case_event =
  ce_event_id :: string
  ce_case_id :: string
  ce_case_revision :: nat
  ce_base_case_revision :: nat
  ce_event_type :: case_state_event_type
  ce_patch_id :: "string option"
  ce_operation_index :: "nat option"
  ce_proposition :: "string option"
  ce_target_ref :: "string option"
  ce_evidence_refs :: "string list"
  ce_writer :: string
  ce_reason_code :: string
  ce_payload :: jdict
  ce_created_at :: int

text \<open>An item of the projection as it is stored, with the relation in JSON, and its view.\<close>

record bucket_item =
  bi_proposition :: string
  bi_target_ref :: "string option"
  bi_evidence_refs :: "string list"
  bi_writer :: string
  bi_reason_code :: string
  bi_reasoning_relation :: json
  bi_updated_revision :: nat

record state_item =
  si_proposition :: string
  si_target_ref :: "string option"
  si_evidence_refs :: "string list"
  si_writer :: string
  si_reason_code :: string
  si_reasoning_relation :: "reasoning_relation option"
  si_updated_revision :: nat

definition item_view :: "bucket_item \<Rightarrow> state_item res" where
  "item_view b =
     res_bind (parse_relation (bi_reasoning_relation b)) (\<lambda>r.
     raise_if (bi_updated_revision b < 1) (ValueError ''updated_revision should be greater than or equal to 1'')
     (Inr \<lparr>si_proposition = bi_proposition b, si_target_ref = bi_target_ref b,
       si_evidence_refs = bi_evidence_refs b, si_writer = bi_writer b, si_reason_code = bi_reason_code b,
       si_reasoning_relation = r, si_updated_revision = bi_updated_revision b\<rparr>))"

text \<open>
  The row of \<^verbatim>\<open>investigation_state_current\<close>. Its five further columns, always written as empty lists by the
  only code that creates the row, are left out.
\<close>

record state_current =
  sc_case_id :: string
  sc_case_revision :: nat
  sc_goal :: string
  sc_targets :: "string list"
  sc_confirmed :: "bucket_item list"
  sc_tentative :: "bucket_item list"
  sc_conflicts :: "bucket_item list"
  sc_unknowns :: "bucket_item list"
  sc_hypotheses :: "bucket_item list"
  sc_evidence_need_ids :: "string list"
  sc_current_decision :: "jdict option"
  sc_last_world_revision :: "int option"
  sc_last_perception_at :: "int option"
  sc_updated_at :: int

record investigation_state =
  is_case_id :: string
  is_case_revision :: nat
  is_goal :: string
  is_targets :: "string list"
  is_confirmed :: "state_item list"
  is_tentative :: "state_item list"
  is_conflicts :: "state_item list"
  is_unknowns :: "state_item list"
  is_hypotheses :: "state_item list"
  is_evidence_need_ids :: "string list"
  is_current_decision :: "jdict option"
  is_last_world_revision :: "int option"
  is_last_perception_at :: "int option"
  is_updated_at :: int

record perception_event =
  pe_perception_event_id :: string
  pe_case_id :: string
  pe_task_run_id :: string
  pe_request_id :: string
  pe_need_id :: "string option"
  pe_request_json :: jdict
  pe_plan_json :: jdict
  pe_percept_ref :: string
  pe_evidence_refs :: "string list"
  pe_observation_refs :: "string list"
  pe_cost :: jdict
  pe_world_revision :: int
  pe_status :: string
  pe_failure_class :: "string option"
  pe_started_at :: int
  pe_finished_at :: int

record trajectory =
  tj_trajectory_id :: string
  tj_case_id :: string
  tj_status :: string
  tj_outcome :: "string option"
  tj_retrieved_experience_versions :: "string list"
  tj_used_experience_versions :: "string list"
  tj_started_at :: int
  tj_finished_at :: "int option"
  tj_latency_ms :: "int option"
  tj_tool_calls :: nat
  tj_cost :: "string option"
  tj_outcome_summary :: jdict

record trajectory_event =
  tx_event_id :: string
  tx_trajectory_id :: string
  tx_ordinal :: nat
  tx_event_type :: string
  tx_payload :: jdict
  tx_evidence_refs :: "string list"
  tx_experience_version_refs :: "string list"
  tx_artifact_uri :: "string option"
  tx_occurred_at :: int

record snapshot_row =
  sn_snapshot_id :: string
  sn_case_id :: string
  sn_case_revision :: nat
  sn_knowledge_revision :: "int option"
  sn_incident_revision :: "string option"
  sn_document_index_revision :: "string option"
  sn_experience_revision :: "string option"
  sn_policy_revision :: string
  sn_capability_registry_revision :: "string option"
  sn_routing_query_planner_revision :: "string option"
  sn_model_revision :: "string option"
  sn_prompt_assembly_revision :: "string option"
  sn_source_availability_snapshot :: jdict
  sn_created_at :: int

text \<open>The investigation tables of one database.\<close>

record case_store =
  iv_cases :: "investigation_case list"
  iv_events :: "case_event list"
  iv_needs :: "evidence_need list"
  iv_currents :: "state_current list"
  iv_perceptions :: "perception_event list"
  iv_trajectories :: "trajectory list"
  iv_trajectory_events :: "trajectory_event list"
  iv_snapshots :: "snapshot_row list"

section \<open>Lemmas\<close>

lemma map_res_eq_Inr [res_simps]:
  "map_res f xs = Inr ys \<longleftrightarrow> list_all2 (\<lambda>x y. f x = Inr y) xs ys"
  by (induction xs arbitrary: ys) (auto simp: res_simps list_all2_Cons1)

lemma map_res_total: "(\<And>x. x \<in> set xs \<Longrightarrow> \<exists>y. f x = Inr y) \<Longrightarrow> \<exists>ys. map_res f xs = Inr ys"
proof (induction xs)
  case (Cons x xs)
  then obtain y ys where "f x = Inr y" "map_res f xs = Inr ys" by (metis list.set_intros)
  then show ?case by simp
qed simp

lemma map_res_Inr_map: "(\<And>x. x \<in> set xs \<Longrightarrow> f x = Inr (g x)) \<Longrightarrow> map_res f xs = Inr (map g xs)"
  by (induction xs) auto

lemma parse_strs_j_strs [simp]: "map_res parse_str (map JStr xs) = Inr xs"
  by (induction xs) (auto simp: parse_str_def)

text \<open>A relation that passed its validator is read back from its JSON as it was written.\<close>

lemma parse_dump_relation:
  "validate_relation r = Inr r' \<Longrightarrow> parse_relation (dump_relation r) = Inr (Some r)"
  by (cases r; cases "rr_semantics r")
    (auto simp: parse_relation_def dump_relation_def jget_def parse_str_def parse_semantics_def
      parse_strs_def j_strs_def validate_relation_def res_simps)

lemma validate_relation_iff: "validate_relation r = Inr r' \<longleftrightarrow> \<not> blank (rr_relation_type r) \<and> r' = r"
  by (auto simp: validate_relation_def res_simps)

lemma validate_operation_iff:
  "validate_operation op = Inr op' \<longleftrightarrow> op' = op \<and> \<not> blank (op_proposition op)
     \<and> (op_proposed_state op \<in> {CONFIRMED, CONFLICT} \<and> op_disposition op = SET \<longrightarrow> op_evidence_refs op \<noteq> [])"
  by (auto simp: validate_operation_def res_simps)

text \<open>What the validator of a patch accepts.\<close>

lemma validate_patch_identity_iff:
  "validate_patch_identity p = Inr p' \<longleftrightarrow> p' = p \<and> 0 \<le> sp_base_case_revision p \<and> sp_operations p \<noteq> []
     \<and> \<not> blank (sp_patch_id p) \<and> \<not> blank (sp_case_id p) \<and> \<not> blank (sp_producer p)
     \<and> (\<forall>op \<in> set (sp_operations p). validate_operation op = Inr op
          \<and> (\<forall>r. op_reasoning_relation op = Some r \<longrightarrow> validate_relation r = Inr r))"
proof -
  have "(\<exists>u. validate_optional_relation o' = Inr u) \<longleftrightarrow> (\<forall>r. o' = Some r \<longrightarrow> validate_relation r = Inr r)" for o'
    by (cases o') (auto simp: validate_optional_relation_def res_simps validate_relation_iff)
  then show ?thesis
    unfolding validate_patch_identity_def
    by (auto simp: res_simps fold_res_unit validate_operation_iff)
qed

lemma need_view_iff:
  "need_view n = Inr n' \<longleftrightarrow> n' = n \<and> nd_purpose n \<noteq> [] \<and> length (nd_purpose n) \<le> 256
     \<and> 1 \<le> ec_min_independent_sources (nd_evidence_contract n) \<and> 0 \<le> nd_priority n \<and> nd_priority n \<le> 100"
  by (auto simp: need_view_def res_simps)

lemma item_view_total:
  assumes "parse_relation (bi_reasoning_relation b) = Inr r" "1 \<le> bi_updated_revision b"
  shows "\<exists>i. item_view b = Inr i"
  using assms by (simp add: item_view_def raise_if_def)

lemma item_view_proj:
  assumes "item_view b = Inr i"
  shows "si_proposition i = bi_proposition b" "si_target_ref i = bi_target_ref b"
    "si_evidence_refs i = bi_evidence_refs b" "si_updated_revision i = bi_updated_revision b"
    "parse_relation (bi_reasoning_relation b) = Inr (si_reasoning_relation i)"
  using assms by (auto simp: item_view_def res_simps)

end
