(* ===== verification/Evidence_Support.thy ===== *)
theory Evidence_Support
  imports Runtime_Prelude
begin

text \<open>
  \<^verbatim>\<open>intelligence/retrieval/validation.py\<close>: the read-only questions the investigation asks of the knowledge
  store. Which references exist, which objects the cited evidence supports, which sources it comes
  from, and which claims, relations and objects it depends on. The tables of the knowledge store are
  lists of rows; rows carry the columns this code reads.
\<close>

section \<open>Rows\<close>

record knowledge_revision_row =
  kr_revision :: nat
  kr_committed_at :: int

record claim_row =
  cl_claim_id :: string
  cl_subject_id :: string

record relation_row =
  rl_relation_id :: string
  rl_source_object_id :: string
  rl_target_object_id :: string

record evidence_link =
  el_evidence_link_id :: string
  el_target_kind :: string
  el_target_id :: string
  el_observation_id :: string

record observation_row =
  ob_observation_id :: string
  ob_source_id :: string

record source_row =
  so_source_id :: string
  so_source_role :: string
  so_source_family :: string
  so_upstream_source :: "string option"

text \<open>Of the objects and incidents only their identifiers are read.\<close>

record knowledge =
  kb_objects :: "string list"
  kb_incidents :: "string list"
  kb_claims :: "claim_row list"
  kb_relations :: "relation_row list"
  kb_links :: "evidence_link list"
  kb_observations :: "observation_row list"
  kb_sources :: "source_row list"
  kb_revisions :: "knowledge_revision_row list"

section \<open>Operations\<close>

record evidence_support =
  es_evidence_refs :: "string list"
  es_source_roles :: "string list"
  es_independent_source_keys :: "string list"
  es_supported_object_ids :: "string list"

record evidence_dependency =
  ed_evidence_ref :: string
  ed_target_kind :: string
  ed_target_id :: string

definition current_knowledge_revision :: "knowledge \<Rightarrow> nat" where
  "current_knowledge_revision kb = fold max (map kr_revision (kb_revisions kb)) 0"

definition knowledge_revision_at :: "knowledge \<Rightarrow> datetime \<Rightarrow> nat" where
  "knowledge_revision_at kb instant =
     fold max (map kr_revision (filter (\<lambda>r. kr_committed_at r \<le> as_utc instant) (kb_revisions kb))) 0"

definition visible_at_knowledge_revision :: "nat \<Rightarrow> nat option \<Rightarrow> nat \<Rightarrow> bool" where
  "visible_at_knowledge_revision created superseded revision \<longleftrightarrow>
     created \<le> revision \<and> (case superseded of None \<Rightarrow> True | Some r \<Rightarrow> revision < r)"

definition evidence_link_id :: "string \<Rightarrow> string" where
  "evidence_link_id ref' = removeprefix ref' ''evidence:''"

text \<open>
  The dictionary of \<^verbatim>\<open>setdefault\<close>: the first reference of each link id. Two spellings of one link are one
  dependency, reported under the spelling that came first.
\<close>

fun requested_by_id :: "string list \<Rightarrow> (string \<times> string) list \<Rightarrow> (string \<times> string) list" where
  "requested_by_id [] d = d"
| "requested_by_id (ref' # refs) d =
     requested_by_id refs
       (if map_of d (evidence_link_id ref') = None then d @ [(evidence_link_id ref', ref')] else d)"

definition evidence_dependencies :: "knowledge \<Rightarrow> string list \<Rightarrow> evidence_dependency list" where
  "evidence_dependencies kb refs =
     (let requested = requested_by_id refs [] in
      map (\<lambda>row. \<lparr>ed_evidence_ref = (case map_of requested (el_evidence_link_id row) of
                     None \<Rightarrow> el_evidence_link_id row | Some ref' \<Rightarrow> ref'),
                  ed_target_kind = el_target_kind row, ed_target_id = el_target_id row\<rparr>)
        (filter (\<lambda>row. el_evidence_link_id row \<in> set (map fst requested)) (kb_links kb)))"

definition validate_object_refs :: "knowledge \<Rightarrow> string list \<Rightarrow> string list" where
  "validate_object_refs kb object_ids = filter (\<lambda>i. i \<notin> set (kb_objects kb)) object_ids"

definition validate_target_ref :: "knowledge \<Rightarrow> string \<Rightarrow> bool" where
  "validate_target_ref kb target_ref =
     (let (kind, separator, identity) = str_partition (CHR '':'') target_ref in
      if separator = [] \<or> identity = [] then False
      else if kind = ''object'' then identity \<in> set (kb_objects kb)
      else if kind = ''incident'' then identity \<in> set (kb_incidents kb)
      else False)"

text \<open>The rows of the join of links, observations and sources.\<close>

definition support_rows :: "knowledge \<Rightarrow> string list \<Rightarrow> (evidence_link \<times> source_row) list" where
  "support_rows kb refs =
     [(l, s). l \<leftarrow> kb_links kb, ob \<leftarrow> kb_observations kb, ob_observation_id ob = el_observation_id l,
        s \<leftarrow> kb_sources kb, so_source_id s = ob_source_id ob
        \<and> el_evidence_link_id l \<in> set (map evidence_link_id refs)]"

definition independence_key :: "source_row \<Rightarrow> string" where
  "independence_key s =
     (case so_upstream_source s of
        Some (c # u) \<Rightarrow> ''upstream:'' @ (c # u)
      | _ \<Rightarrow> if so_source_family s \<noteq> [] then ''family:'' @ so_source_family s
             else ''source:'' @ so_source_id s)"

definition supported_by_link :: "knowledge \<Rightarrow> evidence_link \<Rightarrow> string list" where
  "supported_by_link kb l =
     (if el_target_kind l = ''object'' then [el_target_id l]
      else if el_target_kind l = ''claim'' then
        (case tab_get cl_claim_id (el_target_id l) (kb_claims kb) of
           None \<Rightarrow> [] | Some c \<Rightarrow> [cl_subject_id c])
      else if el_target_kind l = ''relation'' then
        (case tab_get rl_relation_id (el_target_id l) (kb_relations kb) of
           None \<Rightarrow> [] | Some r \<Rightarrow> [rl_source_object_id r, rl_target_object_id r])
      else [])"

definition evidence_support_summary :: "knowledge \<Rightarrow> string list \<Rightarrow> evidence_support" where
  "evidence_support_summary kb refs =
     (if refs = [] then \<lparr>es_evidence_refs = [], es_source_roles = [],
         es_independent_source_keys = [], es_supported_object_ids = []\<rparr>
      else
        let rows = support_rows kb refs;
            found_ids = map (\<lambda>(l, _). el_evidence_link_id l) rows
        in \<lparr>es_evidence_refs = sorted_set (filter (\<lambda>ref'. evidence_link_id ref' \<in> set found_ids) refs),
            es_source_roles = sorted_set (map (\<lambda>(_, s). so_source_role s) rows),
            es_independent_source_keys = sorted_set (map (\<lambda>(_, s). independence_key s) rows),
            es_supported_object_ids = sorted_set (concat (map (\<lambda>(l, _). supported_by_link kb l) rows))\<rparr>)"

text \<open>What the cited evidence is about: the reference notion for the lemmas below.\<close>

definition dependency_targets :: "knowledge \<Rightarrow> string list \<Rightarrow> (string \<times> string) set" where
  "dependency_targets kb refs =
     (\<lambda>dep. (ed_target_kind dep, ed_target_id dep)) ` set (evidence_dependencies kb refs)"

section \<open>Lemmas\<close>

lemma requested_by_id_keys:
  "fst ` set (requested_by_id refs d) = fst ` set d \<union> evidence_link_id ` set refs"
proof (induction refs d rule: requested_by_id.induct)
  case (2 r refs d)
  then show ?case
  proof (cases "map_of d (evidence_link_id r)")
    case (Some v)
    then have "evidence_link_id r \<in> fst ` set d" by (metis map_of_eq_None_iff option.distinct(1))
    with 2 Some show ?thesis by auto
  qed (use 2 in auto)
qed simp

lemma requested_by_id_spelling:
  assumes "map_of (requested_by_id refs d) k = Some ref'"
  shows "map_of d k = Some ref' \<or> (ref' \<in> set refs \<and> evidence_link_id ref' = k)"
  using assms
proof (induction refs d rule: requested_by_id.induct)
  case (2 r refs d)
  then show ?case
    by (cases "map_of d (evidence_link_id r)") (auto simp: map_add_def split: option.splits if_splits)
qed simp

text \<open>Every dependency is that of a link one of the references names, under a spelling that was asked for.\<close>

lemma evidence_dependencies_sound:
  assumes "dep \<in> set (evidence_dependencies kb refs)"
  shows "ed_evidence_ref dep \<in> set refs"
    and "\<exists>l \<in> set (kb_links kb). el_evidence_link_id l = evidence_link_id (ed_evidence_ref dep)
      \<and> el_target_kind l = ed_target_kind dep \<and> el_target_id l = ed_target_id dep"
proof -
  from assms obtain l where l: "l \<in> set (kb_links kb)"
      "el_evidence_link_id l \<in> fst ` set (requested_by_id refs [])"
      "dep = \<lparr>ed_evidence_ref = (case map_of (requested_by_id refs []) (el_evidence_link_id l) of
           None \<Rightarrow> el_evidence_link_id l | Some ref' \<Rightarrow> ref'),
         ed_target_kind = el_target_kind l, ed_target_id = el_target_id l\<rparr>"
    by (auto simp: evidence_dependencies_def Let_def)
  then obtain r where r: "map_of (requested_by_id refs []) (el_evidence_link_id l) = Some r"
    by (metis map_of_eq_None_iff not_None_eq)
  with l(3) have e: "ed_evidence_ref dep = r" by simp
  from requested_by_id_spelling [OF r] have s: "r \<in> set refs" "evidence_link_id r = el_evidence_link_id l"
    by simp_all
  show "ed_evidence_ref dep \<in> set refs" using e s by simp
  show "\<exists>l \<in> set (kb_links kb). el_evidence_link_id l = evidence_link_id (ed_evidence_ref dep)
      \<and> el_target_kind l = ed_target_kind dep \<and> el_target_id l = ed_target_id dep"
    using l(1,3) e s(2) by (intro bexI [of _ l]) simp_all
qed

lemma evidence_dependencies_complete:
  assumes "l \<in> set (kb_links kb)" "el_evidence_link_id l \<in> evidence_link_id ` set refs"
  shows "\<exists>dep \<in> set (evidence_dependencies kb refs).
    ed_target_kind dep = el_target_kind l \<and> ed_target_id dep = el_target_id l"
  using assms requested_by_id_keys [of refs "[]"]
  by (auto simp: evidence_dependencies_def Let_def)

text \<open>Which links count depends on the references as a set, not on their order or repetition.\<close>

lemma dependency_targets_iff:
  "(kind, i) \<in> dependency_targets kb refs \<longleftrightarrow>
     (\<exists>l \<in> set (kb_links kb). el_evidence_link_id l \<in> evidence_link_id ` set refs
        \<and> el_target_kind l = kind \<and> el_target_id l = i)"
proof
  assume "(kind, i) \<in> dependency_targets kb refs"
  then obtain dep where "dep \<in> set (evidence_dependencies kb refs)" "ed_target_kind dep = kind" "ed_target_id dep = i"
    by (auto simp: dependency_targets_def)
  with evidence_dependencies_sound [of dep kb refs] show "\<exists>l \<in> set (kb_links kb).
      el_evidence_link_id l \<in> evidence_link_id ` set refs \<and> el_target_kind l = kind \<and> el_target_id l = i"
    by auto
next
  assume "\<exists>l \<in> set (kb_links kb). el_evidence_link_id l \<in> evidence_link_id ` set refs
    \<and> el_target_kind l = kind \<and> el_target_id l = i"
  then show "(kind, i) \<in> dependency_targets kb refs"
    using evidence_dependencies_complete [of _ kb refs] by (force simp: dependency_targets_def)
qed

lemma validate_object_refs_Nil: "validate_object_refs kb ids = [] \<longleftrightarrow> set ids \<subseteq> set (kb_objects kb)"
  by (auto simp: validate_object_refs_def filter_empty_conv)

lemma validate_target_ref_object:
  "validate_target_ref kb (''object:'' @ i) \<longleftrightarrow> i \<noteq> [] \<and> i \<in> set (kb_objects kb)"
proof -
  have "str_partition (CHR '':'') (''object'' @ CHR '':'' # i) = (''object'', '':'', i)"
    by (rule str_partition_append) simp
  then show ?thesis by (simp add: validate_target_ref_def)
qed

lemma in_support_rows:
  "(l, s) \<in> set (support_rows kb refs) \<longleftrightarrow>
     l \<in> set (kb_links kb) \<and> s \<in> set (kb_sources kb) \<and> el_evidence_link_id l \<in> evidence_link_id ` set refs
     \<and> (\<exists>ob \<in> set (kb_observations kb). ob_observation_id ob = el_observation_id l \<and> ob_source_id ob = so_source_id s)"
proof -
  have "(\<exists>ob \<in> set (kb_observations kb) \<inter> {ob. ob_observation_id ob = el_observation_id l}. so_source_id s = ob_source_id ob)
    \<longleftrightarrow> (\<exists>ob \<in> set (kb_observations kb). ob_observation_id ob = el_observation_id l \<and> ob_source_id ob = so_source_id s)"
    by (metis (mono_tags, lifting) IntE IntI mem_Collect_eq)
  then show ?thesis by (auto simp: support_rows_def)
qed

lemma supported_objects_iff:
  "refs \<noteq> [] \<Longrightarrow> i \<in> set (es_supported_object_ids (evidence_support_summary kb refs)) \<longleftrightarrow>
     (\<exists>l s. (l, s) \<in> set (support_rows kb refs) \<and> i \<in> set (supported_by_link kb l))"
  by (force simp: evidence_support_summary_def Let_def)

lemma found_refs_iff:
  "refs \<noteq> [] \<Longrightarrow> ref' \<in> set (es_evidence_refs (evidence_support_summary kb refs)) \<longleftrightarrow>
     ref' \<in> set refs \<and> (\<exists>l s. (l, s) \<in> set (support_rows kb refs) \<and> el_evidence_link_id l = evidence_link_id ref')"
  by (force simp: evidence_support_summary_def Let_def)

end
