(* ===== verification/Investigation_State.thy ===== *)
theory Investigation_State
  imports Case_Contracts Evidence_Support "HOL-Library.Product_Lexorder"
begin

text \<open>
  \<^verbatim>\<open>investigation/state/service.py\<close>: the state of an investigation case as a projection of its append-only events.
  Patches, decisions, evidence needs and perceptions append events under an optimistic revision check
  and rebuild the projection; a reader may ask for the state at any earlier revision.

  Each call takes the environment \<open>call_env\<close>: the identifier \<^verbatim>\<open>uuid4()\<close> draws for the event of a revision, the readings
  of the clock (\<open>cv_now r k\<close> is the \<open>k\<close>-th reading while the case is at revision \<open>r\<close>), and \<^verbatim>\<open>datetime.isoformat\<close> with
  \<^verbatim>\<open>datetime.fromisoformat\<close>.
\<close>

record call_env =
  cv_id :: "nat \<Rightarrow> string"
  cv_now :: "nat \<Rightarrow> nat \<Rightarrow> int"
  cv_isoformat :: "int \<Rightarrow> string"
  cv_fromisoformat :: "string \<Rightarrow> int res"

section \<open>Replay\<close>

type_synonym fact_key = "string \<times> string option"

record buckets =
  bk_confirmed :: "(fact_key \<times> bucket_item) list"
  bk_tentative :: "(fact_key \<times> bucket_item) list"
  bk_conflicts :: "(fact_key \<times> bucket_item) list"
  bk_unknowns :: "(fact_key \<times> bucket_item) list"
  bk_hypotheses :: "(fact_key \<times> bucket_item) list"

definition empty_buckets :: buckets where
  "empty_buckets = \<lparr>bk_confirmed = [], bk_tentative = [], bk_conflicts = [], bk_unknowns = [], bk_hypotheses = []\<rparr>"

definition item_of_event :: "case_event \<Rightarrow> string \<Rightarrow> bucket_item" where
  "item_of_event e p = \<lparr>bi_proposition = p, bi_target_ref = ce_target_ref e,
     bi_evidence_refs = ce_evidence_refs e, bi_writer = ce_writer e, bi_reason_code = ce_reason_code e,
     bi_reasoning_relation = jget (ce_payload e) ''reasoning_relation'', bi_updated_revision = ce_case_revision e\<rparr>"

text \<open>The loop that pops the key from the four buckets of facts.\<close>

definition pop_facts :: "fact_key \<Rightarrow> buckets \<Rightarrow> buckets" where
  "pop_facts k b = b\<lparr>bk_confirmed := dict_pop k (bk_confirmed b), bk_tentative := dict_pop k (bk_tentative b),
     bk_conflicts := dict_pop k (bk_conflicts b), bk_unknowns := dict_pop k (bk_unknowns b)\<rparr>"

definition replay_event :: "case_event \<Rightarrow> buckets \<Rightarrow> buckets" where
  "replay_event e b = (case ce_proposition e of
      None \<Rightarrow> b
    | Some p \<Rightarrow>
        let k = (p, ce_target_ref e); item = item_of_event e p; b' = pop_facts k b in
        (case ce_event_type e of
           FACT_CONFIRMED \<Rightarrow> b'\<lparr>bk_confirmed := dict_put k item (bk_confirmed b')\<rparr>
         | TENTATIVE_ADDED \<Rightarrow> b'\<lparr>bk_tentative := dict_put k item (bk_tentative b')\<rparr>
         | CONFLICT_OPENED \<Rightarrow> b'\<lparr>bk_conflicts := dict_put k item (bk_conflicts b')\<rparr>
         | UNKNOWN_OPENED \<Rightarrow> b'\<lparr>bk_unknowns := dict_put k item (bk_unknowns b')\<rparr>
         | HYPOTHESIS_ADDED \<Rightarrow> b\<lparr>bk_hypotheses := dict_put k item (bk_hypotheses b)\<rparr>
         | FACT_RETRACTED \<Rightarrow> b\<lparr>bk_confirmed := dict_pop k (bk_confirmed b)\<rparr>
         | TENTATIVE_REMOVED \<Rightarrow> b\<lparr>bk_tentative := dict_pop k (bk_tentative b)\<rparr>
         | CONFLICT_RESOLVED \<Rightarrow> b\<lparr>bk_conflicts := dict_pop k (bk_conflicts b)\<rparr>
         | UNKNOWN_RESOLVED \<Rightarrow> b\<lparr>bk_unknowns := dict_pop k (bk_unknowns b)\<rparr>
         | HYPOTHESIS_REJECTED \<Rightarrow> b\<lparr>bk_hypotheses := dict_pop k (bk_hypotheses b)\<rparr>
         | _ \<Rightarrow> b))"

definition replay_decision :: "case_event \<Rightarrow> jdict option \<Rightarrow> jdict option" where
  "replay_decision e d = (if ce_event_type e = DECISION_CHANGED
     then (case jget (ce_payload e) ''decision'' of JObj v \<Rightarrow> Some v | _ \<Rightarrow> None) else d)"

definition case_events :: "case_store \<Rightarrow> string \<Rightarrow> case_event list" where
  "case_events S case_id = sort_key ce_case_revision (filter (\<lambda>e. ce_case_id e = case_id) (iv_events S))"

section \<open>The current projection\<close>

definition open_need_ids :: "case_store \<Rightarrow> string \<Rightarrow> string list" where
  "open_need_ids S case_id = map nd_need_id (sort_key (\<lambda>n. (- nd_priority n, nd_need_id n))
     (filter (\<lambda>n. nd_case_id n = case_id \<and> nd_status n \<in> {NEED_OPEN, NEED_BLOCKED}) (iv_needs S)))"

definition latest_perception :: "case_store \<Rightarrow> string \<Rightarrow> perception_event option" where
  "latest_perception S case_id =
     (case rev (sort_key (\<lambda>p. (pe_finished_at p, pe_perception_event_id p))
         (filter (\<lambda>p. pe_case_id p = case_id) (iv_perceptions S))) of
        [] \<Rightarrow> None | p # _ \<Rightarrow> Some p)"

text \<open>The values \<^verbatim>\<open>_rebuild_current\<close> computes from the tables.\<close>

definition projection :: "case_store \<Rightarrow> investigation_case \<Rightarrow> int \<Rightarrow> state_current" where
  "projection S c now =
     (let events = case_events S (ic_case_id c);
          b = fold replay_event events empty_buckets;
          perceived = latest_perception S (ic_case_id c)
      in \<lparr>sc_case_id = ic_case_id c, sc_case_revision = ic_current_revision c, sc_goal = ic_goal c,
          sc_targets = ic_target_object_ids c,
          sc_confirmed = map snd (bk_confirmed b), sc_tentative = map snd (bk_tentative b),
          sc_conflicts = map snd (bk_conflicts b), sc_unknowns = map snd (bk_unknowns b),
          sc_hypotheses = map snd (bk_hypotheses b),
          sc_evidence_need_ids = open_need_ids S (ic_case_id c),
          sc_current_decision = fold replay_decision events None,
          sc_last_world_revision = (case perceived of
             None \<Rightarrow> ic_initial_knowledge_revision c | Some p \<Rightarrow> Some (pe_world_revision p)),
          sc_last_perception_at = map_option pe_finished_at perceived,
          sc_updated_at = now\<rparr>)"

definition rebuild_current :: "call_env \<Rightarrow> case_store \<Rightarrow> investigation_case \<Rightarrow> bool \<Rightarrow> case_store \<times> state_current" where
  "rebuild_current env S c force =
     (let new = projection S c (cv_now env (ic_current_revision c) 0) in
      case tab_get sc_case_id (ic_case_id c) (iv_currents S) of
        None \<Rightarrow> (S\<lparr>iv_currents := iv_currents S @ [new]\<rparr>, new)
      | Some current \<Rightarrow>
          if sc_case_revision current = ic_current_revision c \<and> \<not> force then (S, current)
          else (S\<lparr>iv_currents := tab_put sc_case_id new (iv_currents S)\<rparr>, new))"

text \<open>\<^verbatim>\<open>InvestigationState\<close> checks the world revision; the items are validated one by one.\<close>

definition check_world_revision :: "int option \<Rightarrow> 'a res \<Rightarrow> 'a res" where
  "check_world_revision w rest = raise_if (case w of None \<Rightarrow> False | Some n \<Rightarrow> n < 0)
     (ValueError ''last_world_revision should be greater than or equal to 0'') rest"

definition state_view :: "state_current \<Rightarrow> investigation_state res" where
  "state_view m =
     res_bind (map_res item_view (sc_confirmed m)) (\<lambda>confirmed.
     res_bind (map_res item_view (sc_tentative m)) (\<lambda>tentative.
     res_bind (map_res item_view (sc_conflicts m)) (\<lambda>conflicts.
     res_bind (map_res item_view (sc_unknowns m)) (\<lambda>unknowns.
     res_bind (map_res item_view (sc_hypotheses m)) (\<lambda>hypotheses.
     check_world_revision (sc_last_world_revision m)
       (Inr \<lparr>is_case_id = sc_case_id m, is_case_revision = sc_case_revision m, is_goal = sc_goal m,
          is_targets = sc_targets m, is_confirmed = confirmed, is_tentative = tentative,
          is_conflicts = conflicts, is_unknowns = unknowns, is_hypotheses = hypotheses,
          is_evidence_need_ids = sc_evidence_need_ids m, is_current_decision = sc_current_decision m,
          is_last_world_revision = sc_last_world_revision m,
          is_last_perception_at = sc_last_perception_at m, is_updated_at = sc_updated_at m\<rparr>))))))"

definition case_not_found :: "string \<Rightarrow> py_error" where
  "case_not_found case_id = LookupError (''investigation case not found: '' @ case_id)"

definition get_state :: "call_env \<Rightarrow> case_store \<Rightarrow> string \<Rightarrow> (case_store \<times> investigation_state) res" where
  "get_state env S case_id =
     res_bind (res_of_option (case_not_found case_id) (tab_get ic_case_id case_id (iv_cases S))) (\<lambda>c.
     let (T, current) = (case tab_get sc_case_id case_id (iv_currents S) of
            None \<Rightarrow> rebuild_current env S c False
          | Some current \<Rightarrow> (S, current))
     in res_bind (state_view current) (\<lambda>st. Inr (T, st)))"

definition rebuild_state :: "call_env \<Rightarrow> case_store \<Rightarrow> string \<Rightarrow> (case_store \<times> investigation_state) res" where
  "rebuild_state env S case_id =
     res_bind (res_of_option (case_not_found case_id) (tab_get ic_case_id case_id (iv_cases S))) (\<lambda>c.
     let (T, current) = rebuild_current env S c True
     in res_bind (state_view current) (\<lambda>st. Inr (T, st)))"

section \<open>The state at an earlier revision\<close>

text \<open>\<^verbatim>\<open>value.replace("Z", "+00:00")\<close>, then \<^verbatim>\<open>fromisoformat\<close>.\<close>

definition replace_Z :: "string \<Rightarrow> string" where
  "replace_Z s = concat (map (\<lambda>c. if c = CHR ''Z'' then ''+00:00'' else [c]) s)"

definition payload_datetime :: "call_env \<Rightarrow> json \<Rightarrow> int option res" where
  "payload_datetime env v = (case v of
      JStr s \<Rightarrow> res_bind (cv_fromisoformat env (replace_Z s)) (\<lambda>t. Inr (Some t))
    | _ \<Rightarrow> Inr None)"

record history =
  hs_buckets :: buckets
  hs_decision :: "jdict option"
  hs_open_need_ids :: "string list"
  hs_last_world_revision :: "int option"
  hs_last_perception_at :: "int option"

text \<open>What one event does to the list of open needs.\<close>

definition replay_need :: "case_event \<Rightarrow> string list \<Rightarrow> string list" where
  "replay_need e ids = (case jget (ce_payload e) ''need_id'' of
      JStr i \<Rightarrow>
        (if ce_event_type e = EVIDENCE_NEED_OPENED then (if i \<in> set ids then ids else ids @ [i])
         else if ce_event_type e = EVIDENCE_NEED_RESOLVED then filter (\<lambda>j. j \<noteq> i) ids
         else ids)
    | _ \<Rightarrow> ids)"

definition replay_perception :: "call_env \<Rightarrow> case_event \<Rightarrow> history \<Rightarrow> history res" where
  "replay_perception env e h =
     res_bind (payload_datetime env (jget (ce_payload e) ''perceived_at'')) (\<lambda>perceived_at.
     Inr (h\<lparr>hs_last_world_revision := (case json_int (jget (ce_payload e) ''world_revision'') of
                None \<Rightarrow> hs_last_world_revision h | Some w \<Rightarrow> Some w),
            hs_last_perception_at := (case perceived_at of
                None \<Rightarrow> hs_last_perception_at h | Some t \<Rightarrow> Some t)\<rparr>))"

definition history_step :: "call_env \<Rightarrow> case_event \<Rightarrow> history \<Rightarrow> history res" where
  "history_step env e h =
     (let h' = h\<lparr>hs_buckets := replay_event e (hs_buckets h),
                 hs_decision := replay_decision e (hs_decision h),
                 hs_open_need_ids := replay_need e (hs_open_need_ids h)\<rparr> in
      if ce_event_type e = PERCEPTION_RECORDED then replay_perception env e h' else Inr h')"

definition empty_history :: "investigation_case \<Rightarrow> history" where
  "empty_history c = \<lparr>hs_buckets = empty_buckets, hs_decision = None, hs_open_need_ids = [],
     hs_last_world_revision = ic_initial_knowledge_revision c, hs_last_perception_at = None\<rparr>"

definition history_view :: "investigation_case \<Rightarrow> nat \<Rightarrow> int \<Rightarrow> history \<Rightarrow> investigation_state res" where
  "history_view c revision updated_at h =
     state_view \<lparr>sc_case_id = ic_case_id c, sc_case_revision = revision, sc_goal = ic_goal c,
       sc_targets = ic_target_object_ids c,
       sc_confirmed = map snd (bk_confirmed (hs_buckets h)), sc_tentative = map snd (bk_tentative (hs_buckets h)),
       sc_conflicts = map snd (bk_conflicts (hs_buckets h)), sc_unknowns = map snd (bk_unknowns (hs_buckets h)),
       sc_hypotheses = map snd (bk_hypotheses (hs_buckets h)), sc_evidence_need_ids = hs_open_need_ids h,
       sc_current_decision = hs_decision h, sc_last_world_revision = hs_last_world_revision h,
       sc_last_perception_at = hs_last_perception_at h, sc_updated_at = updated_at\<rparr>"

definition get_state_at_revision :: "call_env \<Rightarrow> case_store \<Rightarrow> string \<Rightarrow> int \<Rightarrow> investigation_state res" where
  "get_state_at_revision env S case_id revision =
     res_bind (res_of_option (case_not_found case_id) (tab_get ic_case_id case_id (iv_cases S))) (\<lambda>c.
     raise_if (revision < 0 \<or> int (ic_current_revision c) < revision)
       (ValueError (''historical case revision outside durable range: requested='' @ show_int revision
          @ '', current='' @ show_nat (ic_current_revision c)))
     (let events = filter (\<lambda>e. ce_case_revision e \<le> nat revision) (case_events S case_id) in
      raise_if (0 < revision \<and> (events = [] \<or> int (ce_case_revision (last events)) \<noteq> revision))
        (RuntimeError (''case event history is incomplete at revision '' @ show_int revision))
      (res_bind (fold_res (history_step env) events (empty_history c)) (\<lambda>h.
       history_view c (nat revision) (if events = [] then ic_created_at c else ce_created_at (last events)) h))))"

section \<open>Writing events\<close>

definition lock_case :: "case_store \<Rightarrow> string \<Rightarrow> investigation_case res" where
  "lock_case S case_id =
     res_bind (res_of_option (case_not_found case_id) (tab_get ic_case_id case_id (iv_cases S))) (\<lambda>c.
     raise_if (ic_status c \<in> {''closed'', ''cancelled''})
       (StatePatchRejected (''case state is immutable in lifecycle='' @ ic_status c)) (Inr c))"

definition require_revision :: "investigation_case \<Rightarrow> int \<Rightarrow> 'a res \<Rightarrow> 'a res" where
  "require_revision c base rest = raise_if (int (ic_current_revision c) \<noteq> base)
     (StateRevisionConflict (''stale case revision: base='' @ show_int base
        @ '', current='' @ show_nat (ic_current_revision c))) rest"

text \<open>The arguments of \<^verbatim>\<open>_append_event\<close>.\<close>

record event_draft =
  dr_event_type :: case_state_event_type
  dr_proposition :: "string option"
  dr_target_ref :: "string option"
  dr_evidence_refs :: "string list"
  dr_writer :: string
  dr_reason_code :: string
  dr_payload :: jdict
  dr_created_at :: int
  dr_patch_id :: "string option"
  dr_operation_index :: "nat option"

definition event_of_draft :: "call_env \<Rightarrow> investigation_case \<Rightarrow> event_draft \<Rightarrow> case_event" where
  "event_of_draft env c d = \<lparr>ce_event_id = cv_id env (ic_current_revision c + 1), ce_case_id = ic_case_id c,
     ce_case_revision = ic_current_revision c + 1, ce_base_case_revision = ic_current_revision c,
     ce_event_type = dr_event_type d, ce_patch_id = dr_patch_id d, ce_operation_index = dr_operation_index d,
     ce_proposition = dr_proposition d, ce_target_ref = dr_target_ref d, ce_evidence_refs = dr_evidence_refs d,
     ce_writer = dr_writer d, ce_reason_code = dr_reason_code d, ce_payload = dr_payload d,
     ce_created_at = dr_created_at d\<rparr>"

definition same_patch_slot :: "case_event \<Rightarrow> case_event \<Rightarrow> bool" where
  "same_patch_slot e x \<longleftrightarrow> ce_case_id x = ce_case_id e \<and> ce_patch_id e \<noteq> None \<and> ce_operation_index e \<noteq> None
     \<and> ce_patch_id x = ce_patch_id e \<and> ce_operation_index x = ce_operation_index e"

text \<open>The primary key and the two unique constraints of \<^verbatim>\<open>case_state_events\<close>.\<close>

definition add_event :: "case_event \<Rightarrow> case_event list \<Rightarrow> case_event list res" where
  "add_event e es =
     raise_if (\<exists>x \<in> set es. ce_case_id x = ce_case_id e \<and> ce_case_revision x = ce_case_revision e)
       (IntegrityError ''uq_case_state_revision'')
     (raise_if (\<exists>x \<in> set es. same_patch_slot e x) (IntegrityError ''uq_case_state_patch_operation'')
     (tab_add ce_event_id e es))"

definition advance_case :: "investigation_case \<Rightarrow> investigation_case" where
  "advance_case c = c\<lparr>ic_current_revision := ic_current_revision c + 1,
     ic_status := (if ic_status c \<in> {''open'', ''running'', ''created'', ''waiting''} then ''active''
                   else ic_status c)\<rparr>"

definition append_event ::
  "call_env \<Rightarrow> case_store \<Rightarrow> investigation_case \<Rightarrow> event_draft
     \<Rightarrow> (case_store \<times> investigation_case \<times> case_event) res" where
  "append_event env S c d =
     (let e = event_of_draft env c d; c' = advance_case c in
      res_bind (add_event e (iv_events S)) (\<lambda>events.
      Inr (S\<lparr>iv_events := events, iv_cases := tab_put ic_case_id c' (iv_cases S)\<rparr>, c', e)))"

section \<open>Validation of patches\<close>

definition validate_target_objects :: "knowledge \<Rightarrow> string list \<Rightarrow> unit res" where
  "validate_target_objects kb object_ids = (case validate_object_refs kb object_ids of
      [] \<Rightarrow> Inr ()
    | m # _ \<Rightarrow> Inl (StatePatchRejected (''target object not found: '' @ m)))"

definition validate_evidence_refs :: "knowledge \<Rightarrow> string list \<Rightarrow> unit res" where
  "validate_evidence_refs kb refs =
     (if refs = [] then Inr ()
      else case sorted_set (filter (\<lambda>r. r \<notin> set (es_evidence_refs (evidence_support_summary kb refs))) refs) of
             [] \<Rightarrow> Inr ()
           | m # _ \<Rightarrow> Inl (StatePatchRejected (''unknown EvidenceRef: '' @ m)))"

fun first_missing :: "string list \<Rightarrow> string list \<Rightarrow> string option" where
  "first_missing [] present = None"
| "first_missing (r # rs) present = (if r \<in> set present then first_missing rs present else Some r)"

text \<open>The message for an unsupported predicate leaves out the value it formats.\<close>

definition validate_need_resolution :: "knowledge \<Rightarrow> evidence_need \<Rightarrow> state_patch_operation \<Rightarrow> unit res" where
  "validate_need_resolution kb need op =
     (let contract = nd_evidence_contract need in
      raise_if (op_proposed_state op \<notin> set (ec_accepted_states contract))
        (EvidenceNeedResolutionRejected ''proposed state does not satisfy EvidenceNeed completion contract'')
      (raise_if (jget (nd_completion_predicate need) ''type'' \<noteq> JStr ''state_accepted'')
        (EvidenceNeedResolutionRejected ''unsupported EvidenceNeed completion predicate'')
      (raise_if (ec_require_evidence contract \<and> op_evidence_refs op = [])
        (EvidenceNeedResolutionRejected ''EvidenceNeed resolution requires evidence'')
      (if op_evidence_refs op = [] then Inr ()
       else
         let support = evidence_support_summary kb (op_evidence_refs op) in
         case first_missing (ec_required_source_roles contract) (es_source_roles support) of
           Some role \<Rightarrow> Inl (EvidenceNeedResolutionRejected (''required source role missing: '' @ role))
         | None \<Rightarrow>
             raise_if (length (es_independent_source_keys support) < ec_min_independent_sources contract)
               (EvidenceNeedResolutionRejected (''independent source requirement unsatisfied: ''
                  @ show_nat (length (es_independent_source_keys support)) @ ''/''
                  @ show_nat (ec_min_independent_sources contract)))
             (Inr ())))))"

definition validate_resolved_need :: "knowledge \<Rightarrow> case_store \<Rightarrow> string \<Rightarrow> state_patch_operation \<Rightarrow> unit res" where
  "validate_resolved_need kb S case_id op = (case op_resolves_need_id op of
      None \<Rightarrow> Inr ()
    | Some need_id \<Rightarrow>
        (case tab_get nd_need_id need_id (iv_needs S) of
           None \<Rightarrow> Inl (StatePatchRejected ''resolves_need_id does not belong to this case'')
         | Some need \<Rightarrow>
             raise_if (nd_case_id need \<noteq> case_id)
               (StatePatchRejected ''resolves_need_id does not belong to this case'')
             (raise_if (nd_status need \<noteq> NEED_OPEN)
               (StatePatchRejected ''only an open EvidenceNeed can be resolved'')
             (validate_need_resolution kb need op))))"

definition unsupported_object :: "knowledge \<Rightarrow> state_patch_operation \<Rightarrow> bool" where
  "unsupported_object kb op = (case op_target_ref op of
      None \<Rightarrow> False
    | Some t \<Rightarrow> startswith t ''object:'' \<and> op_proposed_state op \<in> {CONFIRMED, CONFLICT} \<and> op_disposition op = SET
        \<and> removeprefix t ''object:''
            \<notin> set (es_supported_object_ids (evidence_support_summary kb (op_evidence_refs op))))"

definition inferred_confirmation :: "state_patch_operation \<Rightarrow> bool" where
  "inferred_confirmation op \<longleftrightarrow> (case op_reasoning_relation op of
      None \<Rightarrow> False | Some r \<Rightarrow> rr_semantics r = INFERRED)
     \<and> op_proposed_state op = CONFIRMED \<and> op_disposition op = SET"

definition validate_patch_operation ::
  "knowledge \<Rightarrow> case_store \<Rightarrow> string \<Rightarrow> state_patch_operation \<Rightarrow> unit res" where
  "validate_patch_operation kb S case_id op =
     raise_if (case op_target_ref op of None \<Rightarrow> False | Some t \<Rightarrow> \<not> validate_target_ref kb t)
       (StatePatchRejected (''invalid or missing target_ref: '' @ (case op_target_ref op of None \<Rightarrow> [] | Some t \<Rightarrow> t)))
     (res_bind (validate_evidence_refs kb (op_evidence_refs op)) (\<lambda>_.
      raise_if (unsupported_object kb op)
        (StatePatchRejected ''EvidenceRef does not support StatePatch target object'')
      (raise_if (inferred_confirmation op)
        (StatePatchRejected ''inferred reasoning relation cannot write confirmed state'')
      (validate_resolved_need kb S case_id op))))"

definition validate_patch :: "knowledge \<Rightarrow> case_store \<Rightarrow> state_patch \<Rightarrow> unit res" where
  "validate_patch kb S p =
     fold_res (\<lambda>op _. validate_patch_operation kb S (sp_case_id p) op) (sp_operations p) ()"

section \<open>Applying patches\<close>

fun event_type_for :: "proposed_state \<Rightarrow> patch_disposition \<Rightarrow> case_state_event_type" where
  "event_type_for CONFIRMED SET = FACT_CONFIRMED"
| "event_type_for CONFIRMED CLEAR = FACT_RETRACTED"
| "event_type_for TENTATIVE SET = TENTATIVE_ADDED"
| "event_type_for TENTATIVE CLEAR = TENTATIVE_REMOVED"
| "event_type_for CONFLICT SET = CONFLICT_OPENED"
| "event_type_for CONFLICT CLEAR = CONFLICT_RESOLVED"
| "event_type_for UNKNOWN SET = UNKNOWN_OPENED"
| "event_type_for UNKNOWN CLEAR = UNKNOWN_RESOLVED"
| "event_type_for HYPOTHESIS SET = HYPOTHESIS_ADDED"
| "event_type_for HYPOTHESIS CLEAR = HYPOTHESIS_REJECTED"

definition operation_draft :: "state_patch \<Rightarrow> string \<Rightarrow> int \<Rightarrow> nat \<Rightarrow> state_patch_operation \<Rightarrow> event_draft" where
  "operation_draft p reason now index op =
     \<lparr>dr_event_type = event_type_for (op_proposed_state op) (op_disposition op),
      dr_proposition = Some (op_proposition op), dr_target_ref = op_target_ref op,
      dr_evidence_refs = op_evidence_refs op, dr_writer = sp_producer p, dr_reason_code = reason,
      dr_payload = [(''proposed_state'', JStr (proposed_state_value (op_proposed_state op))),
        (''disposition'', JStr (disposition_value (op_disposition op))),
        (''reasoning_relation'', case op_reasoning_relation op of None \<Rightarrow> JNull | Some r \<Rightarrow> dump_relation r),
        (''resolves_need_id'', j_opt_str (op_resolves_need_id op)),
        (''model_prompt_revision'', j_opt_str (sp_model_prompt_revision p))],
      dr_created_at = now, dr_patch_id = Some (sp_patch_id p), dr_operation_index = Some index\<rparr>"

definition resolution_draft ::
  "evidence_need \<Rightarrow> state_patch_operation \<Rightarrow> string \<Rightarrow> int \<Rightarrow> event_draft" where
  "resolution_draft need op writer now =
     \<lparr>dr_event_type = EVIDENCE_NEED_RESOLVED, dr_proposition = Some (nd_proposition_or_question need),
      dr_target_ref = op_target_ref op, dr_evidence_refs = op_evidence_refs op, dr_writer = writer,
      dr_reason_code = ''evidence_need_completion_predicate_satisfied'',
      dr_payload = [(''need_id'', JStr (nd_need_id need))], dr_created_at = now,
      dr_patch_id = None, dr_operation_index = None\<rparr>"

definition put_need :: "evidence_need \<Rightarrow> case_store \<Rightarrow> case_store" where
  "put_need n S = S\<lparr>iv_needs := tab_put nd_need_id n (iv_needs S)\<rparr>"

text \<open>
  The need is marked and stamped before the event is written, and its \<^verbatim>\<open>updated_revision\<close> set after it; nothing
  reads it in between.
\<close>

definition resolve_need_from_operation ::
  "call_env \<Rightarrow> case_store \<Rightarrow> investigation_case \<Rightarrow> state_patch_operation \<Rightarrow> string
     \<Rightarrow> (case_store \<times> investigation_case \<times> case_event list) res" where
  "resolve_need_from_operation env S c op writer = (case op_resolves_need_id op of
      None \<Rightarrow> Inr (S, c, [])
    | Some need_id \<Rightarrow>
        res_bind (res_of_option (RuntimeError ''validated EvidenceNeed disappeared'')
          (tab_get nd_need_id need_id (iv_needs S))) (\<lambda>need.
        let r = ic_current_revision c in
        res_bind (append_event env S c (resolution_draft need op writer (cv_now env r 1))) (\<lambda>(T, c', e).
        Inr (put_need (need\<lparr>nd_status := NEED_RESOLVED, nd_resolution_evidence_refs := op_evidence_refs op,
                nd_updated_at := cv_now env r 0, nd_updated_revision := ce_case_revision e\<rparr>) T, c', [e]))))"

fun apply_operations ::
  "call_env \<Rightarrow> state_patch \<Rightarrow> string \<Rightarrow> nat \<Rightarrow> state_patch_operation list \<Rightarrow> case_store \<Rightarrow> investigation_case
     \<Rightarrow> (case_store \<times> investigation_case \<times> case_event list) res" where
  "apply_operations env p reason index [] S c = Inr (S, c, [])"
| "apply_operations env p reason index (op # ops) S c =
     res_bind (append_event env S c
       (operation_draft p reason (cv_now env (ic_current_revision c) 0) index op)) (\<lambda>(T, c', e).
     res_bind (resolve_need_from_operation env T c' op (sp_producer p)) (\<lambda>(U, c'', es).
     res_bind (apply_operations env p reason (index + 1) ops U c'') (\<lambda>(V, c''', rest).
     Inr (V, c''', e # es @ rest))))"

record 'e write_result =
  wr_state :: investigation_state
  wr_events :: 'e
  wr_replay :: bool

text \<open>The end of a writing call: rebuild the projection and return its view.\<close>

definition finish_write ::
  "call_env \<Rightarrow> case_store \<Rightarrow> investigation_case \<Rightarrow> 'e \<Rightarrow> (case_store \<times> 'e write_result) res" where
  "finish_write env S c events =
     (let (T, current) = rebuild_current env S c True in
      res_bind (state_view current) (\<lambda>st.
      Inr (T, \<lparr>wr_state = st, wr_events = events, wr_replay = False\<rparr>)))"

definition replayed ::
  "call_env \<Rightarrow> case_store \<Rightarrow> string \<Rightarrow> 'e \<Rightarrow> (case_store \<times> 'e write_result) res" where
  "replayed env S case_id events =
     res_bind (get_state env S case_id) (\<lambda>(T, st).
     Inr (T, \<lparr>wr_state = st, wr_events = events, wr_replay = True\<rparr>))"

text \<open>\<^verbatim>\<open>order_by(operation_index, case_revision)\<close>\<close>

definition patch_events :: "case_store \<Rightarrow> string \<Rightarrow> string \<Rightarrow> case_event list" where
  "patch_events S case_id patch_id =
     sort_key (\<lambda>e. (case ce_operation_index e of None \<Rightarrow> 0 | Some i \<Rightarrow> i, ce_case_revision e))
       (filter (\<lambda>e. ce_case_id e = case_id \<and> ce_patch_id e = Some patch_id) (iv_events S))"

definition apply_patch ::
  "call_env \<Rightarrow> knowledge \<Rightarrow> case_store \<Rightarrow> state_patch \<Rightarrow> string
     \<Rightarrow> (case_store \<times> case_event list write_result) res" where
  "apply_patch env kb S p reason =
     res_bind (lock_case S (sp_case_id p)) (\<lambda>c.
     let existing = patch_events S (sp_case_id p) (sp_patch_id p) in
     if existing \<noteq> [] then replayed env S (sp_case_id p) existing
     else
       require_revision c (sp_base_case_revision p)
       (res_bind (validate_patch kb S p) (\<lambda>_.
        res_bind (apply_operations env p reason 0 (sp_operations p) S c) (\<lambda>(T, c', events).
        finish_write env T c' events))))"

section \<open>Decisions and perceptions\<close>

text \<open>The event of a type written under a patch id at index zero.\<close>

definition patch_event ::
  "case_store \<Rightarrow> string \<Rightarrow> string \<Rightarrow> case_state_event_type \<Rightarrow> case_event option" where
  "patch_event S case_id patch_id ty =
     find (\<lambda>e. ce_case_id e = case_id \<and> ce_patch_id e = Some patch_id \<and> ce_operation_index e = Some 0
        \<and> ce_event_type e = ty) (iv_events S)"

definition decision_draft :: "decision_commit \<Rightarrow> int \<Rightarrow> event_draft" where
  "decision_draft dc now =
     \<lparr>dr_event_type = DECISION_CHANGED, dr_proposition = None, dr_target_ref = None, dr_evidence_refs = [],
      dr_writer = dc_producer dc, dr_reason_code = ''decision_accepted'',
      dr_payload = [(''decision'', JObj (dc_decision dc))], dr_created_at = now,
      dr_patch_id = Some (dc_decision_id dc), dr_operation_index = Some 0\<rparr>"

definition commit_decision ::
  "call_env \<Rightarrow> case_store \<Rightarrow> decision_commit \<Rightarrow> (case_store \<times> case_event write_result) res" where
  "commit_decision env S dc =
     res_bind (lock_case S (dc_case_id dc)) (\<lambda>c.
     case patch_event S (dc_case_id dc) (dc_decision_id dc) DECISION_CHANGED of
       Some existing \<Rightarrow> replayed env S (dc_case_id dc) existing
     | None \<Rightarrow>
         require_revision c (dc_base_case_revision dc)
         (res_bind (append_event env S c (decision_draft dc (cv_now env (ic_current_revision c) 0))) (\<lambda>(T, c', e).
          finish_write env T c' e)))"

definition perception_draft :: "call_env \<Rightarrow> string \<Rightarrow> int \<Rightarrow> datetime \<Rightarrow> int \<Rightarrow> event_draft" where
  "perception_draft env perception_event_id world_revision perceived_at now =
     \<lparr>dr_event_type = PERCEPTION_RECORDED, dr_proposition = None, dr_target_ref = None, dr_evidence_refs = [],
      dr_writer = ''perception-runtime'', dr_reason_code = ''perception_coordinate_advanced'',
      dr_payload = [(''perception_event_id'', JStr perception_event_id), (''world_revision'', JInt world_revision),
        (''perceived_at'', JStr (cv_isoformat env (as_utc perceived_at)))],
      dr_created_at = now, dr_patch_id = Some (''perception:'' @ perception_event_id),
      dr_operation_index = Some 0\<rparr>"

definition mark_perception ::
  "call_env \<Rightarrow> case_store \<Rightarrow> string \<Rightarrow> string \<Rightarrow> int \<Rightarrow> datetime \<Rightarrow> (case_store \<times> investigation_state) res" where
  "mark_perception env S case_id perception_event_id world_revision perceived_at =
     res_bind (lock_case S case_id) (\<lambda>c.
     res_bind
       (case patch_event S case_id (''perception:'' @ perception_event_id) PERCEPTION_RECORDED of
          None \<Rightarrow>
            res_bind (append_event env S c (perception_draft env perception_event_id world_revision perceived_at
              (cv_now env (ic_current_revision c) 0))) (\<lambda>(T, c', _). Inr (T, c'))
        | Some existing \<Rightarrow>
            res_bind (payload_datetime env (jget (ce_payload existing) ''perceived_at'')) (\<lambda>stored_perceived_at.
            raise_if (jget (ce_payload existing) ''perception_event_id'' \<noteq> JStr perception_event_id
                \<or> \<not> json_is_int (jget (ce_payload existing) ''world_revision'') world_revision
                \<or> stored_perceived_at \<noteq> Some (as_utc perceived_at))
              (ValueError ''perception state replay identity changed payload'') (Inr (S, c)))) (\<lambda>(T, c').
     let (U, current) = rebuild_current env T c' True in
     res_bind (state_view current) (\<lambda>st. Inr (U, st))))"

section \<open>Evidence needs\<close>

record need_request =
  nq_case_id :: string
  nq_base_case_revision :: int
  nq_need_id :: string
  nq_proposition_or_question :: string
  nq_purpose :: string
  nq_target_objects :: "string list"
  nq_evidence_contract :: "evidence_need_contract option"
  nq_derived_from_enrichment_requirement :: "string option"
  nq_preferred_source_roles :: "string list"
  nq_rejected_evidence_patterns :: "string list"
  nq_freshness_requirement :: jdict
  nq_completion_predicate :: jdict
  nq_priority :: int
  nq_writer :: string
  nq_reason_code :: string

record need_result =
  nr_need :: evidence_need
  nr_state :: investigation_state
  nr_event :: case_event
  nr_replay :: bool

definition get_evidence_need :: "case_store \<Rightarrow> string \<Rightarrow> evidence_need res" where
  "get_evidence_need S need_id =
     res_bind (res_of_option (LookupError (''EvidenceNeed not found: '' @ need_id))
       (tab_get nd_need_id need_id (iv_needs S))) need_view"

text \<open>\<^verbatim>\<open>statuses\<close> restricts the list when it is neither \<^verbatim>\<open>None\<close> nor empty.\<close>

definition list_evidence_needs ::
  "case_store \<Rightarrow> string \<Rightarrow> evidence_need_status list \<Rightarrow> evidence_need list res" where
  "list_evidence_needs S case_id statuses =
     map_res need_view (sort_key (\<lambda>n. (- nd_priority n, nd_need_id n))
       (filter (\<lambda>n. nd_case_id n = case_id \<and> (statuses = [] \<or> nd_status n \<in> set statuses)) (iv_needs S)))"

definition open_draft :: "need_request \<Rightarrow> int \<Rightarrow> event_draft" where
  "open_draft q now =
     \<lparr>dr_event_type = EVIDENCE_NEED_OPENED, dr_proposition = Some (nq_proposition_or_question q),
      dr_target_ref = None, dr_evidence_refs = [], dr_writer = nq_writer q, dr_reason_code = nq_reason_code q,
      dr_payload = [(''need_id'', JStr (nq_need_id q))], dr_created_at = now,
      dr_patch_id = None, dr_operation_index = None\<rparr>"

definition new_need :: "need_request \<Rightarrow> nat \<Rightarrow> int \<Rightarrow> evidence_need" where
  "new_need q revision now =
     \<lparr>nd_need_id = nq_need_id q, nd_case_id = nq_case_id q,
      nd_derived_from_enrichment_requirement = nq_derived_from_enrichment_requirement q,
      nd_proposition_or_question = nq_proposition_or_question q, nd_purpose = nq_purpose q,
      nd_target_objects = nq_target_objects q,
      nd_evidence_contract = (case nq_evidence_contract q of None \<Rightarrow> default_need_contract | Some k \<Rightarrow> k),
      nd_preferred_source_roles = nq_preferred_source_roles q,
      nd_rejected_evidence_patterns = nq_rejected_evidence_patterns q,
      nd_freshness_requirement = nq_freshness_requirement q,
      nd_completion_predicate = (if nq_completion_predicate q = [] then default_completion_predicate
                                 else nq_completion_predicate q),
      nd_priority = nq_priority q, nd_status = NEED_OPEN, nd_resolution_evidence_refs = [],
      nd_opened_revision = revision, nd_updated_revision = revision, nd_opened_at = now, nd_updated_at = now\<rparr>"

definition need_replayed ::
  "call_env \<Rightarrow> case_store \<Rightarrow> evidence_need \<Rightarrow> string \<Rightarrow> case_event \<Rightarrow> (case_store \<times> need_result) res" where
  "need_replayed env S need case_id event =
     res_bind (need_view need) (\<lambda>n.
     res_bind (get_state env S case_id) (\<lambda>(T, st).
     Inr (T, \<lparr>nr_need = n, nr_state = st, nr_event = event, nr_replay = True\<rparr>)))"

definition need_written ::
  "call_env \<Rightarrow> case_store \<Rightarrow> investigation_case \<Rightarrow> evidence_need \<Rightarrow> case_event \<Rightarrow> (case_store \<times> need_result) res" where
  "need_written env S c need event =
     (let (T, current) = rebuild_current env S c True in
      res_bind (need_view need) (\<lambda>n.
      res_bind (state_view current) (\<lambda>st.
      Inr (T, \<lparr>nr_need = n, nr_state = st, nr_event = event, nr_replay = False\<rparr>))))"

definition open_evidence_need ::
  "call_env \<Rightarrow> knowledge \<Rightarrow> case_store \<Rightarrow> need_request \<Rightarrow> (case_store \<times> need_result) res" where
  "open_evidence_need env kb S q =
     res_bind (lock_case S (nq_case_id q)) (\<lambda>c.
     case tab_get nd_need_id (nq_need_id q) (iv_needs S) of
       Some existing \<Rightarrow>
         (case find (\<lambda>e. ce_case_id e = nq_case_id q \<and> ce_event_type e = EVIDENCE_NEED_OPENED
              \<and> jget (ce_payload e) ''need_id'' = JStr (nq_need_id q)) (iv_events S) of
            None \<Rightarrow> Inl (RuntimeError ''evidence need exists without open event'')
          | Some event \<Rightarrow> need_replayed env S existing (nq_case_id q) event)
     | None \<Rightarrow>
         require_revision c (nq_base_case_revision q)
         (raise_if (blank (nq_proposition_or_question q) \<or> blank (nq_purpose q))
           (ValueError ''EvidenceNeed proposition/purpose cannot be empty'')
         (raise_if (256 < length (nq_purpose q))
           (ValueError ''EvidenceNeed purpose exceeds storage contract (256 characters)'')
         (res_bind (validate_target_objects kb (nq_target_objects q)) (\<lambda>_.
          let now = cv_now env (ic_current_revision c) 0 in
          res_bind (append_event env S c (open_draft q now)) (\<lambda>(T, c', e).
          let need = new_need q (ce_case_revision e) now in
          res_bind (tab_add nd_need_id need (iv_needs T)) (\<lambda>needs.
          need_written env (T\<lparr>iv_needs := needs\<rparr>) c' need e)))))))"

definition reopen_draft :: "evidence_need \<Rightarrow> string \<Rightarrow> string \<Rightarrow> string \<Rightarrow> int \<Rightarrow> event_draft" where
  "reopen_draft need reopen_key writer reason now =
     \<lparr>dr_event_type = EVIDENCE_NEED_OPENED, dr_proposition = Some (nd_proposition_or_question need),
      dr_target_ref = None, dr_evidence_refs = [], dr_writer = writer, dr_reason_code = reason,
      dr_payload = [(''need_id'', JStr (nd_need_id need)), (''reopened'', JBool True)], dr_created_at = now,
      dr_patch_id = Some reopen_key, dr_operation_index = Some 0\<rparr>"

text \<open>The latest opening event of the case, whichever need it opened.\<close>

definition latest_opening :: "case_store \<Rightarrow> string \<Rightarrow> case_event option" where
  "latest_opening S case_id =
     (case rev (filter (\<lambda>e. ce_event_type e = EVIDENCE_NEED_OPENED) (case_events S case_id)) of
        [] \<Rightarrow> None | e # _ \<Rightarrow> Some e)"

definition reopen_evidence_need ::
  "call_env \<Rightarrow> case_store \<Rightarrow> string \<Rightarrow> int \<Rightarrow> string \<Rightarrow> string \<Rightarrow> string \<Rightarrow> (case_store \<times> need_result) res" where
  "reopen_evidence_need env S need_id base reopen_key writer reason =
     res_bind (res_of_option (LookupError (''EvidenceNeed not found: '' @ need_id))
       (tab_get nd_need_id need_id (iv_needs S))) (\<lambda>need.
     res_bind (lock_case S (nd_case_id need)) (\<lambda>c.
     case patch_event S (nd_case_id need) reopen_key EVIDENCE_NEED_OPENED of
       Some existing \<Rightarrow> need_replayed env S need (nd_case_id need) existing
     | None \<Rightarrow>
         if nd_status need = NEED_OPEN then
           (case latest_opening S (nd_case_id need) of
              None \<Rightarrow> Inl (RuntimeError ''open EvidenceNeed exists without open event'')
            | Some original \<Rightarrow> need_replayed env S need (nd_case_id need) original)
         else
           require_revision c base
           (let now = cv_now env (ic_current_revision c) 0 in
            res_bind (append_event env S c (reopen_draft need reopen_key writer reason now)) (\<lambda>(T, c', e).
            let need' = need\<lparr>nd_status := NEED_OPEN, nd_resolution_evidence_refs := [],
                  nd_updated_revision := ce_case_revision e, nd_updated_at := now\<rparr>
            in need_written env (put_need need' T) c' need' e))))"

section \<open>Well-formed histories\<close>

text \<open>The events of a case in the order they were written.\<close>

definition case_history :: "case_store \<Rightarrow> string \<Rightarrow> case_event list" where
  "case_history S case_id = filter (\<lambda>e. ce_case_id e = case_id) (iv_events S)"

text \<open>
  What every event of a case satisfies: it follows its base revision, its relation can be read back, a
  confirmed fact cites evidence and is not inferred, and a recorded perception has its coordinate. \<open>rd\<close> reads
  timestamps.
\<close>

definition sound_confirmation :: "case_event \<Rightarrow> bool" where
  "sound_confirmation e \<longleftrightarrow> ce_evidence_refs e \<noteq> []
     \<and> (\<exists>r. parse_relation (jget (ce_payload e) ''reasoning_relation'') = Inr r
          \<and> (case r of None \<Rightarrow> True | Some q \<Rightarrow> rr_semantics q \<noteq> INFERRED))"

definition readable_perception :: "(string \<Rightarrow> int res) \<Rightarrow> case_event \<Rightarrow> bool" where
  "readable_perception rd e \<longleftrightarrow>
     (\<exists>s t w. jget (ce_payload e) ''perceived_at'' = JStr s \<and> rd (replace_Z s) = Inr t
        \<and> jget (ce_payload e) ''world_revision'' = JInt w \<and> 0 \<le> w)"

definition wf_event :: "(string \<Rightarrow> int res) \<Rightarrow> case_event \<Rightarrow> bool" where
  "wf_event rd e \<longleftrightarrow> ce_case_revision e = ce_base_case_revision e + 1
     \<and> (\<exists>r. parse_relation (jget (ce_payload e) ''reasoning_relation'') = Inr r)
     \<and> (ce_event_type e = FACT_CONFIRMED \<longrightarrow> sound_confirmation e)
     \<and> (ce_event_type e = PERCEPTION_RECORDED \<longrightarrow> readable_perception rd e)"

definition open_in_table :: "case_store \<Rightarrow> string \<Rightarrow> string set" where
  "open_in_table S case_id = {nd_need_id n | n. n \<in> set (iv_needs S) \<and> nd_case_id n = case_id
     \<and> nd_status n \<in> {NEED_OPEN, NEED_BLOCKED}}"

definition open_in_history :: "case_store \<Rightarrow> string \<Rightarrow> string set" where
  "open_in_history S case_id = set (fold replay_need (case_history S case_id) [])"

definition world_ok :: "int option \<Rightarrow> bool" where
  "world_ok w \<longleftrightarrow> (case w of None \<Rightarrow> True | Some n \<Rightarrow> 0 \<le> n)"

text \<open>A case agrees with its history, its needs and its projection.\<close>

definition case_ok :: "case_store \<Rightarrow> investigation_case \<Rightarrow> bool" where
  "case_ok S c \<longleftrightarrow> world_ok (ic_initial_knowledge_revision c)
     \<and> map ce_case_revision (case_history S (ic_case_id c)) = [1..<Suc (ic_current_revision c)]
     \<and> open_in_history S (ic_case_id c) = open_in_table S (ic_case_id c)
     \<and> (\<forall>m \<in> set (iv_currents S). sc_case_id m = ic_case_id c \<longrightarrow> m = projection S c (sc_updated_at m))"

definition tables_ok :: "(string \<Rightarrow> int res) \<Rightarrow> case_store \<Rightarrow> bool" where
  "tables_ok rd S \<longleftrightarrow> distinct (map ic_case_id (iv_cases S)) \<and> distinct (map ce_event_id (iv_events S))
     \<and> distinct (map nd_need_id (iv_needs S)) \<and> distinct (map sc_case_id (iv_currents S))
     \<and> sc_case_id ` set (iv_currents S) \<subseteq> ic_case_id ` set (iv_cases S)
     \<and> (\<forall>e \<in> set (iv_events S). wf_event rd e \<and> ce_case_id e \<in> ic_case_id ` set (iv_cases S))
     \<and> (\<forall>n \<in> set (iv_needs S). need_view n = Inr n \<and> nd_case_id n \<in> ic_case_id ` set (iv_cases S))
     \<and> (\<forall>p \<in> set (iv_perceptions S). 0 \<le> pe_world_revision p)"

definition state_inv :: "(string \<Rightarrow> int res) \<Rightarrow> case_store \<Rightarrow> bool" where
  "state_inv rd S \<longleftrightarrow> tables_ok rd S \<and> (\<forall>c \<in> set (iv_cases S). case_ok S c)"

text \<open>
  What a call writes about one case before it rebuilds the projection: events that continue its history, and
  the case row moved on by as many revisions. The needs are left open.
\<close>

definition writes ::
  "(string \<Rightarrow> int res) \<Rightarrow> case_store \<Rightarrow> investigation_case \<Rightarrow> case_event list \<Rightarrow> case_store \<Rightarrow> investigation_case \<Rightarrow> bool" where
  "writes rd S c es T c' \<longleftrightarrow>
     iv_events T = iv_events S @ es \<and> iv_cases T = tab_put ic_case_id c' (iv_cases S)
     \<and> iv_currents T = iv_currents S
     \<and> (\<exists>st. c' = c\<lparr>ic_current_revision := ic_current_revision c + length es, ic_status := st\<rparr>)
     \<and> (\<forall>e \<in> set es. ce_case_id e = ic_case_id c \<and> wf_event rd e)
     \<and> map ce_case_revision es = [Suc (ic_current_revision c)..<Suc (ic_current_revision c + length es)]
     \<and> distinct (map ce_event_id es) \<and> ce_event_id ` set es \<inter> ce_event_id ` set (iv_events S) = {}"

text \<open>
  What every later store keeps: events, in order, what does not change about a case, and everything about a
  case that is closed or cancelled.
\<close>

definition case_frozen :: "investigation_case \<Rightarrow> bool" where
  "case_frozen c \<longleftrightarrow> ic_status c \<in> {''closed'', ''cancelled''}"

definition store_grows :: "case_store \<Rightarrow> case_store \<Rightarrow> bool" where
  "store_grows S T \<longleftrightarrow> (\<exists>es. iv_events T = iv_events S @ es)
     \<and> (\<forall>i c. tab_get ic_case_id i (iv_cases S) = Some c \<longrightarrow>
          (\<exists>d. tab_get ic_case_id i (iv_cases T) = Some d \<and> ic_current_revision c \<le> ic_current_revision d
             \<and> ic_goal d = ic_goal c \<and> ic_target_object_ids d = ic_target_object_ids c
             \<and> ic_initial_knowledge_revision d = ic_initial_knowledge_revision c
             \<and> ic_created_at d = ic_created_at c
             \<and> (case_frozen c \<longrightarrow> d = c \<and> case_history T i = case_history S i
                  \<and> filter (\<lambda>n. nd_case_id n = i) (iv_needs T) = filter (\<lambda>n. nd_case_id n = i) (iv_needs S))))"

text \<open>The parts of the tables that belong to one case.\<close>

definition case_needs :: "case_store \<Rightarrow> string \<Rightarrow> evidence_need list" where
  "case_needs S case_id = filter (\<lambda>n. nd_case_id n = case_id) (iv_needs S)"

definition case_perceptions :: "case_store \<Rightarrow> string \<Rightarrow> perception_event list" where
  "case_perceptions S case_id = filter (\<lambda>p. pe_case_id p = case_id) (iv_perceptions S)"

text \<open>A change of needs and perceptions that concerns one case only and agrees with its history.\<close>

definition needs_moved :: "case_store \<Rightarrow> string \<Rightarrow> case_store \<Rightarrow> bool" where
  "needs_moved S i T \<longleftrightarrow> distinct (map nd_need_id (iv_needs T))
     \<and> (\<forall>n \<in> set (iv_needs T). need_view n = Inr n \<and> nd_case_id n \<in> ic_case_id ` set (iv_cases S))
     \<and> (\<forall>j. j \<noteq> i \<longrightarrow> case_needs T j = case_needs S j) \<and> open_in_history T i = open_in_table T i"

definition perceptions_moved :: "case_store \<Rightarrow> string \<Rightarrow> case_store \<Rightarrow> bool" where
  "perceptions_moved S i T \<longleftrightarrow> (\<forall>p \<in> set (iv_perceptions T). 0 \<le> pe_world_revision p)
     \<and> (\<forall>j. j \<noteq> i \<longrightarrow> case_perceptions T j = case_perceptions S j)"

text \<open>What the validators leave of an operation, as far as its event is concerned.\<close>

definition operation_ok :: "state_patch_operation \<Rightarrow> bool" where
  "operation_ok op \<longleftrightarrow> (\<forall>r. op_reasoning_relation op = Some r \<longrightarrow> validate_relation r = Inr r)
     \<and> (op_proposed_state op = CONFIRMED \<and> op_disposition op = SET \<longrightarrow>
          op_evidence_refs op \<noteq> [] \<and> \<not> inferred_confirmation op)"

text \<open>\<^verbatim>\<open>fromisoformat\<close> reads what \<^verbatim>\<open>isoformat\<close> wrote.\<close>

definition iso_ok :: "call_env \<Rightarrow> bool" where
  "iso_ok env \<longleftrightarrow> (\<forall>t. cv_fromisoformat env (replace_Z (cv_isoformat env t)) = Inr t)"

text \<open>The item of a bucket comes from an event of the bucket's type.\<close>

definition item_from :: "case_event list \<Rightarrow> case_state_event_type \<Rightarrow> fact_key \<times> bucket_item \<Rightarrow> bool" where
  "item_from es ty x \<longleftrightarrow> (\<exists>e \<in> set es. ce_event_type e = ty
     \<and> (\<exists>p. ce_proposition e = Some p \<and> x = ((p, ce_target_ref e), item_of_event e p)))"

definition all_from :: "case_event list \<Rightarrow> case_state_event_type \<Rightarrow> (fact_key \<times> bucket_item) list \<Rightarrow> bool" where
  "all_from es ty d \<longleftrightarrow> (\<forall>x \<in> set d. item_from es ty x)"

definition buckets_from :: "case_event list \<Rightarrow> buckets \<Rightarrow> bool" where
  "buckets_from es b \<longleftrightarrow> all_from es FACT_CONFIRMED (bk_confirmed b)
     \<and> all_from es TENTATIVE_ADDED (bk_tentative b)
     \<and> all_from es CONFLICT_OPENED (bk_conflicts b)
     \<and> all_from es UNKNOWN_OPENED (bk_unknowns b)
     \<and> all_from es HYPOTHESIS_ADDED (bk_hypotheses b)"

text \<open>A key is in at most one bucket of facts, and once.\<close>

definition fact_keys :: "buckets \<Rightarrow> fact_key list" where
  "fact_keys b = map fst (bk_confirmed b @ bk_tentative b @ bk_conflicts b @ bk_unknowns b)"

definition bucket_items :: "buckets \<Rightarrow> bucket_item set" where
  "bucket_items b = snd ` (set (bk_confirmed b) \<union> set (bk_tentative b) \<union> set (bk_conflicts b)
     \<union> set (bk_unknowns b) \<union> set (bk_hypotheses b))"

section \<open>Lemmas on replay\<close>

lemma item_from_mono: "item_from es ty x \<Longrightarrow> set es \<subseteq> set fs \<Longrightarrow> item_from fs ty x"
  by (auto simp: item_from_def)

lemma item_from_last:
  "ce_event_type e = ty \<Longrightarrow> ce_proposition e = Some p \<Longrightarrow> item_from (es @ [e]) ty ((p, ce_target_ref e), item_of_event e p)"
  by (auto simp: item_from_def)

lemma all_from_put: "all_from es ty d \<Longrightarrow> item_from es ty (k, v) \<Longrightarrow> all_from es ty (dict_put k v d)"
  using set_dict_put_subset [of k v d] by (auto simp: all_from_def)

lemma all_from_pop: "all_from es ty d \<Longrightarrow> all_from es ty (dict_pop k d)"
  by (auto simp: all_from_def dict_pop_def)

lemma all_from_mono: "all_from es ty d \<Longrightarrow> set es \<subseteq> set fs \<Longrightarrow> all_from fs ty d"
  by (auto simp: all_from_def intro: item_from_mono)

lemma buckets_from_mono: "buckets_from es b \<Longrightarrow> set es \<subseteq> set fs \<Longrightarrow> buckets_from fs b"
  by (auto simp: buckets_from_def intro: all_from_mono)

lemma buckets_from_pop: "buckets_from es b \<Longrightarrow> buckets_from es (pop_facts k b)"
  by (simp add: buckets_from_def pop_facts_def all_from_pop)

lemma buckets_from_step:
  assumes "buckets_from es b"
  shows "buckets_from (es @ [e]) (replay_event e b)"
proof (cases "ce_proposition e")
  case None
  with assms show ?thesis by (auto simp: replay_event_def intro: buckets_from_mono)
next
  case (Some p)
  let ?b = "pop_facts (p, ce_target_ref e) b"
  have b: "buckets_from (es @ [e]) b" using assms by (rule buckets_from_mono) auto
  have b': "buckets_from (es @ [e]) ?b" using b by (rule buckets_from_pop)
  have new: "item_from (es @ [e]) (ce_event_type e) ((p, ce_target_ref e), item_of_event e p)"
    by (rule item_from_last) (simp_all add: Some)
  show ?thesis
    using b b' new
    by (cases "ce_event_type e")
      (simp_all add: replay_event_def Some Let_def buckets_from_def all_from_put all_from_pop)
qed

lemma buckets_from_replay: "buckets_from es (fold replay_event es empty_buckets)"
proof (induction es rule: rev_induct)
  case Nil
  show ?case by (simp add: buckets_from_def empty_buckets_def all_from_def)
next
  case (snoc e es)
  then show ?case using buckets_from_step by simp
qed

lemma keys_pop_facts: "set (fact_keys (pop_facts k b)) = set (fact_keys b) - {k}"
  by (auto simp: fact_keys_def pop_facts_def dict_pop_def)

lemma distinct_pop_facts: "distinct (fact_keys b) \<Longrightarrow> distinct (fact_keys (pop_facts k b))"
  by (auto simp: fact_keys_def pop_facts_def dict_pop_def distinct_map_filter)

lemma distinct_keys_step:
  assumes "distinct (fact_keys b)"
  shows "distinct (fact_keys (replay_event e b))"
proof (cases "ce_proposition e")
  case None
  with assms show ?thesis by (simp add: replay_event_def)
next
  case (Some p)
  let ?k = "(p, ce_target_ref e)" and ?b = "pop_facts (p, ce_target_ref e) b"
  have d: "distinct (fact_keys ?b)" "?k \<notin> set (fact_keys ?b)"
    using distinct_pop_facts [OF assms] keys_pop_facts by auto
  then have f: "?k \<notin> fst ` set (bk_confirmed ?b)" "?k \<notin> fst ` set (bk_tentative ?b)"
      "?k \<notin> fst ` set (bk_conflicts ?b)" "?k \<notin> fst ` set (bk_unknowns ?b)"
    by (auto simp: fact_keys_def)
  have add: "distinct (fact_keys (?b\<lparr>bk_confirmed := dict_put ?k v (bk_confirmed ?b)\<rparr>))"
      "distinct (fact_keys (?b\<lparr>bk_tentative := dict_put ?k v (bk_tentative ?b)\<rparr>))"
      "distinct (fact_keys (?b\<lparr>bk_conflicts := dict_put ?k v (bk_conflicts ?b)\<rparr>))"
      "distinct (fact_keys (?b\<lparr>bk_unknowns := dict_put ?k v (bk_unknowns ?b)\<rparr>))" for v
    using d by (auto simp: dict_put_fresh [OF f(1)] dict_put_fresh [OF f(2)] dict_put_fresh [OF f(3)]
        dict_put_fresh [OF f(4)] fact_keys_def)
  have drop: "distinct (fact_keys (b\<lparr>bk_confirmed := dict_pop ?k (bk_confirmed b)\<rparr>))"
      "distinct (fact_keys (b\<lparr>bk_tentative := dict_pop ?k (bk_tentative b)\<rparr>))"
      "distinct (fact_keys (b\<lparr>bk_conflicts := dict_pop ?k (bk_conflicts b)\<rparr>))"
      "distinct (fact_keys (b\<lparr>bk_unknowns := dict_pop ?k (bk_unknowns b)\<rparr>))"
      "distinct (fact_keys (b\<lparr>bk_hypotheses := x\<rparr>))" for x
    using assms by (auto simp: fact_keys_def dict_pop_def distinct_map_filter)
  show ?thesis
    using Some assms add drop by (simp add: replay_event_def Let_def split: case_state_event_type.split)
qed

lemma distinct_keys_replay: "distinct (fact_keys (fold replay_event es empty_buckets))"
proof (induction es rule: rev_induct)
  case Nil
  show ?case by (simp add: fact_keys_def empty_buckets_def)
next
  case (snoc e es)
  then show ?case using distinct_keys_step by simp
qed

lemma bucket_item_from:
  assumes "i \<in> bucket_items (fold replay_event es empty_buckets)"
  obtains e p where "e \<in> set es" "ce_proposition e = Some p" "i = item_of_event e p"
  using assms buckets_from_replay [of es]
  by (fastforce simp: bucket_items_def buckets_from_def all_from_def item_from_def)

section \<open>Lemmas on views\<close>

lemma item_of_event_view:
  assumes "wf_event rd e"
  shows "\<exists>i. item_view (item_of_event e p) = Inr i"
proof -
  from assms obtain r where "parse_relation (bi_reasoning_relation (item_of_event e p)) = Inr r"
    by (auto simp: wf_event_def item_of_event_def)
  then show ?thesis using assms by (intro item_view_total) (auto simp: wf_event_def item_of_event_def)
qed

text \<open>The view of a projection exists as soon as the events are well formed.\<close>

lemma state_view_total:
  assumes "\<forall>e \<in> set es. wf_event rd e" "b = fold replay_event es empty_buckets"
    and "sc_confirmed m = map snd (bk_confirmed b)" "sc_tentative m = map snd (bk_tentative b)"
      "sc_conflicts m = map snd (bk_conflicts b)" "sc_unknowns m = map snd (bk_unknowns b)"
      "sc_hypotheses m = map snd (bk_hypotheses b)" "world_ok (sc_last_world_revision m)"
  shows "\<exists>st. state_view m = Inr st"
proof -
  have v: "\<exists>j. item_view i = Inr j" if "i \<in> bucket_items b" for i
    using that assms(1,2) item_of_event_view by (metis bucket_item_from)
  have "\<exists>js. map_res item_view (map snd xs) = Inr js" if "snd ` set xs \<subseteq> bucket_items b" for xs
    using that v by (intro map_res_total) auto
  then obtain a1 a2 a3 a4 a5 where "map_res item_view (sc_confirmed m) = Inr a1"
      "map_res item_view (sc_tentative m) = Inr a2" "map_res item_view (sc_conflicts m) = Inr a3"
      "map_res item_view (sc_unknowns m) = Inr a4" "map_res item_view (sc_hypotheses m) = Inr a5"
    unfolding assms(3-7) bucket_items_def by (metis Un_upper1 Un_upper2 image_Un sup.coboundedI1)
  moreover have "\<not> (case sc_last_world_revision m of None \<Rightarrow> False | Some n \<Rightarrow> n < 0)"
    using assms(8) by (auto simp: world_ok_def split: option.splits)
  ultimately show ?thesis by (simp add: state_view_def check_world_revision_def raise_if_def)
qed

lemma state_view_proj:
  assumes "state_view m = Inr st"
  shows "is_case_id st = sc_case_id m" "is_case_revision st = sc_case_revision m" "is_goal st = sc_goal m"
    "is_targets st = sc_targets m" "is_evidence_need_ids st = sc_evidence_need_ids m"
    "is_current_decision st = sc_current_decision m"
    "map_res item_view (sc_confirmed m) = Inr (is_confirmed st)"
    "map_res item_view (sc_tentative m) = Inr (is_tentative st)"
    "map_res item_view (sc_conflicts m) = Inr (is_conflicts st)"
    "map_res item_view (sc_unknowns m) = Inr (is_unknowns st)"
    "map_res item_view (sc_hypotheses m) = Inr (is_hypotheses st)"
  using assms by (auto simp: state_view_def check_world_revision_def res_simps simp del: map_res_eq_Inr)

section \<open>Lemmas on writes\<close>

lemma tab_put_same:
  "distinct (map key rows) \<Longrightarrow> tab_get key (key r) rows = Some r \<Longrightarrow> tab_put key r rows = rows"
  unfolding tab_put_def by (rule map_idI) (metis option.inject tab_get_distinct)

lemma tab_put_put: "key a = key b \<Longrightarrow> tab_put key a (tab_put key b rows) = tab_put key a rows"
  by (auto simp: tab_put_def)

lemma tab_put_filter:
  "\<not> P r \<Longrightarrow> (\<And>x. x \<in> set rows \<Longrightarrow> key x = key r \<Longrightarrow> \<not> P x) \<Longrightarrow> filter P (tab_put key r rows) = filter P rows"
  unfolding tab_put_def by (induction rows) auto

lemma add_event_eq_Inr [res_simps]:
  "add_event e es = Inr es' \<longleftrightarrow> (\<forall>x \<in> set es. ce_case_id x = ce_case_id e \<longrightarrow> ce_case_revision x \<noteq> ce_case_revision e)
     \<and> (\<forall>x \<in> set es. \<not> same_patch_slot e x) \<and> ce_event_id e \<notin> ce_event_id ` set es \<and> es' = es @ [e]"
  by (auto simp: add_event_def res_simps)

lemma append_event_D:
  assumes "append_event env S c d = Inr (T, c', e)"
  shows "e = event_of_draft env c d" "c' = advance_case c"
    "T = S\<lparr>iv_events := iv_events S @ [e], iv_cases := tab_put ic_case_id c' (iv_cases S)\<rparr>"
    "ce_event_id e \<notin> ce_event_id ` set (iv_events S)" "\<forall>x \<in> set (iv_events S). \<not> same_patch_slot e x"
  using assms by (auto simp: append_event_def Let_def res_simps)

lemma event_of_draft_simps [simp]:
  "ce_case_id (event_of_draft env c d) = ic_case_id c"
  "ce_case_revision (event_of_draft env c d) = Suc (ic_current_revision c)"
  "ce_base_case_revision (event_of_draft env c d) = ic_current_revision c"
  "ce_event_type (event_of_draft env c d) = dr_event_type d"
  "ce_patch_id (event_of_draft env c d) = dr_patch_id d"
  "ce_operation_index (event_of_draft env c d) = dr_operation_index d"
  "ce_proposition (event_of_draft env c d) = dr_proposition d"
  "ce_target_ref (event_of_draft env c d) = dr_target_ref d"
  "ce_evidence_refs (event_of_draft env c d) = dr_evidence_refs d"
  "ce_payload (event_of_draft env c d) = dr_payload d"
  "ce_created_at (event_of_draft env c d) = dr_created_at d"
  by (simp_all add: event_of_draft_def)

lemma advance_case_simps [simp]:
  "ic_case_id (advance_case c) = ic_case_id c" "ic_current_revision (advance_case c) = Suc (ic_current_revision c)"
  by (simp_all add: advance_case_def)

lemma advance_case_form:
  "\<exists>st. advance_case c = c\<lparr>ic_current_revision := Suc (ic_current_revision c), ic_status := st\<rparr>"
  by (rule exI [of _ "ic_status (advance_case c)"]) (cases c, simp add: advance_case_def)

lemma writes_append:
  assumes "append_event env S c d = Inr (T, c', e)" "wf_event rd e"
  shows "writes rd S c [e] T c'"
  using append_event_D [OF assms(1)] assms(2) advance_case_form [of c] by (auto simp: writes_def)

lemma writes_refl:
  assumes "distinct (map ic_case_id (iv_cases S))" "tab_get ic_case_id (ic_case_id c) (iv_cases S) = Some c"
  shows "writes rd S c [] S c"
  using tab_put_same [OF assms] by (auto simp: writes_def intro: exI [of _ "ic_status c"])

lemma writes_trans:
  assumes "writes rd S c es T d" "writes rd T d fs U u"
  shows "writes rd S c (es @ fs) U u"
proof -
  obtain st where d: "d = c\<lparr>ic_current_revision := ic_current_revision c + length es, ic_status := st\<rparr>"
    using assms(1) by (auto simp: writes_def)
  then have i: "ic_case_id d = ic_case_id c" "ic_current_revision d = ic_current_revision c + length es" by simp_all
  have u: "ic_case_id u = ic_case_id c" using assms(2) i by (auto simp: writes_def)
  note w1 = assms(1) [unfolded writes_def] and w2 = assms(2) [unfolded writes_def]
  have "[Suc (ic_current_revision c)..<Suc (ic_current_revision c + length (es @ fs))]
      = [Suc (ic_current_revision c)..<Suc (ic_current_revision c + length es)]
        @ [Suc (ic_current_revision c + length es)..<Suc (ic_current_revision c + length es + length fs)]"
    using upt_add_eq_append [of "Suc (ic_current_revision c)" "Suc (ic_current_revision c + length es)" "length fs"]
    by (simp add: add.assoc)
  then have m: "map ce_case_revision (es @ fs)
      = [Suc (ic_current_revision c)..<Suc (ic_current_revision c + length (es @ fs))]"
    using w1 w2 i by (simp del: upt_Suc)
  have e: "iv_events T = iv_events S @ es" "iv_events U = iv_events S @ es @ fs" using w1 w2 by simp_all
  have f: "ce_event_id ` set fs \<inter> (ce_event_id ` set (iv_events S) \<union> ce_event_id ` set es) = {}"
    using w2 e(1) by (simp add: image_Un)
  have "distinct (map ce_event_id (es @ fs))" "ce_event_id ` set (es @ fs) \<inter> ce_event_id ` set (iv_events S) = {}"
    using w1 w2 f by (auto simp: image_Un)
  moreover have "iv_cases U = tab_put ic_case_id u (iv_cases S)"
    using w1 w2 i u by (simp add: tab_put_put)
  moreover have "\<exists>st. u = c\<lparr>ic_current_revision := ic_current_revision c + length (es @ fs), ic_status := st\<rparr>"
    using w2 d by (auto simp: add.assoc)
  moreover have "\<forall>e \<in> set (es @ fs). ce_case_id e = ic_case_id c \<and> wf_event rd e" using w1 w2 i(1) by auto
  moreover have "iv_currents U = iv_currents S" using w1 w2 by simp
  ultimately show ?thesis unfolding writes_def using m e(2) by blast
qed

lemma writes_cong:
  assumes "writes rd S c es T c'" "iv_events T' = iv_events T" "iv_cases T' = iv_cases T" "iv_currents T' = iv_currents T"
  shows "writes rd S c es T' c'"
  using assms by (simp add: writes_def)

lemma writes_put_need: "writes rd S c es T c' \<Longrightarrow> writes rd S c es (put_need n T) c'"
  by (erule writes_cong) (simp_all add: put_need_def)

lemma writes_history:
  assumes "writes rd S c es T c'"
  shows "case_history T (ic_case_id c) = case_history S (ic_case_id c) @ es"
    "j \<noteq> ic_case_id c \<Longrightarrow> case_history T j = case_history S j" "ic_case_id c' = ic_case_id c"
    "ic_current_revision c' = ic_current_revision c + length es"
    "ic_initial_knowledge_revision c' = ic_initial_knowledge_revision c"
proof -
  have "filter (\<lambda>e. ce_case_id e = ic_case_id c) es = es" "j \<noteq> ic_case_id c \<Longrightarrow> filter (\<lambda>e. ce_case_id e = j) es = []"
    using assms by (auto simp: writes_def filter_empty_conv)
  then show "case_history T (ic_case_id c) = case_history S (ic_case_id c) @ es"
    "j \<noteq> ic_case_id c \<Longrightarrow> case_history T j = case_history S j" "ic_case_id c' = ic_case_id c"
    "ic_current_revision c' = ic_current_revision c + length es"
    "ic_initial_knowledge_revision c' = ic_initial_knowledge_revision c"
    using assms by (auto simp: writes_def case_history_def)
qed

lemma case_events_history:
  assumes "map ce_case_revision (case_history S i) = [1..<n]"
  shows "case_events S i = case_history S i"
proof -
  have "sorted (map ce_case_revision (case_history S i))" by (simp add: assms)
  then show ?thesis unfolding case_events_def case_history_def by (rule sort_key_id_if_sorted)
qed

lemma projection_cong:
  assumes "case_history T (ic_case_id c) = case_history S (ic_case_id c)"
    "case_needs T (ic_case_id c) = case_needs S (ic_case_id c)"
    "case_perceptions T (ic_case_id c) = case_perceptions S (ic_case_id c)"
  shows "projection T c now = projection S c now"
proof -
  have "filter (\<lambda>n. nd_case_id n = ic_case_id c \<and> nd_status n \<in> {NEED_OPEN, NEED_BLOCKED}) (iv_needs X)
      = filter (\<lambda>n. nd_status n \<in> {NEED_OPEN, NEED_BLOCKED}) (case_needs X (ic_case_id c))" for X
    by (simp add: case_needs_def conj_commute)
  then have "open_need_ids T (ic_case_id c) = open_need_ids S (ic_case_id c)"
    using assms(2) by (simp add: open_need_ids_def)
  moreover have "latest_perception T (ic_case_id c) = latest_perception S (ic_case_id c)"
    using assms(3) by (simp add: latest_perception_def case_perceptions_def)
  moreover have "case_events T (ic_case_id c) = case_events S (ic_case_id c)"
    using assms(1) by (simp add: case_events_def case_history_def)
  ultimately show ?thesis by (simp add: projection_def)
qed

lemma open_in_table_needs: "open_in_table S i = {nd_need_id n | n. n \<in> set (case_needs S i) \<and> nd_status n \<in> {NEED_OPEN, NEED_BLOCKED}}"
  by (auto simp: open_in_table_def case_needs_def)

lemma open_in_history_cong: "case_history T i = case_history S i \<Longrightarrow> open_in_history T i = open_in_history S i"
  by (simp add: open_in_history_def)

section \<open>The projection after a write\<close>

lemma rebuild_current_D:
  assumes "rebuild_current env T c True = (U, m)" "distinct (map sc_case_id (iv_currents T))"
  shows "m = projection T c (cv_now env (ic_current_revision c) 0)" "\<exists>ms. U = T\<lparr>iv_currents := ms\<rparr>"
    "tab_get sc_case_id (ic_case_id c) (iv_currents U) = Some m" "distinct (map sc_case_id (iv_currents U))"
    "x \<in> set (iv_currents U) \<Longrightarrow> x = m \<or> (x \<in> set (iv_currents T) \<and> sc_case_id x \<noteq> ic_case_id c)"
proof -
  let ?m = "projection T c (cv_now env (ic_current_revision c) 0)"
  have k: "sc_case_id ?m = ic_case_id c" by (simp add: projection_def Let_def)
  show "m = ?m" "\<exists>ms. U = T\<lparr>iv_currents := ms\<rparr>"
    using assms(1) by (auto simp: rebuild_current_def Let_def split: option.splits)
  have "(U = T\<lparr>iv_currents := iv_currents T @ [?m]\<rparr> \<and> ic_case_id c \<notin> sc_case_id ` set (iv_currents T))
      \<or> (U = T\<lparr>iv_currents := tab_put sc_case_id ?m (iv_currents T)\<rparr> \<and> ic_case_id c \<in> sc_case_id ` set (iv_currents T))"
  proof (cases "tab_get sc_case_id (ic_case_id c) (iv_currents T)")
    case None
    then have "ic_case_id c \<notin> sc_case_id ` set (iv_currents T)" by (simp add: tab_get_None_iff)
    with assms(1) None show ?thesis by (auto simp: rebuild_current_def Let_def)
  next
    case (Some x)
    then have "ic_case_id c \<in> sc_case_id ` set (iv_currents T)" by (metis image_eqI tab_get_Some_D)
    with assms(1) Some show ?thesis by (auto simp: rebuild_current_def Let_def)
  qed
  then show "tab_get sc_case_id (ic_case_id c) (iv_currents U) = Some m" "distinct (map sc_case_id (iv_currents U))"
    "x \<in> set (iv_currents U) \<Longrightarrow> x = m \<or> (x \<in> set (iv_currents T) \<and> sc_case_id x \<noteq> ic_case_id c)"
    using assms(2) k \<open>m = ?m\<close>
    by (auto simp: tab_simps tab_get_None_iff image_iff split: option.splits dest!: in_set_tab_put tab_get_Some_D)
      (metis+)
qed

lemma commit_inv:
  assumes inv: "state_inv rd S" and c: "tab_get ic_case_id (ic_case_id c) (iv_cases S) = Some c"
    and w: "writes rd S c es T c'" and needs: "needs_moved S (ic_case_id c) T"
    and perc: "perceptions_moved S (ic_case_id c) T" and U: "rebuild_current env T c' True = (U, m)"
  shows "state_inv rd U"
proof -
  note h = writes_history [OF w]
  have t: "tables_ok rd S" and ok: "\<And>x. x \<in> set (iv_cases S) \<Longrightarrow> case_ok S x"
    using inv by (auto simp: state_inv_def)
  have cur: "iv_currents T = iv_currents S" and cases: "iv_cases T = tab_put ic_case_id c' (iv_cases S)"
    using w by (auto simp: writes_def)
  have dc: "distinct (map sc_case_id (iv_currents T))" using t cur by (simp add: tables_ok_def)
  note r = rebuild_current_D [OF U dc]
  obtain ms where ms: "U = T\<lparr>iv_currents := ms\<rparr>" using r(2) by blast
  have same: "iv_events U = iv_events T" "iv_needs U = iv_needs T" "iv_perceptions U = iv_perceptions T"
    "iv_cases U = iv_cases T" by (simp_all add: ms)
  have cong: "case_history U = case_history T" "case_needs U = case_needs T" "case_perceptions U = case_perceptions T"
    "open_in_table U = open_in_table T" "open_in_history U = open_in_history T"
    by (simp_all add: fun_eq_iff case_history_def case_needs_def case_perceptions_def open_in_table_def open_in_history_def same)
  have cin: "c \<in> set (iv_cases S)" using c by (rule tab_get_in_set)
  have ids: "ic_case_id ` set (iv_cases T) = ic_case_id ` set (iv_cases S)"
    using cases tab_put_keys [of ic_case_id c' "iv_cases S"] by (metis list.set_map)
  have "sc_case_id x \<in> ic_case_id ` set (iv_cases S)" if "x \<in> set (iv_currents U)" for x
    using r(5) [OF that] r(1) h(3) cin cur t by (auto simp: projection_def Let_def tables_ok_def)
  then have "sc_case_id ` set (iv_currents U) \<subseteq> ic_case_id ` set (iv_cases S)" by blast
  then have "tables_ok rd U"
    using t w needs perc r(4) cases same(1-3) ids cin same(4)
    by (auto simp: tables_ok_def writes_def needs_moved_def perceptions_moved_def)
  moreover have "case_ok U x" if x: "x \<in> set (iv_cases U)" for x
  proof (cases "ic_case_id x = ic_case_id c")
    case True
    with x have "x = c'" using cases same(4) h(3) by (auto dest!: in_set_tab_put)
    have "case_ok S c" using ok cin .
    moreover have "map ce_case_revision es = [Suc (ic_current_revision c)..<Suc (ic_current_revision c + length es)]"
      using w by (simp add: writes_def)
    ultimately have "map ce_case_revision (case_history T (ic_case_id c)) = [1..<Suc (ic_current_revision c')]"
      using upt_add_eq_append [of 1 "Suc (ic_current_revision c)" "length es"]
      by (simp add: h(1,4) case_ok_def del: upt_Suc)
    moreover have "projection U c' now = projection T c' now" for now
      by (rule projection_cong) (simp_all add: cong)
    moreover have "y = m" if "y \<in> set (iv_currents U)" "sc_case_id y = ic_case_id c'" for y
      using r(5) [OF that(1)] that(2) by simp
    moreover have "m = projection T c' (sc_updated_at m)" using r(1) by (simp add: projection_def Let_def)
    ultimately show ?thesis
      using needs \<open>case_ok S c\<close> \<open>x = c'\<close> h(3,5)
      by (auto simp: case_ok_def needs_moved_def cong)
  next
    case False
    then have xs: "x \<in> set (iv_cases S)" using x cases same(4) h(3) by (auto dest!: in_set_tab_put)
    have "case_history U (ic_case_id x) = case_history S (ic_case_id x)" using h(2) False by (simp add: cong)
    moreover have "case_needs U (ic_case_id x) = case_needs S (ic_case_id x)"
      using needs False by (simp add: cong needs_moved_def)
    moreover have "case_perceptions U (ic_case_id x) = case_perceptions S (ic_case_id x)"
      using perc False by (simp add: cong perceptions_moved_def)
    moreover have "y \<in> set (iv_currents S)" if "y \<in> set (iv_currents U)" "sc_case_id y = ic_case_id x" for y
      using r(1) r(5) [OF that(1)] that(2) False h(3) cur by (auto simp: projection_def Let_def)
    ultimately show ?thesis
      using ok [OF xs] projection_cong [of U x S] open_in_table_needs [of _ "ic_case_id x"] open_in_history_cong [of U "ic_case_id x" S]
      by (auto simp: case_ok_def)
  qed
  ultimately show ?thesis by (auto simp: state_inv_def)
qed

section \<open>Needs and their events\<close>

lemma replay_need_other:
  "ce_event_type e \<notin> {EVIDENCE_NEED_OPENED, EVIDENCE_NEED_RESOLVED} \<Longrightarrow> replay_need e ids = ids"
  by (auto simp: replay_need_def split: json.splits)

lemma replay_need_opened:
  "ce_event_type e = EVIDENCE_NEED_OPENED \<Longrightarrow> jget (ce_payload e) ''need_id'' = JStr k
     \<Longrightarrow> set (replay_need e ids) = insert k (set ids)"
  by (auto simp: replay_need_def)

lemma replay_need_resolved:
  "ce_event_type e = EVIDENCE_NEED_RESOLVED \<Longrightarrow> jget (ce_payload e) ''need_id'' = JStr k
     \<Longrightarrow> set (replay_need e ids) = set ids - {k}"
  by (auto simp: replay_need_def)

lemma open_in_history_append:
  "case_history T i = case_history S i @ [e] \<Longrightarrow>
     open_in_history T i = set (replay_need e (fold replay_need (case_history S i) []))"
  by (simp add: open_in_history_def)

lemma open_in_table_put:
  assumes "distinct (map nd_need_id (iv_needs T))" "n \<in> set (iv_needs T)" "nd_need_id n' = nd_need_id n" "nd_case_id n' = i"
  shows "open_in_table (put_need n' T) i
    = open_in_table T i - {nd_need_id n} \<union> (if nd_status n' \<in> {NEED_OPEN, NEED_BLOCKED} then {nd_need_id n} else {})"
proof -
  have s: "set (iv_needs (put_need n' T)) = insert n' {x \<in> set (iv_needs T). nd_need_id x \<noteq> nd_need_id n}"
    using assms(2,3) by (auto simp: put_need_def tab_put_def image_iff)
  have im: "open_in_table X i = nd_need_id ` {x \<in> set (iv_needs X). nd_case_id x = i \<and> nd_status x \<in> {NEED_OPEN, NEED_BLOCKED}}" for X
    by (auto simp: open_in_table_def)
  have "{x \<in> set (iv_needs (put_need n' T)). nd_case_id x = i \<and> nd_status x \<in> {NEED_OPEN, NEED_BLOCKED}}
      = {x \<in> set (iv_needs T). nd_need_id x \<noteq> nd_need_id n \<and> nd_case_id x = i \<and> nd_status x \<in> {NEED_OPEN, NEED_BLOCKED}}
        \<union> (if nd_status n' \<in> {NEED_OPEN, NEED_BLOCKED} then {n'} else {})"
    using s assms(4) by auto
  then show ?thesis unfolding im using assms(3) by auto
qed

lemma case_needs_put:
  assumes "distinct (map nd_need_id (iv_needs T))" "n \<in> set (iv_needs T)" "nd_need_id n' = nd_need_id n"
    "nd_case_id n = i" "nd_case_id n' = i" "j \<noteq> i"
  shows "case_needs (put_need n' T) j = case_needs T j"
proof -
  have "nd_case_id x \<noteq> j" if "x \<in> set (iv_needs T)" "nd_need_id x = nd_need_id n'" for x
    using that assms by (metis option.inject tab_get_distinct)
  then show ?thesis using assms(5,6) unfolding case_needs_def put_need_def by (simp add: tab_put_filter)
qed

lemma needs_moved_refl:
  assumes "state_inv rd S" "c \<in> set (iv_cases S)"
  shows "needs_moved S (ic_case_id c) S"
  using assms by (auto simp: needs_moved_def state_inv_def tables_ok_def case_ok_def)

lemma perceptions_moved_refl: "state_inv rd S \<Longrightarrow> perceptions_moved S i S"
  by (simp add: perceptions_moved_def state_inv_def tables_ok_def)

lemma needs_moved_cong:
  "needs_moved S i T \<Longrightarrow> iv_needs U = iv_needs T \<Longrightarrow> open_in_history U i = open_in_history T i \<Longrightarrow> needs_moved S i U"
  by (simp add: needs_moved_def case_needs_def open_in_table_def)

lemma perceptions_moved_cong:
  "perceptions_moved S i T \<Longrightarrow> iv_perceptions U = iv_perceptions T \<Longrightarrow> perceptions_moved S i U"
  by (simp add: perceptions_moved_def case_perceptions_def)

text \<open>An event that is not about a need leaves them in step with the history.\<close>

lemma needs_moved_other:
  assumes "needs_moved S i T" "writes rd T d [e] U u" "ic_case_id d = i" "iv_needs U = iv_needs T"
    "ce_event_type e \<notin> {EVIDENCE_NEED_OPENED, EVIDENCE_NEED_RESOLVED}"
  shows "needs_moved S i U"
proof -
  have "case_history U i = case_history T i @ [e]" using writes_history(1) [OF assms(2)] assms(3) by simp
  then have "open_in_history U i = open_in_history T i"
    using replay_need_other [OF assms(5)] by (simp add: open_in_history_def)
  with assms(1,4) show ?thesis by (rule needs_moved_cong)
qed

text \<open>So does an event that opens or resolves one, with the row of the need put accordingly.\<close>

lemma needs_moved_put:
  assumes m: "needs_moved S i T" and w: "writes rd T d [e] U u" "ic_case_id d = i" "iv_needs U = iv_needs T"
    and n: "n \<in> set (iv_needs T)" "nd_case_id n = i"
    and n': "nd_need_id n' = nd_need_id n" "nd_case_id n' = i" "need_view n' = Inr n'"
    and e: "jget (ce_payload e) ''need_id'' = JStr (nd_need_id n)"
      "(ce_event_type e = EVIDENCE_NEED_OPENED \<and> nd_status n' = NEED_OPEN)
       \<or> (ce_event_type e = EVIDENCE_NEED_RESOLVED \<and> nd_status n' = NEED_RESOLVED)"
  shows "needs_moved S i (put_need n' U)"
proof -
  have d: "distinct (map nd_need_id (iv_needs U))" "n \<in> set (iv_needs U)" using m n(1) w(3) by (simp_all add: needs_moved_def)
  have same: "open_in_table U i = open_in_table T i" "case_needs U = case_needs T"
    using w(3) by (simp_all add: open_in_table_def fun_eq_iff case_needs_def)
  have "case_history (put_need n' U) i = case_history T i @ [e]"
    using writes_history(1) [OF w(1)] w(2) by (simp add: case_history_def put_need_def)
  then have "open_in_history (put_need n' U) i
      = (if ce_event_type e = EVIDENCE_NEED_OPENED then insert (nd_need_id n) (open_in_history T i)
         else open_in_history T i - {nd_need_id n})"
    using e replay_need_opened replay_need_resolved by (auto simp: open_in_history_def)
  moreover have "open_in_history T i = open_in_table T i" using m by (simp add: needs_moved_def)
  ultimately have "open_in_history (put_need n' U) i = open_in_table (put_need n' U) i"
    using open_in_table_put [OF d n'(1,2)] same(1) e(2) by auto
  moreover have "case_needs (put_need n' U) j = case_needs S j" if "j \<noteq> i" for j
    using case_needs_put [OF d n'(1) n(2) n'(2) that] same(2) m that by (simp add: needs_moved_def)
  moreover have "need_view x = Inr x \<and> nd_case_id x \<in> ic_case_id ` set (iv_cases S)"
    if "x \<in> set (iv_needs (put_need n' U))" for x
    using that m n n' w(3) by (auto simp: put_need_def needs_moved_def dest!: in_set_tab_put)
  ultimately show ?thesis using d(1) by (simp add: needs_moved_def put_need_def)
qed

lemma needs_moved_add:
  assumes m: "needs_moved S i T" and w: "writes rd T d [e] U u" "ic_case_id d = i" "iv_needs U = iv_needs T"
    and n: "nd_case_id n = i" "nd_status n = NEED_OPEN" "need_view n = Inr n" "i \<in> ic_case_id ` set (iv_cases S)"
      "nd_need_id n \<notin> nd_need_id ` set (iv_needs T)"
    and e: "jget (ce_payload e) ''need_id'' = JStr (nd_need_id n)" "ce_event_type e = EVIDENCE_NEED_OPENED"
  shows "needs_moved S i (U\<lparr>iv_needs := iv_needs T @ [n]\<rparr>)"
proof -
  have "case_history (U\<lparr>iv_needs := iv_needs T @ [n]\<rparr>) i = case_history T i @ [e]"
    using writes_history(1) [OF w(1)] w(2) by (simp add: case_history_def)
  then have "open_in_history (U\<lparr>iv_needs := iv_needs T @ [n]\<rparr>) i = insert (nd_need_id n) (open_in_history T i)"
    using e replay_need_opened by (simp add: open_in_history_def)
  moreover have "open_in_table (U\<lparr>iv_needs := iv_needs T @ [n]\<rparr>) i = insert (nd_need_id n) (open_in_table T i)"
    using n(1,2) by (auto simp: open_in_table_def)
  moreover have "case_needs (U\<lparr>iv_needs := iv_needs T @ [n]\<rparr>) j = case_needs S j" if "j \<noteq> i" for j
    using m that n(1) by (simp add: needs_moved_def case_needs_def)
  ultimately show ?thesis using m n by (auto simp: needs_moved_def)
qed

section \<open>Every operation keeps the invariant\<close>

lemma lock_case_eq_Inr [res_simps]:
  "lock_case S i = Inr c \<longleftrightarrow> tab_get ic_case_id i (iv_cases S) = Some c \<and> ic_status c \<notin> {''closed'', ''cancelled''}"
  by (auto simp: lock_case_def res_simps)

lemma require_revision_eq_Inr [res_simps]:
  "require_revision c base rest = Inr x \<longleftrightarrow> int (ic_current_revision c) = base \<and> rest = Inr x"
  by (auto simp: require_revision_def res_simps)

lemma let_pair_eq_Inr [res_simps]:
  "(case x of (a, b) \<Rightarrow> res_bind (f a b) (g a b)) = Inr y \<longleftrightarrow> (\<exists>a b z. x = (a, b) \<and> f a b = Inr z \<and> g a b z = Inr y)"
  by (cases x) (auto simp: res_simps)

lemma store_grows_refl [simp]: "store_grows S S"
  by (auto simp: store_grows_def)

lemma store_grows_case:
  assumes "store_grows S T" "tab_get ic_case_id i (iv_cases S) = Some c"
  obtains d where "tab_get ic_case_id i (iv_cases T) = Some d" "ic_current_revision c \<le> ic_current_revision d"
    "ic_goal d = ic_goal c" "ic_target_object_ids d = ic_target_object_ids c"
    "ic_initial_knowledge_revision d = ic_initial_knowledge_revision c" "ic_created_at d = ic_created_at c"
    "case_frozen c \<Longrightarrow> d = c" "case_frozen c \<Longrightarrow> case_history T i = case_history S i"
    "case_frozen c \<Longrightarrow> case_needs T i = case_needs S i"
  using assms unfolding store_grows_def case_needs_def by blast

lemma store_growsI:
  assumes "iv_events T = iv_events S @ es"
    "\<And>i c. tab_get ic_case_id i (iv_cases S) = Some c \<Longrightarrow>
      \<exists>d. tab_get ic_case_id i (iv_cases T) = Some d \<and> ic_current_revision c \<le> ic_current_revision d
        \<and> ic_goal d = ic_goal c \<and> ic_target_object_ids d = ic_target_object_ids c
        \<and> ic_initial_knowledge_revision d = ic_initial_knowledge_revision c \<and> ic_created_at d = ic_created_at c
        \<and> (case_frozen c \<longrightarrow> d = c \<and> case_history T i = case_history S i \<and> case_needs T i = case_needs S i)"
  shows "store_grows S T"
  using assms unfolding store_grows_def case_needs_def by blast

lemma store_grows_trans:
  assumes "store_grows S T" "store_grows T U"
  shows "store_grows S U"
proof -
  obtain es fs where "iv_events T = iv_events S @ es" "iv_events U = iv_events T @ fs"
    using assms by (auto simp: store_grows_def)
  then have e: "iv_events U = iv_events S @ es @ fs" by simp
  show ?thesis
  proof (rule store_growsI [OF e])
    fix i c assume "tab_get ic_case_id i (iv_cases S) = Some c"
    with assms(1) obtain d where d: "tab_get ic_case_id i (iv_cases T) = Some d" "ic_current_revision c \<le> ic_current_revision d"
      "ic_goal d = ic_goal c" "ic_target_object_ids d = ic_target_object_ids c"
      "ic_initial_knowledge_revision d = ic_initial_knowledge_revision c" "ic_created_at d = ic_created_at c"
      "case_frozen c \<Longrightarrow> d = c" "case_frozen c \<Longrightarrow> case_history T i = case_history S i"
      "case_frozen c \<Longrightarrow> case_needs T i = case_needs S i"
      by (rule store_grows_case) blast
    from assms(2) d(1) obtain x where x: "tab_get ic_case_id i (iv_cases U) = Some x" "ic_current_revision d \<le> ic_current_revision x"
      "ic_goal x = ic_goal d" "ic_target_object_ids x = ic_target_object_ids d"
      "ic_initial_knowledge_revision x = ic_initial_knowledge_revision d" "ic_created_at x = ic_created_at d"
      "case_frozen d \<Longrightarrow> x = d" "case_frozen d \<Longrightarrow> case_history U i = case_history T i"
      "case_frozen d \<Longrightarrow> case_needs U i = case_needs T i"
      by (rule store_grows_case) blast
    have "x = c \<and> case_history U i = case_history S i \<and> case_needs U i = case_needs S i" if "case_frozen c"
      using d(7-9) x(7-9) that by simp
    with d x show "\<exists>d. tab_get ic_case_id i (iv_cases U) = Some d \<and> ic_current_revision c \<le> ic_current_revision d
        \<and> ic_goal d = ic_goal c \<and> ic_target_object_ids d = ic_target_object_ids c
        \<and> ic_initial_knowledge_revision d = ic_initial_knowledge_revision c \<and> ic_created_at d = ic_created_at c
        \<and> (case_frozen c \<longrightarrow> d = c \<and> case_history U i = case_history S i \<and> case_needs U i = case_needs S i)"
      by (intro exI [of _ x]) simp
  qed
qed

text \<open>A write leaves the other cases alone, and it is to an open case unless nothing is written.\<close>

lemma writes_grows:
  assumes c: "tab_get ic_case_id (ic_case_id c) (iv_cases S) = Some c" and w: "writes rd S c es T c'"
    and u: "iv_events U = iv_events T" "iv_cases U = iv_cases T" "\<And>j. j \<noteq> ic_case_id c \<Longrightarrow> case_needs U j = case_needs S j"
    and f: "case_frozen c \<Longrightarrow> es = [] \<and> c' = c \<and> iv_needs U = iv_needs S"
  shows "store_grows S U" "tab_get ic_case_id (ic_case_id c) (iv_cases U) = Some c'"
proof -
  note h = writes_history [OF w]
  obtain st where c': "c' = c\<lparr>ic_current_revision := ic_current_revision c + length es, ic_status := st\<rparr>"
    using w by (auto simp: writes_def)
  have "ic_case_id c \<in> set (map ic_case_id (iv_cases S))"
    using tab_get_in_set [OF c] by auto
  then have g: "tab_get ic_case_id j (iv_cases U) = (if j = ic_case_id c then Some c' else tab_get ic_case_id j (iv_cases S))" for j
    using w u(2) c' by (auto simp: writes_def tab_simps)
  then show "tab_get ic_case_id (ic_case_id c) (iv_cases U) = Some c'" by simp
  have hu: "case_history U = case_history T" by (simp add: fun_eq_iff case_history_def u(1))
  have "iv_events U = iv_events S @ es" using w u(1) by (simp add: writes_def)
  then show "store_grows S U"
  proof (rule store_growsI)
    fix j x assume x: "tab_get ic_case_id j (iv_cases S) = Some x"
    show "\<exists>d. tab_get ic_case_id j (iv_cases U) = Some d \<and> ic_current_revision x \<le> ic_current_revision d
        \<and> ic_goal d = ic_goal x \<and> ic_target_object_ids d = ic_target_object_ids x
        \<and> ic_initial_knowledge_revision d = ic_initial_knowledge_revision x \<and> ic_created_at d = ic_created_at x
        \<and> (case_frozen x \<longrightarrow> d = x \<and> case_history U j = case_history S j \<and> case_needs U j = case_needs S j)"
    proof (cases "j = ic_case_id c")
      case True
      with x c have "x = c" by simp
      have "c' = c \<and> case_history U j = case_history S j \<and> case_needs U j = case_needs S j" if "case_frozen c"
        using f [OF that] h(1) True hu by (simp add: case_needs_def)
      with g [of j] True \<open>x = c\<close> c' show ?thesis by auto
    next
      case False
      with x g [of j] h(2) [of j] hu u(3) show ?thesis by simp
    qed
  qed
qed

text \<open>The end of every call that writes.\<close>

lemma commit_write:
  assumes "state_inv rd S" "tab_get ic_case_id (ic_case_id c) (iv_cases S) = Some c"
    and w: "writes rd S c es T c'" and "needs_moved S (ic_case_id c) T" "perceptions_moved S (ic_case_id c) T"
    and U: "rebuild_current env T c' True = (U, m)"
    and f: "case_frozen c \<Longrightarrow> es = [] \<and> c' = c \<and> iv_needs T = iv_needs S"
  shows "state_inv rd U" "store_grows S U" "iv_events U = iv_events S @ es"
    "tab_get ic_case_id (ic_case_id c) (iv_cases U) = Some c'"
    "tab_get sc_case_id (ic_case_id c) (iv_currents U) = Some m" "iv_needs U = iv_needs T"
proof -
  have "distinct (map sc_case_id (iv_currents T))"
    using w assms(1) by (simp add: writes_def state_inv_def tables_ok_def)
  note r = rebuild_current_D [OF U this]
  show "state_inv rd U" using assms(1-6) by (rule commit_inv)
  from r(2) have same: "iv_events U = iv_events T" "iv_cases U = iv_cases T" and n: "iv_needs U = iv_needs T" by auto
  have "case_needs U j = case_needs S j" if "j \<noteq> ic_case_id c" for j
    using assms(4) that n by (simp add: needs_moved_def case_needs_def)
  then show "store_grows S U" "tab_get ic_case_id (ic_case_id c) (iv_cases U) = Some c'"
    using writes_grows [OF assms(2) w same] f n by simp_all
  show "iv_events U = iv_events S @ es" using same(1) w by (simp add: writes_def)
  show "tab_get sc_case_id (ic_case_id c) (iv_currents U) = Some m"
    using r(3) writes_history(3) [OF w] by simp
  show "iv_needs U = iv_needs T" using r(2) by auto
qed

lemma state_inv_case:
  assumes "state_inv rd S" "tab_get ic_case_id i (iv_cases S) = Some c"
  shows "ic_case_id c = i" "c \<in> set (iv_cases S)" "case_ok S c" "distinct (map ic_case_id (iv_cases S))"
    "case_events S i = case_history S i" "needs_moved S i S" "perceptions_moved S i S" "writes rd S c [] S c"
proof -
  show i: "ic_case_id c = i" and m: "c \<in> set (iv_cases S)" using tab_get_Some_D [OF assms(2)] by simp_all
  show ok: "case_ok S c" and d: "distinct (map ic_case_id (iv_cases S))"
    using assms(1) m by (auto simp: state_inv_def tables_ok_def)
  have "map ce_case_revision (case_history S i) = [1..<Suc (ic_current_revision c)]"
    using ok i by (simp add: case_ok_def del: upt_Suc)
  then show "case_events S i = case_history S i" by (rule case_events_history)
  show "needs_moved S i S" using needs_moved_refl [OF assms(1) m] i by simp
  show "perceptions_moved S i S" using assms(1) by (rule perceptions_moved_refl)
  show "writes rd S c [] S c" using d assms(2) i by (auto intro: writes_refl)
qed

lemma rebuild_state_inv:
  assumes "state_inv rd S" "rebuild_state env S i = Inr (T, st)"
  shows "state_inv rd T" "store_grows S T" "iv_events T = iv_events S"
proof -
  from assms(2) obtain c m where c: "tab_get ic_case_id i (iv_cases S) = Some c" "rebuild_current env S c True = (T, m)"
    by (auto simp: rebuild_state_def res_simps split: prod.splits)
  note k = state_inv_case [OF assms(1) c(1)]
  have "tab_get ic_case_id (ic_case_id c) (iv_cases S) = Some c" using c(1) k(1) by simp
  note r = commit_write [OF assms(1) this k(8) _ _ c(2)]
  show "state_inv rd T" "store_grows S T" "iv_events T = iv_events S" using r k by simp_all
qed

lemma rebuild_missing:
  "tab_get sc_case_id (ic_case_id c) (iv_currents S) = None \<Longrightarrow> rebuild_current env S c False = rebuild_current env S c True"
  by (simp add: rebuild_current_def)

text \<open>Reading the state gives the view of the projection; it stores the projection when there was none.\<close>

lemma get_state_D:
  assumes "state_inv rd S" "get_state env S i = Inr (T, st)"
  shows "state_inv rd T" "store_grows S T" "iv_events T = iv_events S" "iv_needs T = iv_needs S" "iv_cases T = iv_cases S"
    "\<exists>c now. tab_get ic_case_id i (iv_cases S) = Some c \<and> state_view (projection S c now) = Inr st"
    "tab_get sc_case_id i (iv_currents S) \<noteq> None \<Longrightarrow> T = S"
proof -
  from assms(2) obtain c m where c: "tab_get ic_case_id i (iv_cases S) = Some c"
      "(case tab_get sc_case_id i (iv_currents S) of None \<Rightarrow> rebuild_current env S c False | Some m \<Rightarrow> (S, m)) = (T, m)"
      "state_view m = Inr st"
    by (auto simp: get_state_def res_simps split: prod.splits)
  note k = state_inv_case [OF assms(1) c(1)]
  have "state_inv rd T \<and> store_grows S T \<and> iv_events T = iv_events S \<and> iv_needs T = iv_needs S \<and> iv_cases T = iv_cases S
      \<and> (\<exists>now. m = projection S c now) \<and> (tab_get sc_case_id i (iv_currents S) \<noteq> None \<longrightarrow> T = S)"
  proof (cases "tab_get sc_case_id i (iv_currents S)")
    case (Some x)
    then have "x \<in> set (iv_currents S)" "sc_case_id x = ic_case_id c" using tab_get_Some_D [OF Some] k(1) by simp_all
    with k(3) have "x = projection S c (sc_updated_at x)" by (auto simp: case_ok_def)
    with c(2) Some assms(1) show ?thesis by auto
  next
    case None
    with c(2) k(1) have r: "rebuild_current env S c True = (T, m)" by (simp add: rebuild_missing)
    have "tab_get ic_case_id (ic_case_id c) (iv_cases S) = Some c" using c(1) k(1) by simp
    note w = commit_write [OF assms(1) this k(8) _ _ r]
    have "m = projection S c (cv_now env (ic_current_revision c) 0)" "iv_cases T = iv_cases S"
      using r by (auto simp: rebuild_current_def Let_def split: option.splits)
    with w k None show ?thesis by auto
  qed
  then show "state_inv rd T" "store_grows S T" "iv_events T = iv_events S" "iv_needs T = iv_needs S" "iv_cases T = iv_cases S"
    "\<exists>c now. tab_get ic_case_id i (iv_cases S) = Some c \<and> state_view (projection S c now) = Inr st"
    "tab_get sc_case_id i (iv_currents S) \<noteq> None \<Longrightarrow> T = S"
    using c by blast+
qed

lemma projection_view_total:
  assumes "state_inv rd S" "tab_get ic_case_id i (iv_cases S) = Some c"
  shows "\<exists>st. state_view (projection S c now) = Inr st"
proof -
  note k = state_inv_case [OF assms]
  have wf: "\<forall>e \<in> set (case_events S i). wf_event rd e"
    using assms(1) k(5) by (auto simp: case_history_def state_inv_def tables_ok_def)
  have "latest_perception S i = Some p \<Longrightarrow> p \<in> set (iv_perceptions S)" for p
  proof -
    assume "latest_perception S i = Some p"
    then obtain ps where ps: "rev (sort_key (\<lambda>p. (pe_finished_at p, pe_perception_event_id p))
        (filter (\<lambda>p. pe_case_id p = i) (iv_perceptions S))) = p # ps"
      by (auto simp: latest_perception_def simp del: rev_eq_Cons_iff split: list.splits)
    have "p \<in> set (p # ps)" by simp
    then show ?thesis unfolding ps [symmetric] by simp
  qed
  then have "world_ok (sc_last_world_revision (projection S c now))"
    using assms(1) k(1,3)
    by (auto simp: projection_def Let_def world_ok_def case_ok_def state_inv_def tables_ok_def split: option.splits)
  with wf k(1) show ?thesis by (intro state_view_total [where es = "case_events S i"]) (auto simp: projection_def Let_def)
qed

lemma get_state_total:
  assumes "state_inv rd S" "tab_get ic_case_id i (iv_cases S) = Some c"
  shows "\<exists>T st. get_state env S i = Inr (T, st)"
proof -
  note k = state_inv_case [OF assms]
  let ?r = "case tab_get sc_case_id i (iv_currents S) of None \<Rightarrow> rebuild_current env S c False | Some m \<Rightarrow> (S, m)"
  have "\<exists>now. snd ?r = projection S c now"
  proof (cases "tab_get sc_case_id i (iv_currents S)")
    case None
    then show ?thesis using k(1) by (auto simp: rebuild_current_def Let_def)
  next
    case (Some m)
    then have "m \<in> set (iv_currents S)" "sc_case_id m = ic_case_id c" using tab_get_Some_D [OF Some] k(1) by simp_all
    with k(3) Some show ?thesis by (auto simp: case_ok_def)
  qed
  then obtain st where "state_view (snd ?r) = Inr st" using projection_view_total [OF assms] by metis
  then have "get_state env S i = Inr (fst ?r, st)"
    using assms(2) by (cases ?r) (simp add: get_state_def)
  then show ?thesis by blast
qed

lemma jget_Cons [simp]: "jget ((k', v) # d) k = (if k = k' then v else jget d k)"
  by (simp add: jget_def)

lemma jget_Nil [simp]: "jget [] k = JNull"
  by (simp add: jget_def)

lemma parse_relation_JNull [simp]: "parse_relation JNull = Inr None"
  by (simp add: parse_relation_def)

lemma event_type_for_confirmed:
  "event_type_for s d = FACT_CONFIRMED \<longleftrightarrow> s = CONFIRMED \<and> d = SET"
  "event_type_for s d \<notin> {EVIDENCE_NEED_OPENED, EVIDENCE_NEED_RESOLVED, PERCEPTION_RECORDED}"
  by (cases s; cases d; simp)+

lemma operation_draft_wf:
  assumes "operation_ok op"
  shows "wf_event rd (event_of_draft env c (operation_draft p reason now index op))"
proof -
  let ?e = "event_of_draft env c (operation_draft p reason now index op)"
  have r: "parse_relation (jget (ce_payload ?e) ''reasoning_relation'') = Inr (op_reasoning_relation op)"
    using assms parse_dump_relation
    by (auto simp: operation_draft_def operation_ok_def split: option.splits)
  have "sound_confirmation ?e" if "ce_event_type ?e = FACT_CONFIRMED"
  proof -
    from that have s: "op_proposed_state op = CONFIRMED" "op_disposition op = SET"
      by (simp_all add: operation_draft_def event_type_for_confirmed)
    then have "op_evidence_refs op \<noteq> []" "\<not> inferred_confirmation op" using assms by (auto simp: operation_ok_def)
    then show ?thesis using r s
      by (auto simp: sound_confirmation_def inferred_confirmation_def operation_draft_def split: option.splits)
  qed
  then show ?thesis
    using r event_type_for_confirmed(2) [of "op_proposed_state op" "op_disposition op"]
    by (auto simp: wf_event_def operation_draft_def)
qed

lemma simple_draft_wf:
  assumes "jget (dr_payload d) ''reasoning_relation'' = JNull" "dr_event_type d \<notin> {FACT_CONFIRMED, PERCEPTION_RECORDED}"
  shows "wf_event rd (event_of_draft env c d)"
  using assms by (auto simp: wf_event_def)

lemma resolve_need_moved:
  assumes m: "needs_moved S i T" and c: "ic_case_id c = i"
    and r: "resolve_need_from_operation env T c op writer = Inr (U, c', es)"
    and own: "\<And>k n. op_resolves_need_id op = Some k \<Longrightarrow> tab_get nd_need_id k (iv_needs T) = Some n \<Longrightarrow> nd_case_id n = i"
    and t: "tab_get ic_case_id i (iv_cases T) = Some c" "distinct (map ic_case_id (iv_cases T))"
  shows "writes rd T c es U c' \<and> needs_moved S i U \<and> iv_perceptions U = iv_perceptions T
    \<and> (\<forall>k n. tab_get nd_need_id k (iv_needs U) = Some n \<longrightarrow>
        (\<exists>n0. tab_get nd_need_id k (iv_needs T) = Some n0 \<and> nd_case_id n = nd_case_id n0))
    \<and> (\<forall>e \<in> set es. ce_patch_id e = None)"
proof (cases "op_resolves_need_id op")
  case None
  with r have "U = T" "c' = c" "es = []" by (auto simp: resolve_need_from_operation_def)
  with m t c show ?thesis by (auto intro: writes_refl)
next
  case (Some k)
  with r obtain n V e where n: "tab_get nd_need_id k (iv_needs T) = Some n"
    and a: "append_event env T c (resolution_draft n op writer (cv_now env (ic_current_revision c) 1)) = Inr (V, c', e)"
    and U: "U = put_need (n\<lparr>nd_status := NEED_RESOLVED, nd_resolution_evidence_refs := op_evidence_refs op,
        nd_updated_at := cv_now env (ic_current_revision c) 0, nd_updated_revision := ce_case_revision e\<rparr>) V" and es: "es = [e]"
    by (auto simp: resolve_need_from_operation_def Let_def res_simps)
  let ?n = "n\<lparr>nd_status := NEED_RESOLVED, nd_resolution_evidence_refs := op_evidence_refs op,
        nd_updated_at := cv_now env (ic_current_revision c) 0, nd_updated_revision := ce_case_revision e\<rparr>"
  note d = append_event_D [OF a]
  have own': "nd_case_id n = i" using own Some n by blast
  have nk: "n \<in> set (iv_needs T)" "nd_need_id n = k" using tab_get_Some_D [OF n] by simp_all
  then have v: "need_view n = Inr n" using m by (simp add: needs_moved_def)
  have w: "writes rd T c [e] V c'"
    using a by (rule writes_append) (simp add: d(1) simple_draft_wf resolution_draft_def)
  have vn: "iv_needs V = iv_needs T" by (simp add: d(3))
  have "needs_moved S i (put_need ?n V)"
    by (rule needs_moved_put [OF m w c vn nk(1) own'])
      (use own' v in \<open>auto simp: d(1) resolution_draft_def need_view_iff\<close>)
  moreover have "writes rd T c es U c'" using writes_put_need [OF w] U es by simp
  moreover have "\<exists>n0. tab_get nd_need_id k' (iv_needs T) = Some n0 \<and> nd_case_id n' = nd_case_id n0"
    if "tab_get nd_need_id k' (iv_needs U) = Some n'" for k' n'
    using that n nk(2) by (auto simp: U put_need_def tab_simps vn split: if_splits)
  moreover have "iv_perceptions U = iv_perceptions T" by (simp add: U put_need_def d(3))
  ultimately show ?thesis using U es d(1) by (auto simp: resolution_draft_def)
qed

lemma writes_cases:
  assumes "writes rd S c es T c'" "tab_get ic_case_id (ic_case_id c) (iv_cases S) = Some c"
    "distinct (map ic_case_id (iv_cases S))"
  shows "tab_get ic_case_id (ic_case_id c) (iv_cases T) = Some c'" "distinct (map ic_case_id (iv_cases T))"
    "ic_case_id c' = ic_case_id c"
proof -
  show "tab_get ic_case_id (ic_case_id c) (iv_cases T) = Some c'"
    using assms(1,2) tab_get_in_set [OF assms(2)] writes_history(3) [OF assms(1)] by (auto simp: writes_def tab_simps)
  show "ic_case_id c' = ic_case_id c" using writes_history(3) [OF assms(1)] .
  show "distinct (map ic_case_id (iv_cases T))" using assms(1,3) by (simp add: writes_def)
qed

lemma apply_operations_writes:
  assumes "apply_operations env p reason index ops T c = Inr (U, u, fs)"
    and "tab_get ic_case_id (ic_case_id c) (iv_cases T) = Some c" "distinct (map ic_case_id (iv_cases T))"
    and "needs_moved S (ic_case_id c) T" "\<forall>op \<in> set ops. operation_ok op"
    and "\<forall>op \<in> set ops. \<forall>k n. op_resolves_need_id op = Some k \<longrightarrow> tab_get nd_need_id k (iv_needs T) = Some n
      \<longrightarrow> nd_case_id n = ic_case_id c"
  shows "writes rd T c fs U u \<and> needs_moved S (ic_case_id c) U \<and> iv_perceptions U = iv_perceptions T
    \<and> (\<forall>e \<in> set fs. ce_patch_id e \<in> {None, Some (sp_patch_id p)})
    \<and> map ce_operation_index (filter (\<lambda>e. ce_patch_id e \<noteq> None) fs) = map Some [index..<index + length ops]"
  using assms
proof (induction ops arbitrary: index T c fs)
  case Nil
  then show ?case by (auto intro: writes_refl)
next
  case (Cons op ops)
  let ?i = "ic_case_id c"
  from Cons.prems(1) obtain V v e W w es gs where
    a: "append_event env T c (operation_draft p reason (cv_now env (ic_current_revision c) 0) index op) = Inr (V, v, e)"
    and r: "resolve_need_from_operation env V v op (sp_producer p) = Inr (W, w, es)"
    and rest: "apply_operations env p reason (Suc index) ops W w = Inr (U, u, gs)" and fs: "fs = e # es @ gs"
    by (auto simp: res_simps)
  note d = append_event_D [OF a]
  have "operation_ok op" using Cons.prems(5) by simp
  then have w1: "writes rd T c [e] V v" using a d(1) by (intro writes_append) (simp_all add: operation_draft_wf)
  note c1 = writes_cases [OF w1 Cons.prems(2,3)]
  have vn: "iv_needs V = iv_needs T" "iv_perceptions V = iv_perceptions T" by (simp_all add: d(3))
  have m1: "needs_moved S ?i V"
    using needs_moved_other [OF Cons.prems(4) w1 refl vn(1)] d(1) event_type_for_confirmed(2) [of "op_proposed_state op" "op_disposition op"]
    by (simp add: operation_draft_def)
  have own: "nd_case_id n = ?i" if "op_resolves_need_id op = Some k" "tab_get nd_need_id k (iv_needs V) = Some n" for k n
    using Cons.prems(6) that vn(1) by simp
  have rm: "writes rd V v es W w \<and> needs_moved S ?i W \<and> iv_perceptions W = iv_perceptions V
    \<and> (\<forall>k n. tab_get nd_need_id k (iv_needs W) = Some n \<longrightarrow>
        (\<exists>n0. tab_get nd_need_id k (iv_needs V) = Some n0 \<and> nd_case_id n = nd_case_id n0))
    \<and> (\<forall>e \<in> set es. ce_patch_id e = None)"
    by (rule resolve_need_moved [OF m1 c1(3) r own c1(1,2)])
  have "tab_get ic_case_id (ic_case_id v) (iv_cases V) = Some v" using c1 by simp
  note c2 = writes_cases [OF conjunct1 [OF rm] this c1(2)]
  have i2: "ic_case_id w = ?i" using c1(3) c2(3) by simp
  have "writes rd W w gs U u \<and> needs_moved S (ic_case_id w) U \<and> iv_perceptions U = iv_perceptions W
    \<and> (\<forall>e \<in> set gs. ce_patch_id e \<in> {None, Some (sp_patch_id p)})
    \<and> map ce_operation_index (filter (\<lambda>e. ce_patch_id e \<noteq> None) gs) = map Some [Suc index..<Suc index + length ops]"
  proof (rule Cons.IH [OF rest])
    show "tab_get ic_case_id (ic_case_id w) (iv_cases W) = Some w" "distinct (map ic_case_id (iv_cases W))"
      "needs_moved S (ic_case_id w) W" "\<forall>op \<in> set ops. operation_ok op"
      using c2 c1(3) rm i2 Cons.prems(5) by simp_all
    show "\<forall>op \<in> set ops. \<forall>k n. op_resolves_need_id op = Some k \<longrightarrow> tab_get nd_need_id k (iv_needs W) = Some n
      \<longrightarrow> nd_case_id n = ic_case_id w"
      using rm Cons.prems(6) vn(1) i2 by (metis list.set_intros(2))
  qed
  moreover have "writes rd T c (([e] @ es) @ gs) U u" if "writes rd W w gs U u"
    using writes_trans [OF writes_trans [OF w1 conjunct1 [OF rm]] that] .
  moreover have "filter (\<lambda>e. ce_patch_id e \<noteq> None) es = []" using rm by (simp add: filter_empty_conv)
  ultimately show ?case
    using fs rm vn(2) i2 d(1) by (auto simp: operation_draft_def upt_conv_Cons simp del: upt_Suc)
qed

lemma advance_case_frozen [simp]: "case_frozen (advance_case c) = case_frozen c"
  by (simp add: advance_case_def case_frozen_def)

lemma resolve_need_status:
  assumes "resolve_need_from_operation env T c op w = Inr (U, u, es)"
  shows "case_frozen u = case_frozen c"
  using assms by (auto simp: resolve_need_from_operation_def Let_def res_simps split: option.splits dest: append_event_D(2))

lemma apply_operations_status:
  "apply_operations env p reason index ops T c = Inr (U, u, fs) \<Longrightarrow> case_frozen u = case_frozen c"
proof (induction ops arbitrary: index T c fs)
  case (Cons op ops)
  from Cons.prems obtain V v e W w es rest where
    a: "append_event env T c (operation_draft p reason (cv_now env (ic_current_revision c) 0) index op) = Inr (V, v, e)"
    and r: "resolve_need_from_operation env V v op (sp_producer p) = Inr (W, w, es)"
    and o: "apply_operations env p reason (index + 1) ops W w = Inr (U, u, rest)"
    by (auto simp: res_simps)
  from Cons.IH [OF o] resolve_need_status [OF r] append_event_D(2) [OF a] show ?case by simp
qed simp

lemma validate_patch_operation_ok:
  assumes "validate_patch_identity p = Inr p'" "validate_patch kb S p = Inr ()" "op \<in> set (sp_operations p)"
  shows "operation_ok op"
    "op_resolves_need_id op = Some k \<Longrightarrow> tab_get nd_need_id k (iv_needs S) = Some n \<Longrightarrow> nd_case_id n = sp_case_id p"
proof -
  have v: "validate_patch_operation kb S (sp_case_id p) op = Inr ()"
    using assms(2,3) by (simp add: validate_patch_def fold_res_unit)
  then show "operation_ok op"
    using assms(1,3)
    by (auto simp: operation_ok_def validate_patch_identity_iff validate_operation_iff validate_patch_operation_def res_simps)
  show "op_resolves_need_id op = Some k \<Longrightarrow> tab_get nd_need_id k (iv_needs S) = Some n \<Longrightarrow> nd_case_id n = sp_case_id p"
    using v by (auto simp: validate_patch_operation_def validate_resolved_need_def res_simps)
qed

lemma finish_write_D:
  assumes "finish_write env T c es = Inr (U, r)"
  shows "\<exists>m. rebuild_current env T c True = (U, m) \<and> state_view m = Inr (wr_state r) \<and> wr_events r = es \<and> \<not> wr_replay r"
  using assms by (auto simp: finish_write_def Let_def res_simps)

lemma replayed_D:
  assumes "replayed env S i es = Inr (T, r)"
  shows "get_state env S i = Inr (T, wr_state r)" "wr_events r = es" "wr_replay r"
  using assms by (auto simp: replayed_def res_simps)

text \<open>The two ways a patch succeeds.\<close>

lemma apply_patch_cases:
  assumes inv: "state_inv rd S" and v: "validate_patch_identity p = Inr p" and a: "apply_patch env kb S p reason = Inr (U, r)"
  obtains (replay) "wr_replay r" "get_state env S (sp_case_id p) = Inr (U, wr_state r)"
      "wr_events r = patch_events S (sp_case_id p) (sp_patch_id p)" "wr_events r \<noteq> []"
    | (written) c T c' m where "\<not> wr_replay r" "tab_get ic_case_id (sp_case_id p) (iv_cases S) = Some c"
      "ic_status c \<notin> {''closed'', ''cancelled''}"
      "int (ic_current_revision c) = sp_base_case_revision p" "patch_events S (sp_case_id p) (sp_patch_id p) = []"
      "validate_patch kb S p = Inr ()" "writes rd S c (wr_events r) T c'"
      "needs_moved S (sp_case_id p) T" "perceptions_moved S (sp_case_id p) T"
      "rebuild_current env T c' True = (U, m)" "state_view m = Inr (wr_state r)"
      "\<forall>e \<in> set (wr_events r). ce_patch_id e \<in> {None, Some (sp_patch_id p)}"
      "map ce_operation_index (filter (\<lambda>e. ce_patch_id e \<noteq> None) (wr_events r)) = map Some [0..<length (sp_operations p)]"
      "\<not> case_frozen c'"
proof -
  from a obtain c where c: "tab_get ic_case_id (sp_case_id p) (iv_cases S) = Some c" "ic_status c \<notin> {''closed'', ''cancelled''}"
    by (auto simp: apply_patch_def res_simps)
  note k = state_inv_case [OF inv c(1)]
  show ?thesis
  proof (cases "patch_events S (sp_case_id p) (sp_patch_id p) = []")
    case False
    with a c have "replayed env S (sp_case_id p) (patch_events S (sp_case_id p) (sp_patch_id p)) = Inr (U, r)"
      by (auto simp: apply_patch_def res_simps)
    from replayed_D [OF this] False show ?thesis by (intro that(1)) simp_all
  next
    case True
    with a c obtain T c' es where w: "int (ic_current_revision c) = sp_base_case_revision p"
        "validate_patch kb S p = Inr ()" "apply_operations env p reason 0 (sp_operations p) S c = Inr (T, c', es)"
        "finish_write env T c' es = Inr (U, r)"
      by (auto simp: apply_patch_def res_simps)
    obtain m where m: "rebuild_current env T c' True = (U, m)" "state_view m = Inr (wr_state r)" "wr_events r = es" "\<not> wr_replay r"
      using finish_write_D [OF w(4)] by blast
    have "writes rd S c es T c' \<and> needs_moved S (ic_case_id c) T \<and> iv_perceptions T = iv_perceptions S
      \<and> (\<forall>e \<in> set es. ce_patch_id e \<in> {None, Some (sp_patch_id p)})
      \<and> map ce_operation_index (filter (\<lambda>e. ce_patch_id e \<noteq> None) es) = map Some [0..<0 + length (sp_operations p)]"
      using k c(1) validate_patch_operation_ok [OF v w(2)]
      by (intro apply_operations_writes [OF w(3)]) auto
    moreover have "\<not> case_frozen c'" using apply_operations_status [OF w(3)] c(2) by (simp add: case_frozen_def)
    ultimately show ?thesis using m c w(1,2) True k perceptions_moved_cong [OF k(7)]
      by (intro that(2) [of c T c' m]) auto
  qed
qed

lemma apply_patch_inv:
  assumes "state_inv rd S" "validate_patch_identity p = Inr p" "apply_patch env kb S p reason = Inr (U, r)"
  shows "state_inv rd U" "store_grows S U"
proof -
  have "state_inv rd U \<and> store_grows S U"
    using assms
  proof (cases rule: apply_patch_cases)
    case replay
    with get_state_D [OF assms(1)] show ?thesis by blast
  next
    case (written c T c' m)
    have "ic_case_id c = sp_case_id p" using tab_get_key [OF written(2)] .
    with written commit_write [OF assms(1) _ written(7) _ _ written(10)] show ?thesis by (simp add: case_frozen_def)
  qed
  then show "state_inv rd U" "store_grows S U" by simp_all
qed

text \<open>
  A call that appends one event about no need and rebuilds, possibly after perceptions of the case were added.
\<close>

lemma append_commit_after:
  assumes inv: "state_inv rd S" and c: "tab_get ic_case_id i (iv_cases S) = Some c" "\<not> case_frozen c"
    and s: "S' = S\<lparr>iv_perceptions := ps\<rparr>" "perceptions_moved S i S'"
    and a: "append_event env S' c d = Inr (T, c', e)" "wf_event rd (event_of_draft env c d)"
      "dr_event_type d \<notin> {EVIDENCE_NEED_OPENED, EVIDENCE_NEED_RESOLVED}"
    and u: "rebuild_current env T c' True = (U, m)"
  shows "state_inv rd U" "store_grows S U" "iv_events U = iv_events S @ [e]" "tab_get sc_case_id i (iv_currents U) = Some m"
    "tab_get ic_case_id i (iv_cases U) = Some (advance_case c)"
proof -
  note k = state_inv_case [OF inv c(1)] and d = append_event_D [OF a(1)]
  have w': "writes rd S' c [e] T c'" using a d(1) by (intro writes_append) simp_all
  then have w: "writes rd S c [e] T c'" by (simp add: writes_def s(1))
  have same: "iv_needs T = iv_needs S" "iv_perceptions T = iv_perceptions S'" by (simp_all add: d(3) s(1))
  have m: "needs_moved S (ic_case_id c) T"
    using needs_moved_other [OF k(6) w k(1) same(1)] a(3) d(1) k(1) by simp
  have p: "perceptions_moved S (ic_case_id c) T" using perceptions_moved_cong [OF s(2) same(2)] k(1) by simp
  have c': "tab_get ic_case_id (ic_case_id c) (iv_cases S) = Some c" using c(1) k(1) by simp
  from commit_write [OF inv c' w m p u] c(2) k(1) d(2)
  show "state_inv rd U" "store_grows S U" "iv_events U = iv_events S @ [e]" "tab_get sc_case_id i (iv_currents U) = Some m"
    "tab_get ic_case_id i (iv_cases U) = Some (advance_case c)" by simp_all
qed

lemma append_commit:
  assumes inv: "state_inv rd S" and c: "tab_get ic_case_id i (iv_cases S) = Some c" "\<not> case_frozen c"
    and a: "append_event env S c d = Inr (T, c', e)" "wf_event rd (event_of_draft env c d)"
      "dr_event_type d \<notin> {EVIDENCE_NEED_OPENED, EVIDENCE_NEED_RESOLVED}"
    and u: "rebuild_current env T c' True = (U, m)"
  shows "state_inv rd U" "store_grows S U" "iv_events U = iv_events S @ [e]" "tab_get sc_case_id i (iv_currents U) = Some m"
    "tab_get ic_case_id i (iv_cases U) = Some (advance_case c)"
  using append_commit_after [OF inv c _ _ a u, of "iv_perceptions S"] perceptions_moved_refl [OF inv] by simp_all

lemma decision_draft_wf: "wf_event rd (event_of_draft env c (decision_draft dc now))"
  by (rule simple_draft_wf) (simp_all add: decision_draft_def)

lemma commit_decision_cases:
  assumes inv: "state_inv rd S" and a: "commit_decision env S dc = Inr (U, r)"
  obtains (replay) "wr_replay r" "get_state env S (dc_case_id dc) = Inr (U, wr_state r)"
      "patch_event S (dc_case_id dc) (dc_decision_id dc) DECISION_CHANGED = Some (wr_events r)"
    | (written) c T c' m where "\<not> wr_replay r" "tab_get ic_case_id (dc_case_id dc) (iv_cases S) = Some c"
      "ic_status c \<notin> {''closed'', ''cancelled''}" "int (ic_current_revision c) = dc_base_case_revision dc"
      "append_event env S c (decision_draft dc (cv_now env (ic_current_revision c) 0)) = Inr (T, c', wr_events r)"
      "rebuild_current env T c' True = (U, m)" "state_view m = Inr (wr_state r)"
proof (cases "patch_event S (dc_case_id dc) (dc_decision_id dc) DECISION_CHANGED")
  case (Some e)
  with a have "replayed env S (dc_case_id dc) e = Inr (U, r)" by (auto simp: commit_decision_def res_simps)
  from replayed_D [OF this] Some show ?thesis by (intro that(1)) simp_all
next
  case None
  with a obtain c T c' e where "tab_get ic_case_id (dc_case_id dc) (iv_cases S) = Some c"
      "ic_status c \<notin> {''closed'', ''cancelled''}" "int (ic_current_revision c) = dc_base_case_revision dc"
      "append_event env S c (decision_draft dc (cv_now env (ic_current_revision c) 0)) = Inr (T, c', e)"
      "finish_write env T c' e = Inr (U, r)"
    by (auto simp: commit_decision_def res_simps)
  with finish_write_D [of env T c' e U r] show ?thesis by (auto intro!: that(2))
qed

lemma commit_decision_inv:
  assumes "state_inv rd S" "commit_decision env S dc = Inr (U, r)"
  shows "state_inv rd U" "store_grows S U"
proof -
  have "state_inv rd U \<and> store_grows S U"
    using assms
  proof (cases rule: commit_decision_cases)
    case replay
    with get_state_D [OF assms(1)] show ?thesis by blast
  next
    case (written c T c' m)
    with append_commit [OF assms(1) written(2) _ written(5) decision_draft_wf _ written(6)]
    show ?thesis by (simp add: decision_draft_def case_frozen_def)
  qed
  then show "state_inv rd U" "store_grows S U" by simp_all
qed

lemma perception_draft_wf:
  assumes "iso_ok env" "cv_fromisoformat env = rd" "0 \<le> world"
  shows "wf_event rd (event_of_draft env c (perception_draft env i world t now))"
  using assms by (auto simp: wf_event_def perception_draft_def readable_perception_def iso_ok_def)

text \<open>Perceptions may have been added to the table just before, in the same transaction.\<close>

lemma mark_perception_after:
  assumes inv: "state_inv rd S" and env: "iso_ok env" "cv_fromisoformat env = rd" "0 \<le> world"
    and s: "S' = S\<lparr>iv_perceptions := ps\<rparr>" "perceptions_moved S i S'"
    and a: "mark_perception env S' i pid world t = Inr (U, st)"
  shows "state_inv rd U \<and> store_grows S U"
proof -
  from a obtain c T c' m where c: "tab_get ic_case_id i (iv_cases S') = Some c" "\<not> case_frozen c"
    and t: "(case patch_event S' i (''perception:'' @ pid) PERCEPTION_RECORDED of
          None \<Rightarrow> res_bind (append_event env S' c (perception_draft env pid world t
              (cv_now env (ic_current_revision c) 0))) (\<lambda>(T, c', _). Inr (T, c'))
        | Some existing \<Rightarrow>
            res_bind (payload_datetime env (jget (ce_payload existing) ''perceived_at'')) (\<lambda>stored.
            raise_if (jget (ce_payload existing) ''perception_event_id'' \<noteq> JStr pid
                \<or> \<not> json_is_int (jget (ce_payload existing) ''world_revision'') world
                \<or> stored \<noteq> Some (as_utc t))
              (ValueError ''perception state replay identity changed payload'') (Inr (S', c)))) = Inr (T, c')"
    and u: "rebuild_current env T c' True = (U, m)"
    by (auto simp: mark_perception_def res_simps case_frozen_def)
  have cS: "tab_get ic_case_id i (iv_cases S) = Some c" using c(1) s(1) by simp
  note k = state_inv_case [OF inv cS]
  show ?thesis
  proof (cases "patch_event S' i (''perception:'' @ pid) PERCEPTION_RECORDED")
    case None
    with t obtain e where e: "append_event env S' c (perception_draft env pid world t
        (cv_now env (ic_current_revision c) 0)) = Inr (T, c', e)"
      by (auto simp: res_simps)
    from append_commit_after [OF inv cS c(2) s e perception_draft_wf [OF env] _ u] show ?thesis
      by (simp add: perception_draft_def)
  next
    case (Some x)
    with t have "T = S'" "c' = c" by (auto simp: res_simps)
    with u have r: "rebuild_current env S' c True = (U, m)" by simp
    have c': "tab_get ic_case_id (ic_case_id c) (iv_cases S) = Some c" using cS k(1) by simp
    have "writes rd S c [] S' c" using k(8) by (rule writes_cong) (simp_all add: s(1))
    moreover have "needs_moved S (ic_case_id c) S'"
      using needs_moved_cong [OF k(6), of S'] k(1) by (simp add: s(1) open_in_history_def case_history_def)
    ultimately show ?thesis using commit_write [OF inv c' _ _ _ r] c(2) s(2) k(1) by blast
  qed
qed

lemma mark_perception_inv:
  assumes "state_inv rd S" "iso_ok env" "cv_fromisoformat env = rd" "0 \<le> world"
    "mark_perception env S i pid world t = Inr (U, st)"
  shows "state_inv rd U" "store_grows S U"
  using mark_perception_after [OF assms(1-4) _ _ assms(5), of "iv_perceptions S"] perceptions_moved_refl [OF assms(1)]
  by simp_all

lemma need_replayed_D:
  assumes "need_replayed env S n i e = Inr (T, r)"
  shows "get_state env S i = Inr (T, nr_state r)" "nr_replay r" "nr_event r = e" "need_view n = Inr (nr_need r)"
  using assms by (auto simp: need_replayed_def res_simps)

lemma need_written_D:
  assumes "need_written env T c n e = Inr (U, r)"
  shows "\<exists>m. rebuild_current env T c True = (U, m) \<and> state_view m = Inr (nr_state r)" "\<not> nr_replay r"
    "nr_event r = e" "nr_need r = n" "need_view n = Inr n"
  using assms by (auto simp: need_written_def Let_def res_simps need_view_iff split: prod.splits)

lemma new_need_simps [simp]:
  "nd_need_id (new_need q v now) = nq_need_id q" "nd_case_id (new_need q v now) = nq_case_id q"
  "nd_status (new_need q v now) = NEED_OPEN"
  by (simp_all add: new_need_def)

lemma open_evidence_need_inv:
  assumes inv: "state_inv rd S" and a: "open_evidence_need env kb S q = Inr (U, r)"
  shows "state_inv rd U" "store_grows S U"
proof -
  let ?i = "nq_case_id q"
  from a obtain c where c: "tab_get ic_case_id ?i (iv_cases S) = Some c" and fr: "\<not> case_frozen c"
    by (auto simp: open_evidence_need_def res_simps case_frozen_def)
  note k = state_inv_case [OF inv c]
  have "state_inv rd U \<and> store_grows S U"
  proof (cases "tab_get nd_need_id (nq_need_id q) (iv_needs S)")
    case (Some n)
    with a obtain e where "need_replayed env S n ?i e = Inr (U, r)"
      by (auto simp: open_evidence_need_def res_simps split: option.splits)
    from get_state_D [OF inv need_replayed_D(1) [OF this]] show ?thesis by blast
  next
    case None
    let ?now = "cv_now env (ic_current_revision c) 0"
    from a None c obtain T c' e where e: "append_event env S c (open_draft q ?now) = Inr (T, c', e)"
      and f: "nq_need_id q \<notin> nd_need_id ` set (iv_needs T)"
      and w: "need_written env (T\<lparr>iv_needs := iv_needs T @ [new_need q (ce_case_revision e) ?now]\<rparr>) c'
          (new_need q (ce_case_revision e) ?now) e = Inr (U, r)"
      by (auto simp: open_evidence_need_def Let_def res_simps)
    let ?n = "new_need q (ce_case_revision e) ?now" and ?T = "T\<lparr>iv_needs := iv_needs T @ [new_need q (ce_case_revision e) ?now]\<rparr>"
    note d = append_event_D [OF e]
    have wr: "writes rd S c [e] T c'"
      using e by (rule writes_append) (simp add: d(1) simple_draft_wf open_draft_def)
    have same: "iv_needs T = iv_needs S" "iv_perceptions ?T = iv_perceptions S" by (simp_all add: d(3))
    have "?i \<in> ic_case_id ` set (iv_cases S)" using k(1,2) by (metis image_eqI)
    then have "needs_moved S ?i (T\<lparr>iv_needs := iv_needs S @ [?n]\<rparr>)"
      using f same(1) need_written_D(5) [OF w] d(1)
      by (intro needs_moved_add [OF k(6) wr k(1) same(1)]) (auto simp: open_draft_def)
    then have m: "needs_moved S (ic_case_id c) ?T" using same(1) k(1) by simp
    have w': "writes rd S c [e] ?T c'" using wr by (rule writes_cong) simp_all
    obtain m where u: "rebuild_current env ?T c' True = (U, m)" using need_written_D(1) [OF w] by blast
    have c': "tab_get ic_case_id (ic_case_id c) (iv_cases S) = Some c" using c k(1) by simp
    have p: "perceptions_moved S (ic_case_id c) ?T" using perceptions_moved_cong [OF k(7) same(2)] k(1) by simp
    from commit_write [OF inv c' w' m p u] fr show ?thesis by simp
  qed
  then show "state_inv rd U" "store_grows S U" by simp_all
qed

lemma reopen_evidence_need_inv:
  assumes inv: "state_inv rd S" and a: "reopen_evidence_need env S need_id base key writer reason = Inr (U, r)"
  shows "state_inv rd U" "store_grows S U"
proof -
  from a obtain n c where n: "tab_get nd_need_id need_id (iv_needs S) = Some n"
    and c: "tab_get ic_case_id (nd_case_id n) (iv_cases S) = Some c" and fr: "\<not> case_frozen c"
    by (auto simp: reopen_evidence_need_def res_simps case_frozen_def)
  let ?i = "nd_case_id n" and ?now = "cv_now env (ic_current_revision c) 0"
  note k = state_inv_case [OF inv c]
  have "(\<exists>e. need_replayed env S n ?i e = Inr (U, r))
    \<or> (\<exists>T c' e. append_event env S c (reopen_draft n key writer reason ?now) = Inr (T, c', e)
        \<and> need_written env (put_need (n\<lparr>nd_status := NEED_OPEN, nd_resolution_evidence_refs := [],
            nd_updated_revision := ce_case_revision e, nd_updated_at := ?now\<rparr>) T) c'
          (n\<lparr>nd_status := NEED_OPEN, nd_resolution_evidence_refs := [],
            nd_updated_revision := ce_case_revision e, nd_updated_at := ?now\<rparr>) e = Inr (U, r))"
    using a n c by (auto simp: reopen_evidence_need_def Let_def res_simps split: option.splits if_splits)
  then have "state_inv rd U \<and> store_grows S U"
  proof (elim disjE exE conjE)
    fix e :: case_event assume "need_replayed env S n ?i e = Inr (U, r)"
    from get_state_D [OF inv need_replayed_D(1) [OF this]] show ?thesis by blast
  next
    fix T c' and e :: case_event
    let ?n = "n\<lparr>nd_status := NEED_OPEN, nd_resolution_evidence_refs := [],
        nd_updated_revision := ce_case_revision e, nd_updated_at := ?now\<rparr>"
    assume e: "append_event env S c (reopen_draft n key writer reason ?now) = Inr (T, c', e)"
      and w: "need_written env (put_need ?n T) c' ?n e = Inr (U, r)"
    note d = append_event_D [OF e]
    have wr: "writes rd S c [e] T c'"
      using e by (rule writes_append) (simp add: d(1) simple_draft_wf reopen_draft_def)
    have same: "iv_needs T = iv_needs S" "iv_perceptions (put_need ?n T) = iv_perceptions S"
      by (simp_all add: d(3) put_need_def)
    have "needs_moved S ?i (put_need ?n T)"
      using tab_get_in_set [OF n] need_written_D(5) [OF w] d(1)
      by (intro needs_moved_put [OF k(6) wr k(1) same(1)]) (auto simp: reopen_draft_def)
    then have m: "needs_moved S (ic_case_id c) (put_need ?n T)" using k(1) by simp
    obtain m where u: "rebuild_current env (put_need ?n T) c' True = (U, m)" using need_written_D(1) [OF w] by blast
    have c': "tab_get ic_case_id (ic_case_id c) (iv_cases S) = Some c" using c k(1) by simp
    have p: "perceptions_moved S (ic_case_id c) (put_need ?n T)" using perceptions_moved_cong [OF k(7) same(2)] k(1) by simp
    from commit_write [OF inv c' writes_put_need [OF wr] m p u] fr show ?thesis by simp
  qed
  then show "state_inv rd U" "store_grows S U" by simp_all
qed

section \<open>Histories read back\<close>

lemma payload_datetime_JStr [simp]:
  "payload_datetime env (JStr s) = res_bind (cv_fromisoformat env (replace_Z s)) (\<lambda>t. Inr (Some t))"
  by (simp add: payload_datetime_def)

lemma history_step_replay:
  assumes "wf_event rd e" "cv_fromisoformat env = rd" "world_ok (hs_last_world_revision h)"
  shows "\<exists>h'. history_step env e h = Inr h' \<and> hs_buckets h' = replay_event e (hs_buckets h)
    \<and> hs_decision h' = replay_decision e (hs_decision h) \<and> hs_open_need_ids h' = replay_need e (hs_open_need_ids h)
    \<and> world_ok (hs_last_world_revision h')"
  using assms
  by (auto simp: history_step_def Let_def replay_perception_def wf_event_def readable_perception_def
      json_int_def world_ok_def)

lemma history_replay:
  assumes "\<forall>e \<in> set es. wf_event rd e" "cv_fromisoformat env = rd" "world_ok (hs_last_world_revision h)"
  shows "\<exists>h'. fold_res (history_step env) es h = Inr h' \<and> hs_buckets h' = fold replay_event es (hs_buckets h)
    \<and> hs_decision h' = fold replay_decision es (hs_decision h)
    \<and> hs_open_need_ids h' = fold replay_need es (hs_open_need_ids h) \<and> world_ok (hs_last_world_revision h')"
  using assms
proof (induction es arbitrary: h)
  case (Cons e es)
  then obtain h' where h': "history_step env e h = Inr h'" "hs_buckets h' = replay_event e (hs_buckets h)"
    "hs_decision h' = replay_decision e (hs_decision h)" "hs_open_need_ids h' = replay_need e (hs_open_need_ids h)"
    "world_ok (hs_last_world_revision h')"
    using history_step_replay [of rd e env h] by auto
  then show ?case using Cons.IH [of h'] Cons.prems by auto
qed simp

lemma case_history_wf: "state_inv rd S \<Longrightarrow> e \<in> set (case_history S i) \<Longrightarrow> wf_event rd e"
  by (auto simp: case_history_def state_inv_def tables_ok_def)

lemma case_history_revisions:
  assumes "state_inv rd S" "tab_get ic_case_id i (iv_cases S) = Some c"
  shows "map ce_case_revision (case_history S i) = [1..<Suc (ic_current_revision c)]"
  using state_inv_case(1,3) [OF assms] by (simp add: case_ok_def del: upt_Suc)

text \<open>The events up to a revision are the first ones.\<close>

lemma case_history_take:
  assumes "state_inv rd S" "tab_get ic_case_id i (iv_cases S) = Some c" "v \<le> ic_current_revision c"
  shows "filter (\<lambda>e. ce_case_revision e \<le> v) (case_events S i) = take v (case_history S i)"
    "length (take v (case_history S i)) = v" "0 < v \<Longrightarrow> ce_case_revision (last (take v (case_history S i))) = v"
proof -
  let ?h = "case_history S i"
  note r = case_history_revisions [OF assms(1,2)]
  have len: "length ?h = ic_current_revision c" using arg_cong [OF r, of length] by simp
  have nth: "ce_case_revision (?h ! k) = Suc k" if "k < length ?h" for k
    using arg_cong [OF r, of "\<lambda>xs. xs ! k"] that len by (simp del: upt_Suc add: nth_upt)
  have "filter (\<lambda>e. ce_case_revision e \<le> v) (take v ?h) = take v ?h"
    by (rule filter_True) (use nth len assms(3) in \<open>auto simp: in_set_conv_nth\<close>)
  moreover have "filter (\<lambda>e. ce_case_revision e \<le> v) (drop v ?h) = []"
    by (rule filter_False) (use nth len in \<open>auto simp: in_set_conv_nth\<close>)
  ultimately show "filter (\<lambda>e. ce_case_revision e \<le> v) (case_events S i) = take v ?h"
    unfolding state_inv_case(5) [OF assms(1,2)]
    by (metis append.right_neutral append_take_drop_id filter_append)
  show l: "length (take v ?h) = v" using len assms(3) by simp
  show "ce_case_revision (last (take v ?h)) = v" if "0 < v"
  proof -
    from that l have "take v ?h \<noteq> []" by auto
    then have "last (take v ?h) = ?h ! (v - 1)" using that l by (simp add: last_conv_nth)
    with that nth [of "v - 1"] len assms(3) show ?thesis by simp
  qed
qed

text \<open>What \<open>get_state_at_revision\<close> returns, over the history of the case.\<close>

lemma state_at_revision:
  assumes "state_inv rd S" "tab_get ic_case_id i (iv_cases S) = Some c" "v \<le> ic_current_revision c"
  shows "get_state_at_revision env S i (int v) =
    res_bind (fold_res (history_step env) (take v (case_history S i)) (empty_history c)) (\<lambda>h.
      history_view c v (if v = 0 then ic_created_at c else ce_created_at (last (take v (case_history S i)))) h)"
proof -
  note t = case_history_take [OF assms]
  have e: "take v (case_history S i) = [] \<longleftrightarrow> v = 0" using t(2) by (metis length_0_conv)
  have "\<not> (0 < int v \<and> (take v (case_history S i) = [] \<or> int (ce_case_revision (last (take v (case_history S i)))) \<noteq> int v))"
    using t(3) e by (cases "v = 0") auto
  then show ?thesis
    unfolding get_state_at_revision_def using assms(2,3) t(1) e by (cases "v = 0") (auto simp: Let_def)
qed

lemma state_at_revision_total:
  assumes "state_inv rd S" "tab_get ic_case_id i (iv_cases S) = Some c" "v \<le> ic_current_revision c"
    "cv_fromisoformat env = rd"
  shows "\<exists>h st. fold_res (history_step env) (take v (case_history S i)) (empty_history c) = Inr h
    \<and> hs_buckets h = fold replay_event (take v (case_history S i)) empty_buckets
    \<and> hs_decision h = fold replay_decision (take v (case_history S i)) None
    \<and> hs_open_need_ids h = fold replay_need (take v (case_history S i)) []
    \<and> history_view c v (if v = 0 then ic_created_at c else ce_created_at (last (take v (case_history S i)))) h = Inr st
    \<and> get_state_at_revision env S i (int v) = Inr st"
proof -
  let ?es = "take v (case_history S i)"
  have wf: "\<forall>e \<in> set ?es. wf_event rd e" using case_history_wf [OF assms(1)] by (meson in_set_takeD)
  have "world_ok (hs_last_world_revision (empty_history c))"
    using state_inv_case(3) [OF assms(1,2)] by (simp add: empty_history_def case_ok_def)
  from history_replay [OF wf assms(4) this] obtain h where h:
    "fold_res (history_step env) ?es (empty_history c) = Inr h" "hs_buckets h = fold replay_event ?es empty_buckets"
    "hs_decision h = fold replay_decision ?es None" "hs_open_need_ids h = fold replay_need ?es []"
    "world_ok (hs_last_world_revision h)"
    by (auto simp: empty_history_def)
  have "\<exists>st. history_view c v t h = Inr st" for t
    unfolding history_view_def using wf h(2,5) by (intro state_view_total [where es = ?es]) simp_all
  with h state_at_revision [OF assms(1-3)] show ?thesis by (metis res_bind_Inr)
qed

end
