(* ===== verification/Case_Runtime.thy ===== *)
theory Case_Runtime
  imports Investigation_State
begin

text \<open>
  What surrounds the state of a case: its lifecycle (\<^verbatim>\<open>investigation/cases/service.py\<close>), the trajectories of
  the agents that work on it (\<^verbatim>\<open>investigation/trajectory/service.py\<close>), the routing of knowledge changes into cases
  (\<^verbatim>\<open>investigation/state/world_change.py\<close>), the gate for continuation requests (\<^verbatim>\<open>continuation.py\<close>) and the
  snapshots (\<^verbatim>\<open>snapshot.py\<close>). All of it writes the tables of \<open>case_store\<close>; \<open>case_step\<close> collects the operations, and
  the properties of the state are proved over its runs.
\<close>

section \<open>Lifecycle of a case\<close>

definition parse_lifecycle :: "string \<Rightarrow> case_lifecycle res" where
  "parse_lifecycle v = res_of_option (ValueError (v @ '' is not a valid CaseLifecycle''))
     (find (\<lambda>l. lifecycle_value l = v) [CASE_CREATED, CASE_ACTIVE, CASE_WAITING, CASE_RESOLVED, CASE_CLOSED, CASE_CANCELLED])"

definition normalized_lifecycle :: "string \<Rightarrow> case_lifecycle res" where
  "normalized_lifecycle v = (if v \<in> {''open'', ''running''} then Inr CASE_ACTIVE else parse_lifecycle v)"

definition case_view :: "investigation_case \<Rightarrow> investigation_case res" where
  "case_view c = res_bind (normalized_lifecycle (ic_status c)) (\<lambda>l. Inr (c\<lparr>ic_status := lifecycle_value l\<rparr>))"

definition put_case :: "investigation_case \<Rightarrow> case_store \<Rightarrow> case_store" where
  "put_case c S = S\<lparr>iv_cases := tab_put ic_case_id c (iv_cases S)\<rparr>"

record case_request =
  cq_task_signature :: string
  cq_target_object_ids :: "string list"
  cq_goal :: string
  cq_initial_knowledge_revision :: "int option"
  cq_constraints :: jdict
  cq_rubric :: jdict

definition create_case :: "case_store \<Rightarrow> string \<Rightarrow> int \<Rightarrow> case_request \<Rightarrow> (case_store \<times> investigation_case) res" where
  "create_case S case_id now q =
     (let c = \<lparr>ic_case_id = case_id, ic_task_signature = cq_task_signature q,
                ic_target_object_ids = cq_target_object_ids q, ic_goal = cq_goal q,
                ic_initial_knowledge_revision = cq_initial_knowledge_revision q, ic_constraints = cq_constraints q,
                ic_rubric = cq_rubric q, ic_status = ''created'', ic_current_revision = 0, ic_created_at = now,
                ic_closed_at = None\<rparr>
      in res_bind (tab_add ic_case_id c (iv_cases S)) (\<lambda>cases.
         res_bind (case_view c) (\<lambda>view. Inr (S\<lparr>iv_cases := cases\<rparr>, view))))"

definition transition_case ::
  "case_store \<Rightarrow> string \<Rightarrow> case_lifecycle list \<Rightarrow> case_lifecycle \<Rightarrow> (case_store \<times> investigation_case) res" where
  "transition_case S case_id allowed target =
     res_bind (res_of_option (case_not_found case_id) (tab_get ic_case_id case_id (iv_cases S))) (\<lambda>c.
     res_bind (normalized_lifecycle (ic_status c)) (\<lambda>current.
     if current = target then res_bind (case_view c) (\<lambda>view. Inr (S, view))
     else
       raise_if (current \<notin> set allowed)
         (ValueError (''invalid investigation case transition: '' @ lifecycle_value current @ ''->'' @ lifecycle_value target))
       (let c' = c\<lparr>ic_status := lifecycle_value target\<rparr> in
        res_bind (case_view c') (\<lambda>view. Inr (put_case c' S, view)))))"

definition activate_case :: "case_store \<Rightarrow> string \<Rightarrow> (case_store \<times> investigation_case) res" where
  "activate_case S case_id = transition_case S case_id [CASE_CREATED, CASE_WAITING] CASE_ACTIVE"

definition wait_case :: "case_store \<Rightarrow> string \<Rightarrow> (case_store \<times> investigation_case) res" where
  "wait_case S case_id = transition_case S case_id [CASE_ACTIVE] CASE_WAITING"

definition resolve_case :: "case_store \<Rightarrow> string \<Rightarrow> (case_store \<times> investigation_case) res" where
  "resolve_case S case_id = transition_case S case_id [CASE_ACTIVE, CASE_WAITING] CASE_RESOLVED"

definition cancel_case :: "case_store \<Rightarrow> string \<Rightarrow> (case_store \<times> investigation_case) res" where
  "cancel_case S case_id = transition_case S case_id [CASE_CREATED, CASE_ACTIVE, CASE_WAITING] CASE_CANCELLED"

definition running_trajectory :: "case_store \<Rightarrow> string \<Rightarrow> bool" where
  "running_trajectory S case_id \<longleftrightarrow> (\<exists>t \<in> set (iv_trajectories S). tj_case_id t = case_id \<and> tj_status t = ''running'')"

definition close_case :: "case_store \<Rightarrow> string \<Rightarrow> int \<Rightarrow> (case_store \<times> investigation_case) res" where
  "close_case S case_id now =
     res_bind (res_of_option (case_not_found case_id) (tab_get ic_case_id case_id (iv_cases S))) (\<lambda>c.
     if ic_status c = ''closed'' then res_bind (case_view c) (\<lambda>view. Inr (S, view))
     else
       raise_if (ic_status c = ''cancelled'') (ValueError ''cannot close a cancelled investigation case'')
       (raise_if (running_trajectory S case_id)
         (ValueError ''cannot close an investigation case with a running trajectory'')
       (let c' = c\<lparr>ic_status := ''closed'', ic_closed_at := Some now\<rparr> in
        res_bind (case_view c') (\<lambda>view. Inr (put_case c' S, view)))))"

section \<open>Trajectories\<close>

definition terminal_outcomes :: "string list" where
  "terminal_outcomes = [''success'', ''failure'', ''partial'']"

definition start_trajectory ::
  "case_store \<Rightarrow> string \<Rightarrow> string \<Rightarrow> int \<Rightarrow> string list \<Rightarrow> (case_store \<times> trajectory) res" where
  "start_trajectory S trajectory_id case_id now retrieved =
     res_bind (res_of_option (case_not_found case_id) (tab_get ic_case_id case_id (iv_cases S))) (\<lambda>c.
     raise_if (ic_status c \<in> {''closed'', ''cancelled''})
       (ValueError (''cannot start a trajectory for a '' @ ic_status c @ '' case''))
     (raise_if (running_trajectory S case_id) (ValueError ''investigation case already has a running trajectory'')
     (let c' = c\<lparr>ic_status := (if ic_status c \<in> {''open'', ''running'', ''created'', ''waiting''} then ''active''
                             else ic_status c)\<rparr>;
          t = \<lparr>tj_trajectory_id = trajectory_id, tj_case_id = case_id, tj_status = ''running'', tj_outcome = None,
               tj_retrieved_experience_versions = retrieved, tj_used_experience_versions = [], tj_started_at = now,
               tj_finished_at = None, tj_latency_ms = None, tj_tool_calls = 0, tj_cost = None, tj_outcome_summary = []\<rparr>
      in res_bind (tab_add tj_trajectory_id t (iv_trajectories S)) (\<lambda>ts.
         Inr ((put_case c' S)\<lparr>iv_trajectories := ts\<rparr>, t)))))"

record trajectory_entry =
  te_event_type :: string
  te_payload :: jdict
  te_evidence_refs :: "string list"
  te_experience_version_refs :: "string list"
  te_artifact_uri :: "string option"
  te_occurred_at :: "int option"

definition last_ordinal :: "case_store \<Rightarrow> string \<Rightarrow> nat" where
  "last_ordinal S trajectory_id =
     fold max (map tx_ordinal (filter (\<lambda>e. tx_trajectory_id e = trajectory_id) (iv_trajectory_events S))) 0"

definition counted_trajectory :: "trajectory \<Rightarrow> trajectory_entry \<Rightarrow> trajectory" where
  "counted_trajectory t x = t\<lparr>
     tj_tool_calls := (if te_event_type x \<in> {''tool_call'', ''provider_query''} then tj_tool_calls t + 1 else tj_tool_calls t),
     tj_used_experience_versions := (if te_experience_version_refs x \<noteq> []
        then sorted_set (tj_used_experience_versions t @ te_experience_version_refs x)
        else tj_used_experience_versions t)\<rparr>"

definition append_trajectory_event ::
  "case_store \<Rightarrow> string \<Rightarrow> string \<Rightarrow> int \<Rightarrow> trajectory_entry \<Rightarrow> (case_store \<times> trajectory_event) res" where
  "append_trajectory_event S event_id trajectory_id now x =
     res_bind (res_of_option (LookupError (''trajectory not found: '' @ trajectory_id))
       (tab_get tj_trajectory_id trajectory_id (iv_trajectories S))) (\<lambda>t.
     raise_if (tj_status t \<noteq> ''running'') (ValueError ''trajectory events are appendable only while running'')
     (let e = \<lparr>tx_event_id = event_id, tx_trajectory_id = trajectory_id,
               tx_ordinal = last_ordinal S trajectory_id + 1, tx_event_type = te_event_type x,
               tx_payload = te_payload x, tx_evidence_refs = te_evidence_refs x,
               tx_experience_version_refs = te_experience_version_refs x, tx_artifact_uri = te_artifact_uri x,
               tx_occurred_at = (case te_occurred_at x of None \<Rightarrow> now | Some i \<Rightarrow> i)\<rparr>
      in res_bind (tab_add tx_event_id e (iv_trajectory_events S)) (\<lambda>es.
         Inr (S\<lparr>iv_trajectory_events := es,
                iv_trajectories := tab_put tj_trajectory_id (counted_trajectory t x) (iv_trajectories S)\<rparr>, e))))"

text \<open>
  The latency is \<^verbatim>\<open>int(seconds * 1000)\<close> over a float; the model takes the exact quotient of the microseconds.
\<close>

definition finish_trajectory ::
  "case_store \<Rightarrow> string \<Rightarrow> string \<Rightarrow> int \<Rightarrow> jdict \<Rightarrow> string option \<Rightarrow> (case_store \<times> trajectory) res" where
  "finish_trajectory S trajectory_id outcome now summary cost =
     raise_if (outcome \<notin> set terminal_outcomes) (ValueError (''unsupported trajectory outcome: '' @ outcome))
     (res_bind (res_of_option (LookupError (''trajectory not found: '' @ trajectory_id))
       (tab_get tj_trajectory_id trajectory_id (iv_trajectories S))) (\<lambda>t.
      if tj_status t = ''completed'' then
        raise_if (tj_outcome t \<noteq> Some outcome) (ValueError ''completed trajectory outcome is immutable'') (Inr (S, t))
      else
        raise_if (tj_status t \<noteq> ''running'')
          (ValueError (''trajectory cannot finish from status='' @ tj_status t))
        (let t' = t\<lparr>tj_status := ''completed'', tj_outcome := Some outcome, tj_finished_at := Some now,
                    tj_latency_ms := Some (max 0 ((now - tj_started_at t) div 1000)),
                    tj_outcome_summary := summary, tj_cost := cost\<rparr>
         in Inr (S\<lparr>iv_trajectories := tab_put tj_trajectory_id t' (iv_trajectories S)\<rparr>, t'))))"

definition list_trajectory_events :: "case_store \<Rightarrow> string \<Rightarrow> trajectory_event list" where
  "list_trajectory_events S trajectory_id =
     sort_key tx_ordinal (filter (\<lambda>e. tx_trajectory_id e = trajectory_id) (iv_trajectory_events S))"

section \<open>Knowledge changes\<close>

record knowledge_change =
  kc_revision :: nat
  kc_object_ids :: "string list"
  kc_claim_ids :: "string list"
  kc_relation_ids :: "string list"
  kc_cause_observation_id :: "string option"

record world_change_impact =
  wi_case_id :: string
  wi_world_revision :: nat
  wi_case_activated :: bool
  wi_affected_propositions :: "string list"
  wi_opened_or_reopened_need_ids :: "string list"

definition target_ref_object_id :: "string option \<Rightarrow> string option" where
  "target_ref_object_id target_ref = (case target_ref of
      None \<Rightarrow> None
    | Some t \<Rightarrow>
        (let (kind, separator, identity) = str_partition (CHR '':'') t in
         if separator \<noteq> [] \<and> kind = ''object'' \<and> identity \<noteq> [] then Some identity else None))"

definition touched_by :: "knowledge_change \<Rightarrow> evidence_dependency \<Rightarrow> bool" where
  "touched_by change d \<longleftrightarrow>
     (ed_target_kind d = ''claim'' \<and> ed_target_id d \<in> set (kc_claim_ids change))
     \<or> (ed_target_kind d = ''relation'' \<and> ed_target_id d \<in> set (kc_relation_ids change))
     \<or> (ed_target_kind d = ''object'' \<and> ed_target_id d \<in> set (kc_object_ids change))"

definition evidence_refs_touch_change :: "knowledge \<Rightarrow> string list \<Rightarrow> knowledge_change \<Rightarrow> bool" where
  "evidence_refs_touch_change kb evidence_refs change =
     (let refs = sorted_set evidence_refs in
      refs \<noteq> [] \<and> list_ex (touched_by change) (evidence_dependencies kb refs))"

definition state_evidence_refs :: "state_item list \<Rightarrow> string list" where
  "state_evidence_refs items = sorted_set (concat (map si_evidence_refs items))"

definition stale_item :: "knowledge \<Rightarrow> knowledge_change \<Rightarrow> state_item \<Rightarrow> bool" where
  "stale_item kb change x \<longleftrightarrow>
     (case target_ref_object_id (si_target_ref x) of None \<Rightarrow> False | Some i \<Rightarrow> i \<in> set (kc_object_ids change))
     \<or> evidence_refs_touch_change kb (si_evidence_refs x) change"

definition stale_confirmed_items :: "knowledge \<Rightarrow> state_item list \<Rightarrow> knowledge_change \<Rightarrow> state_item list" where
  "stale_confirmed_items kb items change = filter (stale_item kb change) items"

definition stale_need :: "knowledge \<Rightarrow> knowledge_change \<Rightarrow> evidence_need \<Rightarrow> bool" where
  "stale_need kb change n \<longleftrightarrow> set (kc_object_ids change) \<inter> set (nd_target_objects n) \<noteq> {}
     \<or> evidence_refs_touch_change kb (nd_resolution_evidence_refs n) change"

definition case_relevant :: "knowledge \<Rightarrow> knowledge_change \<Rightarrow> case_store \<Rightarrow> investigation_case \<Rightarrow> investigation_state \<Rightarrow> bool" where
  "case_relevant kb change S c st \<longleftrightarrow>
     (let needs = filter (\<lambda>n. nd_case_id n = ic_case_id c) (iv_needs S) in
      evidence_refs_touch_change kb (state_evidence_refs (is_confirmed st)) change
      \<or> list_ex (\<lambda>n. set (kc_object_ids change) \<inter> set (nd_target_objects n) \<noteq> {}) needs
      \<or> evidence_refs_touch_change kb (concat (map nd_resolution_evidence_refs needs)) change)"

text \<open>
  The loop of \<^verbatim>\<open>relevant_case_ids\<close> over the cases read at its start. Reading a state may store its projection. Each
  case has its environment, since identifiers and clock readings are indexed by revision.
\<close>

fun relevant_loop ::
  "(string \<Rightarrow> call_env) \<Rightarrow> knowledge \<Rightarrow> knowledge_change \<Rightarrow> investigation_case list \<Rightarrow> case_store
     \<Rightarrow> (case_store \<times> string list) res" where
  "relevant_loop envs kb change [] S = Inr (S, [])"
| "relevant_loop envs kb change (c # cs) S =
     (if ic_status c \<in> {''closed'', ''cancelled''} then relevant_loop envs kb change cs S
      else if set (kc_object_ids change) \<inter> set (ic_target_object_ids c) \<noteq> {} then
        res_bind (relevant_loop envs kb change cs S) (\<lambda>(T, ids). Inr (T, ic_case_id c # ids))
      else
        res_bind (get_state (envs (ic_case_id c)) S (ic_case_id c)) (\<lambda>(T, st).
        res_bind (relevant_loop envs kb change cs T) (\<lambda>(U, ids).
        Inr (U, if case_relevant kb change T c st then ic_case_id c # ids else ids))))"

definition relevant_case_ids ::
  "(string \<Rightarrow> call_env) \<Rightarrow> knowledge \<Rightarrow> case_store \<Rightarrow> knowledge_change \<Rightarrow> (case_store \<times> string list) res" where
  "relevant_case_ids envs kb S change =
     res_bind (relevant_loop envs kb change (iv_cases S) S) (\<lambda>(T, ids). Inr (T, sorted_set ids))"

definition retraction_draft :: "knowledge_change \<Rightarrow> int \<Rightarrow> state_item \<Rightarrow> event_draft" where
  "retraction_draft change now x =
     \<lparr>dr_event_type = FACT_RETRACTED, dr_proposition = Some (si_proposition x), dr_target_ref = si_target_ref x,
      dr_evidence_refs = si_evidence_refs x, dr_writer = ''world-change-runtime'', dr_reason_code = ''world_change_stale'',
      dr_payload = [(''world_revision'', JInt (int (kc_revision change))),
        (''cause_observation_id'', j_opt_str (kc_cause_observation_id change)), (''stale_support'', JBool True)],
      dr_created_at = now, dr_patch_id = None, dr_operation_index = None\<rparr>"

definition unknown_draft :: "knowledge_change \<Rightarrow> int \<Rightarrow> state_item \<Rightarrow> event_draft" where
  "unknown_draft change now x =
     \<lparr>dr_event_type = UNKNOWN_OPENED, dr_proposition = Some (si_proposition x), dr_target_ref = si_target_ref x,
      dr_evidence_refs = [], dr_writer = ''world-change-runtime'', dr_reason_code = ''world_change_stale'',
      dr_payload = [(''world_revision'', JInt (int (kc_revision change))),
        (''cause_observation_id'', j_opt_str (kc_cause_observation_id change)), (''revalidate_required'', JBool True)],
      dr_created_at = now, dr_patch_id = None, dr_operation_index = None\<rparr>"

fun invalidate_items ::
  "call_env \<Rightarrow> knowledge_change \<Rightarrow> int \<Rightarrow> state_item list \<Rightarrow> case_store \<Rightarrow> investigation_case
     \<Rightarrow> (case_store \<times> investigation_case) res" where
  "invalidate_items env change now [] S c = Inr (S, c)"
| "invalidate_items env change now (x # xs) S c =
     res_bind (append_event env S c (retraction_draft change now x)) (\<lambda>(T, c', _).
     res_bind (append_event env T c' (unknown_draft change now x)) (\<lambda>(U, c'', _).
     invalidate_items env change now xs U c''))"

definition need_target_ref :: "evidence_need \<Rightarrow> string option" where
  "need_target_ref n = (case nd_target_objects n of [o'] \<Rightarrow> Some (''object:'' @ o') | _ \<Rightarrow> None)"

definition world_reopen_draft :: "knowledge_change \<Rightarrow> int \<Rightarrow> evidence_need \<Rightarrow> event_draft" where
  "world_reopen_draft change now n =
     \<lparr>dr_event_type = EVIDENCE_NEED_OPENED, dr_proposition = Some (nd_proposition_or_question n),
      dr_target_ref = need_target_ref n, dr_evidence_refs = [], dr_writer = ''world-change-runtime'',
      dr_reason_code = ''world_change_reopen'',
      dr_payload = [(''need_id'', JStr (nd_need_id n)), (''reopened'', JBool True),
        (''world_revision'', JInt (int (kc_revision change))),
        (''cause_observation_id'', j_opt_str (kc_cause_observation_id change))],
      dr_created_at = now, dr_patch_id = None, dr_operation_index = None\<rparr>"

definition reopened_row :: "int \<Rightarrow> nat \<Rightarrow> evidence_need \<Rightarrow> evidence_need" where
  "reopened_row now v n = n\<lparr>nd_status := NEED_OPEN, nd_resolution_evidence_refs := [], nd_updated_at := now,
     nd_updated_revision := v\<rparr>"

text \<open>The rows are those read before the loop; each need is put once.\<close>

fun reopen_needs ::
  "call_env \<Rightarrow> knowledge_change \<Rightarrow> int \<Rightarrow> evidence_need list \<Rightarrow> case_store \<Rightarrow> investigation_case
     \<Rightarrow> (case_store \<times> investigation_case) res" where
  "reopen_needs env change now [] S c = Inr (S, c)"
| "reopen_needs env change now (n # ns) S c =
     res_bind (append_event env S c (world_reopen_draft change now n)) (\<lambda>(T, c', e).
     reopen_needs env change now ns
       (put_need (reopened_row now (ce_case_revision e) n) T) c')"

text \<open>The end of \<^verbatim>\<open>_apply_case\<close>: a waiting case that no event moved is activated by the case service.\<close>

definition wake_case :: "string \<Rightarrow> case_store \<Rightarrow> investigation_case \<Rightarrow> (case_store \<times> bool) res" where
  "wake_case prior_status S c =
     (if prior_status = ''waiting'' \<and> ic_status c \<noteq> ''active'' then
        res_bind (activate_case S (ic_case_id c)) (\<lambda>(T, _). Inr (T, True))
      else Inr (S, prior_status = ''waiting'' \<and> ic_status c = ''active''))"

definition apply_case ::
  "call_env \<Rightarrow> knowledge \<Rightarrow> case_store \<Rightarrow> string \<Rightarrow> knowledge_change \<Rightarrow> (case_store \<times> world_change_impact) res" where
  "apply_case env kb S case_id change =
     res_bind (lock_case S case_id) (\<lambda>c.
     res_bind (get_state env S case_id) (\<lambda>(T, st).
     let stale_items = stale_confirmed_items kb (is_confirmed st) change;
         stale_needs = filter (\<lambda>n. nd_case_id n = case_id \<and> nd_status n = NEED_RESOLVED \<and> stale_need kb change n) (iv_needs T);
         now = cv_now env (ic_current_revision c) 1
     in
     res_bind (invalidate_items env change now stale_items T c) (\<lambda>(U, c1).
     res_bind (reopen_needs env change now stale_needs U c1) (\<lambda>(V, c2).
     res_bind (if stale_items \<noteq> [] \<or> stale_needs \<noteq> []
               then res_bind (rebuild_state env V case_id) (\<lambda>(W, _). Inr W) else Inr V) (\<lambda>W.
     res_bind (wake_case (ic_status c) W c2) (\<lambda>(X, activated).
     Inr (X, \<lparr>wi_case_id = case_id, wi_world_revision = kc_revision change, wi_case_activated = activated,
       wi_affected_propositions = sort (map si_proposition stale_items),
       wi_opened_or_reopened_need_ids = sort (map nd_need_id stale_needs)\<rparr>)))))))"

fun process_cases ::
  "(string \<Rightarrow> call_env) \<Rightarrow> knowledge \<Rightarrow> knowledge_change \<Rightarrow> string list \<Rightarrow> case_store
     \<Rightarrow> (case_store \<times> world_change_impact list) res" where
  "process_cases envs kb change [] S = Inr (S, [])"
| "process_cases envs kb change (i # is) S =
     (case tab_get ic_case_id i (iv_cases S) of
        None \<Rightarrow> process_cases envs kb change is S
      | Some c \<Rightarrow>
          if ic_status c \<in> {''closed'', ''cancelled''} then process_cases envs kb change is S
          else
            res_bind (apply_case (envs i) kb S i change) (\<lambda>(T, impact).
            res_bind (process_cases envs kb change is T) (\<lambda>(U, impacts). Inr (U, impact # impacts))))"

definition process_change ::
  "(string \<Rightarrow> call_env) \<Rightarrow> knowledge \<Rightarrow> case_store \<Rightarrow> knowledge_change
     \<Rightarrow> (case_store \<times> world_change_impact list) res" where
  "process_change envs kb S change =
     res_bind (relevant_case_ids envs kb S change) (\<lambda>(T, ids). process_cases envs kb change ids T)"

section \<open>Continuation requests\<close>

record continuation_request =
  cn_request_id :: string
  cn_case_id :: string
  cn_base_case_revision :: int
  cn_proposition_or_question :: string
  cn_purpose :: string
  cn_target_objects :: "string list"
  cn_evidence_contract :: evidence_need_contract
  cn_preferred_source_roles :: "string list"
  cn_freshness_requirement :: jdict
  cn_priority :: int
  cn_reason :: string

definition validate_request :: "continuation_request \<Rightarrow> continuation_request res" where
  "validate_request q =
     raise_if (cn_base_case_revision q < 0) (ValueError ''base_case_revision should be greater than or equal to 0'')
     (raise_if (cn_purpose q = [] \<or> 128 < length (cn_purpose q)) (ValueError ''purpose should have 1 to 128 characters'')
     (raise_if (cn_priority q < 0 \<or> 100 < cn_priority q) (ValueError ''priority should be between 0 and 100'')
     (raise_if (cn_reason q = []) (ValueError ''reason should have at least 1 character'')
     (raise_if (blank (cn_request_id q)) (ValueError ''ContinuationRequest request_id cannot be empty'')
     (raise_if (blank (cn_case_id q)) (ValueError ''ContinuationRequest case_id cannot be empty'')
     (raise_if (blank (cn_proposition_or_question q)) (ValueError ''ContinuationRequest proposition_or_question cannot be empty'')
     (raise_if (blank (cn_purpose q)) (ValueError ''ContinuationRequest purpose cannot be empty'')
     (raise_if (blank (cn_reason q)) (ValueError ''ContinuationRequest reason cannot be empty'')
     (raise_if (\<not> distinct (cn_target_objects q)) (ValueError ''ContinuationRequest target_objects must be unique'')
     (Inr q))))))))))"

text \<open>\<^verbatim>\<open>s.split()\<close>: the maximal runs of characters that are not white space.\<close>

function py_split :: "string \<Rightarrow> string list" where
  "py_split s = (let t = dropWhile is_space s in
     if t = [] then [] else takeWhile (\<lambda>c. \<not> is_space c) t # py_split (dropWhile (\<lambda>c. \<not> is_space c) t))"
  by pat_completeness auto
termination
proof (relation "measure length")
  fix s t :: string
  assume a: "t = dropWhile is_space s" "t \<noteq> []"
  obtain c u where t: "t = c # u" using a(2) by (cases t) auto
  have "\<not> is_space (hd t)" using a hd_dropWhile [of is_space s] by simp
  then have "dropWhile (\<lambda>c. \<not> is_space c) t = dropWhile (\<lambda>c. \<not> is_space c) u" using t by simp
  then have "length (dropWhile (\<lambda>c. \<not> is_space c) t) < length t" using t by (simp add: length_dropWhile_le le_imp_less_Suc)
  moreover have "length t \<le> length s" using a(1) by (simp add: length_dropWhile_le)
  ultimately show "(dropWhile (\<lambda>c. \<not> is_space c) t, s) \<in> measure length" by simp
qed simp

declare py_split.simps [simp del]

definition dump_need_contract :: "evidence_need_contract \<Rightarrow> json" where
  "dump_need_contract k = JObj [(''require_evidence'', JBool (ec_require_evidence k)),
     (''required_source_roles'', j_strs (ec_required_source_roles k)),
     (''min_independent_sources'', JInt (int (ec_min_independent_sources k))),
     (''accepted_states'', j_strs (map proposed_state_value (ec_accepted_states k)))]"

definition continuation_need_id :: "hash_env \<Rightarrow> continuation_request \<Rightarrow> string" where
  "continuation_need_id H q = uuid5_url H (''secfusion:continuation-need:'' @ sha256_hex H (json_dumps (JObj
     [(''case_id'', JStr (cn_case_id q)),
      (''proposition_or_question'', JStr (join '' '' (py_split (cn_proposition_or_question q)))),
      (''purpose'', JStr (strip (cn_purpose q))), (''target_objects'', j_strs (sort (cn_target_objects q))),
      (''evidence_contract'', dump_need_contract (cn_evidence_contract q)),
      (''preferred_source_roles'', j_strs (sorted_set (cn_preferred_source_roles q))),
      (''freshness_requirement'', JObj (cn_freshness_requirement q))])))"

definition need_request_of :: "hash_env \<Rightarrow> continuation_request \<Rightarrow> need_request" where
  "need_request_of H q = \<lparr>nq_case_id = cn_case_id q, nq_base_case_revision = cn_base_case_revision q,
     nq_need_id = continuation_need_id H q, nq_proposition_or_question = cn_proposition_or_question q,
     nq_purpose = cn_purpose q, nq_target_objects = cn_target_objects q,
     nq_evidence_contract = Some (cn_evidence_contract q), nq_derived_from_enrichment_requirement = None,
     nq_preferred_source_roles = cn_preferred_source_roles q, nq_rejected_evidence_patterns = [],
     nq_freshness_requirement = cn_freshness_requirement q, nq_completion_predicate = [],
     nq_priority = cn_priority q, nq_writer = ''M4ContinuationGate'', nq_reason_code = ''m6_continuation''\<rparr>"

definition accept_continuation ::
  "hash_env \<Rightarrow> call_env \<Rightarrow> knowledge \<Rightarrow> case_store \<Rightarrow> continuation_request \<Rightarrow> (case_store \<times> need_result) res" where
  "accept_continuation H env kb S q =
     res_bind (get_state env S (cn_case_id q)) (\<lambda>(T, st).
     raise_if (\<not> set (cn_target_objects q) \<subseteq> set (is_targets st))
       (ValueError ''ContinuationRequest target_objects escape Investigation Case'')
     (open_evidence_need env kb T (need_request_of H q)))"

section \<open>Snapshots\<close>

record snapshot_request =
  sq_policy_revision :: string
  sq_knowledge_revision :: "int option"
  sq_incident_revision :: "string option"
  sq_document_index_revision :: "string option"
  sq_experience_revision :: "string option"
  sq_capability_registry_revision :: "string option"
  sq_routing_query_planner_revision :: "string option"
  sq_model_revision :: "string option"
  sq_prompt_assembly_revision :: "string option"
  sq_source_availability_snapshot :: jdict
  sq_created_at :: "int option"

definition create_snapshot ::
  "call_env \<Rightarrow> knowledge \<Rightarrow> case_store \<Rightarrow> string \<Rightarrow> string \<Rightarrow> int \<Rightarrow> snapshot_request \<Rightarrow> (case_store \<times> snapshot_row) res" where
  "create_snapshot env kb S snapshot_id case_id now q =
     raise_if (blank (sq_policy_revision q)) (ValueError ''InvestigationSnapshot policy_revision cannot be empty'')
     (res_bind (get_state env S case_id) (\<lambda>(T, st).
      let latest = int (current_knowledge_revision kb);
          pinned = (case sq_knowledge_revision q of None \<Rightarrow> latest | Some r \<Rightarrow> r) in
      raise_if (pinned < 0) (ValueError ''InvestigationSnapshot knowledge_revision cannot be negative'')
      (raise_if (latest < pinned) (ValueError ''InvestigationSnapshot cannot pin a future knowledge revision'')
      (let m = \<lparr>sn_snapshot_id = snapshot_id, sn_case_id = case_id, sn_case_revision = is_case_revision st,
                sn_knowledge_revision = Some pinned, sn_incident_revision = sq_incident_revision q,
                sn_document_index_revision = sq_document_index_revision q,
                sn_experience_revision = sq_experience_revision q, sn_policy_revision = sq_policy_revision q,
                sn_capability_registry_revision = sq_capability_registry_revision q,
                sn_routing_query_planner_revision = sq_routing_query_planner_revision q,
                sn_model_revision = sq_model_revision q, sn_prompt_assembly_revision = sq_prompt_assembly_revision q,
                sn_source_availability_snapshot = sq_source_availability_snapshot q,
                sn_created_at = (case sq_created_at q of None \<Rightarrow> now | Some t \<Rightarrow> t)\<rparr>
       in res_bind (tab_add sn_snapshot_id m (iv_snapshots T)) (\<lambda>rows.
          Inr (T\<lparr>iv_snapshots := rows\<rparr>, m))))))"

definition get_snapshot :: "case_store \<Rightarrow> string \<Rightarrow> snapshot_row res" where
  "get_snapshot S snapshot_id = res_of_option (LookupError (''investigation snapshot not found: '' @ snapshot_id))
     (tab_get sn_snapshot_id snapshot_id (iv_snapshots S))"

section \<open>Runs\<close>

definition empty_case_store :: case_store where
  "empty_case_store = \<lparr>iv_cases = [], iv_events = [], iv_needs = [], iv_currents = [], iv_perceptions = [],
     iv_trajectories = [], iv_trajectory_events = [], iv_snapshots = []\<rparr>"

text \<open>
  The operations of the services as steps; \<open>rd\<close> is \<^verbatim>\<open>fromisoformat\<close>. A perception row is written and recorded in
  one transaction, as the audit of perceptions does. The knowledge revision that a case starts from and the one a perception
  saw are not negative, since revisions are counted from one; the code does not check this.
\<close>

inductive case_step :: "(string \<Rightarrow> int res) \<Rightarrow> case_store \<Rightarrow> case_store \<Rightarrow> bool" for rd where
  create: "create_case S i now q = Inr (T, c) \<Longrightarrow> world_ok (cq_initial_knowledge_revision q) \<Longrightarrow> case_step rd S T"
| activate: "activate_case S i = Inr (T, c) \<Longrightarrow> case_step rd S T"
| wait: "wait_case S i = Inr (T, c) \<Longrightarrow> case_step rd S T"
| resolve: "resolve_case S i = Inr (T, c) \<Longrightarrow> case_step rd S T"
| cancel: "cancel_case S i = Inr (T, c) \<Longrightarrow> case_step rd S T"
| close: "close_case S i now = Inr (T, c) \<Longrightarrow> case_step rd S T"
| start: "start_trajectory S tid i now vs = Inr (T, t) \<Longrightarrow> case_step rd S T"
| log: "append_trajectory_event S eid tid now x = Inr (T, e) \<Longrightarrow> case_step rd S T"
| finish: "finish_trajectory S tid outcome now summary cost = Inr (T, t) \<Longrightarrow> case_step rd S T"
| read: "get_state env S i = Inr (T, st) \<Longrightarrow> case_step rd S T"
| rebuild: "rebuild_state env S i = Inr (T, st) \<Longrightarrow> case_step rd S T"
| patch: "validate_patch_identity p = Inr p \<Longrightarrow> apply_patch env kb S p reason = Inr (T, r) \<Longrightarrow> case_step rd S T"
| decide: "validate_commit dc = Inr dc \<Longrightarrow> commit_decision env S dc = Inr (T, r') \<Longrightarrow> case_step rd S T"
| open_need: "open_evidence_need env kb S nq = Inr (T, nr) \<Longrightarrow> case_step rd S T"
| reopen_need: "reopen_evidence_need env S nid base k w reason = Inr (T, nr) \<Longrightarrow> case_step rd S T"
| perceive: "iso_ok env \<Longrightarrow> cv_fromisoformat env = rd \<Longrightarrow> ps = [] \<or> (ps = [p] \<and> pe_case_id p = i \<and> 0 \<le> pe_world_revision p)
    \<Longrightarrow> 0 \<le> world \<Longrightarrow> mark_perception env (S\<lparr>iv_perceptions := iv_perceptions S @ ps\<rparr>) i pid world t = Inr (T, st)
    \<Longrightarrow> case_step rd S T"
| change: "process_change envs kb S ch = Inr (T, impacts) \<Longrightarrow> case_step rd S T"
| continue: "validate_request cq = Inr cq \<Longrightarrow> accept_continuation H env kb S cq = Inr (T, nr) \<Longrightarrow> case_step rd S T"
| snapshot: "create_snapshot env kb S sid i now sq = Inr (T, m) \<Longrightarrow> case_step rd S T"

text \<open>The state of a case at a revision, as a lookup.\<close>

definition past_state :: "call_env \<Rightarrow> case_store \<Rightarrow> string \<times> int \<Rightarrow> investigation_state option" where
  "past_state env S k = (case get_state_at_revision env S (fst k) (snd k) of Inl _ \<Rightarrow> None | Inr st \<Rightarrow> Some st)"

text \<open>A change of status alone.\<close>

definition status_move :: "investigation_case \<Rightarrow> investigation_case \<Rightarrow> bool" where
  "status_move c c' \<longleftrightarrow> (\<exists>st cl. c' = c\<lparr>ic_status := st, ic_closed_at := cl\<rparr>) \<and> (case_frozen c \<longrightarrow> c' = c)"

text \<open>What a list of events does to the confirmed and unknown facts when it invalidates some keys.\<close>

definition item_key :: "state_item \<Rightarrow> fact_key" where
  "item_key x = (si_proposition x, si_target_ref x)"

definition invalidates :: "case_event list \<Rightarrow> fact_key set \<Rightarrow> bool" where
  "invalidates es ks \<longleftrightarrow> (\<forall>b. bk_confirmed (fold replay_event es b) = filter (\<lambda>(k, _). k \<notin> ks) (bk_confirmed b)
     \<and> fst ` set (bk_unknowns (fold replay_event es b)) = fst ` set (bk_unknowns b) \<union> ks)"

text \<open>What a call that concerns one case does to the histories.\<close>

definition case_effect :: "string \<Rightarrow> case_store \<Rightarrow> case_store \<Rightarrow> case_event list \<Rightarrow> bool" where
  "case_effect i S T es \<longleftrightarrow> case_history T i = case_history S i @ es
     \<and> (\<forall>j. j \<noteq> i \<longrightarrow> case_history T j = case_history S j \<and> case_needs T j = case_needs S j
          \<and> tab_get ic_case_id j (iv_cases T) = tab_get ic_case_id j (iv_cases S))"

definition no_stale_need :: "knowledge \<Rightarrow> knowledge_change \<Rightarrow> evidence_need list \<Rightarrow> bool" where
  "no_stale_need kb change ns \<longleftrightarrow> (\<forall>n \<in> set ns. nd_status n = NEED_RESOLVED \<longrightarrow> \<not> stale_need kb change n)"
section \<open>Lemmas on the case row\<close>

lemma state_inv_cong:
  assumes "state_inv rd S" "iv_events T = iv_events S" "iv_cases T = iv_cases S" "iv_needs T = iv_needs S"
    "iv_currents T = iv_currents S" "iv_perceptions T = iv_perceptions S"
  shows "state_inv rd T" "store_grows S T"
proof -
  have e: "case_history T = case_history S" "case_needs T = case_needs S" "case_perceptions T = case_perceptions S"
    "open_in_table T = open_in_table S" "open_in_history T = open_in_history S"
    using assms by (simp_all add: fun_eq_iff case_history_def case_needs_def case_perceptions_def
        open_in_table_def open_in_history_def)
  then have "projection T c now = projection S c now" for c now by (intro projection_cong) simp_all
  with assms e show "state_inv rd T" by (simp add: state_inv_def tables_ok_def case_ok_def)
  show "store_grows S T" using assms(2-4) e by (simp add: store_grows_def)
qed

lemma image_tab_put: "key ` set (tab_put key r rows) = key ` set rows"
  by (metis list.set_map tab_put_keys)

lemma put_case_inv:
  assumes inv: "state_inv rd S" and c: "tab_get ic_case_id i (iv_cases S) = Some c" and m: "status_move c c'"
  shows "state_inv rd (put_case c' S)" "store_grows S (put_case c' S)"
proof -
  let ?T = "put_case c' S"
  obtain st cl where c': "c' = c\<lparr>ic_status := st, ic_closed_at := cl\<rparr>" using m by (auto simp: status_move_def)
  note k = state_inv_case [OF inv c]
  have id': "ic_case_id c' = i" using c' k(1) by simp
  have ids: "ic_case_id ` set (iv_cases ?T) = ic_case_id ` set (iv_cases S)"
    by (simp add: put_case_def image_tab_put)
  have e: "case_history ?T = case_history S" "case_needs ?T = case_needs S" "case_perceptions ?T = case_perceptions S"
    "open_in_table ?T = open_in_table S" "open_in_history ?T = open_in_history S"
    by (simp_all add: put_case_def fun_eq_iff case_history_def case_needs_def case_perceptions_def
        open_in_table_def open_in_history_def)
  have p: "projection ?T x now = projection S x now" for x now by (intro projection_cong) (simp_all add: e)
  have cur: "iv_currents ?T = iv_currents S" by (simp add: put_case_def)
  have p': "projection S c' now = projection S c now" for now by (simp add: c' projection_def Let_def split: option.split)
  have ok: "case_ok S x" if "x \<in> set (iv_cases S)" for x using inv that by (simp add: state_inv_def)
  have "case_ok ?T x" if "x \<in> set (iv_cases ?T)" for x
  proof (cases "x = c'")
    case True
    have "case_ok S c'" using k(3) p' by (simp add: case_ok_def c')
    with True show ?thesis by (simp add: case_ok_def e p cur)
  next
    case False
    with that have "x \<in> set (iv_cases S)" by (auto simp: put_case_def dest: in_set_tab_put)
    with ok show ?thesis by (simp add: case_ok_def e p cur)
  qed
  moreover have "tables_ok rd ?T"
    using inv ids by (simp add: state_inv_def tables_ok_def put_case_def)
  ultimately show "state_inv rd ?T" by (simp add: state_inv_def)
  have g: "tab_get ic_case_id j (iv_cases ?T) = (if j = i then Some c' else tab_get ic_case_id j (iv_cases S))" for j
    using id' k(1,2) by (auto simp: put_case_def tab_simps image_iff)
  show "store_grows S ?T"
  proof (rule store_growsI [where es = "[]"])
    show "iv_events ?T = iv_events S @ []" by (simp add: put_case_def)
    show "\<exists>d. tab_get ic_case_id j (iv_cases ?T) = Some d \<and> ic_current_revision x \<le> ic_current_revision d
        \<and> ic_goal d = ic_goal x \<and> ic_target_object_ids d = ic_target_object_ids x
        \<and> ic_initial_knowledge_revision d = ic_initial_knowledge_revision x \<and> ic_created_at d = ic_created_at x
        \<and> (case_frozen x \<longrightarrow> d = x \<and> case_history ?T j = case_history S j \<and> case_needs ?T j = case_needs S j)"
      if "tab_get ic_case_id j (iv_cases S) = Some x" for j x
    proof (cases "j = i")
      case True
      with that c have "x = c" by simp
      have "case_frozen c \<longrightarrow> c' = c" using m by (simp add: status_move_def)
      moreover have "ic_current_revision c' = ic_current_revision c" "ic_goal c' = ic_goal c"
        "ic_target_object_ids c' = ic_target_object_ids c" "ic_created_at c' = ic_created_at c"
        "ic_initial_knowledge_revision c' = ic_initial_knowledge_revision c" by (simp_all add: c')
      moreover have "case_history ?T i = case_history S i" "case_needs ?T i = case_needs S i" by (simp_all add: e)
      ultimately show ?thesis using g [of j] True \<open>x = c\<close> by auto
    next
      case False
      with that g [of j] show ?thesis by (simp add: e)
    qed
  qed
qed

lemma parse_lifecycle_value [simp]: "parse_lifecycle (lifecycle_value l) = Inr l"
  by (cases l) (simp_all add: parse_lifecycle_def)

lemma parse_lifecycle_D: "parse_lifecycle v = Inr l \<Longrightarrow> v = lifecycle_value l"
  by (auto simp: parse_lifecycle_def res_simps split: if_splits)

lemma normalized_frozen:
  "normalized_lifecycle (ic_status c) = Inr l \<Longrightarrow> case_frozen c \<longleftrightarrow> l \<in> {CASE_CLOSED, CASE_CANCELLED}"
  by (cases l) (auto simp: normalized_lifecycle_def case_frozen_def dest: parse_lifecycle_D split: if_splits)

lemma transition_case_inv:
  assumes "state_inv rd S" "transition_case S i allowed target = Inr (T, v)"
    "CASE_CLOSED \<notin> set allowed" "CASE_CANCELLED \<notin> set allowed"
  shows "state_inv rd T" "store_grows S T"
proof -
  from assms(2) obtain c l where c: "tab_get ic_case_id i (iv_cases S) = Some c" "normalized_lifecycle (ic_status c) = Inr l"
    and t: "T = S \<or> (T = put_case (c\<lparr>ic_status := lifecycle_value target\<rparr>) S \<and> l \<in> set allowed)"
    by (auto simp: transition_case_def Let_def res_simps split: if_splits)
  from t have "state_inv rd T \<and> store_grows S T"
  proof (elim disjE conjE)
    assume T: "T = put_case (c\<lparr>ic_status := lifecycle_value target\<rparr>) S" and "l \<in> set allowed"
    then have "\<not> case_frozen c" using normalized_frozen [OF c(2)] assms(3,4) by auto
    then have "status_move c (c\<lparr>ic_status := lifecycle_value target\<rparr>)"
      unfolding status_move_def by (intro conjI exI [of _ "lifecycle_value target"] exI [of _ "ic_closed_at c"]) simp_all
    from put_case_inv [OF assms(1) c(1) this] T show ?thesis by simp
  qed (use assms(1) in simp)
  then show "state_inv rd T" "store_grows S T" by simp_all
qed

lemma close_case_inv:
  assumes "state_inv rd S" "close_case S i now = Inr (T, v)"
  shows "state_inv rd T" "store_grows S T"
proof -
  from assms(2) obtain c where c: "tab_get ic_case_id i (iv_cases S) = Some c"
    and t: "T = S \<or> (T = put_case (c\<lparr>ic_status := ''closed'', ic_closed_at := Some now\<rparr>) S \<and> \<not> case_frozen c)"
    by (auto simp: close_case_def Let_def res_simps case_frozen_def split: if_splits)
  from t have "state_inv rd T \<and> store_grows S T"
  proof (elim disjE conjE)
    assume T: "T = put_case (c\<lparr>ic_status := ''closed'', ic_closed_at := Some now\<rparr>) S" and "\<not> case_frozen c"
    then have "status_move c (c\<lparr>ic_status := ''closed'', ic_closed_at := Some now\<rparr>)" by (auto simp: status_move_def)
    from put_case_inv [OF assms(1) c this] T show ?thesis by simp
  qed (use assms(1) in simp)
  then show "state_inv rd T" "store_grows S T" by simp_all
qed

lemma create_case_inv:
  assumes inv: "state_inv rd S" and a: "create_case S i now q = Inr (T, v)" and w: "world_ok (cq_initial_knowledge_revision q)"
  shows "state_inv rd T" "store_grows S T"
proof -
  let ?c = "\<lparr>ic_case_id = i, ic_task_signature = cq_task_signature q,
      ic_target_object_ids = cq_target_object_ids q, ic_goal = cq_goal q,
      ic_initial_knowledge_revision = cq_initial_knowledge_revision q, ic_constraints = cq_constraints q,
      ic_rubric = cq_rubric q, ic_status = ''created'', ic_current_revision = 0, ic_created_at = now,
      ic_closed_at = None\<rparr>"
  from a have f: "i \<notin> ic_case_id ` set (iv_cases S)" and T: "T = S\<lparr>iv_cases := iv_cases S @ [?c]\<rparr>"
    by (auto simp: create_case_def Let_def res_simps)
  have t: "tables_ok rd S" and ok: "\<And>x. x \<in> set (iv_cases S) \<Longrightarrow> case_ok S x" using inv by (auto simp: state_inv_def)
  have e: "case_history T = case_history S" "case_needs T = case_needs S" "case_perceptions T = case_perceptions S"
    "open_in_table T = open_in_table S" "open_in_history T = open_in_history S"
    by (simp_all add: T fun_eq_iff case_history_def case_needs_def case_perceptions_def open_in_table_def open_in_history_def)
  have p: "projection T x n = projection S x n" for x n by (intro projection_cong) (simp_all add: e)
  have cur: "iv_currents T = iv_currents S" by (simp add: T)
  have "tables_ok rd T" using t f by (auto simp: T tables_ok_def)
  moreover have "case_ok T ?c"
  proof -
    have "case_history S i = []" "case_needs S i = []" "\<forall>m \<in> set (iv_currents S). sc_case_id m \<noteq> i"
      using t f by (auto simp: tables_ok_def case_history_def case_needs_def filter_empty_conv)
    then show ?thesis using w e by (simp add: case_ok_def T open_in_history_def open_in_table_needs)
  qed
  moreover have "case_ok T x" if "x \<in> set (iv_cases S)" for x
    using ok [OF that] cur by (simp add: case_ok_def e p)
  ultimately show "state_inv rd T" by (auto simp: state_inv_def T)
  show "store_grows S T"
    by (rule store_growsI [where es = "[]"]) (auto simp: T tab_simps e [unfolded T])
qed

lemma start_trajectory_inv:
  assumes "state_inv rd S" "start_trajectory S tid i now vs = Inr (T, t)"
  shows "state_inv rd T" "store_grows S T"
proof -
  from assms(2) obtain c st ts where c: "tab_get ic_case_id i (iv_cases S) = Some c" "\<not> case_frozen c"
    and T: "T = (put_case (c\<lparr>ic_status := st\<rparr>) S)\<lparr>iv_trajectories := ts\<rparr>"
    unfolding start_trajectory_def case_frozen_def Let_def by (auto simp: res_simps)
  have "status_move c (c\<lparr>ic_status := st\<rparr>)"
    unfolding status_move_def using c(2) by (intro conjI exI [of _ st] exI [of _ "ic_closed_at c"]) simp_all
  from put_case_inv [OF assms(1) c(1) this]
  have i: "state_inv rd (put_case (c\<lparr>ic_status := st\<rparr>) S)" "store_grows S (put_case (c\<lparr>ic_status := st\<rparr>) S)" by simp_all
  from state_inv_cong [OF i(1), of T] show "state_inv rd T" "store_grows S T"
    using store_grows_trans [OF i(2)] by (simp_all add: T)
qed

section \<open>Lemmas on knowledge changes\<close>

lemma invalidates_Nil: "invalidates [] {}"
  by (simp add: invalidates_def)

lemma invalidates_append: "invalidates es ks \<Longrightarrow> invalidates fs ls \<Longrightarrow> invalidates (es @ fs) (ks \<union> ls)"
  by (auto simp: invalidates_def case_prod_beta intro!: filter_cong)

lemma invalidates_pair:
  assumes "ce_event_type e = FACT_RETRACTED" "ce_event_type f = UNKNOWN_OPENED"
    "ce_proposition e = Some p" "ce_proposition f = Some p" "ce_target_ref e = t" "ce_target_ref f = t"
  shows "invalidates [e, f] {(p, t)}"
  using assms
  by (auto simp: invalidates_def replay_event_def Let_def pop_facts_def dict_simps dict_pop_def case_prod_beta intro!: filter_cong)

lemma invalidates_opened:
  assumes "ce_event_type e = EVIDENCE_NEED_OPENED"
  shows "invalidates [e] {}"
  using assms by (auto simp: invalidates_def replay_event_def Let_def split: option.splits)

lemma world_draft_wf:
  "wf_event rd (event_of_draft env c (retraction_draft change now x))"
  "wf_event rd (event_of_draft env c (unknown_draft change now x))"
  "wf_event rd (event_of_draft env c (world_reopen_draft change now n))"
  by (rule simple_draft_wf; simp add: retraction_draft_def unknown_draft_def world_reopen_draft_def)+

lemma invalidate_items_writes:
  assumes "invalidate_items env change now xs T c = Inr (U, u)"
    and "tab_get ic_case_id (ic_case_id c) (iv_cases T) = Some c" "distinct (map ic_case_id (iv_cases T))"
    and "needs_moved S (ic_case_id c) T"
  shows "\<exists>fs. writes rd T c fs U u \<and> needs_moved S (ic_case_id c) U \<and> iv_needs U = iv_needs T
    \<and> iv_perceptions U = iv_perceptions T \<and> invalidates fs (item_key ` set xs)"
  using assms
proof (induction xs arbitrary: T c)
  case Nil
  then show ?case by (auto intro!: exI [of _ "[]"] writes_refl invalidates_Nil)
next
  case (Cons x xs)
  from Cons.prems(1) obtain V v e W w f where
    a: "append_event env T c (retraction_draft change now x) = Inr (V, v, e)"
    and b: "append_event env V v (unknown_draft change now x) = Inr (W, w, f)"
    and rest: "invalidate_items env change now xs W w = Inr (U, u)"
    by (auto simp: res_simps)
  note da = append_event_D [OF a] and db = append_event_D [OF b]
  have w1: "writes rd T c [e] V v" using a by (rule writes_append) (simp add: da(1) world_draft_wf)
  note c1 = writes_cases [OF w1 Cons.prems(2,3)]
  have w2: "writes rd V v [f] W w" using b by (rule writes_append) (simp add: db(1) world_draft_wf)
  have cv: "tab_get ic_case_id (ic_case_id v) (iv_cases V) = Some v" using c1 by simp
  note c2 = writes_cases [OF w2 cv c1(2)]
  have same: "iv_needs V = iv_needs T" "iv_needs W = iv_needs V" "iv_perceptions W = iv_perceptions T"
    by (simp_all add: da(3) db(3))
  have m1: "needs_moved S (ic_case_id c) V"
    by (rule needs_moved_other [OF Cons.prems(4) w1 refl same(1)]) (simp add: da(1) retraction_draft_def)
  have m2: "needs_moved S (ic_case_id c) W"
    by (rule needs_moved_other [OF m1 w2 c1(3) same(2)]) (simp add: db(1) unknown_draft_def)
  have "\<exists>fs. writes rd W w fs U u \<and> needs_moved S (ic_case_id w) U \<and> iv_needs U = iv_needs W
      \<and> iv_perceptions U = iv_perceptions W \<and> invalidates fs (item_key ` set xs)"
    using Cons.IH [OF rest] c1 c2 m2 by simp
  then obtain fs where fs: "writes rd W w fs U u" "needs_moved S (ic_case_id w) U" "iv_needs U = iv_needs W"
      "iv_perceptions U = iv_perceptions W" "invalidates fs (item_key ` set xs)" by blast
  have "invalidates [e, f] {item_key x}"
    by (simp add: da(1) db(1) item_key_def retraction_draft_def unknown_draft_def invalidates_pair)
  from invalidates_append [OF this fs(5)] have "invalidates ([e, f] @ fs) (item_key ` set (x # xs))" by simp
  moreover have "writes rd T c (([e] @ [f]) @ fs) U u" using writes_trans [OF writes_trans [OF w1 w2] fs(1)] .
  ultimately show ?case using fs c1(3) c2(3) same by (intro exI [of _ "[e, f] @ fs"]) simp
qed

lemma reopened_row_simps [simp]:
  "nd_need_id (reopened_row now v n) = nd_need_id n" "nd_case_id (reopened_row now v n) = nd_case_id n"
  "nd_status (reopened_row now v n) = NEED_OPEN" "need_view n = Inr n \<Longrightarrow> need_view (reopened_row now v n) = Inr (reopened_row now v n)"
  by (auto simp: reopened_row_def need_view_iff)

lemma reopen_needs_writes:
  assumes "reopen_needs env change now ns T c = Inr (U, u)"
    and "tab_get ic_case_id (ic_case_id c) (iv_cases T) = Some c" "distinct (map ic_case_id (iv_cases T))"
    and "needs_moved S (ic_case_id c) T" "distinct (map nd_need_id ns)"
    and "\<forall>n \<in> set ns. n \<in> set (iv_needs T) \<and> nd_case_id n = ic_case_id c"
  shows "\<exists>fs. writes rd T c fs U u \<and> needs_moved S (ic_case_id c) U \<and> iv_perceptions U = iv_perceptions T
    \<and> invalidates fs {} \<and> (ns = [] \<longrightarrow> fs = [] \<and> U = T)
    \<and> (\<forall>x \<in> set (iv_needs U). nd_status x = NEED_OPEN \<or> (x \<in> set (iv_needs T) \<and> x \<notin> set ns))"
  using assms
proof (induction ns arbitrary: T c)
  case Nil
  then show ?case by (auto intro!: exI [of _ "[]"] writes_refl invalidates_Nil)
next
  case (Cons n ns)
  from Cons.prems(1) obtain V v e where
    a: "append_event env T c (world_reopen_draft change now n) = Inr (V, v, e)"
    and rest: "reopen_needs env change now ns (put_need (reopened_row now (ce_case_revision e) n) V) v = Inr (U, u)"
    by (auto simp: res_simps)
  let ?n = "reopened_row now (ce_case_revision e) n" and ?W = "put_need (reopened_row now (ce_case_revision e) n) V"
  note d = append_event_D [OF a]
  have n: "n \<in> set (iv_needs T)" "nd_case_id n = ic_case_id c" using Cons.prems(6) by simp_all
  have nv: "need_view n = Inr n" and dn: "distinct (map nd_need_id (iv_needs T))"
    using Cons.prems(4) n(1) by (auto simp: needs_moved_def)
  have w1: "writes rd T c [e] V v" using a by (rule writes_append) (simp add: d(1) world_draft_wf)
  note c1 = writes_cases [OF w1 Cons.prems(2,3)]
  have same: "iv_needs V = iv_needs T" "iv_perceptions V = iv_perceptions T" by (simp_all add: d(3))
  have m: "needs_moved S (ic_case_id c) ?W"
    by (rule needs_moved_put [OF Cons.prems(4) w1 refl same(1) n])
      (use n nv in \<open>simp_all add: d(1) world_reopen_draft_def\<close>)
  have ww: "writes rd T c [e] ?W v" using w1 by (rule writes_put_need)
  have cw: "tab_get ic_case_id (ic_case_id v) (iv_cases ?W) = Some v" "distinct (map ic_case_id (iv_cases ?W))"
    using c1 by (simp_all add: put_need_def)
  have keep: "x \<in> set (iv_needs ?W)" if "x \<in> set (iv_needs T)" "nd_need_id x \<noteq> nd_need_id n" for x
    using that by (auto simp: put_need_def tab_put_def same(1) image_iff intro!: bexI [of _ x])
  have origin: "x = ?n \<or> (x \<in> set (iv_needs T) \<and> nd_need_id x \<noteq> nd_need_id n)" if "x \<in> set (iv_needs ?W)" for x
    using in_set_tab_put [of x nd_need_id ?n "iv_needs V"] that by (simp add: put_need_def same(1))
  have "\<exists>fs. writes rd ?W v fs U u \<and> needs_moved S (ic_case_id v) U \<and> iv_perceptions U = iv_perceptions ?W
      \<and> invalidates fs {} \<and> (ns = [] \<longrightarrow> fs = [] \<and> U = ?W)
      \<and> (\<forall>x \<in> set (iv_needs U). nd_status x = NEED_OPEN \<or> (x \<in> set (iv_needs ?W) \<and> x \<notin> set ns))"
  proof (rule Cons.IH [OF rest cw])
    show "needs_moved S (ic_case_id v) ?W" using m c1(3) by simp
    show "distinct (map nd_need_id ns)" using Cons.prems(5) by simp
    show "\<forall>x \<in> set ns. x \<in> set (iv_needs ?W) \<and> nd_case_id x = ic_case_id v"
      using Cons.prems(5,6) keep c1(3) by (auto simp: image_iff)
  qed
  then obtain fs where fs: "writes rd ?W v fs U u" "needs_moved S (ic_case_id v) U" "iv_perceptions U = iv_perceptions ?W"
      "invalidates fs {}" "\<forall>x \<in> set (iv_needs U). nd_status x = NEED_OPEN \<or> (x \<in> set (iv_needs ?W) \<and> x \<notin> set ns)" by blast
  have "invalidates [e] {}" by (rule invalidates_opened) (simp add: d(1) world_reopen_draft_def)
  then have "invalidates ([e] @ fs) {}" using invalidates_append [OF _ fs(4)] by fastforce
  moreover have "writes rd T c ([e] @ fs) U u" using writes_trans [OF ww fs(1)] .
  moreover have "nd_status x = NEED_OPEN \<or> (x \<in> set (iv_needs T) \<and> x \<notin> set (n # ns))" if "x \<in> set (iv_needs U)" for x
    using fs(5) that origin by (metis reopened_row_simps(3) set_ConsD)
  moreover have "iv_perceptions U = iv_perceptions T" using fs(3) same(2) by (simp add: put_need_def)
  ultimately show ?case using fs(2) c1(3) by (intro exI [of _ "[e] @ fs"]) simp
qed

lemma case_effect_writes:
  assumes "writes rd S c es T c'" "needs_moved S (ic_case_id c) T"
    "iv_events U = iv_events T" "iv_needs U = iv_needs T" "iv_cases U = iv_cases T"
  shows "case_effect (ic_case_id c) S U es"
proof -
  have "case_history U j = case_history T j" "case_needs U j = case_needs T j" for j
    using assms(3,4) by (simp_all add: case_history_def case_needs_def)
  moreover have "tab_get ic_case_id j (iv_cases U) = tab_get ic_case_id j (iv_cases S)" if "j \<noteq> ic_case_id c" for j
    using assms(1,5) that writes_history(3) [OF assms(1)] by (simp add: writes_def tab_simps)
  ultimately show ?thesis
    using writes_history [OF assms(1)] assms(2) by (simp add: case_effect_def needs_moved_def)
qed

lemma case_effect_status:
  assumes "case_effect i S T es" "U = T \<or> (\<exists>c'. U = put_case c' T \<and> ic_case_id c' = i)"
  shows "case_effect i S U es" "case_needs U i = case_needs T i"
  using assms by (auto simp: case_effect_def put_case_def case_history_def case_needs_def tab_simps)

lemma transition_case_row:
  assumes "transition_case S i allowed target = Inr (T, v)"
  shows "T = S \<or> (\<exists>c'. T = put_case c' S \<and> ic_case_id c' = i)"
proof -
  from assms obtain c where c: "tab_get ic_case_id i (iv_cases S) = Some c"
    and t: "T = S \<or> T = put_case (c\<lparr>ic_status := lifecycle_value target\<rparr>) S"
    by (auto simp: transition_case_def Let_def res_simps split: if_splits)
  have "ic_case_id (c\<lparr>ic_status := lifecycle_value target\<rparr>) = i" using tab_get_key [OF c] by simp
  with t show ?thesis by blast
qed

lemma wake_case_inv:
  assumes "state_inv rd S" "wake_case prior S c = Inr (T, b)"
  shows "state_inv rd T" "store_grows S T" "T = S \<or> (\<exists>c'. T = put_case c' S \<and> ic_case_id c' = ic_case_id c)"
proof -
  have "T = S \<or> (\<exists>v. transition_case S (ic_case_id c) [CASE_CREATED, CASE_WAITING] CASE_ACTIVE = Inr (T, v))"
    using assms(2) by (auto simp: wake_case_def activate_case_def res_simps split: if_splits)
  then have "state_inv rd T \<and> store_grows S T \<and> (T = S \<or> (\<exists>c'. T = put_case c' S \<and> ic_case_id c' = ic_case_id c))"
    using assms(1) transition_case_inv [OF assms(1)] transition_case_row by (metis store_grows_refl case_lifecycle.distinct(7,9,21,23) empty_iff empty_set set_ConsD)
  then show "state_inv rd T" "store_grows S T" "T = S \<or> (\<exists>c'. T = put_case c' S \<and> ic_case_id c' = ic_case_id c)"
    by simp_all
qed

text \<open>The effect of a knowledge change on one case.\<close>

lemma apply_case_effect:
  assumes inv: "state_inv rd S" and a: "apply_case env kb S i change = Inr (X, impact)"
  obtains S1 st es where "get_state env S i = Inr (S1, st)" "state_inv rd X" "store_grows S X" "case_effect i S X es"
    "invalidates es (item_key ` set (stale_confirmed_items kb (is_confirmed st) change))"
    "no_stale_need kb change (case_needs X i)" "wi_case_id impact = i"
proof -
  from a obtain c T st where c: "tab_get ic_case_id i (iv_cases S) = Some c" "\<not> case_frozen c"
    and g: "get_state env S i = Inr (T, st)" by (auto simp: apply_case_def res_simps case_frozen_def)
  let ?items = "stale_confirmed_items kb (is_confirmed st) change"
    and ?now = "cv_now env (ic_current_revision c) 1"
    and ?needs = "filter (\<lambda>n. nd_case_id n = i \<and> nd_status n = NEED_RESOLVED \<and> stale_need kb change n) (iv_needs T)"
  from a c g obtain U c1 V c2 W b where
    u: "invalidate_items env change ?now ?items T c = Inr (U, c1)"
    and v: "reopen_needs env change ?now ?needs U c1 = Inr (V, c2)"
    and w: "(if ?items \<noteq> [] \<or> ?needs \<noteq> [] then res_bind (rebuild_state env V i) (\<lambda>(W, _). Inr W) else Inr V) = Inr W"
    and x: "wake_case (ic_status c) W c2 = Inr (X, b)" and imp: "wi_case_id impact = i"
    by (auto simp: apply_case_def Let_def res_simps)
  note gs = get_state_D [OF inv g]
  have cT: "tab_get ic_case_id i (iv_cases T) = Some c" using c(1) gs(5) by simp
  note k = state_inv_case [OF gs(1) cT]
  have cT': "tab_get ic_case_id (ic_case_id c) (iv_cases T) = Some c" using cT k(1) by simp
  have nm: "needs_moved T (ic_case_id c) T" using k(1,6) by simp
  obtain fs where fs: "writes rd T c fs U c1" "needs_moved T (ic_case_id c) U" "iv_needs U = iv_needs T"
      "iv_perceptions U = iv_perceptions T" "invalidates fs (item_key ` set ?items)"
    using invalidate_items_writes [OF u cT' k(4) nm] by blast
  note c1 = writes_cases [OF fs(1) cT' k(4)]
  have dn: "distinct (map nd_need_id ?needs)"
    using gs(1) by (simp add: state_inv_def tables_ok_def distinct_map_filter)
  have "tab_get ic_case_id (ic_case_id c1) (iv_cases U) = Some c1" "needs_moved T (ic_case_id c1) U"
    "\<forall>n \<in> set ?needs. n \<in> set (iv_needs U) \<and> nd_case_id n = ic_case_id c1"
    using c1 fs(2,3) k(1) by auto
  from reopen_needs_writes [OF v this(1) c1(2) this(2) dn this(3)] obtain es where
    es: "writes rd U c1 es V c2" "needs_moved T (ic_case_id c1) V" "iv_perceptions V = iv_perceptions U" "invalidates es {}"
      "?needs = [] \<longrightarrow> es = [] \<and> V = U"
      "\<forall>x \<in> set (iv_needs V). nd_status x = NEED_OPEN \<or> (x \<in> set (iv_needs U) \<and> x \<notin> set ?needs)"
    by blast
  have wr: "writes rd T c (fs @ es) V c2" using writes_trans [OF fs(1) es(1)] .
  have mv: "needs_moved T (ic_case_id c) V" using es(2) c1(3) by simp
  have pm: "perceptions_moved T (ic_case_id c) V" using perceptions_moved_cong [OF k(7), of V] es(3) fs(4) k(1) by simp
  have inval: "invalidates (fs @ es) (item_key ` set ?items)" using invalidates_append [OF fs(5) es(4)] by simp
  have W: "state_inv rd W \<and> store_grows T W \<and> case_effect i T W (fs @ es) \<and> iv_needs W = iv_needs V"
  proof (cases "?items \<noteq> [] \<or> ?needs \<noteq> []")
    case True
    with w obtain st' where r: "rebuild_state env V i = Inr (W, st')" by (auto simp: res_simps)
    have "tab_get ic_case_id i (iv_cases V) = Some c2" using writes_cases(1) [OF wr cT' k(4)] k(1) by simp
    with r obtain m where m: "rebuild_current env V c2 True = (W, m)" by (auto simp: rebuild_state_def res_simps)
    have "\<exists>ms. W = V\<lparr>iv_currents := ms\<rparr>" using m by (auto simp: rebuild_current_def Let_def split: option.splits)
    then have "case_effect (ic_case_id c) T W (fs @ es)" by (auto intro: case_effect_writes [OF wr mv])
    with commit_write [OF gs(1) cT' wr mv pm m] c(2) k(1) show ?thesis by simp
  next
    case False
    with u have U: "U = T" "c1 = c" by simp_all
    with False v have V: "V = T" "c2 = c" by simp_all
    with w False have "W = T" by simp
    have "fs @ es = []" using wr V by (auto simp: writes_def)
    with \<open>W = T\<close> V gs(1) show ?thesis by (simp add: case_effect_def)
  qed
  have "ic_case_id c2 = i" using writes_cases(3) [OF wr cT' k(4)] k(1) by simp
  with wake_case_inv [OF _ x, of rd] W have X: "state_inv rd X" "store_grows W X"
      "X = W \<or> (\<exists>c'. X = put_case c' W \<and> ic_case_id c' = i)" by simp_all
  have "case_effect i T X (fs @ es)" "case_needs X i = case_needs W i"
    using case_effect_status [of i T W "fs @ es" X] W X(3) by simp_all
  then have eff: "case_effect i S X (fs @ es)" "case_needs X i = case_needs V i"
    using gs(3-5) W by (simp_all add: case_effect_def case_history_def case_needs_def)
  have "no_stale_need kb change (case_needs X i)"
    using es(6) fs(3) unfolding no_stale_need_def eff(2) by (auto simp: case_needs_def)
  moreover have "store_grows S X" using gs(2) W X(2) store_grows_trans by blast
  ultimately show ?thesis using that [OF g X(1) _ eff(1) inval _ imp] by blast
qed

lemma apply_case_inv:
  assumes "state_inv rd S" "apply_case env kb S i change = Inr (X, impact)"
  shows "state_inv rd X" "store_grows S X"
  using assms by (auto elim: apply_case_effect)

lemma relevant_loop_inv:
  assumes "state_inv rd S" "relevant_loop envs kb change cs S = Inr (T, ids)"
  shows "state_inv rd T \<and> store_grows S T \<and> iv_events T = iv_events S \<and> iv_needs T = iv_needs S \<and> iv_cases T = iv_cases S"
  using assms
proof (induction cs arbitrary: S ids)
  case (Cons c cs)
  show ?case
  proof (cases "ic_status c \<in> {''closed'', ''cancelled''} \<or> set (kc_object_ids change) \<inter> set (ic_target_object_ids c) \<noteq> {}")
    case True
    with Cons.prems(2) obtain ids' where "relevant_loop envs kb change cs S = Inr (T, ids')"
      by (auto simp: res_simps split: if_splits)
    with Cons.IH [OF Cons.prems(1)] show ?thesis by blast
  next
    case False
    with Cons.prems(2) obtain U st ids' where g: "get_state (envs (ic_case_id c)) S (ic_case_id c) = Inr (U, st)"
      and r: "relevant_loop envs kb change cs U = Inr (T, ids')"
      by (auto simp: res_simps split: if_splits)
    note gs = get_state_D [OF Cons.prems(1) g]
    from Cons.IH [OF gs(1) r] gs(2-5) show ?thesis by (metis store_grows_trans)
  qed
qed simp

lemma process_cases_inv:
  assumes "state_inv rd S" "process_cases envs kb change is S = Inr (T, impacts)"
  shows "state_inv rd T \<and> store_grows S T"
  using assms
proof (induction "is" arbitrary: S impacts)
  case (Cons i "is")
  show ?case
  proof (cases "\<exists>c. tab_get ic_case_id i (iv_cases S) = Some c \<and> ic_status c \<notin> {''closed'', ''cancelled''}")
    case True
    with Cons.prems(2) obtain U im ims where a: "apply_case (envs i) kb S i change = Inr (U, im)"
      and r: "process_cases envs kb change is U = Inr (T, ims)"
      by (auto simp: res_simps)
    note ai = apply_case_inv [OF Cons.prems(1) a]
    from Cons.IH [OF ai(1) r] ai(2) show ?thesis using store_grows_trans by blast
  next
    case False
    with Cons.prems(2) have "process_cases envs kb change is S = Inr (T, impacts)"
      by (auto split: option.splits if_splits)
    with Cons.IH [OF Cons.prems(1)] show ?thesis by blast
  qed
qed simp

lemma process_change_inv:
  assumes "state_inv rd S" "process_change envs kb S change = Inr (T, impacts)"
  shows "state_inv rd T" "store_grows S T"
proof -
  from assms(2) obtain U ids ids' where r: "relevant_loop envs kb change (iv_cases S) S = Inr (U, ids')"
    and p: "process_cases envs kb change ids U = Inr (T, impacts)"
    by (auto simp: process_change_def relevant_case_ids_def res_simps)
  note ri = relevant_loop_inv [OF assms(1) r]
  with process_cases_inv [OF _ p] show "state_inv rd T" "store_grows S T" using store_grows_trans by blast+
qed

section \<open>The invariant over runs\<close>

lemma accept_continuation_inv:
  assumes "state_inv rd S" "accept_continuation H env kb S q = Inr (T, r)"
  shows "state_inv rd T" "store_grows S T"
proof -
  from assms(2) obtain U st where g: "get_state env S (cn_case_id q) = Inr (U, st)"
    and o: "open_evidence_need env kb U (need_request_of H q) = Inr (T, r)"
    by (auto simp: accept_continuation_def res_simps)
  note gs = get_state_D [OF assms(1) g]
  from open_evidence_need_inv [OF gs(1) o] show "state_inv rd T" "store_grows S T"
    using store_grows_trans [OF gs(2)] by blast+
qed

lemma create_snapshot_inv:
  assumes "state_inv rd S" "create_snapshot env kb S sid i now q = Inr (T, m)"
  shows "state_inv rd T" "store_grows S T"
proof -
  from assms(2) obtain U st rows where g: "get_state env S i = Inr (U, st)" and T: "T = U\<lparr>iv_snapshots := rows\<rparr>"
    by (auto simp: create_snapshot_def Let_def res_simps)
  note gs = get_state_D [OF assms(1) g]
  from state_inv_cong [OF gs(1), of T] T show "state_inv rd T" "store_grows S T"
    using store_grows_trans [OF gs(2)] by simp_all
qed

lemma trajectory_inv:
  assumes "state_inv rd S"
  shows "append_trajectory_event S eid tid now x = Inr (T, e) \<Longrightarrow> state_inv rd T \<and> store_grows S T"
    "finish_trajectory S tid outcome now summary cost = Inr (T, t) \<Longrightarrow> state_inv rd T \<and> store_grows S T"
proof -
  have c: "state_inv rd (S\<lparr>iv_trajectories := ts\<rparr>) \<and> store_grows S (S\<lparr>iv_trajectories := ts\<rparr>)"
    "state_inv rd (S\<lparr>iv_trajectory_events := es, iv_trajectories := ts\<rparr>)
      \<and> store_grows S (S\<lparr>iv_trajectory_events := es, iv_trajectories := ts\<rparr>)" for es ts
    using state_inv_cong [OF assms] by simp_all
  show "append_trajectory_event S eid tid now x = Inr (T, e) \<Longrightarrow> state_inv rd T \<and> store_grows S T"
    using c(2) by (auto simp: append_trajectory_event_def Let_def res_simps)
  show "finish_trajectory S tid outcome now summary cost = Inr (T, t) \<Longrightarrow> state_inv rd T \<and> store_grows S T"
    using c(1) assms by (auto simp: finish_trajectory_def Let_def res_simps split: if_splits)
qed

lemma perceive_inv:
  assumes "state_inv rd S" "iso_ok env" "cv_fromisoformat env = rd" "0 \<le> world"
    "ps = [] \<or> (ps = [p] \<and> pe_case_id p = i \<and> 0 \<le> pe_world_revision p)"
    "mark_perception env (S\<lparr>iv_perceptions := iv_perceptions S @ ps\<rparr>) i pid world t = Inr (T, st)"
  shows "state_inv rd T \<and> store_grows S T"
proof (rule mark_perception_after [OF assms(1-4) refl _ assms(6)])
  show "perceptions_moved S i (S\<lparr>iv_perceptions := iv_perceptions S @ ps\<rparr>)"
    using assms(1,5) by (auto simp: perceptions_moved_def case_perceptions_def state_inv_def tables_ok_def)
qed

text \<open>Every operation keeps the invariant and only adds to what is on record.\<close>

lemma case_step_keeps:
  assumes "state_inv rd S" "case_step rd S T"
  shows "state_inv rd T \<and> store_grows S T"
  using assms(2,1)
proof cases
  case create
  then show ?thesis using create_case_inv [OF assms(1)] by blast
next
  case activate
  then show ?thesis using transition_case_inv [OF assms(1)] by (auto simp: activate_case_def)
next
  case wait
  then show ?thesis using transition_case_inv [OF assms(1)] by (auto simp: wait_case_def)
next
  case resolve
  then show ?thesis using transition_case_inv [OF assms(1)] by (auto simp: resolve_case_def)
next
  case cancel
  then show ?thesis using transition_case_inv [OF assms(1)] by (auto simp: cancel_case_def)
next
  case close
  then show ?thesis using close_case_inv [OF assms(1)] by blast
next
  case start
  then show ?thesis using start_trajectory_inv [OF assms(1)] by blast
next
  case log
  then show ?thesis using trajectory_inv [OF assms(1)] by blast
next
  case finish
  then show ?thesis using trajectory_inv [OF assms(1)] by blast
next
  case read
  then show ?thesis using get_state_D [OF assms(1)] by blast
next
  case rebuild
  then show ?thesis using rebuild_state_inv [OF assms(1)] by blast
next
  case patch
  then show ?thesis using apply_patch_inv [OF assms(1)] by blast
next
  case decide
  then show ?thesis using commit_decision_inv [OF assms(1)] by blast
next
  case open_need
  then show ?thesis using open_evidence_need_inv [OF assms(1)] by blast
next
  case reopen_need
  then show ?thesis using reopen_evidence_need_inv [OF assms(1)] by blast
next
  case perceive
  then show ?thesis using perceive_inv [OF assms(1)] by blast
next
  case change
  then show ?thesis using process_change_inv [OF assms(1)] by blast
next
  case continue
  then show ?thesis using accept_continuation_inv [OF assms(1)] by blast
next
  case snapshot
  then show ?thesis using create_snapshot_inv [OF assms(1)] by blast
qed

lemma empty_case_store_inv: "state_inv rd empty_case_store"
  by (simp add: state_inv_def tables_ok_def empty_case_store_def)

interpretation investigation: invariant_system "\<lambda>S. S = empty_case_store" "case_step rd" "state_inv rd" for rd
  by unfold_locales (auto simp: empty_case_store_inv dest: case_step_keeps)

lemma case_steps_grow:
  assumes "(case_step rd)\<^sup>*\<^sup>* S T" "state_inv rd S"
  shows "store_grows S T"
  using assms
proof (induction rule: rtranclp_induct)
  case (step T U)
  have "state_inv rd T" using investigation.inv_steps [OF step.hyps(1) step.prems] .
  then show ?case using case_step_keeps [OF _ step.hyps(2)] step.IH [OF step.prems] store_grows_trans by blast
qed simp

text \<open>A state of the past is read the same in every later store.\<close>

lemma past_state_grows:
  assumes S: "state_inv rd S" and T: "state_inv rd T" and g: "store_grows S T"
    and r: "get_state_at_revision env S i v = Inr st"
  shows "get_state_at_revision env T i v = Inr st"
proof -
  from r obtain c where c: "tab_get ic_case_id i (iv_cases S) = Some c" "0 \<le> v" "v \<le> int (ic_current_revision c)"
    by (auto simp: get_state_at_revision_def res_simps)
  then obtain n where n: "v = int n" "n \<le> ic_current_revision c" by (metis nonneg_int_cases of_nat_le_iff)
  from g c(1) obtain d where d: "tab_get ic_case_id i (iv_cases T) = Some d" "ic_current_revision c \<le> ic_current_revision d"
    "ic_goal d = ic_goal c" "ic_target_object_ids d = ic_target_object_ids c"
    "ic_initial_knowledge_revision d = ic_initial_knowledge_revision c" "ic_created_at d = ic_created_at c"
    by (rule store_grows_case) blast
  obtain es where "iv_events T = iv_events S @ es" using g by (auto simp: store_grows_def)
  then have "case_history T i = case_history S i @ filter (\<lambda>e. ce_case_id e = i) es" by (simp add: case_history_def)
  moreover have "length (case_history S i) = ic_current_revision c"
    using arg_cong [OF case_history_revisions [OF S c(1)], of length] by simp
  ultimately have h: "take n (case_history T i) = take n (case_history S i)" using n(2) by simp
  have "empty_history d = empty_history c" using d(5) by (simp add: empty_history_def)
  moreover have "ic_case_id c = i" "ic_case_id d = i" using tab_get_key [OF c(1)] tab_get_key [OF d(1)] by simp_all
  then have "history_view d n t = history_view c n t" for t
    using d(3,4) by (simp add: history_view_def fun_eq_iff)
  ultimately have "get_state_at_revision env T i (int n) = get_state_at_revision env S i (int n)"
    unfolding state_at_revision [OF S c(1) n(2)] state_at_revision [OF T d(1) order_trans [OF n(2) d(2)]] h
    using d(6) by simp
  with r n(1) show ?thesis by simp
qed

interpretation past: stable_lookup "\<lambda>S T. state_inv rd S \<and> case_step rd S T" "past_state env" for rd env
proof
  fix S T k v
  assume a: "state_inv rd S \<and> case_step rd S T" and l: "past_state env S k = Some v"
  then have "get_state_at_revision env S (fst k) (snd k) = Inr v" by (auto simp: past_state_def split: sum.splits)
  moreover have "state_inv rd S" "state_inv rd T" "store_grows S T" using a case_step_keeps by blast+
  ultimately have "get_state_at_revision env T (fst k) (snd k) = Inr v" using past_state_grows by blast
  then show "past_state env T k = Some v" by (simp add: past_state_def)
qed

end
