(* ===== verification/Case_Properties.thy ===== *)
theory Case_Properties
  imports Case_Runtime
begin

text \<open>
  What holds of the investigation cases over every run of the services, that is, over \<open>case_step\<close>: histories without gaps, states of the
  past that never change, reads that never fail, facts that exclude each other and cite evidence, patches applied
  once, closed cases that stay as they are, and knowledge changes carried into the cases they are routed to. A sample
  case with one patch witnesses each of them.
\<close>

section \<open>A sample case\<close>

definition sample_fromisoformat :: "string \<Rightarrow> int res" where
  "sample_fromisoformat s = (case s of
      [] \<Rightarrow> Inl (ValueError ''Invalid isoformat string'')
    | c # d \<Rightarrow> if c = CHR ''-'' then Inr (- int (digits_value d)) else Inr (int (digits_value s)))"

definition sample_call_env :: "string \<Rightarrow> call_env" where
  "sample_call_env prefix' = \<lparr>cv_id = (\<lambda>r. prefix' @ show_nat r), cv_now = (\<lambda>r k. int r),
     cv_isoformat = show_int, cv_fromisoformat = sample_fromisoformat\<rparr>"

definition sample_case_request :: case_request where
  "sample_case_request = \<lparr>cq_task_signature = ''sig'', cq_target_object_ids = [''a''], cq_goal = ''goal'',
     cq_initial_knowledge_revision = Some 1, cq_constraints = [], cq_rubric = []\<rparr>"

text \<open>Object \<open>b\<close> is the subject of claim \<open>k\<close>, which link \<open>e\<close> supports.\<close>

definition sample_knowledge :: knowledge where
  "sample_knowledge = \<lparr>kb_objects = [''a'', ''b''], kb_incidents = [],
     kb_claims = [\<lparr>cl_claim_id = ''k'', cl_subject_id = ''b''\<rparr>], kb_relations = [],
     kb_links = [\<lparr>el_evidence_link_id = ''e'', el_target_kind = ''claim'', el_target_id = ''k'', el_observation_id = ''o''\<rparr>],
     kb_observations = [\<lparr>ob_observation_id = ''o'', ob_source_id = ''s''\<rparr>],
     kb_sources = [\<lparr>so_source_id = ''s'', so_source_role = ''r'', so_source_family = ''f'', so_upstream_source = None\<rparr>],
     kb_revisions = [\<lparr>kr_revision = 1, kr_committed_at = 0\<rparr>]\<rparr>"

definition sample_operation :: state_patch_operation where
  "sample_operation = \<lparr>op_proposition = ''p'', op_target_ref = Some ''object:b'', op_proposed_state = CONFIRMED,
     op_disposition = SET, op_evidence_refs = [''e''], op_reasoning_relation = None, op_resolves_need_id = None\<rparr>"

definition sample_patch :: "string \<Rightarrow> int \<Rightarrow> state_patch" where
  "sample_patch i base = \<lparr>sp_patch_id = i, sp_case_id = ''c'', sp_base_case_revision = base,
     sp_operations = [sample_operation], sp_producer = ''w'', sp_model_prompt_revision = None\<rparr>"

definition sample_created :: case_store where
  "sample_created = fst (projr (create_case empty_case_store ''c'' 0 sample_case_request))"

definition sample_applied :: "(case_store \<times> case_event list write_result) res" where
  "sample_applied = apply_patch (sample_call_env ''x'') sample_knowledge sample_created (sample_patch ''q'' 0) ''r''"

definition sample_patched :: case_store where
  "sample_patched = fst (projr sample_applied)"

definition sample_change :: "string list \<Rightarrow> knowledge_change" where
  "sample_change claims = \<lparr>kc_revision = 2, kc_object_ids = [''b''], kc_claim_ids = claims, kc_relation_ids = [],
     kc_cause_observation_id = None\<rparr>"

definition sample_closed :: case_store where
  "sample_closed = fst (projr (close_case sample_patched ''c'' 9))"

definition sample_decision :: "string \<Rightarrow> decision_commit" where
  "sample_decision i = \<lparr>dc_decision_id = i, dc_case_id = ''c'', dc_base_case_revision = 0,
     dc_decision = [(''decision_id'', JStr i), (''case_id'', JStr ''c''), (''case_revision'', JInt 0)], dc_producer = ''w''\<rparr>"

definition sample_need :: "string \<Rightarrow> int \<Rightarrow> need_request" where
  "sample_need i base = \<lparr>nq_case_id = ''c'', nq_base_case_revision = base, nq_need_id = i,
     nq_proposition_or_question = ''question'', nq_purpose = ''purpose'', nq_target_objects = [''a''],
     nq_evidence_contract = None, nq_derived_from_enrichment_requirement = None,
     nq_preferred_source_roles = [], nq_rejected_evidence_patterns = [], nq_freshness_requirement = [],
     nq_completion_predicate = [], nq_priority = 0, nq_writer = ''w'', nq_reason_code = ''r''\<rparr>"

section \<open>Lemmas on the sample case\<close>

lemma not_isl_projr: "\<not> isl r \<Longrightarrow> r = Inr (projr r)"
  by (cases r) simp_all

lemma sample_iso_ok: "iso_ok (sample_call_env x)"
proof -
  have d: "c \<noteq> CHR ''Z'' \<and> c \<noteq> CHR ''-''" if "c \<in> set (show_nat n)" for c n
    using show_nat_digits [of n] that by (auto simp: list_all_iff is_digit_def)
  then have z: "replace_Z (show_nat n) = show_nat n" for n
  proof -
    have "concat (map (\<lambda>c. if c = CHR ''Z'' then ''+00:00'' else [c]) s) = s" if "\<forall>c \<in> set s. c \<noteq> CHR ''Z''" for s
      using that by (induction s) auto
    then show ?thesis unfolding replace_Z_def using d by blast
  qed
  have m: "replace_Z (CHR ''-'' # show_nat n) = CHR ''-'' # show_nat n" for n
    using z [of n] by (simp add: replace_Z_def)
  have "sample_fromisoformat (replace_Z (show_int t)) = Inr t" for t
  proof (cases "t < 0")
    case True
    then show ?thesis by (simp add: show_int_def m sample_fromisoformat_def)
  next
    case False
    obtain c s where s: "show_nat (nat t) = c # s" using show_nat_nonempty [of "nat t"] by (cases "show_nat (nat t)") auto
    then have "c \<noteq> CHR ''-''" using d [of c "nat t"] by simp
    moreover have "replace_Z (c # s) = c # s" using z [of "nat t"] s by simp
    ultimately show ?thesis using False s digits_value_show_nat [of "nat t"] by (simp add: show_int_def sample_fromisoformat_def)
  qed
  then show ?thesis by (simp add: iso_ok_def sample_call_env_def)
qed

lemma sample_env_rd: "cv_fromisoformat (sample_call_env x) = sample_fromisoformat"
  by (simp add: sample_call_env_def)

lemma sample_created_step: "case_step rd empty_case_store sample_created"
proof (rule case_step.create)
  have "\<not> isl (create_case empty_case_store ''c'' 0 sample_case_request)" by code_simp
  then show "create_case empty_case_store ''c'' 0 sample_case_request
      = Inr (sample_created, snd (projr (create_case empty_case_store ''c'' 0 sample_case_request)))"
    unfolding sample_created_def by (metis not_isl_projr prod.collapse)
  show "world_ok (cq_initial_knowledge_revision sample_case_request)"
    by (simp add: world_ok_def sample_case_request_def)
qed

lemma sample_patch_valid: "validate_patch_identity (sample_patch ''q'' 0) = Inr (sample_patch ''q'' 0)"
  by code_simp

lemma sample_applied_ok:
  "apply_patch (sample_call_env ''x'') sample_knowledge sample_created (sample_patch ''q'' 0) ''r''
     = Inr (sample_patched, snd (projr sample_applied))"
proof -
  have "\<not> isl sample_applied" by code_simp
  then show ?thesis unfolding sample_patched_def sample_applied_def by (metis not_isl_projr prod.collapse)
qed

lemma sample_patched_step: "case_step rd sample_created sample_patched"
  by (rule case_step.patch [OF sample_patch_valid sample_applied_ok])

lemma sample_created_reach: "(case_step rd)\<^sup>*\<^sup>* empty_case_store sample_created"
  using sample_created_step by (rule r_into_rtranclp)

lemma sample_patched_reach: "(case_step rd)\<^sup>*\<^sup>* empty_case_store sample_patched"
  using sample_created_reach sample_patched_step by (rule rtranclp.rtrancl_into_rtrancl)

lemma sample_patched_steps: "(case_step rd)\<^sup>*\<^sup>* sample_created sample_patched"
  using sample_patched_step by (rule r_into_rtranclp)

lemma sample_case_read: "\<exists>T st. get_state (sample_call_env ''y'') sample_patched ''c'' = Inr (T, st)"
proof -
  have "\<not> isl (get_state (sample_call_env ''y'') sample_patched ''c'')" by code_simp
  then show ?thesis by (metis not_isl_projr prod.collapse)
qed

section \<open>Properties of the state\<close>

lemma reached_inv: "(case_step rd)\<^sup>*\<^sup>* empty_case_store S \<Longrightarrow> state_inv rd S"
  using investigation.inv_reachable by blast

text \<open>
  Claim C8: in every store the services reach, the events of a case carry the revisions 1 to the current one of the case, without gap or
  repetition and in the order they were written, each based on the revision before it, and the needs the table shows as
  open are those that the events leave open.
\<close>

theorem case_history_contiguous:
  assumes "(case_step rd)\<^sup>*\<^sup>* empty_case_store S" "tab_get ic_case_id i (iv_cases S) = Some c"
  shows "map ce_case_revision (case_history S i) = [1..<Suc (ic_current_revision c)]
    \<and> map ce_base_case_revision (case_history S i) = [0..<ic_current_revision c]
    \<and> set (fold replay_need (case_history S i) []) = set (open_need_ids S i)"
proof -
  note inv = reached_inv [OF assms(1)]
  note r = case_history_revisions [OF inv assms(2)]
  have "map ce_case_revision (case_history S i) = map Suc (map ce_base_case_revision (case_history S i))"
    using case_history_wf [OF inv] by (simp add: wf_event_def)
  with r have "map Suc (map ce_base_case_revision (case_history S i)) = map Suc [0..<ic_current_revision c]"
    by (simp add: map_Suc_upt del: upt_Suc map_map)
  then have "map ce_base_case_revision (case_history S i) = [0..<ic_current_revision c]"
    using inj_map_eq_map [of Suc] by (simp del: map_map)
  moreover have "open_in_history S i = open_in_table S i"
    using state_inv_case(1,3) [OF inv assms(2)] by (simp add: case_ok_def)
  moreover have "open_in_table S i = set (open_need_ids S i)"
    by (auto simp: open_in_table_def open_need_ids_def)
  ultimately show ?thesis using r by (simp add: open_in_history_def)
qed

theorem case_history_contiguous_witness:
  "map ce_case_revision (case_history sample_patched ''c'') = [1]"
proof -
  have "tab_get ic_case_id ''c'' (iv_cases sample_patched) \<noteq> None" by code_simp
  then obtain c where c: "tab_get ic_case_id ''c'' (iv_cases sample_patched) = Some c" by blast
  have "map_option ic_current_revision (tab_get ic_case_id ''c'' (iv_cases sample_patched)) = Some 1" by code_simp
  with c have "ic_current_revision c = 1" by simp
  with case_history_contiguous [OF sample_patched_reach c] show ?thesis by simp
qed

text \<open>
  Claim C6: what a case was at a revision never changes: once a reader has been given the state at a revision, every later
  store of the services gives the same state for it, whatever patches, decisions, perceptions, needs or
  knowledge changes came in between.
\<close>

theorem past_state_fixed:
  assumes "(case_step rd)\<^sup>*\<^sup>* empty_case_store S" "(case_step rd)\<^sup>*\<^sup>* S T"
    "get_state_at_revision env S i v = Inr st"
  shows "get_state_at_revision env T i v = Inr st"
proof -
  note inv = reached_inv [OF assms(1)]
  show ?thesis
    using past_state_grows [OF inv investigation.inv_steps [OF assms(2) inv] case_steps_grow [OF assms(2) inv] assms(3)] .
qed

theorem past_state_fixed_witness:
  "\<exists>st. get_state_at_revision (sample_call_env ''y'') sample_created ''c'' 0 = Inr st
     \<and> get_state_at_revision (sample_call_env ''y'') sample_patched ''c'' 0 = Inr st"
proof -
  have "\<not> isl (get_state_at_revision (sample_call_env ''y'') sample_created ''c'' 0)" by code_simp
  then obtain st where st: "get_state_at_revision (sample_call_env ''y'') sample_created ''c'' 0 = Inr st"
    by (metis not_isl_projr)
  from past_state_fixed [OF sample_created_reach sample_patched_steps this] st show ?thesis by blast
qed

lemma get_state_buckets:
  assumes "state_inv rd S" "get_state env S i = Inr (T, st)"
  obtains c where "tab_get ic_case_id i (iv_cases S) = Some c" "is_case_revision st = ic_current_revision c"
    "is_goal st = ic_goal c" "is_targets st = ic_target_object_ids c" "is_evidence_need_ids st = open_need_ids S i"
    "is_current_decision st = fold replay_decision (case_history S i) None"
    "map_res item_view (map snd (bk_confirmed (fold replay_event (case_history S i) empty_buckets))) = Inr (is_confirmed st)"
    "map_res item_view (map snd (bk_tentative (fold replay_event (case_history S i) empty_buckets))) = Inr (is_tentative st)"
    "map_res item_view (map snd (bk_conflicts (fold replay_event (case_history S i) empty_buckets))) = Inr (is_conflicts st)"
    "map_res item_view (map snd (bk_unknowns (fold replay_event (case_history S i) empty_buckets))) = Inr (is_unknowns st)"
    "map_res item_view (map snd (bk_hypotheses (fold replay_event (case_history S i) empty_buckets))) = Inr (is_hypotheses st)"
proof -
  from get_state_D(6) [OF assms] obtain c now where c: "tab_get ic_case_id i (iv_cases S) = Some c"
    and v: "state_view (projection S c now) = Inr st" by blast
  note k = state_inv_case [OF assms(1) c] and p = state_view_proj [OF v]
  show ?thesis using p k(1,5) c by (intro that [of c]) (simp_all add: projection_def Let_def)
qed

text \<open>
  Claim C9: the projection that readers get is the replay of the history: the current state has the facts, the hypotheses and the
  decision of the state computed from the events at the same revision, and the same open needs.
\<close>

theorem state_is_replay:
  assumes "(case_step rd)\<^sup>*\<^sup>* empty_case_store S" "cv_fromisoformat env = rd" "get_state env S i = Inr (T, st)"
  shows "\<exists>old. get_state_at_revision env S i (int (is_case_revision st)) = Inr old
    \<and> is_confirmed old = is_confirmed st \<and> is_tentative old = is_tentative st \<and> is_conflicts old = is_conflicts st
    \<and> is_unknowns old = is_unknowns st \<and> is_hypotheses old = is_hypotheses st
    \<and> is_current_decision old = is_current_decision st \<and> is_case_revision old = is_case_revision st
    \<and> is_goal old = is_goal st \<and> is_targets old = is_targets st
    \<and> set (is_evidence_need_ids old) = set (is_evidence_need_ids st)"
proof -
  note inv = reached_inv [OF assms(1)]
  from inv assms(3) obtain c where c: "tab_get ic_case_id i (iv_cases S) = Some c" "is_case_revision st = ic_current_revision c"
    "is_goal st = ic_goal c" "is_targets st = ic_target_object_ids c" "is_evidence_need_ids st = open_need_ids S i"
    "is_current_decision st = fold replay_decision (case_history S i) None"
    "map_res item_view (map snd (bk_confirmed (fold replay_event (case_history S i) empty_buckets))) = Inr (is_confirmed st)"
    "map_res item_view (map snd (bk_tentative (fold replay_event (case_history S i) empty_buckets))) = Inr (is_tentative st)"
    "map_res item_view (map snd (bk_conflicts (fold replay_event (case_history S i) empty_buckets))) = Inr (is_conflicts st)"
    "map_res item_view (map snd (bk_unknowns (fold replay_event (case_history S i) empty_buckets))) = Inr (is_unknowns st)"
    "map_res item_view (map snd (bk_hypotheses (fold replay_event (case_history S i) empty_buckets))) = Inr (is_hypotheses st)"
    by (rule get_state_buckets)
  let ?v = "ic_current_revision c"
  have l: "take ?v (case_history S i) = case_history S i"
    using arg_cong [OF case_history_revisions [OF inv c(1)], of length] by simp
  from state_at_revision_total [OF inv c(1) order_refl assms(2)] obtain h old where
    h: "hs_buckets h = fold replay_event (case_history S i) empty_buckets"
      "hs_decision h = fold replay_decision (case_history S i) None"
      "hs_open_need_ids h = fold replay_need (case_history S i) []"
    and o: "history_view c ?v (if ?v = 0 then ic_created_at c else ce_created_at (last (case_history S i))) h = Inr old"
      "get_state_at_revision env S i (int ?v) = Inr old"
    unfolding l by blast
  note p = state_view_proj [OF o(1) [unfolded history_view_def]]
  have "set (fold replay_need (case_history S i) []) = set (open_need_ids S i)"
    using state_inv_case(1,3) [OF inv c(1)]
    by (auto simp: case_ok_def open_in_history_def open_in_table_def open_need_ids_def)
  then show ?thesis using o(2) c p h by (intro exI [of _ old]) (simp del: map_res_eq_Inr)
qed

theorem state_is_replay_witness:
  "\<exists>(st :: investigation_state) old. get_state_at_revision (sample_call_env ''y'') sample_patched ''c'' (int (is_case_revision st)) = Inr old
     \<and> is_confirmed old = is_confirmed st \<and> is_case_revision st = 1 \<and> length (is_confirmed st) = 1"
proof -
  have "map_sum id (\<lambda>(T, st). (is_case_revision st, length (is_confirmed st)))
      (get_state (sample_call_env ''y'') sample_patched ''c'') = Inr (1, 1)" by code_simp
  moreover obtain T st where g: "get_state (sample_call_env ''y'') sample_patched ''c'' = Inr (T, st)"
    using sample_case_read by blast
  ultimately have "is_case_revision st = 1" "length (is_confirmed st) = 1" by simp_all
  with state_is_replay [OF sample_patched_reach sample_env_rd g] show ?thesis by blast
qed

text \<open>A case that is created at a negative knowledge revision.\<close>

lemma negative_case_unreadable:
  assumes inv: "state_inv rd S" and a: "create_case S j now q = Inr (X, d)"
    and w: "cq_initial_knowledge_revision q = Some w" "w < 0" and p: "case_perceptions S j = []"
  shows "\<exists>m. get_state env X j = Inl (ValueError m)" "\<exists>m. get_state_at_revision env X j 0 = Inl (ValueError m)"
proof -
  let ?c = "\<lparr>ic_case_id = j, ic_task_signature = cq_task_signature q,
      ic_target_object_ids = cq_target_object_ids q, ic_goal = cq_goal q,
      ic_initial_knowledge_revision = cq_initial_knowledge_revision q, ic_constraints = cq_constraints q,
      ic_rubric = cq_rubric q, ic_status = ''created'', ic_current_revision = 0, ic_created_at = now,
      ic_closed_at = None\<rparr>"
  from a have f: "j \<notin> ic_case_id ` set (iv_cases S)" and X: "X = S\<lparr>iv_cases := iv_cases S @ [?c]\<rparr>"
    by (auto simp: create_case_def Let_def res_simps)
  from inv f have e: "case_history S j = []" "j \<notin> sc_case_id ` set (iv_currents S)"
    by (auto simp: state_inv_def tables_ok_def case_history_def filter_empty_conv)
  from f have n: "tab_get ic_case_id j (iv_cases S) = None" by (simp add: tab_get_None_iff)
  have g: "tab_get ic_case_id j (iv_cases X) = Some ?c" "tab_get sc_case_id j (iv_currents X) = None" "case_events X j = []"
    "latest_perception X j = None"
    using e p n by (auto simp: X tab_simps tab_get_None_iff [of sc_case_id] case_events_def case_history_def latest_perception_def case_perceptions_def)
  with w show "\<exists>m. get_state env X j = Inl (ValueError m)"
    by (simp add: get_state_def rebuild_current_def Let_def state_view_def projection_def empty_buckets_def check_world_revision_def
        raise_if_def)
  from g w show "\<exists>m. get_state_at_revision env X j 0 = Inl (ValueError m)"
    by (simp add: get_state_at_revision_def raise_if_def history_view_def empty_history_def state_view_def empty_buckets_def
        check_world_revision_def)
qed

text \<open>
  Claim C21: reads fail on what the services wrote in one case only. When every case is created without a knowledge revision or at
  one that is not negative, and every perception is recorded at one that is not negative, then for a case there is, the current state
  can be read, and so can the state at each revision up to the current one; every other revision is refused with a
  \<^verbatim>\<open>ValueError\<close>. A case created at a negative knowledge revision, which creation does not refuse, cannot be read: its first
  state, and its current state as long as nothing is recorded for it, raise a \<^verbatim>\<open>ValueError\<close>.
\<close>

theorem state_reads_total:
  assumes "(case_step rd)\<^sup>*\<^sup>* empty_case_store S" "cv_fromisoformat env = rd"
    "tab_get ic_case_id i (iv_cases S) = Some c"
  shows "(\<exists>T st. get_state env S i = Inr (T, st))
    \<and> (if 0 \<le> v \<and> v \<le> int (ic_current_revision c)
       then \<exists>st. get_state_at_revision env S i v = Inr st \<and> int (is_case_revision st) = v
       else \<exists>m. get_state_at_revision env S i v = Inl (ValueError m))
    \<and> (\<forall>j now q X d w. create_case S j now q = Inr (X, d) \<longrightarrow> case_perceptions S j = []
        \<longrightarrow> cq_initial_knowledge_revision q = Some w \<longrightarrow> w < 0
        \<longrightarrow> (\<exists>m. get_state env X j = Inl (ValueError m)) \<and> (\<exists>m. get_state_at_revision env X j 0 = Inl (ValueError m)))"
proof -
  note inv = reached_inv [OF assms(1)]
  have "\<exists>st. get_state_at_revision env S i v = Inr st \<and> int (is_case_revision st) = v"
    if "0 \<le> v" "v \<le> int (ic_current_revision c)"
  proof -
    from that obtain n where n: "v = int n" "n \<le> ic_current_revision c" by (metis nonneg_int_cases of_nat_le_iff)
    from state_at_revision_total [OF inv assms(3) n(2) assms(2)] obtain h st t where
      "history_view c n t h = Inr st" "get_state_at_revision env S i (int n) = Inr st" by blast
    with state_view_proj(2) [of _ st] n(1) show ?thesis by (fastforce simp: history_view_def)
  qed
  moreover have "\<exists>m. get_state_at_revision env S i v = Inl (ValueError m)" if "\<not> (0 \<le> v \<and> v \<le> int (ic_current_revision c))"
  proof -
    from that have "v < 0 \<or> int (ic_current_revision c) < v" by linarith
    with assms(3) show ?thesis by (simp add: get_state_at_revision_def raise_if_def)
  qed
  moreover have "\<forall>j now q X d w. create_case S j now q = Inr (X, d) \<longrightarrow> case_perceptions S j = []
        \<longrightarrow> cq_initial_knowledge_revision q = Some w \<longrightarrow> w < 0
        \<longrightarrow> (\<exists>m. get_state env X j = Inl (ValueError m)) \<and> (\<exists>m. get_state_at_revision env X j 0 = Inl (ValueError m))"
    using negative_case_unreadable [OF inv] by blast
  ultimately show ?thesis using get_state_total [OF inv assms(3), of env] by auto
qed

theorem state_reads_total_witness:
  "(\<exists>st. get_state_at_revision (sample_call_env ''y'') sample_patched ''c'' 1 = Inr st)
     \<and> (\<exists>m. get_state_at_revision (sample_call_env ''y'') sample_patched ''c'' 2 = Inl (ValueError m))
     \<and> (\<exists>X d m. create_case sample_patched ''n'' 5 (sample_case_request\<lparr>cq_initial_knowledge_revision := Some (- 1)\<rparr>) = Inr (X, d)
          \<and> get_state (sample_call_env ''y'') X ''n'' = Inl (ValueError m))"
proof -
  have "map_option ic_current_revision (tab_get ic_case_id ''c'' (iv_cases sample_patched)) = Some 1" by code_simp
  then obtain c where c: "tab_get ic_case_id ''c'' (iv_cases sample_patched) = Some c" "ic_current_revision c = 1" by auto
  let ?q = "sample_case_request\<lparr>cq_initial_knowledge_revision := Some (- 1)\<rparr>"
  have "\<not> isl (create_case sample_patched ''n'' 5 ?q)" by code_simp
  then obtain X d where x: "create_case sample_patched ''n'' 5 ?q = Inr (X, d)" by (metis isl_def obj_sumE prod.exhaust)
  have p: "case_perceptions sample_patched ''n'' = []" by code_simp
  note w = state_reads_total [OF sample_patched_reach sample_env_rd [of "''y''"] c(1), where v = 1]
    state_reads_total [OF sample_patched_reach sample_env_rd [of "''y''"] c(1), where v = 2]
  have "\<exists>m. get_state (sample_call_env ''y'') X ''n'' = Inl (ValueError m)"
    using w(1) [THEN conjunct2, THEN conjunct2, rule_format, OF x p, of "- 1"] by simp
  moreover have "\<exists>st. get_state_at_revision (sample_call_env ''y'') sample_patched ''c'' 1 = Inr st"
    "\<exists>m. get_state_at_revision (sample_call_env ''y'') sample_patched ''c'' 2 = Inl (ValueError m)"
    using w(1) [THEN conjunct2, THEN conjunct1] w(2) [THEN conjunct2, THEN conjunct1] c(2) by auto
  ultimately show ?thesis using x by blast
qed

lemma item_view_key: "item_view b = Inr x \<Longrightarrow> item_key x = (bi_proposition b, bi_target_ref b)"
  by (auto simp: item_key_def dest: item_view_proj)

text \<open>The views of a bucket have the keys of the bucket.\<close>

lemma bucket_view_keys:
  assumes "all_from es ty d" "map_res item_view (map snd d) = Inr xs"
  shows "map item_key xs = map fst d"
proof -
  have "list_all2 (\<lambda>p x. item_view (snd p) = Inr x) d xs"
    using assms(2) by (simp add: res_simps list_all2_map1)
  then have "list_all2 (\<lambda>p x. fst p = item_key x) d xs"
  proof (rule list.rel_mono_strong)
    fix p x assume p: "p \<in> set d" "item_view (snd p) = Inr x"
    from p(1) assms(1) have "fst p = (bi_proposition (snd p), bi_target_ref (snd p))"
      by (auto simp: all_from_def item_from_def item_of_event_def)
    with item_view_key [OF p(2)] show "fst p = item_key x" by simp
  qed
  then show ?thesis by (simp add: list_all2_conv_all_nth list_eq_iff_nth_eq)
qed

text \<open>The views of a state have the keys of the replayed buckets, and a confirmed one comes from an event.\<close>

lemma get_state_keys:
  assumes "state_inv rd S" "get_state env S i = Inr (T, st)"
  shows "map item_key (is_confirmed st) = map fst (bk_confirmed (fold replay_event (case_history S i) empty_buckets))"
    "map item_key (is_unknowns st) = map fst (bk_unknowns (fold replay_event (case_history S i) empty_buckets))"
    "map item_key (is_confirmed st @ is_tentative st @ is_conflicts st @ is_unknowns st)
      = fact_keys (fold replay_event (case_history S i) empty_buckets)"
proof -
  let ?b = "fold replay_event (case_history S i) empty_buckets"
  note f = buckets_from_replay [of "case_history S i", unfolded buckets_from_def]
  from assms have "map item_key (is_confirmed st) = map fst (bk_confirmed ?b)
    \<and> map item_key (is_tentative st) = map fst (bk_tentative ?b)
    \<and> map item_key (is_conflicts st) = map fst (bk_conflicts ?b)
    \<and> map item_key (is_unknowns st) = map fst (bk_unknowns ?b)"
    by (rule get_state_buckets) (use f bucket_view_keys in blast)
  then show "map item_key (is_confirmed st) = map fst (bk_confirmed ?b)"
    "map item_key (is_unknowns st) = map fst (bk_unknowns ?b)"
    "map item_key (is_confirmed st @ is_tentative st @ is_conflicts st @ is_unknowns st) = fact_keys ?b"
    by (simp_all add: fact_keys_def)
qed

lemma confirmed_item_event:
  assumes "state_inv rd S" "get_state env S i = Inr (T, st)" "x \<in> set (is_confirmed st)"
  obtains e where "e \<in> set (case_history S i)" "ce_event_type e = FACT_CONFIRMED" "sound_confirmation e"
    "si_evidence_refs x = ce_evidence_refs e" "si_updated_revision x = ce_case_revision e"
    "ce_proposition e = Some (si_proposition x)" "ce_target_ref e = si_target_ref x"
    "parse_relation (jget (ce_payload e) ''reasoning_relation'') = Inr (si_reasoning_relation x)"
proof -
  let ?d = "bk_confirmed (fold replay_event (case_history S i) empty_buckets)"
  from assms(1,2) have "map_res item_view (map snd ?d) = Inr (is_confirmed st)" by (rule get_state_buckets)
  then have "list_all2 (\<lambda>p y. item_view (snd p) = Inr y) ?d (is_confirmed st)" by (simp add: res_simps list_all2_map1)
  with assms(3) obtain q where q: "q \<in> set ?d" "item_view (snd q) = Inr x"
    unfolding list_all2_conv_all_nth by (metis in_set_conv_nth)
  from q(1) buckets_from_replay [of "case_history S i"] obtain e p where
    e: "e \<in> set (case_history S i)" "ce_event_type e = FACT_CONFIRMED" "ce_proposition e = Some p" "snd q = item_of_event e p"
    by (auto simp: buckets_from_def all_from_def item_from_def)
  have "sound_confirmation e" using case_history_wf [OF assms(1) e(1)] e(2) by (simp add: wf_event_def)
  with e item_view_proj [OF q(2)] show ?thesis by (intro that [of e]) (simp_all add: item_of_event_def)
qed

text \<open>
  Claim C15: a case never holds two opinions on a fact: a proposition about a target stands in at most one of the confirmed,
  tentative, conflicting and unknown facts of the state, and there once.
\<close>

theorem facts_exclusive:
  assumes "(case_step rd)\<^sup>*\<^sup>* empty_case_store S" "get_state env S i = Inr (T, st)"
  shows "distinct (map item_key (is_confirmed st @ is_tentative st @ is_conflicts st @ is_unknowns st))"
  unfolding get_state_keys(3) [OF reached_inv [OF assms(1)] assms(2)] by (rule distinct_keys_replay)

theorem facts_exclusive_witness:
  "\<exists>(st :: investigation_state). map item_key (is_confirmed st) = [(''p'', Some ''object:b'')]
     \<and> (''p'', Some ''object:b'') \<notin> item_key ` set (is_unknowns st)"
proof -
  have "map_sum id (\<lambda>(T, st). map item_key (is_confirmed st)) (get_state (sample_call_env ''y'') sample_patched ''c'')
      = Inr [(''p'', Some ''object:b'')]" by code_simp
  moreover obtain T st where g: "get_state (sample_call_env ''y'') sample_patched ''c'' = Inr (T, st)"
    using sample_case_read by blast
  ultimately have k: "map item_key (is_confirmed st) = [(''p'', Some ''object:b'')]" by simp
  have "distinct (map item_key (is_confirmed st @ is_tentative st @ is_conflicts st @ is_unknowns st))"
    by (rule facts_exclusive [OF sample_patched_reach g])
  with k have "(''p'', Some ''object:b'') \<notin> item_key ` set (is_unknowns st)" by simp
  with k show ?thesis by (intro exI [of _ st] conjI)
qed

text \<open>
  Claim C16: every confirmed fact of a state cites evidence, does not rest on an inferred relation and was confirmed by an event of the
  case that carries the proposition, the target and the evidence.
\<close>

theorem confirmed_facts_cited:
  assumes "(case_step rd)\<^sup>*\<^sup>* empty_case_store S" "get_state env S i = Inr (T, st)" "x \<in> set (is_confirmed st)"
  shows "si_evidence_refs x \<noteq> []
    \<and> (case si_reasoning_relation x of None \<Rightarrow> True | Some r \<Rightarrow> rr_semantics r \<noteq> INFERRED)
    \<and> (\<exists>e \<in> set (iv_events S). ce_case_id e = i \<and> ce_event_type e = FACT_CONFIRMED
         \<and> ce_proposition e = Some (si_proposition x) \<and> ce_target_ref e = si_target_ref x
         \<and> ce_evidence_refs e = si_evidence_refs x \<and> ce_case_revision e = si_updated_revision x)"
proof -
  from reached_inv [OF assms(1)] assms(2,3) obtain e where e: "e \<in> set (case_history S i)" "ce_event_type e = FACT_CONFIRMED"
    "sound_confirmation e" "si_evidence_refs x = ce_evidence_refs e" "si_updated_revision x = ce_case_revision e"
    "ce_proposition e = Some (si_proposition x)" "ce_target_ref e = si_target_ref x"
    "parse_relation (jget (ce_payload e) ''reasoning_relation'') = Inr (si_reasoning_relation x)"
    by (rule confirmed_item_event)
  then show ?thesis
    by (intro conjI bexI [of _ e]) (auto simp: sound_confirmation_def case_history_def)
qed

theorem confirmed_facts_cited_witness:
  "\<exists>(st :: investigation_state) x. is_confirmed st = [x] \<and> si_evidence_refs x \<noteq> []"
proof -
  have "map_sum id (\<lambda>(T, st). length (is_confirmed st)) (get_state (sample_call_env ''y'') sample_patched ''c'')
      = Inr 1" by code_simp
  moreover obtain T st where g: "get_state (sample_call_env ''y'') sample_patched ''c'' = Inr (T, st)"
    using sample_case_read by blast
  ultimately have "length (is_confirmed st) = Suc 0" by simp
  then obtain x where x: "is_confirmed st = [x]" by (auto simp: length_Suc_conv)
  with confirmed_facts_cited [OF sample_patched_reach g, of x] show ?thesis by auto
qed

section \<open>Patches\<close>

lemma get_state_again:
  assumes "get_state env S i = Inr (T, st)"
  shows "get_state env' T i = Inr (T, st)"
proof -
  from assms obtain c where c: "tab_get ic_case_id i (iv_cases S) = Some c" by (auto simp: get_state_def res_simps)
  have i: "ic_case_id c = i" using tab_get_key [OF c] .
  show ?thesis
  proof (cases "tab_get sc_case_id i (iv_currents S)")
    case None
    with assms c i show ?thesis
      by (auto simp: get_state_def rebuild_current_def Let_def res_simps tab_simps projection_def)
  next
    case (Some m)
    with assms c show ?thesis by (auto simp: get_state_def res_simps)
  qed
qed

lemma get_state_stored:
  assumes "tab_get ic_case_id i (iv_cases S) = Some c" "tab_get sc_case_id i (iv_currents S) = Some m" "state_view m = Inr st"
  shows "get_state env S i = Inr (S, st)"
  using assms by (simp add: get_state_def)

text \<open>The events of a patch are in the order the replay looks them up.\<close>

lemma patch_events_written:
  assumes "patch_events S i pid = []" "iv_events U = iv_events S @ es" "\<forall>e \<in> set es. ce_case_id e = i"
    "\<forall>e \<in> set es. ce_patch_id e \<in> {None, Some pid}"
    "map ce_operation_index (filter (\<lambda>e. ce_patch_id e \<noteq> None) es) = map Some [0..<n]"
  shows "patch_events U i pid = filter (\<lambda>e. ce_patch_id e \<noteq> None) es"
proof -
  let ?ix = "\<lambda>e. case ce_operation_index e of None \<Rightarrow> 0 | Some i \<Rightarrow> i" and ?fs = "filter (\<lambda>e. ce_patch_id e \<noteq> None) es"
  have "set (patch_events S i pid) = set (filter (\<lambda>e. ce_case_id e = i \<and> ce_patch_id e = Some pid) (iv_events S))"
    unfolding patch_events_def by (rule set_sort)
  with assms(1) have "filter (\<lambda>e. ce_case_id e = i \<and> ce_patch_id e = Some pid) (iv_events S) = []"
    by (metis empty_set set_empty)
  moreover have "filter (\<lambda>e. ce_case_id e = i \<and> ce_patch_id e = Some pid) es = ?fs"
    using assms(3,4) by (intro filter_cong) auto
  ultimately have p: "patch_events U i pid = sort_key (\<lambda>e. (?ix e, ce_case_revision e)) ?fs"
    by (simp add: patch_events_def assms(2))
  have ix: "map ?ix ?fs = [0..<n]"
    using arg_cong [OF assms(5), of "map (\<lambda>x. case x of None \<Rightarrow> 0 | Some i \<Rightarrow> i)"] by (simp add: comp_def)
  have "sorted_wrt (<) (map ?ix ?fs)" unfolding ix by (rule sorted_wrt_upt)
  then have "sorted_wrt (\<lambda>a b. ?ix a < ?ix b) ?fs" by (simp add: sorted_wrt_map)
  then have "sorted_wrt (\<lambda>a b. (?ix a, ce_case_revision a) \<le> (?ix b, ce_case_revision b)) ?fs"
    by (rule sorted_wrt_mono_rel [rotated]) (simp add: less_eq_prod_def)
  then have "sorted (map (\<lambda>e. (?ix e, ce_case_revision e)) ?fs)" by (simp add: sorted_map)
  then show ?thesis unfolding p by (rule sort_key_id_if_sorted)
qed

text \<open>What a written patch leaves.\<close>

lemma apply_patch_result:
  assumes inv: "state_inv rd S" and v: "validate_patch_identity p = Inr p"
    and a: "apply_patch env kb S p reason = Inr (U, r)" and n: "\<not> wr_replay r"
  obtains c c' where "tab_get ic_case_id (sp_case_id p) (iv_cases S) = Some c" "int (ic_current_revision c) = sp_base_case_revision p"
    "tab_get ic_case_id (sp_case_id p) (iv_cases U) = Some c'" "\<not> case_frozen c'"
    "ic_current_revision c' = ic_current_revision c + length (wr_events r)"
    "iv_events U = iv_events S @ wr_events r" "\<forall>e \<in> set (wr_events r). ce_patch_id e \<in> {None, Some (sp_patch_id p)}"
    "patch_events U (sp_case_id p) (sp_patch_id p) = filter (\<lambda>e. ce_patch_id e \<noteq> None) (wr_events r)"
    "length (filter (\<lambda>e. ce_patch_id e \<noteq> None) (wr_events r)) = length (sp_operations p)"
    "get_state env' U (sp_case_id p) = Inr (U, wr_state r)"
  using inv v a
proof (cases rule: apply_patch_cases)
  case replay
  with n show ?thesis by simp
next
  case (written c T c' m)
  note k = state_inv_case [OF inv written(2)]
  have c: "tab_get ic_case_id (ic_case_id c) (iv_cases S) = Some c" and nf: "\<not> case_frozen c"
    using written(2,3) k(1) by (simp_all add: case_frozen_def)
  have w: "iv_events U = iv_events S @ wr_events r" "tab_get ic_case_id (sp_case_id p) (iv_cases U) = Some c'"
    "tab_get sc_case_id (sp_case_id p) (iv_currents U) = Some m"
    using commit_write [OF inv c written(7) _ _ written(10)] written(8,9) nf k(1) by simp_all
  have ids: "\<forall>e \<in> set (wr_events r). ce_case_id e = sp_case_id p" using written(7) k(1) by (auto simp: writes_def)
  have rev: "ic_current_revision c' = ic_current_revision c + length (wr_events r)" using written(7) by (auto simp: writes_def)
  have "length (filter (\<lambda>e. ce_patch_id e \<noteq> None) (wr_events r)) = length (sp_operations p)"
    using arg_cong [OF written(13), of length] by simp
  with that [OF written(2,4) w(2) written(14) rev w(1) written(12)
      patch_events_written [OF written(5) w(1) ids written(12,13)] _ get_state_stored [OF w(2,3) written(11)]]
  show ?thesis by blast
qed

text \<open>
  Claim C14: retrying a patch is safe: whatever the outcome of the first call was (written or recognised as a retry), applying the same patch
  again, with any knowledge and at any time before another write, writes nothing, reports a replay and returns the same state and
  the events of the patch, without those that resolve evidence needs.
\<close>

theorem patch_applied_once:
  assumes "(case_step rd)\<^sup>*\<^sup>* empty_case_store S" "validate_patch_identity p = Inr p"
    "apply_patch env kb S p reason = Inr (U, r)"
  shows "apply_patch env' kb' U p reason'
    = Inr (U, \<lparr>wr_state = wr_state r, wr_events = filter (\<lambda>e. ce_patch_id e \<noteq> None) (wr_events r), wr_replay = True\<rparr>)"
proof (cases "wr_replay r")
  case True
  note inv = reached_inv [OF assms(1)]
  from inv assms(2,3) True have g: "get_state env S (sp_case_id p) = Inr (U, wr_state r)"
    and e: "wr_events r = patch_events S (sp_case_id p) (sp_patch_id p)" "wr_events r \<noteq> []"
    by (auto elim: apply_patch_cases)
  from assms(3) obtain c where c: "lock_case S (sp_case_id p) = Inr c" by (auto simp: apply_patch_def res_simps)
  note gs = get_state_D [OF inv g]
  have "patch_events U (sp_case_id p) (sp_patch_id p) = wr_events r" using e(1) gs(3) by (simp add: patch_events_def)
  moreover have "lock_case U (sp_case_id p) = Inr c" using c gs(5) by (simp add: lock_case_def)
  moreover have "filter (\<lambda>e. ce_patch_id e \<noteq> None) (wr_events r) = wr_events r"
    by (rule filter_True) (simp add: e(1) patch_events_def)
  ultimately show ?thesis using e(2) get_state_again [OF g] by (simp add: apply_patch_def replayed_def)
next
  case False
  from reached_inv [OF assms(1)] assms(2,3) False obtain c' where
    c': "tab_get ic_case_id (sp_case_id p) (iv_cases U) = Some c'" "\<not> case_frozen c'"
    and e: "patch_events U (sp_case_id p) (sp_patch_id p) = filter (\<lambda>e. ce_patch_id e \<noteq> None) (wr_events r)"
      "length (filter (\<lambda>e. ce_patch_id e \<noteq> None) (wr_events r)) = length (sp_operations p)"
    and g: "get_state env' U (sp_case_id p) = Inr (U, wr_state r)"
    by (rule apply_patch_result)
  have "sp_operations p \<noteq> []" using assms(2) by (simp add: validate_patch_identity_iff)
  with e have "patch_events U (sp_case_id p) (sp_patch_id p) \<noteq> []" by (metis length_0_conv)
  moreover have "lock_case U (sp_case_id p) = Inr c'" using c' by (simp add: lock_case_def case_frozen_def raise_if_def)
  ultimately show ?thesis using e(1) g by (simp add: apply_patch_def replayed_def)
qed

theorem patch_applied_once_witness:
  "map_sum id (\<lambda>(U, r). (U = sample_patched, wr_replay r))
     (apply_patch (sample_call_env ''y'') sample_knowledge sample_patched (sample_patch ''q'' 0) ''r'') = Inr (True, True)"
  unfolding patch_applied_once [OF sample_created_reach sample_patch_valid sample_applied_ok] by simp

lemma sample_closed_step: "case_step rd sample_patched sample_closed"
proof (rule case_step.close)
  have "\<not> isl (close_case sample_patched ''c'' 9)" by code_simp
  then show "close_case sample_patched ''c'' 9 = Inr (sample_closed, snd (projr (close_case sample_patched ''c'' 9)))"
    unfolding sample_closed_def by (metis not_isl_projr prod.collapse)
qed

text \<open>
  Claim C13: of two patches made against the same revision of a case at most one is written: once the first is in, then in every
  state that the services reach afterwards the second, whatever it says and whoever sends it, and with any knowledge, is refused with
  a revision conflict, or, when the case has been closed or cancelled by then, as a patch of an immutable case. The one exception is
  an id that the history of the case already holds, which can only be answered as a replay: the call returns the events of that id
  and leaves the cases, the events and the evidence needs as they are.
\<close>

theorem concurrent_patch_rejected:
  assumes "(case_step rd)\<^sup>*\<^sup>* empty_case_store S" "validate_patch_identity p = Inr p"
    "apply_patch env kb S p reason = Inr (U, r)" "\<not> wr_replay r" "(case_step rd)\<^sup>*\<^sup>* U X"
    "sp_case_id q = sp_case_id p" "sp_base_case_revision q = sp_base_case_revision p"
  shows "\<exists>d. tab_get ic_case_id (sp_case_id p) (iv_cases X) = Some d
    \<and> (if ic_status d \<in> {''closed'', ''cancelled''} then \<exists>m. apply_patch env' kb' X q reason' = Inl (StatePatchRejected m)
       else if patch_events X (sp_case_id q) (sp_patch_id q) = []
         then \<exists>m. apply_patch env' kb' X q reason' = Inl (StateRevisionConflict m)
         else \<forall>T s. apply_patch env' kb' X q reason' = Inr (T, s) \<longrightarrow> wr_replay s
           \<and> wr_events s = patch_events X (sp_case_id q) (sp_patch_id q)
           \<and> iv_events T = iv_events X \<and> iv_cases T = iv_cases X \<and> iv_needs T = iv_needs X)"
proof -
  from reached_inv [OF assms(1)] assms(2-4) obtain c c' where
    b: "tab_get ic_case_id (sp_case_id p) (iv_cases S) = Some c" "int (ic_current_revision c) = sp_base_case_revision p"
    and c': "tab_get ic_case_id (sp_case_id p) (iv_cases U) = Some c'"
      "ic_current_revision c' = ic_current_revision c + length (wr_events r)"
    and e: "length (filter (\<lambda>e. ce_patch_id e \<noteq> None) (wr_events r)) = length (sp_operations p)"
    by (rule apply_patch_result [where env' = env])
  have U: "(case_step rd)\<^sup>*\<^sup>* empty_case_store U"
    using assms(1) case_step.patch [OF assms(2,3)] by (rule rtranclp.rtrancl_into_rtrancl)
  have X: "state_inv rd X" using reached_inv [OF rtranclp_trans [OF U assms(5)]] .
  from case_steps_grow [OF assms(5) reached_inv [OF U]] c'(1) obtain d where
    d: "tab_get ic_case_id (sp_case_id p) (iv_cases X) = Some d" "ic_current_revision c' \<le> ic_current_revision d"
    by (auto simp: store_grows_def)
  have "0 < length (sp_operations p)" using assms(2) by (simp add: validate_patch_identity_iff)
  with e have "0 < length (wr_events r)" by (metis length_filter_le order_less_le_trans)
  with c'(2) d(2) have "ic_current_revision c < ic_current_revision d" by linarith
  then have stale: "int (ic_current_revision d) \<noteq> sp_base_case_revision q" using b(2) assms(7) by linarith
  have l: "lock_case X (sp_case_id q) = raise_if (ic_status d \<in> {''closed'', ''cancelled''})
      (StatePatchRejected (''case state is immutable in lifecycle='' @ ic_status d)) (Inr d)"
    using d(1) assms(6) by (simp add: lock_case_def)
  have kept: "wr_replay s \<and> wr_events s = es \<and> iv_events T = iv_events X \<and> iv_cases T = iv_cases X \<and> iv_needs T = iv_needs X"
    if "replayed env' X i es = Inr (T, s)" for i es T s
    using that get_state_D(3-5) [OF X] by (auto simp: replayed_def res_simps)
  show ?thesis
  proof (intro exI [of _ d] conjI d(1))
    show "if ic_status d \<in> {''closed'', ''cancelled''} then \<exists>m. apply_patch env' kb' X q reason' = Inl (StatePatchRejected m)
       else if patch_events X (sp_case_id q) (sp_patch_id q) = []
         then \<exists>m. apply_patch env' kb' X q reason' = Inl (StateRevisionConflict m)
         else \<forall>T s. apply_patch env' kb' X q reason' = Inr (T, s) \<longrightarrow> wr_replay s
           \<and> wr_events s = patch_events X (sp_case_id q) (sp_patch_id q)
           \<and> iv_events T = iv_events X \<and> iv_cases T = iv_cases X \<and> iv_needs T = iv_needs X"
      using l stale by (auto simp: apply_patch_def require_revision_def raise_if_def dest!: kept)
  qed
qed

theorem concurrent_patch_rejected_witness:
  "(\<exists>m. apply_patch (sample_call_env ''y'') sample_knowledge sample_patched (sample_patch ''z'' 0) ''r''
     = Inl (StateRevisionConflict m))
   \<and> (\<exists>m. apply_patch (sample_call_env ''y'') sample_knowledge sample_closed (sample_patch ''z'' 0) ''r''
     = Inl (StatePatchRejected m))"
proof (rule conjI)
  have n: "\<not> wr_replay (snd (projr sample_applied))" by code_simp
  have open_case: "map_option ic_status (tab_get ic_case_id ''c'' (iv_cases sample_patched)) = Some ''active''"
    "patch_events sample_patched ''c'' ''z'' = []" by code_simp+
  have closed: "map_option ic_status (tab_get ic_case_id ''c'' (iv_cases sample_closed)) = Some ''closed''" by code_simp
  note w = concurrent_patch_rejected [OF sample_created_reach sample_patch_valid sample_applied_ok n,
      where q = "sample_patch ''z'' 0" and env' = "sample_call_env ''y''" and kb' = sample_knowledge and reason' = "''r''"]
  show "\<exists>m. apply_patch (sample_call_env ''y'') sample_knowledge sample_patched (sample_patch ''z'' 0) ''r''
     = Inl (StateRevisionConflict m)"
    using w [OF rtranclp.rtrancl_refl] open_case by (auto simp: sample_patch_def)
  show "\<exists>m. apply_patch (sample_call_env ''y'') sample_knowledge sample_closed (sample_patch ''z'' 0) ''r''
     = Inl (StatePatchRejected m)"
    using w [OF r_into_rtranclp [where r = "case_step sample_fromisoformat", OF sample_closed_step]] closed by (auto simp: sample_patch_def)
qed

text \<open>
  Claim C20: a closed or cancelled case is settled: nothing the services do later changes its row, its events, its evidence needs or
  any state at a revision of it.
\<close>

theorem closed_case_frozen:
  assumes "(case_step rd)\<^sup>*\<^sup>* empty_case_store S" "(case_step rd)\<^sup>*\<^sup>* S T"
    "tab_get ic_case_id i (iv_cases S) = Some c" "ic_status c \<in> {''closed'', ''cancelled''}"
  shows "tab_get ic_case_id i (iv_cases T) = Some c
    \<and> filter (\<lambda>e. ce_case_id e = i) (iv_events T) = filter (\<lambda>e. ce_case_id e = i) (iv_events S)
    \<and> filter (\<lambda>n. nd_case_id n = i) (iv_needs T) = filter (\<lambda>n. nd_case_id n = i) (iv_needs S)
    \<and> (\<forall>env v. get_state_at_revision env T i v = get_state_at_revision env S i v)"
proof -
  note inv = reached_inv [OF assms(1)]
  from case_steps_grow [OF assms(2) inv] assms(3,4)
  have f: "tab_get ic_case_id i (iv_cases T) = Some c" "case_history T i = case_history S i"
    "filter (\<lambda>n. nd_case_id n = i) (iv_needs T) = filter (\<lambda>n. nd_case_id n = i) (iv_needs S)"
    by (auto simp: store_grows_def case_frozen_def)
  have "case_events T i = case_events S i" using f(2) by (simp add: case_events_def case_history_def)
  then have "get_state_at_revision env T i v = get_state_at_revision env S i v" for env v
    using f(1) assms(3) by (simp add: get_state_at_revision_def)
  with f show ?thesis by (simp add: case_history_def)
qed

theorem closed_case_frozen_witness:
  "\<exists>c. tab_get ic_case_id ''c'' (iv_cases sample_closed) = Some c \<and> ic_status c = ''closed''
     \<and> (\<forall>T. case_step sample_fromisoformat sample_closed T \<longrightarrow> tab_get ic_case_id ''c'' (iv_cases T) = Some c)"
proof -
  have "map_option ic_status (tab_get ic_case_id ''c'' (iv_cases sample_closed)) = Some ''closed''" by code_simp
  then obtain c where c: "tab_get ic_case_id ''c'' (iv_cases sample_closed) = Some c" "ic_status c = ''closed''" by auto
  have "(case_step sample_fromisoformat)\<^sup>*\<^sup>* empty_case_store sample_closed"
    using sample_patched_reach sample_closed_step by (rule rtranclp.rtrancl_into_rtrancl)
  note f = closed_case_frozen [OF this r_into_rtranclp c(1)]
  have "\<forall>T. case_step sample_fromisoformat sample_closed T \<longrightarrow> tab_get ic_case_id ''c'' (iv_cases T) = Some c"
    using f c(2) by blast
  with c show ?thesis by blast
qed

section \<open>What a knowledge change leaves\<close>

text \<open>The confirmed facts that a history shows.\<close>

lemma get_state_confirmed:
  assumes "state_inv rd S" "get_state env S i = Inr (T, st)"
  shows "map_res item_view (map snd (bk_confirmed (fold replay_event (case_history S i) empty_buckets))) = Inr (is_confirmed st)"
  using assms by (rule get_state_buckets)

lemma process_cases_effect:
  assumes "state_inv rd S" "process_cases envs kb change is S = Inr (T, impacts)" "distinct is"
  shows "wi_case_id ` set impacts \<subseteq> set is
    \<and> (\<forall>i. i \<notin> set is \<longrightarrow> case_history T i = case_history S i \<and> case_needs T i = case_needs S i)
    \<and> (\<forall>i \<in> wi_case_id ` set impacts. \<exists>es xs. case_history T i = case_history S i @ es
         \<and> map_res item_view (map snd (bk_confirmed (fold replay_event (case_history S i) empty_buckets))) = Inr xs
         \<and> invalidates es (item_key ` set (stale_confirmed_items kb xs change)) \<and> no_stale_need kb change (case_needs T i))"
  using assms
proof (induction "is" arbitrary: S impacts)
  case (Cons j "is")
  show ?case
  proof (cases "\<exists>c. tab_get ic_case_id j (iv_cases S) = Some c \<and> ic_status c \<notin> {''closed'', ''cancelled''}")
    case True
    with Cons.prems(2) obtain U im ims where a: "apply_case (envs j) kb S j change = Inr (U, im)"
      and r: "process_cases envs kb change is U = Inr (T, ims)" and im: "impacts = im # ims"
      by (auto simp: res_simps)
    from Cons.prems(1) a obtain S1 st es where e: "get_state (envs j) S j = Inr (S1, st)" "state_inv rd U" "store_grows S U"
      "case_effect j S U es" "invalidates es (item_key ` set (stale_confirmed_items kb (is_confirmed st) change))"
      "no_stale_need kb change (case_needs U j)" "wi_case_id im = j"
      by (rule apply_case_effect)
    have d: "j \<notin> set is" "distinct is" using Cons.prems(3) by simp_all
    note h = Cons.IH [OF e(2) r d(2)]
    have same: "case_history U i = case_history S i" "case_needs U i = case_needs S i" if "i \<noteq> j" for i
      using e(4) that by (simp_all add: case_effect_def)
    have "case_history T j = case_history S j @ es" "case_needs T j = case_needs U j"
      using h d(1) e(4) by (simp_all add: case_effect_def)
    then have "\<exists>es xs. case_history T j = case_history S j @ es
         \<and> map_res item_view (map snd (bk_confirmed (fold replay_event (case_history S j) empty_buckets))) = Inr xs
         \<and> invalidates es (item_key ` set (stale_confirmed_items kb xs change)) \<and> no_stale_need kb change (case_needs T j)"
      using e(5,6) get_state_confirmed [OF Cons.prems(1) e(1)] by (intro exI [of _ es] exI [of _ "is_confirmed st"]) simp
    moreover have "i \<noteq> j" if "i \<in> wi_case_id ` set ims" for i using h d(1) that by blast
    ultimately show ?thesis using h same e(7) by (simp add: im) (metis (no_types, lifting) imageI subset_insertI2)
  next
    case False
    with Cons.prems(2) have "process_cases envs kb change is S = Inr (T, impacts)"
      by (auto split: option.splits if_splits)
    with Cons.IH [OF Cons.prems(1)] Cons.prems(3) show ?thesis by auto
  qed
qed simp

text \<open>Removing keys from a bucket removes the items with these keys from its views.\<close>

lemma bucket_view_filter:
  assumes "all_from es ty d" "map_res item_view (map snd d) = Inr xs" "distinct (map fst d)"
  shows "map_res item_view (map snd (filter (\<lambda>(k, _). k \<notin> item_key ` set (filter P xs)) d)) = Inr (filter (\<lambda>x. \<not> P x) xs)"
proof -
  let ?ks = "item_key ` set (filter P xs)"
  note keys = bucket_view_keys [OF assms(1,2)]
  have "inj_on item_key (set xs)" using assms(3) keys by (metis distinct_map)
  then have p: "item_key x \<in> ?ks \<longleftrightarrow> P x" if "x \<in> set xs" for x using that by (auto dest: inj_onD)
  have "list_all2 (\<lambda>p x. item_view (snd p) = Inr x) d xs"
    using assms(2) by (simp add: res_simps list_all2_map1)
  with keys have "list_all2 (\<lambda>p x. item_view (snd p) = Inr x \<and> fst p = item_key x) d xs"
    by (simp add: list_all2_conv_all_nth list_eq_iff_nth_eq)
  then have "list_all2 (\<lambda>p x. item_view (snd p) = Inr x) (filter (\<lambda>p. fst p \<notin> K) d) (filter (\<lambda>x. item_key x \<notin> K) xs)" for K
    by (induction rule: list_all2_induct) auto
  from this [of ?ks] have "list_all2 (\<lambda>p x. item_view (snd p) = Inr x)
      (filter (\<lambda>(k, _). k \<notin> ?ks) d) (filter (\<lambda>x. item_key x \<notin> ?ks) xs)" by (simp add: case_prod_beta')
  moreover have "filter (\<lambda>x. item_key x \<notin> ?ks) xs = filter (\<lambda>x. \<not> P x) xs" using p by (intro filter_cong) auto
  ultimately show ?thesis by (simp add: res_simps list_all2_map1)
qed

text \<open>
  Claim C7: a knowledge change is carried into every case it is routed to: afterwards the confirmed facts are those of before that
  the change does not make stale, unchanged and in the same order; every stale one stands among the unknown facts; and no
  resolved evidence need of the case rests on what changed.
\<close>

theorem world_change_settles:
  assumes "(case_step rd)\<^sup>*\<^sup>* empty_case_store S" "process_change envs kb S change = Inr (T, impacts)"
    "i \<in> wi_case_id ` set impacts" "get_state env S i = Inr (S', before)" "get_state env' T i = Inr (T', after)"
  shows "is_confirmed after = filter (\<lambda>x. \<not> stale_item kb change x) (is_confirmed before)
    \<and> (\<forall>x \<in> set (is_confirmed before). stale_item kb change x \<longrightarrow> item_key x \<in> item_key ` set (is_unknowns after))
    \<and> (\<forall>n \<in> set (iv_needs T). nd_case_id n = i \<and> nd_status n = NEED_RESOLVED \<longrightarrow> \<not> stale_need kb change n)"
proof -
  note inv = reached_inv [OF assms(1)]
  from assms(2) obtain U ids' where r: "relevant_loop envs kb change (iv_cases S) S = Inr (U, ids')"
    and p: "process_cases envs kb change (sorted_set ids') U = Inr (T, impacts)"
    by (auto simp: process_change_def relevant_case_ids_def res_simps)
  have U: "state_inv rd U" "case_history U i = case_history S i"
    using relevant_loop_inv [OF inv r] by (simp_all add: case_history_def)
  let ?b = "fold replay_event (case_history S i) empty_buckets"
  from process_cases_effect [OF U(1) p distinct_sorted_set] assms(3) U(2) obtain es xs where
    e: "case_history T i = case_history S i @ es" "map_res item_view (map snd (bk_confirmed ?b)) = Inr xs"
      "invalidates es (item_key ` set (stale_confirmed_items kb xs change))" "no_stale_need kb change (case_needs T i)"
    by auto
  note T = process_change_inv(1) [OF inv assms(2)]
  have xs: "xs = is_confirmed before" using e(2) get_state_confirmed [OF inv assms(4)] by simp
  let ?ks = "item_key ` set (filter (stale_item kb change) (is_confirmed before))"
  have b: "bk_confirmed (fold replay_event (case_history T i) empty_buckets) = filter (\<lambda>(k, _). k \<notin> ?ks) (bk_confirmed ?b)"
    "?ks \<subseteq> fst ` set (bk_unknowns (fold replay_event (case_history T i) empty_buckets))"
    using e(3) by (simp_all add: e(1) xs invalidates_def stale_confirmed_items_def)
  have "distinct (map fst (bk_confirmed ?b))"
    using distinct_keys_replay [of "case_history S i"] by (simp add: fact_keys_def)
  with buckets_from_replay [of "case_history S i"] e(2) xs
  have "map_res item_view (map snd (filter (\<lambda>(k, _). k \<notin> ?ks) (bk_confirmed ?b)))
      = Inr (filter (\<lambda>x. \<not> stale_item kb change x) (is_confirmed before))"
    by (intro bucket_view_filter [where ty = FACT_CONFIRMED and es = "case_history S i"]) (simp_all add: buckets_from_def)
  with get_state_confirmed [OF T assms(5)] b(1)
  have "is_confirmed after = filter (\<lambda>x. \<not> stale_item kb change x) (is_confirmed before)" by simp
  moreover have "?ks \<subseteq> item_key ` set (is_unknowns after)"
    using b(2) arg_cong [OF get_state_keys(2) [OF T assms(5)], of set] by simp
  ultimately show ?thesis using e(4) by (auto simp: no_stale_need_def case_needs_def)
qed

theorem world_change_settles_witness:
  "\<exists>(T :: case_store) T' (after :: investigation_state).
     get_state (sample_call_env ''z'') T ''c'' = Inr (T', after) \<and> is_confirmed after = []
       \<and> (''p'', Some ''object:b'') \<in> item_key ` set (is_unknowns after)"
proof -
  let ?r = "process_change (\<lambda>_. sample_call_env ''y'') sample_knowledge sample_patched (sample_change [''k''])"
  obtain S' before where b: "get_state (sample_call_env ''y'') sample_patched ''c'' = Inr (S', before)"
    using sample_case_read by blast
  have i: "map_sum id (\<lambda>(T, ims). map wi_case_id ims) ?r = Inr [''c'']" by code_simp
  have s: "map_sum id (\<lambda>(T, st). map (\<lambda>x. (item_key x, stale_item sample_knowledge (sample_change [''k'']) x)) (is_confirmed st))
      (get_state (sample_call_env ''y'') sample_patched ''c'') = Inr [((''p'', Some ''object:b''), True)]" by code_simp
  have g: "\<not> isl (res_bind ?r (\<lambda>(T, _). get_state (sample_call_env ''z'') T ''c''))" by code_simp
  from i obtain T ims where r: "?r = Inr (T, ims)" "map wi_case_id ims = [''c'']" by (cases ?r) auto
  from g r have "\<not> isl (get_state (sample_call_env ''z'') T ''c'')" by simp
  then obtain T' after where a: "get_state (sample_call_env ''z'') T ''c'' = Inr (T', after)"
    by (metis not_isl_projr prod.collapse)
  have "''c'' \<in> wi_case_id ` set ims" using arg_cong [OF r(2), of set] by simp
  from world_change_settles [OF sample_patched_reach r(1) this b a]
  have w: "is_confirmed after = filter (\<lambda>x. \<not> stale_item sample_knowledge (sample_change [''k'']) x) (is_confirmed before)"
    "\<forall>x \<in> set (is_confirmed before). stale_item sample_knowledge (sample_change [''k'']) x
        \<longrightarrow> item_key x \<in> item_key ` set (is_unknowns after)"
    by blast+
  from s b obtain x where x: "is_confirmed before = [x]" "item_key x = (''p'', Some ''object:b'')"
      "stale_item sample_knowledge (sample_change [''k'']) x" by auto
  from w x have "is_confirmed after = []" "(''p'', Some ''object:b'') \<in> item_key ` set (is_unknowns after)" by auto
  with a show ?thesis by (intro exI [of _ T] exI [of _ T'] exI [of _ after] conjI)
qed

text \<open>
  The prefilter is narrower than the rule it routes to: a case whose confirmed fact is about a changed object, but
  which does not target the object and cites no evidence that depends on it, is not routed, although the fact is stale.
\<close>

lemma stale_fact_not_routed:
  "map_sum id (\<lambda>(T, st). map (stale_item sample_knowledge (sample_change [])) (is_confirmed st))
     (get_state (sample_call_env ''y'') sample_patched ''c'') = Inr [True]
   \<and> map_sum id (\<lambda>(T, ims). length ims)
     (process_change (\<lambda>_. sample_call_env ''y'') sample_knowledge sample_patched (sample_change [])) = Inr 0"
proof (rule conjI)
  show "map_sum id (\<lambda>(T, st). map (stale_item sample_knowledge (sample_change [])) (is_confirmed st))
     (get_state (sample_call_env ''y'') sample_patched ''c'') = Inr [True]" by code_simp
  show "map_sum id (\<lambda>(T, ims). length ims)
     (process_change (\<lambda>_. sample_call_env ''y'') sample_knowledge sample_patched (sample_change [])) = Inr 0" by code_simp
qed

text \<open>
  A patch whose id is that of a decision of the case is answered as a retry: nothing is written, and the event returned is the
  decision.
\<close>

lemma patch_id_of_decision:
  "map_sum id (\<lambda>(T, r). (length (iv_events T), map ce_event_type (wr_events r), wr_replay r))
     (res_bind (commit_decision (sample_call_env ''x'') sample_created (sample_decision ''q'')) (\<lambda>(T, _).
        apply_patch (sample_call_env ''y'') sample_knowledge T (sample_patch ''q'' 1) ''r''))
   = Inr (1, [DECISION_CHANGED], True)"
  by code_simp

text \<open>
  Reopening a need that is open returns the latest opening event of the case, which may be that of another need.
\<close>

lemma reopen_returns_other_event:
  "map_sum id (\<lambda>(T, r). (nd_need_id (nr_need r), jget (ce_payload (nr_event r)) ''need_id''))
     (res_bind (open_evidence_need (sample_call_env ''x'') sample_knowledge sample_created (sample_need ''m'' 0)) (\<lambda>(T, _).
      res_bind (open_evidence_need (sample_call_env ''x'') sample_knowledge T (sample_need ''n'' 1)) (\<lambda>(U, _).
        reopen_evidence_need (sample_call_env ''y'') U ''m'' 2 ''k'' ''w'' ''r'')))
   = Inr (''m'', JStr ''n'')"
  by code_simp

end
