(* ===== verification/Watch_Wake.thy ===== *)
theory Watch_Wake
  imports Case_Properties Execution_Runtime Budget_Governor Policy_Engine
begin

text \<open>
  \<^verbatim>\<open>investigation/runtime/watch.py\<close> and \<^verbatim>\<open>apps/watch_runtime.py\<close>: a case under watch waits until the knowledge
  it rests on changes; a change that wakes the case queues one fresh task run, made from the last run that watched it, if
  policy permits, with a budget and an execution envelope of its own. This is where cases, tasks, policy, budget and executions
  meet, so the state is the product of their tables.
\<close>

section \<open>State, requests and results\<close>

record wake_world =
  wk_tasks :: task_store
  wk_cases :: case_store
  wk_budget :: budget_ledger
  wk_executions :: execution_table

datatype watch_wake_disposition =
    WAKE_QUEUED | WAKE_REPLAY | NOT_ACTIVATED | NO_WATCH_TEMPLATE | TEMPLATE_NOT_TERMINAL
  | TEMPLATE_NOT_WAITING | POLICY_DENIED | POLICY_OBLIGATION_UNSATISFIED | POLICY_INDETERMINATE

record watch_wake_result =
  ww_case_id :: string
  ww_trigger_ref :: string
  ww_disposition :: watch_wake_disposition
  ww_run_id :: "string option"
  ww_policy_decision_ref :: "string option"
  ww_policy_authorization :: "string option"

record watch_wake_admission =
  wa_allowed :: bool
  wa_denial_reason :: "watch_wake_disposition option"
  wa_policy_decision_ref :: "string option"
  wa_policy_authorization :: "string option"
  wa_budget_ref :: "string option"
  wa_execution_envelope_ref :: "string option"
  wa_capability_envelope_ref :: "string option"

text \<open>The arguments of \<^verbatim>\<open>WatchWakeAdmissionPort.admit\<close>.\<close>

record wake_request =
  wq_contract :: task_contract
  wq_template_run_id :: string
  wq_template_execution_envelope_ref :: string
  wq_previous_context :: context_manifest
  wq_case_id :: string
  wq_trigger_ref :: string
  wq_run_id :: string
  wq_world_revision :: nat

type_synonym watch_port = "wake_world \<Rightarrow> wake_request \<Rightarrow> (wake_world \<times> watch_wake_admission) res"

text \<open>
  The digests, the readings of the clock in the order of the calls, the event identifiers, and the environment of the case state.
\<close>

record wake_env =
  we_hash :: hash_env
  we_show_time :: "int \<Rightarrow> string"
  we_now :: "nat \<Rightarrow> int"
  we_event_id :: "nat \<Rightarrow> string"
  we_call :: call_env
  we_stream_name :: string

section \<open>Admission of a wake-up\<close>

record watch_admission =
  wm_policy :: policy_engine
  wm_episode_timeout_seconds :: int
  wm_fulfilled_obligation_kinds :: "string list"

definition new_watch_admission :: "policy_engine \<Rightarrow> int \<Rightarrow> string list \<Rightarrow> watch_admission res" where
  "new_watch_admission policy timeout fulfilled =
     raise_if (timeout \<le> 0) (ValueError ''episode_timeout_seconds must be positive'')
     (Inr \<lparr>wm_policy = policy, wm_episode_timeout_seconds = timeout, wm_fulfilled_obligation_kinds = fulfilled\<rparr>)"

definition watch_policy_request :: "wake_request \<Rightarrow> policy_request" where
  "watch_policy_request q = \<lparr>pq_decision_point = WATCH_RESUME, pq_principal = tc_principal (wq_contract q),
     pq_action = ''resume_watch'', pq_resource = ''case:'' @ wq_case_id q,
     pq_context = [(''task_contract_id'', JStr (tc_task_contract_id (wq_contract q))),
       (''task_run_id'', JStr (wq_run_id q)), (''case_id'', JStr (wq_case_id q)),
       (''template_run_id'', JStr (wq_template_run_id q)), (''trigger_ref'', JStr (wq_trigger_ref q)),
       (''world_revision'', JInt (int (wq_world_revision q)))]\<rparr>"

definition watch_denied :: "watch_wake_disposition \<Rightarrow> string option \<Rightarrow> authorization \<Rightarrow> watch_wake_admission" where
  "watch_denied reason decision_ref' a = \<lparr>wa_allowed = False, wa_denial_reason = Some reason,
     wa_policy_decision_ref = decision_ref', wa_policy_authorization = Some (authorization_value a),
     wa_budget_ref = None, wa_execution_envelope_ref = None, wa_capability_envelope_ref = None\<rparr>"

definition watch_envelope ::
  "watch_admission \<Rightarrow> int \<Rightarrow> wake_request \<Rightarrow> execution_envelope \<Rightarrow> string \<Rightarrow> execution_envelope" where
  "watch_envelope A now q template decision_ref' =
     \<lparr>ee_execution_id = ''execution:'' @ wq_run_id q, ee_parent_execution_id = None,
      ee_task_contract_id = tc_task_contract_id (wq_contract q), ee_task_run_id = wq_run_id q,
      ee_case_id = Some (wq_case_id q), ee_role_revision = cm_role_ref (wq_previous_context q),
      ee_context_manifest_revision = 1, ee_execution_profile = EP_WATCH,
      ee_capability_scope = ee_capability_scope template,
      ee_deadline_at = Aware (now + wm_episode_timeout_seconds A * 1000000),
      ee_budget_ref = ''budget:'' @ wq_run_id q, ee_policy_revision = tc_policy_revision (wq_contract q),
      ee_identity_scope = ee_identity_scope template, ee_network_policy = ee_network_policy template,
      ee_side_effect_policy = ee_side_effect_policy template,
      ee_sandbox_profile_revision = ee_sandbox_profile_revision template,
      ee_trace_context = dict_put ''watch_policy_decision_ref'' (JStr decision_ref')
        (dict_put ''watch_previous_run_id'' (JStr (wq_template_run_id q))
        (dict_put ''watch_trigger_ref'' (JStr (wq_trigger_ref q)) (ee_trace_context template)))\<rparr>"

text \<open>After a permit: the budget account and the execution of the new run, from those of the template.\<close>

definition watch_controls ::
  "wake_env \<Rightarrow> watch_admission \<Rightarrow> wake_world \<Rightarrow> wake_request \<Rightarrow> string \<Rightarrow> wake_world res" where
  "watch_controls env A W q decision_ref' =
     res_bind (snapshot (wk_budget W) (cm_budget_ref (wq_previous_context q))) (\<lambda>template_budget.
     res_bind (get_execution (wk_executions W) (wq_template_execution_envelope_ref q)) (\<lambda>template_execution.
     res_bind (validate_quantities (bs_limits template_budget)) (\<lambda>limits.
     res_bind (create_account (we_hash env) (wk_budget W) (''budget:'' @ wq_run_id q) limits
         (Some (wq_run_id q)) None (we_now env 0)) (\<lambda>(_, budget).
     res_bind (validate_envelope (watch_envelope A (we_now env 1) q template_execution decision_ref')) (\<lambda>envelope.
     res_bind (create_execution (wk_executions W) envelope (we_now env 2)) (\<lambda>(_, executions).
     Inr (W\<lparr>wk_budget := budget, wk_executions := executions\<rparr>)))))))"

definition watch_admit :: "wake_env \<Rightarrow> watch_admission \<Rightarrow> watch_port" where
  "watch_admit env A W q =
     (if pe_policy_revision (wm_policy A) \<noteq> tc_policy_revision (wq_contract q)
      then Inr (W, watch_denied POLICY_INDETERMINATE None INDETERMINATE)
      else
        res_bind (Policy_Engine.validate_request (watch_policy_request q)) (\<lambda>pq.
        res_bind (evaluate (wm_policy A) pq) (\<lambda>d.
        let dref = decision_ref (we_hash env) (we_show_time env) (wm_policy A) pq d in
        if pd_authorization d \<noteq> PERMIT then
          Inr (W, watch_denied (if pd_authorization d = INDETERMINATE then POLICY_INDETERMINATE else POLICY_DENIED)
            (Some dref) (pd_authorization d))
        else if \<not> obligations_satisfied d (set (wm_fulfilled_obligation_kinds A)) then
          Inr (W, watch_denied POLICY_OBLIGATION_UNSATISFIED (Some dref) (pd_authorization d))
        else
          res_bind (watch_controls env A W q dref) (\<lambda>T.
          Inr (T, \<lparr>wa_allowed = True, wa_denial_reason = None, wa_policy_decision_ref = Some dref,
            wa_policy_authorization = Some (authorization_value (pd_authorization d)),
            wa_budget_ref = Some (''budget:'' @ wq_run_id q),
            wa_execution_envelope_ref = Some (''execution:'' @ wq_run_id q),
            wa_capability_envelope_ref = Some (''capability:watch:'' @ wq_run_id q)\<rparr>)))))"

section \<open>Waking\<close>

definition watch_wake_run_id :: "hash_env \<Rightarrow> string \<Rightarrow> string \<Rightarrow> string" where
  "watch_wake_run_id H case_id trigger_ref = uuid5_url H (''secfusion:watch-wake:'' @ case_id @ '':'' @ trigger_ref)"

text \<open>The latest run of the case whose contract, which the query joins, is of the kind \<^verbatim>\<open>WATCH_INCIDENT\<close>.\<close>

definition is_watch_run :: "task_store \<Rightarrow> string \<Rightarrow> run_row \<Rightarrow> bool" where
  "is_watch_run s case_id r \<longleftrightarrow> rr_case_id r = Some case_id
     \<and> (case tab_get cr_task_contract_version_id (rr_task_contract_version_id r) (ts_contracts s) of
          None \<Rightarrow> False | Some row \<Rightarrow> cr_task_kind row = WATCH_INCIDENT)"

definition watch_template :: "task_store \<Rightarrow> string \<Rightarrow> run_row option" where
  "watch_template s case_id =
     (case rev (sort_key (\<lambda>r. (rr_created_at r, rr_run_id r)) (filter (is_watch_run s case_id) (ts_runs s))) of
        [] \<Rightarrow> None | r # _ \<Rightarrow> Some r)"

definition wake_outcome ::
  "string \<Rightarrow> string \<Rightarrow> watch_wake_disposition \<Rightarrow> string option \<Rightarrow> watch_wake_result" where
  "wake_outcome case_id trigger_ref d run_id = \<lparr>ww_case_id = case_id, ww_trigger_ref = trigger_ref,
     ww_disposition = d, ww_run_id = run_id, ww_policy_decision_ref = None, ww_policy_authorization = None\<rparr>"

definition wake_manifest ::
  "context_manifest \<Rightarrow> string \<Rightarrow> string \<Rightarrow> nat \<Rightarrow> nat \<Rightarrow> string \<Rightarrow> string \<Rightarrow> context_manifest" where
  "wake_manifest previous run_id case_id world_revision case_revision capability_ref budget_ref' =
     \<lparr>cm_context_id = ''context:watch-wake:'' @ run_id, cm_context_revision = 1,
      cm_parent_context_id = Some (cm_context_id previous), cm_task_contract_ref = cm_task_contract_ref previous,
      cm_role_ref = cm_role_ref previous, cm_case_ref = cm_case_ref previous,
      cm_knowledge_revision = Some world_revision,
      cm_investigation_state_ref = Some (''case:'' @ case_id @ ''@'' @ show_nat case_revision),
      cm_enrichment_state_refs = [], cm_evidence_refs = cm_evidence_refs previous,
      cm_object_refs = cm_object_refs previous, cm_relation_refs = cm_relation_refs previous,
      cm_retrieval_invocation_refs = [], cm_query_intent = None, cm_query_intent_model_ref = None,
      cm_trajectory_checkpoint_ref = cm_trajectory_checkpoint_ref previous, cm_skill_selection_refs = [],
      cm_experience_pattern_refs = [], cm_policy_context_ref = cm_policy_context_ref previous,
      cm_capability_envelope_ref = capability_ref, cm_budget_ref = budget_ref', cm_cache_hint = None\<rparr>"

definition investigation_role :: role_profile where
  "investigation_role = the (map_of canonical_roles ''InvestigationRole'')"

text \<open>
  The end of \<^verbatim>\<open>spawn_for_world_change\<close>: the run is created and queued. The identifier is given, so none is drawn.
\<close>

definition queue_wake ::
  "wake_env \<Rightarrow> wake_world \<Rightarrow> task_contract \<Rightarrow> context_manifest \<Rightarrow> string \<Rightarrow> string \<Rightarrow> string \<Rightarrow> string
     \<Rightarrow> wake_world res" where
  "queue_wake env W contract manifest execution_ref case_id run_id trigger_ref =
     res_bind (create_task_run (we_hash env) (wk_tasks W) contract manifest investigation_role execution_ref
         (we_stream_name env) (Some case_id) None (Some run_id) ''watch-wake-runtime'' (we_now env 3)
         run_id (we_event_id env 0)) (\<lambda>(_, s).
     res_bind (transition_task_run s run_id QUEUED (''watch-wake:'' @ trigger_ref)
         (''watch-wake-queued:'' @ trigger_ref) (we_stream_name env) ''watch-wake-runtime'' None None
         (we_now env 4) (we_event_id env 1)) (\<lambda>(_, t).
     Inr (W\<lparr>wk_tasks := t\<rparr>)))"

text \<open>From the template on.\<close>

definition wake_from_template ::
  "wake_env \<Rightarrow> watch_port \<Rightarrow> wake_world \<Rightarrow> world_change_impact \<Rightarrow> string \<Rightarrow> string \<Rightarrow> run_row
     \<Rightarrow> (wake_world \<times> watch_wake_result) res" where
  "wake_from_template env admit W impact trigger_ref run_id template =
     res_bind (res_of_option (RuntimeError ''WATCH template references missing contract/context version'')
       (tab_get cr_task_contract_version_id (rr_task_contract_version_id template) (ts_contracts (wk_tasks W)))) (\<lambda>crow.
     res_bind (res_of_option (RuntimeError ''WATCH template references missing contract/context version'')
       (tab_get cx_context_manifest_version_id (rr_context_manifest_version_id template) (ts_contexts (wk_tasks W)))) (\<lambda>xrow.
     let contract = cr_contract_json crow; previous = cx_manifest_json xrow; case_id = wi_case_id impact in
     res_bind (admit W \<lparr>wq_contract = contract, wq_template_run_id = rr_run_id template,
         wq_template_execution_envelope_ref = rr_execution_envelope_ref template, wq_previous_context = previous,
         wq_case_id = case_id, wq_trigger_ref = trigger_ref, wq_run_id = run_id,
         wq_world_revision = wi_world_revision impact\<rparr>) (\<lambda>(V, admission).
     let outcome = (\<lambda>d. \<lparr>ww_case_id = case_id, ww_trigger_ref = trigger_ref, ww_disposition = d,
         ww_run_id = Some run_id, ww_policy_decision_ref = wa_policy_decision_ref admission,
         ww_policy_authorization = wa_policy_authorization admission\<rparr>) in
     if \<not> wa_allowed admission then
       Inr (V, outcome (case wa_denial_reason admission of None \<Rightarrow> POLICY_DENIED | Some d \<Rightarrow> d))
     else
       (case (wa_budget_ref admission, wa_execution_envelope_ref admission, wa_capability_envelope_ref admission) of
          (Some budget_ref', Some execution_ref, Some capability_ref) \<Rightarrow>
            res_bind (get_state (we_call env) (wk_cases V) case_id) (\<lambda>(cases, st).
            res_bind (queue_wake env (V\<lparr>wk_cases := cases\<rparr>) contract
                (wake_manifest previous run_id case_id (wi_world_revision impact) (is_case_revision st) capability_ref budget_ref')
                execution_ref case_id run_id trigger_ref) (\<lambda>X.
            Inr (X, outcome WAKE_QUEUED)))
        | _ \<Rightarrow> Inl (RuntimeError ''WATCH admission permitted without execution-control refs'')))))"

definition spawn_for_world_change ::
  "wake_env \<Rightarrow> watch_port \<Rightarrow> wake_world \<Rightarrow> world_change_impact \<Rightarrow> string \<Rightarrow> (wake_world \<times> watch_wake_result) res" where
  "spawn_for_world_change env admit W impact trigger_ref =
     (let case_id = wi_case_id impact; outcome = wake_outcome case_id trigger_ref in
      if \<not> wi_case_activated impact then Inr (W, outcome NOT_ACTIVATED None)
      else
        res_bind (res_of_option (case_not_found case_id) (tab_get ic_case_id case_id (iv_cases (wk_cases W)))) (\<lambda>c.
        if ic_status c \<noteq> ''active'' then Inr (W, outcome NOT_ACTIVATED None)
        else
          let run_id = watch_wake_run_id (we_hash env) case_id trigger_ref in
          if get_run (wk_tasks W) run_id \<noteq> None then Inr (W, outcome WAKE_REPLAY (Some run_id))
          else
            (case watch_template (wk_tasks W) case_id of
               None \<Rightarrow> Inr (W, outcome NO_WATCH_TEMPLATE None)
             | Some template \<Rightarrow>
                 if \<not> terminal_status (rr_status template) then
                   Inr (W, outcome TEMPLATE_NOT_TERMINAL (Some (rr_run_id template)))
                 else if rr_stop_reason template \<noteq> Some ''waiting_for_world_update'' then
                   Inr (W, outcome TEMPLATE_NOT_WAITING (Some (rr_run_id template)))
                 else wake_from_template env admit W impact trigger_ref run_id template)))"

text \<open>
  The part of the worker's handler of \<^verbatim>\<open>knowledge.changed\<close> that concerns cases: the change is carried into the cases and, when background
  agents are enabled, each case it moved is woken, in one transaction.
\<close>

fun wake_impacts ::
  "(string \<Rightarrow> wake_env) \<Rightarrow> (string \<Rightarrow> watch_port) \<Rightarrow> world_change_impact list \<Rightarrow> string \<Rightarrow> wake_world
     \<Rightarrow> (wake_world \<times> watch_wake_result list) res" where
  "wake_impacts envs admits [] trigger_ref W = Inr (W, [])"
| "wake_impacts envs admits (impact # impacts) trigger_ref W =
     res_bind (spawn_for_world_change (envs (wi_case_id impact)) (admits (wi_case_id impact)) W impact trigger_ref) (\<lambda>(V, r).
     res_bind (wake_impacts envs admits impacts trigger_ref V) (\<lambda>(X, rs). Inr (X, r # rs)))"

definition knowledge_changed ::
  "(string \<Rightarrow> wake_env) \<Rightarrow> (string \<Rightarrow> watch_port) \<Rightarrow> knowledge \<Rightarrow> bool \<Rightarrow> wake_world \<Rightarrow> knowledge_change
     \<Rightarrow> (wake_world \<times> watch_wake_result list) res" where
  "knowledge_changed envs admits kb background_llm_enabled W change =
     res_bind (process_change (\<lambda>i. we_call (envs i)) kb (wk_cases W) change) (\<lambda>(cases, impacts).
     if background_llm_enabled then
       wake_impacts envs admits impacts (''knowledge-revision:'' @ show_nat (kc_revision change)) (W\<lparr>wk_cases := cases\<rparr>)
     else Inr (W\<lparr>wk_cases := cases\<rparr>, []))"

section \<open>A sample watch\<close>

text \<open>
  Run \<open>w\<close> has watched case \<open>c\<close>, whose target is object \<open>a\<close>, and ended waiting for the world; the case waits for a
  change of the object, which is delivered twice, the case waiting again in between.
\<close>

definition sample_watch_contract :: task_contract where
  "sample_watch_contract = (sample_contract ''cw'' default_delegation_ceiling INTERNAL_STATE)\<lparr>tc_task_kind := WATCH_INCIDENT\<rparr>"

definition sample_watch_manifest :: context_manifest where
  "sample_watch_manifest =
     (sample_manifest ''xw'' 1 ''cw@1'')\<lparr>cm_role_ref := ''InvestigationRole@1'', cm_case_ref := Some ''c''\<rparr>"

definition sample_watch_tasks :: task_store where
  "sample_watch_tasks =
     (let s0 = state_of (create_task_run sample_hash empty_store sample_watch_contract sample_watch_manifest
            investigation_role ''ex'' ''tasks'' (Some ''c'') None (Some ''w'') ''svc'' 10 ''fresh'' ''e1w'') empty_store;
          s1 = state_of (sample_move s0 ''w'' QUEUED None ''k1'') s0;
          s2 = state_of (sample_move s1 ''w'' RUNNING None ''k2'') s1
      in state_of (sample_move s2 ''w'' COMPLETED (Some ''waiting_for_world_update'') ''k3'') s2)"

definition sample_watch_world :: wake_world where
  "sample_watch_world = \<lparr>wk_tasks = sample_watch_tasks,
     wk_cases = fst (projr (wait_case sample_patched ''c'')),
     wk_budget = \<lparr>bg_accounts = [new_account ''b'' [(''tokens'', 10)] (Some ''w'') None 0], bg_reservations = []\<rparr>,
     wk_executions = [\<lparr>xr_execution_id = ''ex'', xr_parent_execution_id = None, xr_task_run_id = ''w'',
        xr_envelope_json = sample_envelope ''ex'' None [''search''] 100, xr_status = ''completed'', xr_stop_reason = Some ''done'',
        xr_created_at = 0, xr_started_at = Some 1, xr_finished_at = Some 2\<rparr>]\<rparr>"

definition sample_wake_env :: "string \<Rightarrow> wake_env" where
  "sample_wake_env x = \<lparr>we_hash = sample_hash, we_show_time = show_int, we_now = int,
     we_event_id = (\<lambda>n. x @ show_nat n), we_call = sample_call_env x, we_stream_name = ''tasks''\<rparr>"

definition sample_watch_admission :: watch_admission where
  "sample_watch_admission = \<lparr>wm_policy = sample_engine
       [(sample_rule ''a'' ''case:*'' (Some PERMIT) [])\<lparr>rl_decision_points := [WATCH_RESUME]\<rparr>],
     wm_episode_timeout_seconds = 300, wm_fulfilled_obligation_kinds = []\<rparr>"

definition sample_object_change :: knowledge_change where
  "sample_object_change = \<lparr>kc_revision = 2, kc_object_ids = [''a''], kc_claim_ids = [], kc_relation_ids = [],
     kc_cause_observation_id = None\<rparr>"

definition sample_delivery :: "string \<Rightarrow> wake_world \<Rightarrow> (wake_world \<times> watch_wake_result list) res" where
  "sample_delivery x W = knowledge_changed (\<lambda>_. sample_wake_env x) (\<lambda>_. watch_admit (sample_wake_env x) sample_watch_admission)
     sample_knowledge True W sample_object_change"

definition sample_waiting_again :: "wake_world \<Rightarrow> wake_world" where
  "sample_waiting_again W = W\<lparr>wk_cases := fst (projr (wait_case (wk_cases W) ''c''))\<rparr>"

definition sample_impact :: world_change_impact where
  "sample_impact = \<lparr>wi_case_id = ''c'', wi_world_revision = 2, wi_case_activated = True, wi_affected_propositions = [],
     wi_opened_or_reopened_need_ids = []\<rparr>"

definition sample_active_world :: wake_world where
  "sample_active_world = sample_watch_world\<lparr>wk_cases := sample_patched\<rparr>"

definition sample_spawn :: "(wake_world \<times> watch_wake_result) res" where
  "sample_spawn = spawn_for_world_change (sample_wake_env ''u'')
     (watch_admit (sample_wake_env ''u'') sample_watch_admission) sample_active_world sample_impact ''t''"

section \<open>The interface to admission\<close>

text \<open>
  What waking relies on: admission leaves tasks and cases alone, writes nothing when it refuses, and does not report a wake-up as a reason
  to refuse one.
\<close>

locale watch_admission_port =
  fixes admit :: watch_port
  assumes tables_kept: "admit W q = Inr (V, a) \<Longrightarrow> wk_tasks V = wk_tasks W \<and> wk_cases V = wk_cases W"
    and denial_writes_nothing: "admit W q = Inr (V, a) \<Longrightarrow> \<not> wa_allowed a \<Longrightarrow> V = W"
    and denial_reasons: "admit W q = Inr (V, a) \<Longrightarrow> \<not> wa_allowed a \<Longrightarrow>
      wa_denial_reason a \<notin> {Some WAKE_QUEUED, Some WAKE_REPLAY}"
begin

text \<open>The two ways a wake-up ends: nothing is written, or a run is queued.\<close>

lemma spawn_cases:
  assumes "spawn_for_world_change env admit W impact trigger_ref = Inr (X, r)"
  obtains (quiet) "X = W" "ww_disposition r \<noteq> WAKE_QUEUED" "ww_case_id r = wi_case_id impact"
      "ww_disposition r = WAKE_REPLAY \<Longrightarrow> get_run (wk_tasks W) (watch_wake_run_id (we_hash env) (wi_case_id impact) trigger_ref) \<noteq> None"
    | (queued) template crow xrow q V a budget_ref' execution_ref capability_ref cases st where
      "ww_disposition r = WAKE_QUEUED" "ww_case_id r = wi_case_id impact"
      "ww_run_id r = Some (watch_wake_run_id (we_hash env) (wi_case_id impact) trigger_ref)"
      "watch_template (wk_tasks W) (wi_case_id impact) = Some template" "terminal_status (rr_status template)"
      "rr_stop_reason template = Some ''waiting_for_world_update''"
      "get_run (wk_tasks W) (watch_wake_run_id (we_hash env) (wi_case_id impact) trigger_ref) = None"
      "tab_get cr_task_contract_version_id (rr_task_contract_version_id template) (ts_contracts (wk_tasks W)) = Some crow"
      "tab_get cx_context_manifest_version_id (rr_context_manifest_version_id template) (ts_contexts (wk_tasks W)) = Some xrow"
      "q = \<lparr>wq_contract = cr_contract_json crow, wq_template_run_id = rr_run_id template,
         wq_template_execution_envelope_ref = rr_execution_envelope_ref template, wq_previous_context = cx_manifest_json xrow,
         wq_case_id = wi_case_id impact, wq_trigger_ref = trigger_ref,
         wq_run_id = watch_wake_run_id (we_hash env) (wi_case_id impact) trigger_ref,
         wq_world_revision = wi_world_revision impact\<rparr>"
      "admit W q = Inr (V, a)" "wa_allowed a" "wa_budget_ref a = Some budget_ref'"
      "wa_execution_envelope_ref a = Some execution_ref" "wa_capability_envelope_ref a = Some capability_ref"
      "get_state (we_call env) (wk_cases V) (wi_case_id impact) = Inr (cases, st)"
      "queue_wake env (V\<lparr>wk_cases := cases\<rparr>) (cr_contract_json crow)
         (wake_manifest (cx_manifest_json xrow) (wq_run_id q) (wi_case_id impact) (wi_world_revision impact)
           (is_case_revision st) capability_ref budget_ref') execution_ref (wi_case_id impact) (wq_run_id q) trigger_ref = Inr X"
proof -
  let ?i = "wi_case_id impact" and ?rid = "watch_wake_run_id (we_hash env) (wi_case_id impact) trigger_ref"
  consider (early) "X = W" "ww_disposition r \<notin> {WAKE_QUEUED, WAKE_REPLAY}" "ww_case_id r = ?i"
    | (replay) "X = W" "ww_disposition r = WAKE_REPLAY" "ww_case_id r = ?i" "get_run (wk_tasks W) ?rid \<noteq> None"
    | (template) t where "watch_template (wk_tasks W) ?i = Some t" "terminal_status (rr_status t)"
        "rr_stop_reason t = Some ''waiting_for_world_update''" "get_run (wk_tasks W) ?rid = None"
        "wake_from_template env admit W impact trigger_ref ?rid t = Inr (X, r)"
    using assms
    by (auto simp: spawn_for_world_change_def Let_def res_simps wake_outcome_def split: if_splits option.splits)
  then show ?thesis
  proof cases
    case (template t)
    let ?q = "\<lambda>crow xrow. \<lparr>wq_contract = cr_contract_json crow, wq_template_run_id = rr_run_id t,
         wq_template_execution_envelope_ref = rr_execution_envelope_ref t, wq_previous_context = cx_manifest_json xrow,
         wq_case_id = ?i, wq_trigger_ref = trigger_ref, wq_run_id = ?rid, wq_world_revision = wi_world_revision impact\<rparr>"
    from template(5) obtain crow xrow V a where
      c: "tab_get cr_task_contract_version_id (rr_task_contract_version_id t) (ts_contracts (wk_tasks W)) = Some crow"
        "tab_get cx_context_manifest_version_id (rr_context_manifest_version_id t) (ts_contexts (wk_tasks W)) = Some xrow"
      and a: "admit W (?q crow xrow) = Inr (V, a)"
      by (auto simp: wake_from_template_def Let_def res_simps)
    show ?thesis
    proof (cases "wa_allowed a")
      case False
      with template(5) c a have "X = V" "ww_case_id r = ?i"
        "ww_disposition r = (case wa_denial_reason a of None \<Rightarrow> POLICY_DENIED | Some d \<Rightarrow> d)"
        by (auto simp: wake_from_template_def Let_def)
      with denial_writes_nothing [OF a False] denial_reasons [OF a False] show ?thesis
        by (intro quiet) (auto split: option.splits)
    next
      case True
      with template(5) c a obtain b e p cases st where
        "wa_budget_ref a = Some b" "wa_execution_envelope_ref a = Some e" "wa_capability_envelope_ref a = Some p"
        "get_state (we_call env) (wk_cases V) ?i = Inr (cases, st)"
        "queue_wake env (V\<lparr>wk_cases := cases\<rparr>) (cr_contract_json crow)
           (wake_manifest (cx_manifest_json xrow) ?rid ?i (wi_world_revision impact) (is_case_revision st) p b)
           e ?i ?rid trigger_ref = Inr X"
        "ww_disposition r = WAKE_QUEUED" "ww_case_id r = ?i" "ww_run_id r = Some ?rid"
        by (auto simp: wake_from_template_def Let_def res_simps split: option.splits)
      with template(1-4) c a True show ?thesis by (intro queued [where q = "?q crow xrow"]) simp_all
    qed
  qed (auto intro: quiet)
qed

end

section \<open>What a wake-up writes\<close>

text \<open>The context row that a stored manifest is found under: the manifest, or one stored earlier under its key with the same hash.\<close>

lemma persisted_context:
  assumes "persist_context_manifest E s m now = Inr (p, t)" "context_from_ref t (context_manifest_ref m) = Inr x"
  shows "tab_get context_key (cm_context_id m, cm_context_revision m) (ts_contexts t) = Some x"
    "cx_manifest_json x = m \<or> tab_get context_key (cm_context_id m, cm_context_revision m) (ts_contexts s) = Some x
       \<and> cx_content_hash x = digest E (dump_context_manifest m)"
proof -
  show x: "tab_get context_key (cm_context_id m, cm_context_revision m) (ts_contexts t) = Some x"
    using assms(2) unfolding context_manifest_ref_def by (rule context_from_ref_ok)
  with assms(1) show "cx_manifest_json x = m \<or> tab_get context_key (cm_context_id m, cm_context_revision m) (ts_contexts s) = Some x
       \<and> cx_content_hash x = digest E (dump_context_manifest m)"
    by (auto simp: persist_context_manifest_def Let_def res_simps tab_simps split: option.splits if_splits)
qed

lemma queue_wake_run:
  assumes "queue_wake env W c m e i rid tr = Inr X"
  obtains r where "get_run (wk_tasks X) rid = Some r" "rr_status r = QUEUED" "rr_case_id r = Some i"
    "rr_execution_envelope_ref r = e" "rr_task_contract_id r = tc_task_contract_id c"
    "rr_task_contract_revision r = tc_contract_revision c" "rr_parent_run_id r = None"
    "rr_context_id r = cm_context_id m" "store_evolves (wk_tasks W) (wk_tasks X)" "X = W\<lparr>wk_tasks := wk_tasks X\<rparr>"
    "\<exists>x. tab_get context_key (rr_context_id r, rr_context_revision r) (ts_contexts (wk_tasks X)) = Some x
       \<and> rr_context_manifest_version_id r = cx_context_manifest_version_id x
       \<and> (cx_manifest_json x = m
          \<or> tab_get context_key (rr_context_id r, rr_context_revision r) (ts_contexts (wk_tasks W)) = Some x
            \<and> cx_content_hash x = digest (we_hash env) (dump_context_manifest m))"
proof -
  from assms obtain v s u t where
    c: "create_task_run (we_hash env) (wk_tasks W) c m investigation_role e (we_stream_name env) (Some i) None (Some rid)
      ''watch-wake-runtime'' (we_now env 3) rid (we_event_id env 0) = Inr (v, s)"
    and t: "transition_task_run s rid QUEUED (''watch-wake:'' @ tr) (''watch-wake-queued:'' @ tr) (we_stream_name env)
      ''watch-wake-runtime'' None None (we_now env 4) (we_event_id env 1) = Inr (u, t)"
    and X: "X = W\<lparr>wk_tasks := t\<rparr>"
    by (auto simp: queue_wake_def res_simps)
  from c obtain p s1 p' s2 crow xrow a where
    k: "persist_task_contract (we_hash env) (wk_tasks W) c (we_now env 3) = Inr (p, s1)"
      "persist_context_manifest (we_hash env) s1 m (we_now env 3) = Inr (p', s2)"
      "context_from_ref s2 (context_manifest_ref m) = Inr xrow"
    and f: "get_run s2 (resolved_run_id (Some rid) rid) = None"
    and a: "append_task_event (s2\<lparr>ts_runs := ts_runs s2 @
        [new_run_row crow xrow c m investigation_role e (Some i) None (resolved_run_id (Some rid) rid) (we_now env 3)]\<rparr>)
       (resolved_run_id (Some rid) rid) TASK_CREATED ''watch-wake-runtime'' (cm_context_revision m)
       (''task-run:'' @ resolved_run_id (Some rid) rid) (''task-created:'' @ resolved_run_id (Some rid) rid)
       (we_stream_name env) (we_now env 3) (we_event_id env 0) = Inr (a, s)"
    by (rule create_task_run_ok)
  have rid: "resolved_run_id (Some rid) rid = rid" by (simp add: resolved_run_id_def split: list.split)
  let ?r = "new_run_row crow xrow c m investigation_role e (Some i) None rid (we_now env 3)"
  have "get_run s rid = Some ?r"
    using append_task_event_tables(3) [OF a] f by (simp add: rid tab_simps new_run_row_def)
  from transition_run_rows(1) [OF t this, of rid]
  have "get_run (wk_tasks X) rid = Some (transitioned_row ?r QUEUED None None (we_now env 4))" by (simp add: X)
  moreover have "store_evolves (wk_tasks W) t"
    using store_evolves_create [OF c] store_evolves_transition [OF t] by (rule store_evolves_trans)
  moreover have "\<not> terminal_status QUEUED" by (simp add: terminal_task_run_statuses_def)
  moreover have "ts_contexts s1 = ts_contexts (wk_tasks W)" "ts_contexts t = ts_contexts s2"
    using persist_task_contract_ok [OF k(1)] append_task_event_tables(2) [OF a] t
    by (auto elim!: transition_task_run_ok dest!: append_task_event_tables(2))
  with persisted_context [OF k(2,3)] have "tab_get context_key (cm_context_id m, cm_context_revision m) (ts_contexts t) = Some xrow"
    "cx_manifest_json xrow = m \<or> tab_get context_key (cm_context_id m, cm_context_revision m) (ts_contexts (wk_tasks W)) = Some xrow
       \<and> cx_content_hash xrow = digest (we_hash env) (dump_context_manifest m)" by simp_all
  ultimately show ?thesis
    by (intro that [of "transitioned_row ?r QUEUED None None (we_now env 4)"])
      (simp_all add: transitioned_row_def new_run_row_def Let_def X)
qed

context watch_admission_port
begin

lemma spawn_evolves:
  assumes "spawn_for_world_change env admit W impact tr = Inr (X, r)"
  shows "store_evolves (wk_tasks W) (wk_tasks X)" "ww_case_id r = wi_case_id impact"
    "ww_disposition r \<in> {WAKE_QUEUED, WAKE_REPLAY} \<Longrightarrow>
      get_run (wk_tasks X) (watch_wake_run_id (we_hash env) (wi_case_id impact) tr) \<noteq> None"
proof -
  let ?rid = "watch_wake_run_id (we_hash env) (wi_case_id impact) tr"
  from assms have "store_evolves (wk_tasks W) (wk_tasks X) \<and> ww_case_id r = wi_case_id impact
    \<and> (ww_disposition r \<in> {WAKE_QUEUED, WAKE_REPLAY} \<longrightarrow> get_run (wk_tasks X) ?rid \<noteq> None)"
  proof (cases rule: spawn_cases)
    case quiet
    then show ?thesis by auto
  next
    case (queued template crow xrow q V a b e p cases st)
    have "wq_run_id q = ?rid" using queued(10) by simp
    with queued(17) have "\<exists>run. get_run (wk_tasks X) ?rid = Some run"
      and "store_evolves (wk_tasks (V\<lparr>wk_cases := cases\<rparr>)) (wk_tasks X)"
      by (auto elim: queue_wake_run)
    with tables_kept [OF queued(11)] queued(2) show ?thesis by simp
  qed
  then show "store_evolves (wk_tasks W) (wk_tasks X)" "ww_case_id r = wi_case_id impact"
    "ww_disposition r \<in> {WAKE_QUEUED, WAKE_REPLAY} \<Longrightarrow> get_run (wk_tasks X) ?rid \<noteq> None" by blast+
qed

lemma spawn_known:
  assumes "get_run (wk_tasks W) (watch_wake_run_id (we_hash env) (wi_case_id impact) tr) \<noteq> None"
    "spawn_for_world_change env admit W impact tr = Inr (X, r)"
  shows "X = W" "ww_disposition r \<in> {NOT_ACTIVATED, WAKE_REPLAY}"
proof -
  have "X = W \<and> ww_disposition r \<in> {NOT_ACTIVATED, WAKE_REPLAY}"
    using assms by (auto simp: spawn_for_world_change_def Let_def res_simps wake_outcome_def split: if_splits)
  then show "X = W" "ww_disposition r \<in> {NOT_ACTIVATED, WAKE_REPLAY}" by simp_all
qed

end

lemma get_run_evolves: "store_evolves s t \<Longrightarrow> get_run s rid \<noteq> None \<Longrightarrow> get_run t rid \<noteq> None"
  by (fastforce simp: store_evolves_def)

section \<open>The admission of the application\<close>

lemma watch_controls_tables:
  assumes "watch_controls env A W q dref = Inr T"
  shows "wk_tasks T = wk_tasks W" "wk_cases T = wk_cases W"
  using assms by (auto simp: watch_controls_def res_simps)

interpretation runtime: watch_admission_port "watch_admit env A" for env A
  by unfold_locales
    (auto simp: watch_admit_def watch_denied_def Let_def res_simps split: if_splits dest: watch_controls_tables)

text \<open>The two shapes a permit takes.\<close>

lemma watch_admit_allowed:
  assumes "watch_admit env A W q = Inr (V, a)" "wa_allowed a"
  obtains d where "pe_policy_revision (wm_policy A) = tc_policy_revision (wq_contract q)"
    "evaluate (wm_policy A) (watch_policy_request q) = Inr d"
    "pd_authorization d = PERMIT" "obligations_satisfied d (set (wm_fulfilled_obligation_kinds A))"
    "watch_controls env A W q (decision_ref (we_hash env) (we_show_time env) (wm_policy A) (watch_policy_request q) d) = Inr V"
    "wa_execution_envelope_ref a = Some (''execution:'' @ wq_run_id q)" "wa_budget_ref a = Some (''budget:'' @ wq_run_id q)"
    "wa_capability_envelope_ref a = Some (''capability:watch:'' @ wq_run_id q)"
proof -
  have v: "pq = watch_policy_request q" if "Policy_Engine.validate_request (watch_policy_request q) = Inr pq" for pq
    using that by (auto simp: Policy_Engine.validate_request_def watch_policy_request_def res_simps)
  show ?thesis
    using assms by (auto simp: watch_admit_def watch_denied_def Let_def res_simps split: if_splits dest!: v intro!: that)
qed

lemma validate_quantities_id: "validate_quantities l = Inr l' \<Longrightarrow> l' = l"
  by (induction l arbitrary: l' rule: validate_quantities.induct) (auto simp: res_simps)

lemma create_account_row:
  assumes "create_account E L i l t None now = Inr (v, M)"
  obtains a where "get_account M i = Some a" "ba_limits a = serialize_limits l" "ba_task_run_id a = t"
    "ba_parent_account_id a = None"
  using assms
  by (auto simp: create_account_def check_parent_account_def new_account_def Let_def res_simps tab_simps split: option.splits
      intro: that)

lemma create_execution_row:
  assumes "create_execution xs e now = Inr (v, ys)"
  obtains m where "get_exec ys (ee_execution_id e) = Some m" "xr_envelope_json m = e"
    "xr_task_run_id m = ee_task_run_id e \<or> get_exec xs (ee_execution_id e) = Some m"
  using assms by (auto simp: create_execution_def Let_def res_simps tab_simps split: option.splits intro: that)

lemma watch_controls_rows:
  assumes "watch_controls env A W q dref = Inr V"
  obtains b x acc m where "get_account (wk_budget W) (cm_budget_ref (wq_previous_context q)) = Some b"
    "get_execution (wk_executions W) (wq_template_execution_envelope_ref q) = Inr x"
    "get_account (wk_budget V) (''budget:'' @ wq_run_id q) = Some acc"
    "ba_limits acc = serialize_limits (ba_limits b)" "ba_task_run_id acc = Some (wq_run_id q)" "ba_parent_account_id acc = None"
    "get_exec (wk_executions V) (''execution:'' @ wq_run_id q) = Some m"
    "xr_envelope_json m = watch_envelope A (we_now env 1) q x dref"
    "xr_task_run_id m = wq_run_id q \<or> get_exec (wk_executions W) (''execution:'' @ wq_run_id q) = Some m"
proof -
  from assms obtain snap x l v bud e w ex where
    s: "snapshot (wk_budget W) (cm_budget_ref (wq_previous_context q)) = Inr snap"
    and x: "get_execution (wk_executions W) (wq_template_execution_envelope_ref q) = Inr x"
    and l: "validate_quantities (bs_limits snap) = Inr l"
    and b: "create_account (we_hash env) (wk_budget W) (''budget:'' @ wq_run_id q) l (Some (wq_run_id q)) None (we_now env 0)
        = Inr (v, bud)"
    and e: "validate_envelope (watch_envelope A (we_now env 1) q x dref) = Inr e"
    and c: "create_execution (wk_executions W) e (we_now env 2) = Inr (w, ex)"
    and V: "V = W\<lparr>wk_budget := bud, wk_executions := ex\<rparr>"
    by (auto simp: watch_controls_def res_simps)
  from s obtain b0 where b0: "get_account (wk_budget W) (cm_budget_ref (wq_previous_context q)) = Some b0"
    and l0: "bs_limits snap = ba_limits b0"
    by (auto simp: snapshot_def Let_def res_simps)
  have e': "e = watch_envelope A (we_now env 1) q x dref"
    using e by (auto simp: validate_envelope_def res_simps split: option.splits)
  have "l = ba_limits b0" using validate_quantities_id [OF l] l0 by simp
  with b have b': "create_account (we_hash env) (wk_budget W) (''budget:'' @ wq_run_id q) (ba_limits b0) (Some (wq_run_id q)) None
      (we_now env 0) = Inr (v, bud)" by simp
  obtain acc where acc: "get_account bud (''budget:'' @ wq_run_id q) = Some acc" "ba_limits acc = serialize_limits (ba_limits b0)"
    "ba_task_run_id acc = Some (wq_run_id q)" "ba_parent_account_id acc = None"
    using b' by (rule create_account_row)
  obtain m where m: "get_exec ex (ee_execution_id e) = Some m" "xr_envelope_json m = e"
    "xr_task_run_id m = ee_task_run_id e \<or> get_exec (wk_executions W) (ee_execution_id e) = Some m"
    using c by (rule create_execution_row)
  have "ee_execution_id e = ''execution:'' @ wq_run_id q" "ee_task_run_id e = wq_run_id q" by (simp_all add: e' watch_envelope_def)
  with acc m b0 x show ?thesis by (intro that [of b0 x acc m]) (simp_all add: V e')
qed

lemma wake_impacts_runs:
  assumes "wake_impacts envs (\<lambda>i. watch_admit (envs i) A) impacts tr W = Inr (X, rs)"
  shows "store_evolves (wk_tasks W) (wk_tasks X) \<and> (\<forall>r \<in> set rs. ww_disposition r \<in> {WAKE_QUEUED, WAKE_REPLAY} \<longrightarrow>
      get_run (wk_tasks X) (watch_wake_run_id (we_hash (envs (ww_case_id r))) (ww_case_id r) tr) \<noteq> None)"
  using assms
proof (induction impacts arbitrary: W rs)
  case (Cons m impacts)
  let ?a = "\<lambda>i. watch_admit (envs i) A"
  from Cons.prems obtain V r0 rs0 where
    s: "spawn_for_world_change (envs (wi_case_id m)) (?a (wi_case_id m)) W m tr = Inr (V, r0)"
    and w: "wake_impacts envs ?a impacts tr V = Inr (X, rs0)" and rs: "rs = r0 # rs0"
    by (auto simp: res_simps)
  note sp = runtime.spawn_evolves [OF s]
  note ih = Cons.IH [OF w]
  have "get_run (wk_tasks X) (watch_wake_run_id (we_hash (envs (ww_case_id r0))) (ww_case_id r0) tr) \<noteq> None"
    if "ww_disposition r0 \<in> {WAKE_QUEUED, WAKE_REPLAY}"
    using get_run_evolves [OF conjunct1 [OF ih] sp(3) [OF that]] unfolding sp(2) .
  with ih store_evolves_trans [OF sp(1)] rs show ?case by auto
qed auto

lemma wake_impacts_known:
  assumes "wake_impacts envs (\<lambda>i. watch_admit (envs i) A) impacts tr W = Inr (X, rs)"
    "get_run (wk_tasks W) (watch_wake_run_id (we_hash (envs i)) i tr) \<noteq> None" "r \<in> set rs" "ww_case_id r = i"
  shows "ww_disposition r \<in> {NOT_ACTIVATED, WAKE_REPLAY}"
  using assms
proof (induction impacts arbitrary: W rs)
  case (Cons m impacts)
  let ?a = "\<lambda>i. watch_admit (envs i) A"
  from Cons.prems(1) obtain V r0 rs0 where
    s: "spawn_for_world_change (envs (wi_case_id m)) (?a (wi_case_id m)) W m tr = Inr (V, r0)"
    and w: "wake_impacts envs ?a impacts tr V = Inr (X, rs0)" and rs: "rs = r0 # rs0"
    by (auto simp: res_simps)
  note sp = runtime.spawn_evolves [OF s]
  show ?case
  proof (cases "r = r0")
    case True
    with sp(2) Cons.prems(4) have "wi_case_id m = i" by simp
    with runtime.spawn_known(2) [OF _ s] Cons.prems(2) True show ?thesis by simp
  next
    case False
    with Cons.prems(3) rs have "r \<in> set rs0" by simp
    from Cons.IH [OF w get_run_evolves [OF sp(1) Cons.prems(2)] this Cons.prems(4)] show ?thesis .
  qed
qed simp

section \<open>Properties\<close>

text \<open>
  Claim C17: a change of the knowledge wakes the watch of a case at most once. The message that announces a change may be delivered
  again, with anything having happened to the tasks in between: for a case that the first delivery woke, a later delivery of
  the same revision queues no run.
\<close>

theorem watch_wake_once:
  assumes "knowledge_changed envs (\<lambda>i. watch_admit (envs i) A) kb b W change = Inr (V, rs)"
    "\<And>i. we_hash (envs i) = H" "\<And>i. we_hash (envs' i) = H"
    "(store_step H)\<^sup>*\<^sup>* (wk_tasks V) (wk_tasks X)"
    "knowledge_changed envs' (\<lambda>i. watch_admit (envs' i) A') kb' b' X change' = Inr (Y, rs')"
    "kc_revision change' = kc_revision change"
    "r \<in> set rs" "ww_disposition r \<in> {WAKE_QUEUED, WAKE_REPLAY}" "r' \<in> set rs'" "ww_case_id r' = ww_case_id r"
  shows "ww_disposition r' \<in> {NOT_ACTIVATED, WAKE_REPLAY}"
proof -
  let ?tr = "''knowledge-revision:'' @ show_nat (kc_revision change)"
    and ?rid = "watch_wake_run_id H (ww_case_id r) (''knowledge-revision:'' @ show_nat (kc_revision change))"
  from assms(1,7) obtain W1 impacts where "wake_impacts envs (\<lambda>i. watch_admit (envs i) A) impacts ?tr W1 = Inr (V, rs)"
    by (auto simp: knowledge_changed_def res_simps split: if_splits)
  from bspec [OF conjunct2 [OF wake_impacts_runs [OF this]] assms(7)] assms(8)
  have "get_run (wk_tasks V) ?rid \<noteq> None" unfolding assms(2) by blast
  then have known: "get_run (wk_tasks X) ?rid \<noteq> None" using get_run_evolves [OF store_steps_evolve [OF assms(4)]] by blast
  from assms(5,6,9) obtain cases impacts' where
    "wake_impacts envs' (\<lambda>i. watch_admit (envs' i) A') impacts' ?tr (X\<lparr>wk_cases := cases\<rparr>) = Inr (Y, rs')"
    by (auto simp: knowledge_changed_def res_simps split: if_splits)
  from wake_impacts_known [OF this _ assms(9,10)] known show ?thesis by (simp add: assms(3))
qed

text \<open>
  Claim C18: a watch is resumed only with permission: a run is queued for a case only if the last run that watched it ended
  waiting for the world, and the policy engine, which must be at the policy revision of that run's stored contract, permits the
  contract's principal to resume the watch of the case for this trigger, with every obligation fulfilled. The run is then for
  the case, under that contract, and not delegated. In every other outcome nothing is written.
\<close>

theorem watch_wake_gated:
  assumes "spawn_for_world_change env (watch_admit env A) W impact tr = Inr (X, r)"
  shows "if ww_disposition r = WAKE_QUEUED
    then (\<exists>template crow d rid run. watch_template (wk_tasks W) (wi_case_id impact) = Some template
      \<and> terminal_status (rr_status template) \<and> rr_stop_reason template = Some ''waiting_for_world_update''
      \<and> tab_get cr_task_contract_version_id (rr_task_contract_version_id template) (ts_contracts (wk_tasks W)) = Some crow
      \<and> pe_policy_revision (wm_policy A) = tc_policy_revision (cr_contract_json crow)
      \<and> rid = watch_wake_run_id (we_hash env) (wi_case_id impact) tr
      \<and> evaluate (wm_policy A) \<lparr>pq_decision_point = WATCH_RESUME, pq_principal = tc_principal (cr_contract_json crow),
          pq_action = ''resume_watch'', pq_resource = ''case:'' @ wi_case_id impact,
          pq_context = [(''task_contract_id'', JStr (tc_task_contract_id (cr_contract_json crow))),
            (''task_run_id'', JStr rid), (''case_id'', JStr (wi_case_id impact)),
            (''template_run_id'', JStr (rr_run_id template)), (''trigger_ref'', JStr tr),
            (''world_revision'', JInt (int (wi_world_revision impact)))]\<rparr> = Inr d
      \<and> pd_authorization d = PERMIT
      \<and> set (map po_kind (pd_obligations d)) \<subseteq> set (wm_fulfilled_obligation_kinds A)
      \<and> ww_run_id r = Some rid \<and> get_run (wk_tasks W) rid = None
      \<and> get_run (wk_tasks X) rid = Some run \<and> rr_status run = QUEUED
      \<and> rr_case_id run = Some (wi_case_id impact) \<and> rr_parent_run_id run = None
      \<and> rr_task_contract_id run = tc_task_contract_id (cr_contract_json crow)
      \<and> rr_task_contract_revision run = tc_contract_revision (cr_contract_json crow))
    else X = W"
  using assms
proof (cases rule: runtime.spawn_cases)
  case quiet
  then show ?thesis by simp
next
  case (queued template crow xrow q V a b e p cases st)
  from queued(11,12) obtain d where d: "pe_policy_revision (wm_policy A) = tc_policy_revision (wq_contract q)"
    "evaluate (wm_policy A) (watch_policy_request q) = Inr d" "pd_authorization d = PERMIT"
    "obligations_satisfied d (set (wm_fulfilled_obligation_kinds A))"
    by (rule watch_admit_allowed)
  from queued(17) obtain run where "get_run (wk_tasks X) (wq_run_id q) = Some run" "rr_status run = QUEUED"
    "rr_case_id run = Some (wi_case_id impact)"
    "rr_task_contract_id run = tc_task_contract_id (cr_contract_json crow)"
    "rr_task_contract_revision run = tc_contract_revision (cr_contract_json crow)" "rr_parent_run_id run = None"
    by (rule queue_wake_run)
  with d queued(1-8) show ?thesis
    by (simp add: queued(10) obligations_satisfied_def watch_policy_request_def)
qed

text \<open>
  Claim C19: a resumed watch gets no more than the run it resumes. The queued run is bound to an execution and, by its context, to a
  budget account, both of its own: the account has the limits of the account the earlier run used, and the envelope of the
  execution the capabilities, identities and restrictions of the earlier run's envelope, with a deadline one episode ahead and
  that account as its budget. A context or execution row that stands already under the new run's identifiers is taken over
  only if its content is the one described, the context by its hash.
\<close>

theorem watch_wake_attenuates:
  assumes "spawn_for_world_change env (watch_admit env A) W impact tr = Inr (X, r)" "ww_disposition r = WAKE_QUEUED"
    "watch_template (wk_tasks W) (wi_case_id impact) = Some template"
  shows "\<exists>rid run ctx manifest xrow account account' before after m. ww_run_id r = Some rid
    \<and> get_run (wk_tasks X) rid = Some run \<and> rr_execution_envelope_ref run = ''execution:'' @ rid
    \<and> tab_get context_key (rr_context_id run, rr_context_revision run) (ts_contexts (wk_tasks X)) = Some ctx
    \<and> rr_context_manifest_version_id run = cx_context_manifest_version_id ctx
    \<and> cm_budget_ref manifest = ''budget:'' @ rid \<and> cm_capability_envelope_ref manifest = ''capability:watch:'' @ rid
    \<and> (cx_manifest_json ctx = manifest
       \<or> tab_get context_key (rr_context_id run, rr_context_revision run) (ts_contexts (wk_tasks W)) = Some ctx
         \<and> cx_content_hash ctx = digest (we_hash env) (dump_context_manifest manifest))
    \<and> tab_get cx_context_manifest_version_id (rr_context_manifest_version_id template) (ts_contexts (wk_tasks W)) = Some xrow
    \<and> get_account (wk_budget W) (cm_budget_ref (cx_manifest_json xrow)) = Some account
    \<and> get_account (wk_budget X) (''budget:'' @ rid) = Some account'
    \<and> ba_limits account' = serialize_limits (ba_limits account) \<and> ba_parent_account_id account' = None
    \<and> ba_task_run_id account' = Some rid
    \<and> get_execution (wk_executions W) (rr_execution_envelope_ref template) = Inr before
    \<and> get_exec (wk_executions X) (''execution:'' @ rid) = Some m \<and> xr_envelope_json m = after
    \<and> (xr_task_run_id m = rid \<or> get_exec (wk_executions W) (''execution:'' @ rid) = Some m)
    \<and> ee_execution_id after = ''execution:'' @ rid \<and> ee_task_run_id after = rid
    \<and> ee_capability_scope after = ee_capability_scope before \<and> ee_identity_scope after = ee_identity_scope before
    \<and> ee_network_policy after = ee_network_policy before \<and> ee_side_effect_policy after = ee_side_effect_policy before
    \<and> ee_sandbox_profile_revision after = ee_sandbox_profile_revision before
    \<and> ee_deadline_at after = Aware (we_now env 1 + wm_episode_timeout_seconds A * 1000000)
    \<and> ee_budget_ref after = ''budget:'' @ rid"
  using assms(1)
proof (cases rule: runtime.spawn_cases)
  case quiet
  with assms(2) show ?thesis by simp
next
  case (queued t crow xrow q V a b e p cases st)
  from queued(11,12) obtain d where c: "watch_controls env A W q
      (decision_ref (we_hash env) (we_show_time env) (wm_policy A) (watch_policy_request q) d) = Inr V"
    and refs: "wa_execution_envelope_ref a = Some (''execution:'' @ wq_run_id q)" "wa_budget_ref a = Some (''budget:'' @ wq_run_id q)"
      "wa_capability_envelope_ref a = Some (''capability:watch:'' @ wq_run_id q)"
    by (rule watch_admit_allowed)
  let ?m = "wake_manifest (cx_manifest_json xrow) (wq_run_id q) (wi_case_id impact) (wi_world_revision impact) (is_case_revision st) p b"
  have V: "wk_tasks V = wk_tasks W" using runtime.tables_kept [OF queued(11)] by simp
  from queued(17) obtain run ctx where X: "X = V\<lparr>wk_cases := cases, wk_tasks := wk_tasks X\<rparr>"
    and run: "get_run (wk_tasks X) (wq_run_id q) = Some run" "rr_execution_envelope_ref run = e"
      "tab_get context_key (rr_context_id run, rr_context_revision run) (ts_contexts (wk_tasks X)) = Some ctx"
      "rr_context_manifest_version_id run = cx_context_manifest_version_id ctx"
      "cx_manifest_json ctx = ?m \<or> tab_get context_key (rr_context_id run, rr_context_revision run) (ts_contexts (wk_tasks W)) = Some ctx
         \<and> cx_content_hash ctx = digest (we_hash env) (dump_context_manifest ?m)"
    by (rule queue_wake_run) (auto simp: V)
  from c obtain acc x acc' m where
    "get_account (wk_budget W) (cm_budget_ref (wq_previous_context q)) = Some acc"
    "get_execution (wk_executions W) (wq_template_execution_envelope_ref q) = Inr x"
    "get_account (wk_budget V) (''budget:'' @ wq_run_id q) = Some acc'"
    "ba_limits acc' = serialize_limits (ba_limits acc)" "ba_task_run_id acc' = Some (wq_run_id q)" "ba_parent_account_id acc' = None"
    "get_exec (wk_executions V) (''execution:'' @ wq_run_id q) = Some m"
    "xr_envelope_json m = watch_envelope A (we_now env 1) q x
      (decision_ref (we_hash env) (we_show_time env) (wm_policy A) (watch_policy_request q) d)"
    "xr_task_run_id m = wq_run_id q \<or> get_exec (wk_executions W) (''execution:'' @ wq_run_id q) = Some m"
    by (rule watch_controls_rows)
  moreover have "wk_budget X = wk_budget V" "wk_executions X = wk_executions V" by (subst X, simp)+
  moreover have "t = template" using queued(4) assms(3) by simp
  moreover have "e = ''execution:'' @ wq_run_id q" "b = ''budget:'' @ wq_run_id q" "p = ''capability:watch:'' @ wq_run_id q"
    using refs queued(13-15) by simp_all
  ultimately show ?thesis using queued(3,9,10) run
    by (intro exI [of _ "wq_run_id q"] exI [of _ run] exI [of _ ctx] exI [of _ ?m] exI [of _ xrow] exI [of _ acc] exI [of _ acc']
        exI [of _ x] exI [of _ "xr_envelope_json m"] exI [of _ m]) (simp add: watch_envelope_def wake_manifest_def)
qed

section \<open>Lemmas on the sample watch\<close>

lemma sample_deliveries:
  "map_sum id (\<lambda>(rs, rs'). (map (\<lambda>r. (ww_case_id r, ww_disposition r)) rs, map (\<lambda>r. (ww_case_id r, ww_disposition r)) rs'))
     (res_bind (sample_delivery ''u'' sample_watch_world) (\<lambda>(V, rs).
      res_bind (sample_delivery ''v'' (sample_waiting_again V)) (\<lambda>(Y, rs'). Inr (rs, rs'))))
   = Inr ([(''c'', WAKE_QUEUED)], [(''c'', WAKE_REPLAY)])"
  by code_simp

lemma sample_spawned: "map_sum id (\<lambda>(X, r). ww_disposition r) sample_spawn = Inr WAKE_QUEUED"
  by code_simp

lemma sample_spawnedE:
  obtains X r where "sample_spawn = Inr (X, r)" "ww_disposition r = WAKE_QUEUED"
  using sample_spawned by (auto simp: map_sum_def split: sum.splits prod.splits)

lemma sample_watch_template:
  "map_option rr_run_id (watch_template (wk_tasks sample_active_world) (wi_case_id sample_impact)) = Some ''w''"
  by code_simp

text \<open>The witnesses.\<close>

theorem watch_wake_once_witness:
  "\<exists>V r Y r'. sample_delivery ''u'' sample_watch_world = Inr (V, [r]) \<and> ww_disposition r = WAKE_QUEUED
     \<and> sample_delivery ''v'' (sample_waiting_again V) = Inr (Y, [r']) \<and> ww_disposition r' \<in> {NOT_ACTIVATED, WAKE_REPLAY}"
proof -
  from sample_deliveries obtain V rs Y rs' where
    d: "sample_delivery ''u'' sample_watch_world = Inr (V, rs)" "sample_delivery ''v'' (sample_waiting_again V) = Inr (Y, rs')"
    and m: "map (\<lambda>r. (ww_case_id r, ww_disposition r)) rs = [(''c'', WAKE_QUEUED)]"
      "map (\<lambda>r. (ww_case_id r, ww_disposition r)) rs' = [(''c'', WAKE_REPLAY)]"
    by (auto simp: map_sum_def res_simps split: sum.splits prod.splits)
  from m obtain r r' where r: "rs = [r]" "rs' = [r']" "ww_case_id r = ''c''" "ww_case_id r' = ''c''" "ww_disposition r = WAKE_QUEUED"
    by auto
  have "(store_step sample_hash)\<^sup>*\<^sup>* (wk_tasks V) (wk_tasks (sample_waiting_again V))" by (simp add: sample_waiting_again_def)
  note once = watch_wake_once [OF d(1) [unfolded sample_delivery_def] _ _ this d(2) [unfolded sample_delivery_def] refl, of r r']
  have "ww_disposition r' \<in> {NOT_ACTIVATED, WAKE_REPLAY}"
    by (rule once) (simp_all add: r sample_wake_env_def)
  with d r show ?thesis by blast
qed

theorem watch_wake_gated_witness:
  "\<exists>X r template rid run. sample_spawn = Inr (X, r) \<and> ww_disposition r = WAKE_QUEUED
     \<and> watch_template (wk_tasks sample_active_world) (wi_case_id sample_impact) = Some template
     \<and> rr_stop_reason template = Some ''waiting_for_world_update''
     \<and> ww_run_id r = Some rid \<and> get_run (wk_tasks X) rid = Some run \<and> rr_status run = QUEUED"
proof -
  obtain X r where s: "sample_spawn = Inr (X, r)" "ww_disposition r = WAKE_QUEUED" by (rule sample_spawnedE)
  from watch_wake_gated [OF s(1) [unfolded sample_spawn_def], unfolded if_P [OF s(2)]] s show ?thesis by blast
qed

theorem watch_wake_attenuates_witness:
  "\<exists>X r run m. sample_spawn = Inr (X, r) \<and> ww_run_id r = Some run \<and> get_exec (wk_executions X) (''execution:'' @ run) = Some m
     \<and> ee_capability_scope (xr_envelope_json m) = [''search'']"
proof -
  obtain X r where s: "sample_spawn = Inr (X, r)" "ww_disposition r = WAKE_QUEUED" by (rule sample_spawnedE)
  from sample_watch_template obtain t where
    t: "watch_template (wk_tasks sample_active_world) (wi_case_id sample_impact) = Some t" by auto
  have e: "map_option (\<lambda>t. map_sum id ee_capability_scope (get_execution (wk_executions sample_active_world) (rr_execution_envelope_ref t)))
      (watch_template (wk_tasks sample_active_world) (wi_case_id sample_impact)) = Some (Inr [''search''])" by code_simp
  from watch_wake_attenuates [OF s(1) [unfolded sample_spawn_def] s(2) t] obtain run before m where
    "ww_run_id r = Some run" "get_execution (wk_executions sample_active_world) (rr_execution_envelope_ref t) = Inr before"
    "get_exec (wk_executions X) (''execution:'' @ run) = Some m"
    "ee_capability_scope (xr_envelope_json m) = ee_capability_scope before" by blast
  with e t s(1) show ?thesis by auto
qed

end
