(* ===== verification/Spec2Isabelle.thy ===== *)
theory Spec2Isabelle
  imports Task_Scheduler Execution_Runtime Budget_Governor Policy_Engine Capability_Broker
    Task_Context Sandbox_Broker Artifact_Store Task_Admission Event_Stream Open_Shell Watch_Wake
begin

text \<open>
  A verification library for the agent runtime of SecFusionAgent and the state of its investigations: the part of the program under
  \<^verbatim>\<open>packages/task_runtime\<close> and \<^verbatim>\<open>packages/runtime\<close> that decides which agent may run, what it may do,
  what it may spend and what is written down about it, and the part under \<^verbatim>\<open>packages/investigation\<close> that keeps what a case
  knows, and on which evidence. The agents themselves (prompts, models,
  sources, retrieval) call this runtime and are called by it; they are parameters here.

  \<^bold>\<open>The parts and how they interact.\<close>
  Admission turns an intent into a task contract, if the policy permits it. A task contract says
  what a task is for and what it may cause; a task run is one attempt at it, with a context manifest (what it may see) and an execution envelope (deadline, capabilities, identity).
  The task store keeps contracts, manifests, runs and their events, and writes an outbox row for
  each event. The scheduler reads events, wakes runs that wait for another run and
  dispatches queued runs to role handlers. While a run executes, its loop asks the loop gate before each
  iteration; each tool call goes through the capability broker, which consults the
  capability registry, the policy engine and the budget governor, calls the executor and records the
  outcome; programs run in sandboxes that the sandbox broker creates under a profile, and leave
  artifacts. A running task may create child runs, whose contract, envelope, context and budget are each cut out of its own. Recovery sweeps close what has been left behind.
  What the agents find about a case goes into the case as patches against a revision of it: each patch, decision, perception and
  evidence need becomes events of the case, from which its state is computed. A change of the knowledge
  store retracts the facts it makes stale and wakes the case; a watch that waited for it is resumed by a new task run, if the
  policy permits, with a budget and an execution envelope of its own.

  \<^bold>\<open>The theories, from the bottom up.\<close>
  \<^item> \<open>Runtime_Prelude\<close>: exceptions and the result type, JSON values, the string operations of Python that
    the code uses (\<^verbatim>\<open>strip\<close>, \<^verbatim>\<open>isdigit\<close>, \<^verbatim>\<open>int\<close>, \<^verbatim>\<open>rpartition\<close>, \<^verbatim>\<open>sorted(set(...))\<close>), keyed tables,
    and the interfaces: \<open>invariant_system\<close> (an invariant over a step relation), \<open>status_machine\<close>
    (a transition table with terminal states), \<open>stable_lookup\<close> (a lookup that, once defined, never
    changes) and \<open>spending_port\<close> (what a caller may rely on when it reserves and commits budget).
  \<^item> \<open>Task_Contracts\<close>: \<^verbatim>\<open>task_runtime/contracts\<close>. Contracts, runs, roles, events, the
    transition table of runs, conformance of a child contract, execution envelopes, dependency reasons.
    Lemmas: what each validator accepts, and that delegation and envelopes only attenuate.
  \<^item> \<open>Task_Store\<close>: \<^verbatim>\<open>task_runtime/storage\<close>. Five tables as a record of lists, one function per operation.
    Lemmas: the invariant \<open>store_inv\<close> over every operation, and that stores only grow
    (\<open>store_evolves\<close>).
  \<^item> \<open>Task_Scheduler\<close>: \<^verbatim>\<open>task_runtime/scheduler\<close>. Waking of waiting runs, dispatch to a handler.
  \<^item> \<open>Task_Context\<close>: \<^verbatim>\<open>task_runtime/context\<close>. Deriving, forking, filtering, refreshing, comparing and
    merging manifests, the revision gate, child runs and result envelopes.
  \<^item> \<open>Task_Admission\<close>: \<^verbatim>\<open>task_runtime/admission\<close>, the compilers of \<^verbatim>\<open>investigation/runtime\<close> and
    \<^verbatim>\<open>enrichment/runtime\<close>, and \<^verbatim>\<open>apps/task_admission.py\<close>. From an intent to a contract that the policy
    engine admits.
  \<^item> \<open>Execution_Runtime\<close>: \<^verbatim>\<open>runtime/execution\<close>. The bounded loop, the execution table, the
    two recovery sweeps over runs and executions.
  \<^item> \<open>Budget_Governor\<close>: \<^verbatim>\<open>runtime/budget\<close>. Accounts, reservations by request and dimension, commits,
    releases, child accounts. Lemmas: the invariant \<open>ledger_inv\<close>, conservation of what is
    reserved and committed, and the interpretation of \<open>spending_port\<close> for callers that do not overrun.
  \<^item> \<open>Policy_Engine\<close>: \<^verbatim>\<open>runtime/policy\<close>. Shell patterns, rule matching, deny-overrides combination.
  \<^item> \<open>Capability_Registry\<close>: \<^verbatim>\<open>runtime/capability/registry.py\<close> and the contracts it holds.
  \<^item> \<open>Capability_Broker\<close>: \<^verbatim>\<open>runtime/capability/broker.py\<close>. \<open>invoke\<close> from the replay of an earlier outcome to
    the settlement of the budget, over the registry, the policy engine and the budget governor.
  \<^item> \<open>Sandbox_Broker\<close>: \<^verbatim>\<open>runtime/sandbox/contracts.py\<close> and \<^verbatim>\<open>broker.py\<close>. Profiles, leases, instances and the
    operations run in them. Lemmas: the invariant \<open>sandbox_inv\<close> over every operation, and what stays of an
    instance and of a finished operation.
  \<^item> \<open>Artifact_Store\<close>: \<^verbatim>\<open>runtime/artifacts/service.py\<close> over the interface \<open>blob_port\<close>, whose lemmas are proved
    once for any blob store and used for the store in memory.
  \<^item> \<open>Event_Stream\<close>: \<^verbatim>\<open>task_runtime/events/redis_stream.py\<close> and the two ticks of \<^verbatim>\<open>apps/worker\<close>. The
    dispatcher publishes due outbox rows to the stream, the scheduler tick recovers queued runs, reads
    messages of its consumer group, wakes parents and sends role tasks. Lemmas: the invariant of the
    outbox over \<open>bus_step\<close>, that an event is delivered before it is marked so, and that ticks drain the outbox.
  \<^item> \<open>Open_Shell\<close>: \<^verbatim>\<open>runtime/sandbox/programs.py\<close> and \<^verbatim>\<open>openshell.py\<close>. Programs resolved to argument vectors, and the backend
    that turns sandbox operations into command lines. Lemmas: the exact
    argument vector of a run, that names and paths stay inside their directories, cleanup after a failed creation.
  \<^item> \<open>Evidence_Support\<close>: \<^verbatim>\<open>intelligence/retrieval/validation.py\<close>. What evidence references stand for in the knowledge store.
  \<^item> \<open>Case_Contracts\<close>: \<^verbatim>\<open>investigation/state/contracts.py\<close> and the rows of \<^verbatim>\<open>investigation/storage/models.py\<close>.
  \<^item> \<open>Investigation_State\<close>: \<^verbatim>\<open>investigation/state/service.py\<close>. The replay of events, the stored projection, the state at a revision, and
    the operations that write events. Lemmas: the invariant \<open>state_inv\<close> over every operation, which ties the case
    row, the history, the needs and the projection together; that stores only grow (\<open>store_grows\<close>); and what a history reads as.
  \<^item> \<open>Case_Runtime\<close>: \<^verbatim>\<open>investigation/cases\<close>, \<^verbatim>\<open>investigation/trajectory\<close> and \<^verbatim>\<open>world_change.py\<close>,
    \<^verbatim>\<open>continuation.py\<close>, \<^verbatim>\<open>snapshot.py\<close> of \<^verbatim>\<open>investigation/state\<close>. The operations as steps \<open>case_step\<close>, over which
    \<open>invariant_system\<close> and \<open>stable_lookup\<close> are interpreted.
  \<^item> \<open>Case_Properties\<close>: the properties of cases over the runs of \<open>case_step\<close>.
  \<^item> \<open>Watch_Wake\<close>: \<^verbatim>\<open>investigation/runtime/watch.py\<close>, \<^verbatim>\<open>apps/watch_runtime.py\<close> and the call of both in
    \<^verbatim>\<open>apps/worker/tasks.py\<close>. Its state is the product of the tables of tasks, cases, budget and executions; waking is proved over
    the interface \<open>watch_admission_port\<close>, which the admission of the application is shown to satisfy.

  \<^bold>\<open>How the code is translated.\<close>
  A pydantic model or a table row is a record, with a prefix for its fields; a string enum is a datatype with its
  \<^verbatim>\<open>_value\<close> function; a validator is a function into \<open>'a res\<close>, where \<open>Inl\<close> is the exception raised.
  A function that uses the session takes the tables and returns them with its
  result; it runs in its caller's transaction, so on \<open>Inl\<close> the tables are those from before the call. Where the
  code catches an exception and goes on, the model does so on the tables the code has at that
  moment. The instant of a call, the identifiers that \<^verbatim>\<open>uuid4()\<close> would draw, digests, role handlers,
  tool executors, sandbox backends, blob stores, the Redis client, the Celery sender and the
  command runner are arguments. Counters and quantities are Python's unbounded integers;
  those that validation keeps nonnegative are natural numbers; amounts are rationals, so the rounding of the stored ones
  to \<^verbatim>\<open>Numeric(24, 6)\<close> is the identity, and limits that the code compares by the text of their
  \<^verbatim>\<open>Decimal\<close> are compared by value. An operation that raises after it has flushed rows leaves them to a caller that
  catches the exception and commits: \<^verbatim>\<open>SandboxBroker.exec\<close> flushes an audit row \<^verbatim>\<open>running\<close> before it calls
  the backend, and \<open>exec_sandbox\<close>, like every operation, describes the caller that rolls back. In \<open>case_step\<close> a case is created without a
  knowledge revision or at one that is not negative, and a perception is recorded at one that is not negative; what happens
  otherwise is part of \<open>state_reads_total\<close>. Sessions are serialised: an operation
  under \<^verbatim>\<open>with_for_update\<close> or a unique key sees the tables its predecessor left, so interleavings are
  sequences of operations, which is what the step relations \<open>store_step\<close>, \<open>ledger_step\<close>,
  \<open>broker_step\<close>, \<open>audit_step\<close>, \<open>execution_step\<close>, \<open>sandbox_step\<close>, \<open>artifact_step\<close>, \<open>bus_step\<close> and \<open>case_step\<close> range over. Foreign keys and column widths are not modelled.

  \<^bold>\<open>Termination.\<close>
  Every function but one is total and none has fuel. The exception is \<open>await_deleted\<close>, the polling loop of the
  sandbox backend, a partial function into \<open>option\<close> where \<open>None\<close> is not to return; that
  it returns is proved for a clock that advances. The other loops of the code that are not over a
  given list have a measure: the climb to the root of a run counts down the runs not yet seen,
  the matcher of shell patterns counts down pattern and text, \<open>py_split\<close> counts down the text. That the bounded
  loop of an agent stops is a property of the loop gate, proved over its traces.

  \<^bold>\<open>What the properties show.\<close>
  Safety of the record: the history of tasks, events, executions and invocations is append-only and
  sequence numbers have no gap. Exactly-once: appends, claims, wake-ups, reservations and
  capability calls with the same key have one effect. Attenuation: contracts, envelopes, contexts and child budgets
  only narrow on the way down. Conservation: no account is overdrawn through the operations that do
  not ask for an overrun. Gating: no task is admitted, no tool runs and no sandbox comes up without permission; a policy without an
  applicable permit denies. Delivery: an outbox row is marked
  delivered only after it is in the stream, in the order of the events. Cases: the history of a case has no gap, a state of the past never changes, the stored state is the
  replay of the history, a fact has one standing and a confirmed one cites evidence, a patch is applied once and against the current
  revision, a closed case stays as it is, and a knowledge change leaves no stale fact confirmed in the cases it is routed to and wakes the watch of a case at most once, only with permission. Confinement: command lines name only the sandbox, the program and
  the paths the caller was granted. Progress: a finished child wakes its waiting parent, repeated ticks empty the outbox, the bounded loop and
  the polling loop stop, the sweeps close what is overdue and nothing else. Some properties record where the code
  departs from what it means to do; their text says so.

  \<^bold>\<open>Not modelled.\<close>
  The HTTP application, the command line and the database are I/O. The
  materialiser of contexts reads the knowledge store through SQL. Model and retrieval calls, the planning of perceptions, experiences, skills and the
  replay of past investigations, enrichment, monitoring, reports, evaluation and the scripts are callers or providers outside this runtime. Database
  migrations are generated. The parser of intents is a set of regular expressions. Strings are sequences of the code points
  0 to 255, so the laws of upper and lower case beyond that range play no part.
\<close>

end
